(* ===== verification/Doca_Prelude.thy ===== *)
theory Doca_Prelude
  imports Main "HOL-Library.Word" "HOL-Library.Monad_Syntax"
begin

text \<open>
  Shared material of the development: the machine-integer types of the C sources, the part of
  the SDK's \<open>doca_error_t\<close> enumeration that the modelled code returns, and bounded reads of a
  packet buffer.

  Conventions used by every theory.
  \<^item> A computation of type \<open>'a option\<close> is C code that may go wrong: \<open>None\<close> is a read outside the
    buffer, a failed \<open>assert\<close>, or a loop that does not return.  A theorem that such a
    computation is \<open>Some\<close> is a safety (and termination) theorem.
  \<^item> A C function that fills an output structure and returns an error code is modelled by a
    function that returns the pair of the code and the structure as it was left, so the
    partial writes of the error paths are visible.
  \<^item> A pointer into a packet is an offset (\<^typ>\<open>nat\<close>) from the start of the buffer, a NULL-able
    one an \<^typ>\<open>nat option\<close>; \<open>data_end\<close> is the length of the buffer.
  \<^item> A field in network byte order is represented by the number it encodes.
\<close>

unbundle bit_operations_syntax

section \<open>Machine integers and error codes\<close>

type_synonym u8 = "8 word"
type_synonym u16 = "16 word"
type_synonym u32 = "32 word"
type_synonym u64 = "64 word"

type_synonym bytes = "u8 list"

datatype doca_error_t =
    DOCA_SUCCESS
  | DOCA_ERROR_UNKNOWN
  | DOCA_ERROR_UNEXPECTED
  | DOCA_ERROR_INVALID_VALUE
  | DOCA_ERROR_NO_MEMORY
  | DOCA_ERROR_NOT_FOUND
  | DOCA_ERROR_NOT_SUPPORTED
  | DOCA_ERROR_ALREADY_EXIST
  | DOCA_ERROR_FULL
  | DOCA_ERROR_AGAIN
  | DOCA_ERROR_IO_FAILED
  | DOCA_ERROR_DRIVER

named_theorems rd_simps \<open>evaluation of in-range buffer reads\<close>
named_theorems parser_defs \<open>definitions of the packet parsers\<close>
named_theorems frame_simps \<open>fields a state update leaves alone\<close>

section \<open>Buffer reads\<close>

definition rd8 :: "bytes \<Rightarrow> nat \<Rightarrow> u8 option" where
  "rd8 b i = (if i < length b then Some (b ! i) else None)"

definition be16 :: "u8 \<Rightarrow> u8 \<Rightarrow> u16" where
  "be16 hi lo = push_bit 8 (ucast hi) OR ucast lo"

definition be32 :: "u8 \<Rightarrow> u8 \<Rightarrow> u8 \<Rightarrow> u8 \<Rightarrow> u32" where
  "be32 b3 b2 b1 b0 =
     push_bit 24 (ucast b3) OR push_bit 16 (ucast b2) OR push_bit 8 (ucast b1) OR ucast b0"

definition rd16be :: "bytes \<Rightarrow> nat \<Rightarrow> u16 option" where
  "rd16be b i = do { hi \<leftarrow> rd8 b i; lo \<leftarrow> rd8 b (i + 1); Some (be16 hi lo) }"

definition rd32be :: "bytes \<Rightarrow> nat \<Rightarrow> u32 option" where
  "rd32be b i = do {
     b3 \<leftarrow> rd8 b i; b2 \<leftarrow> rd8 b (i + 1); b1 \<leftarrow> rd8 b (i + 2); b0 \<leftarrow> rd8 b (i + 3);
     Some (be32 b3 b2 b1 b0) }"

text \<open>A read of \<open>n\<close> consecutive bytes (the source of a \<open>memcpy\<close>).\<close>

definition rd_bytes :: "bytes \<Rightarrow> nat \<Rightarrow> nat \<Rightarrow> bytes option" where
  "rd_bytes b i n = (if i + n \<le> length b then Some (take n (drop i b)) else None)"

lemma rd8_in [simp, rd_simps]: "i < length b \<Longrightarrow> rd8 b i = Some (b ! i)"
  by (simp add: rd8_def)

lemma rd8_out: "rd8 b i = None \<longleftrightarrow> length b \<le> i"
  by (simp add: rd8_def not_less)

lemma rd16be_in [rd_simps]:
  "i + 2 \<le> length b \<Longrightarrow> rd16be b i = Some (be16 (b ! i) (b ! (i + 1)))"
  by (simp add: rd16be_def)

lemma rd32be_in [rd_simps]:
  "i + 4 \<le> length b \<Longrightarrow>
   rd32be b i = Some (be32 (b ! i) (b ! (i + 1)) (b ! (i + 2)) (b ! (i + 3)))"
  by (simp add: rd32be_def)

lemma rd_bytes_in [rd_simps]: "i + n \<le> length b \<Longrightarrow> rd_bytes b i n = Some (take n (drop i b))"
  by (simp add: rd_bytes_def)

lemma rd8_drop: "i \<le> length b \<Longrightarrow> rd8 (drop i b) j = rd8 b (i + j)"
  by (simp add: rd8_def) linarith

text \<open>A write to an array: an index behind its end is a failure, not a no-op.\<close>

definition wr_at :: "'a list \<Rightarrow> nat \<Rightarrow> 'a \<Rightarrow> 'a list option" where
  "wr_at xs i v = (if i < length xs then Some (xs[i := v]) else None)"

lemma wr_at_in [simp, rd_simps]: "i < length xs \<Longrightarrow> wr_at xs i v = Some (xs[i := v])"
  by (simp add: wr_at_def)

lemma wr_at_Some: "wr_at xs i v = Some ys \<longleftrightarrow> i < length xs \<and> ys = xs[i := v]"
  by (auto simp: wr_at_def)

section \<open>Generic facts\<close>

lemma Some_bind_iff: "(do { x \<leftarrow> m; f x }) = Some y \<longleftrightarrow> (\<exists>x. m = Some x \<and> f x = Some y)"
  by (rule bind_eq_Some_conv)

text \<open>Inversion of the early-return idiom \<open>if (ret != DOCA_SUCCESS) return ret;\<close>.\<close>

named_theorems success_simps \<open>inversion of a successful run of a chain of checked calls\<close>

lemma early_return_success [success_simps]:
  "(if ret \<noteq> DOCA_SUCCESS then Some (ret, x) else m) = Some (DOCA_SUCCESS, y) \<longleftrightarrow>
   ret = DOCA_SUCCESS \<and> m = Some (DOCA_SUCCESS, y)"
  "(if ret = DOCA_SUCCESS then m else Some (ret, x)) = Some (DOCA_SUCCESS, y) \<longleftrightarrow>
   ret = DOCA_SUCCESS \<and> m = Some (DOCA_SUCCESS, y)"
  by auto

lemma error_branch_success [success_simps]:
  "e \<noteq> DOCA_SUCCESS \<Longrightarrow>
   (if P then Some (e, x) else m) = Some (DOCA_SUCCESS, y) \<longleftrightarrow> \<not> P \<and> m = Some (DOCA_SUCCESS, y)"
  "e \<noteq> DOCA_SUCCESS \<Longrightarrow>
   (if P then m else Some (e, x)) = Some (DOCA_SUCCESS, y) \<longleftrightarrow> P \<and> m = Some (DOCA_SUCCESS, y)"
  by auto

declare Some_bind_iff [success_simps]

lemma word8_and_le: "unat (x AND (m :: 'a::len word)) \<le> unat m"
  using word_and_le1 [of x m] by (simp add: word_le_nat_alt)

lemma find_Some_first:
  "find P xs = Some x \<Longrightarrow> \<exists>i < length xs. xs ! i = x \<and> P x \<and> (\<forall>j < i. \<not> P (xs ! j))"
  by (auto simp: find_Some_iff)

section \<open>Verification conditions for option computations\<close>

text \<open>\<open>ensures m Q\<close>: if \<open>m\<close> returns, its result satisfies \<open>Q\<close>.  The rules \<open>vc\<close> walk through a computation;
  a call of an operation is discharged with its own \<open>ensures\<close> lemma by \<open>ensures_call\<close>.\<close>

definition ensures :: "'a option \<Rightarrow> ('a \<Rightarrow> bool) \<Rightarrow> bool" where
  "ensures m Q \<longleftrightarrow> (\<forall>x. m = Some x \<longrightarrow> Q x)"

named_theorems vc \<open>structural rules for ensures\<close>

lemma ensuresI: "(\<And>x. m = Some x \<Longrightarrow> Q x) \<Longrightarrow> ensures m Q"
  by (simp add: ensures_def)

lemma ensuresD: "ensures m Q \<Longrightarrow> m = Some x \<Longrightarrow> Q x"
  by (simp add: ensures_def)

lemma ensures_call: "ensures m P \<Longrightarrow> (\<And>x. P x \<Longrightarrow> Q x) \<Longrightarrow> ensures m Q"
  by (simp add: ensures_def)

lemma ensures_Some [vc]: "Q x \<Longrightarrow> ensures (Some x) Q"
  by (simp add: ensures_def)

lemma ensures_None [vc]: "ensures None Q"
  by (simp add: ensures_def)

lemma ensures_bind [vc]: "ensures m (\<lambda>x. ensures (f x) Q) \<Longrightarrow> ensures (do { x \<leftarrow> m; f x }) Q"
  by (auto simp: ensures_def Some_bind_iff)

lemma ensures_if [vc]:
  "(b \<Longrightarrow> ensures m Q) \<Longrightarrow> (\<not> b \<Longrightarrow> ensures n Q) \<Longrightarrow> ensures (if b then m else n) Q"
  by simp

lemma ensures_let [vc]: "(\<And>x. x = t \<Longrightarrow> ensures (f x) Q) \<Longrightarrow> ensures (let x = t in f x) Q"
  by simp

lemma ensures_prod [vc]:
  "(\<And>a b. p = (a, b) \<Longrightarrow> ensures (f a b) Q) \<Longrightarrow> ensures (case p of (a, b) \<Rightarrow> f a b) Q"
  by (cases p) simp

lemma ensures_option [vc]:
  "(x = None \<Longrightarrow> ensures m Q) \<Longrightarrow> (\<And>y. x = Some y \<Longrightarrow> ensures (f y) Q) \<Longrightarrow>
   ensures (case x of None \<Rightarrow> m | Some y \<Rightarrow> f y) Q"
  by (cases x) simp_all

text \<open>\<open>returns m Q\<close>: \<open>m\<close> does return, and its result satisfies \<open>Q\<close>.\<close>

definition returns :: "'a option \<Rightarrow> ('a \<Rightarrow> bool) \<Rightarrow> bool" where
  "returns m Q \<longleftrightarrow> (\<exists>x. m = Some x \<and> Q x)"

end
