(* ===== verification/Pack.thy ===== *)
theory Pack
  imports Doca_Prelude
begin

text \<open>
  Model of \<open>applications/common/pack.c\<close>: big-endian serialisation into a work buffer through a
  moving write head, and the matching reads.  The pair of the buffer and the head position
  stands for the \<open>uint8_t **buffer\<close> argument; a write or read past the end of the buffer is
  \<open>None\<close>.

  The locale \<open>byte_codec\<close> is the contract a client of the file relies on: \<open>enc\<close> writes exactly
  the bytes \<open>image v\<close> at the head, \<open>dec\<close> reads them back.  It is interpreted for the four
  integer widths and for blobs, and gives each of them the round trip, the frame and the
  injectivity facts.
\<close>

type_synonym wbuf = "bytes \<times> nat"

section \<open>The code\<close>

definition get_byte :: "'a::len word \<Rightarrow> nat \<Rightarrow> u8" where
  "get_byte v n = ucast (drop_bit (n * 8) v AND 0xFF)"

definition set_byte :: "'a::len word \<Rightarrow> nat \<Rightarrow> 'a word" where
  "set_byte v n = push_bit (n * 8) (v AND 0xFF)"

definition ntohq :: "bool \<Rightarrow> u64 \<Rightarrow> u64" where
  "ntohq big_endian value =
     (if big_endian then value
      else set_byte (ucast (get_byte value 0)) 7 OR set_byte (ucast (get_byte value 1)) 6 OR
           set_byte (ucast (get_byte value 2)) 5 OR set_byte (ucast (get_byte value 3)) 4 OR
           set_byte (ucast (get_byte value 4)) 3 OR set_byte (ucast (get_byte value 5)) 2 OR
           set_byte (ucast (get_byte value 6)) 1 OR set_byte (ucast (get_byte value 7)) 0)"

text \<open>The idiom \<open>*write_head++ = x\<close> and \<open>*read_head++\<close>.\<close>

fun put_byte :: "u8 \<Rightarrow> wbuf \<Rightarrow> wbuf option" where
  "put_byte x (m, h) = (if h < length m then Some (m[h := x], h + 1) else None)"

fun take_byte :: "wbuf \<Rightarrow> (u8 \<times> wbuf) option" where
  "take_byte (m, h) = (if h < length m then Some (m ! h, (m, h + 1)) else None)"

definition pack_uint8 :: "wbuf \<Rightarrow> u8 \<Rightarrow> wbuf option" where
  "pack_uint8 buf value = put_byte value buf"

definition pack_uint16 :: "wbuf \<Rightarrow> u16 \<Rightarrow> wbuf option" where
  "pack_uint16 buf value = do {
     w \<leftarrow> put_byte (get_byte value 1) buf;
     put_byte (get_byte value 0) w }"

definition pack_uint32 :: "wbuf \<Rightarrow> u32 \<Rightarrow> wbuf option" where
  "pack_uint32 buf value = do {
     w \<leftarrow> put_byte (get_byte value 3) buf;
     w \<leftarrow> put_byte (get_byte value 2) w;
     w \<leftarrow> put_byte (get_byte value 1) w;
     put_byte (get_byte value 0) w }"

definition pack_uint64 :: "wbuf \<Rightarrow> u64 \<Rightarrow> wbuf option" where
  "pack_uint64 buf value = do {
     w \<leftarrow> put_byte (get_byte value 7) buf;
     w \<leftarrow> put_byte (get_byte value 6) w;
     w \<leftarrow> put_byte (get_byte value 5) w;
     w \<leftarrow> put_byte (get_byte value 4) w;
     w \<leftarrow> put_byte (get_byte value 3) w;
     w \<leftarrow> put_byte (get_byte value 2) w;
     w \<leftarrow> put_byte (get_byte value 1) w;
     put_byte (get_byte value 0) w }"

text \<open>\<open>memcpy\<close> of \<open>len\<close> bytes of \<open>object\<close>; a source shorter than \<open>len\<close> is an over-read.\<close>

fun pack_blob :: "wbuf \<Rightarrow> nat \<Rightarrow> bytes \<Rightarrow> wbuf option" where
  "pack_blob (m, h) len object =
     (if len \<le> length object \<and> h + len \<le> length m
      then Some (take h m @ take len object @ drop (h + len) m, h + len) else None)"

definition unpack_uint8 :: "wbuf \<Rightarrow> (u8 \<times> wbuf) option" where
  "unpack_uint8 buf = take_byte buf"

definition unpack_uint16 :: "wbuf \<Rightarrow> (u16 \<times> wbuf) option" where
  "unpack_uint16 buf = do {
     (x1, r) \<leftarrow> take_byte buf;
     (x0, r) \<leftarrow> take_byte r;
     Some ((0 OR set_byte (ucast x1) 1) OR set_byte (ucast x0) 0, r) }"

definition unpack_uint32 :: "wbuf \<Rightarrow> (u32 \<times> wbuf) option" where
  "unpack_uint32 buf = do {
     (x3, r) \<leftarrow> take_byte buf;
     (x2, r) \<leftarrow> take_byte r;
     (x1, r) \<leftarrow> take_byte r;
     (x0, r) \<leftarrow> take_byte r;
     Some ((((0 OR set_byte (ucast x3) 3) OR set_byte (ucast x2) 2) OR
             set_byte (ucast x1) 1) OR set_byte (ucast x0) 0, r) }"

definition unpack_uint64 :: "wbuf \<Rightarrow> (u64 \<times> wbuf) option" where
  "unpack_uint64 buf = do {
     (x7, r) \<leftarrow> take_byte buf;
     (x6, r) \<leftarrow> take_byte r;
     (x5, r) \<leftarrow> take_byte r;
     (x4, r) \<leftarrow> take_byte r;
     (x3, r) \<leftarrow> take_byte r;
     (x2, r) \<leftarrow> take_byte r;
     (x1, r) \<leftarrow> take_byte r;
     (x0, r) \<leftarrow> take_byte r;
     Some ((((((((0 OR set_byte (ucast x7) 7) OR set_byte (ucast x6) 6) OR
             set_byte (ucast x5) 5) OR set_byte (ucast x4) 4) OR set_byte (ucast x3) 3) OR
             set_byte (ucast x2) 2) OR set_byte (ucast x1) 1) OR set_byte (ucast x0) 0, r) }"

fun unpack_blob :: "wbuf \<Rightarrow> nat \<Rightarrow> (bytes \<times> wbuf) option" where
  "unpack_blob (m, h) len =
     (if h + len \<le> length m then Some (take len (drop h m), (m, h + len)) else None)"

section \<open>Bytes of a word\<close>

lemma ff_mask: "(0xFF :: 'a::len word) = mask 8"
  by (simp add: mask_eq_decr_exp)

lemma bit_get_byte: "bit (get_byte v k) n \<longleftrightarrow> n < 8 \<and> bit v (k * 8 + n)"
  for v :: "'a::len word"
  unfolding get_byte_def ff_mask
  by (auto simp: bit_simps ac_simps dest: bit_imp_le_length)

lemma bit_set_get_byte:
  fixes v :: "'a::len word"
  assumes "k * 8 + 8 \<le> LENGTH('b)"
  shows "bit (set_byte (ucast (get_byte v j) :: 'b::len word) k) n \<longleftrightarrow>
         k * 8 \<le> n \<and> n < k * 8 + 8 \<and> bit v (j * 8 + (n - k * 8))"
  unfolding set_byte_def ff_mask
  using assms by (auto simp: bit_simps bit_get_byte)

lemma bit_set_get_same:
  fixes v :: "'a::len word"
  assumes "k * 8 + 8 \<le> LENGTH('b)"
  shows "bit (set_byte (ucast (get_byte v k) :: 'b::len word) k) n \<longleftrightarrow> n div 8 = k \<and> bit v n"
proof -
  have "k * 8 \<le> n \<and> n < k * 8 + 8 \<longleftrightarrow> n div 8 = k" by linarith
  then show ?thesis using bit_set_get_byte [OF assms, of v k n] by auto
qed

lemma word16_of_bytes:
  fixes v :: u16
  shows "(0 OR set_byte (ucast (get_byte v 1)) 1) OR set_byte (ucast (get_byte v 0)) 0 = v"
    (is "?w = v")
proof (rule bit_word_eqI)
  fix n assume "n < LENGTH(16)"
  then have "n div 8 = 1 \<or> n div 8 = 0"
    by simp linarith
  then show "bit ?w n = bit v n"
    by (elim disjE) (simp_all add: bit_or_iff bit_set_get_same)
qed

lemma word32_of_bytes:
  fixes v :: u32
  shows "(((0 OR set_byte (ucast (get_byte v 3)) 3) OR set_byte (ucast (get_byte v 2)) 2) OR
     set_byte (ucast (get_byte v 1)) 1) OR set_byte (ucast (get_byte v 0)) 0 = v"
    (is "?w = v")
proof (rule bit_word_eqI)
  fix n assume "n < LENGTH(32)"
  then have "n div 8 = 3 \<or> n div 8 = 2 \<or> n div 8 = 1 \<or> n div 8 = 0"
    by simp linarith
  then show "bit ?w n = bit v n"
    by (elim disjE) (simp_all add: bit_or_iff bit_set_get_same)
qed

lemma word64_of_bytes:
  fixes v :: u64
  shows "(((((((0 OR set_byte (ucast (get_byte v 7)) 7) OR set_byte (ucast (get_byte v 6)) 6) OR
     set_byte (ucast (get_byte v 5)) 5) OR set_byte (ucast (get_byte v 4)) 4) OR
     set_byte (ucast (get_byte v 3)) 3) OR set_byte (ucast (get_byte v 2)) 2) OR
     set_byte (ucast (get_byte v 1)) 1) OR set_byte (ucast (get_byte v 0)) 0 = v"
    (is "?w = v")
proof (rule bit_word_eqI)
  fix n assume "n < LENGTH(64)"
  then have "n div 8 = 7 \<or> n div 8 = 6 \<or> n div 8 = 5 \<or> n div 8 = 4 \<or>
    n div 8 = 3 \<or> n div 8 = 2 \<or> n div 8 = 1 \<or> n div 8 = 0"
    by simp linarith
  then show "bit ?w n = bit v n"
    by (elim disjE) (simp_all add: bit_or_iff bit_set_get_same)
qed

section \<open>The codec contract\<close>

text \<open>
  \<open>enc\<close> overwrites \<open>width\<close> bytes at the head with \<open>image v\<close> and nothing else, or fails when they
  do not fit; \<open>dec\<close> reads a value from any buffer that holds its image at the head.
\<close>

locale byte_codec =
  fixes enc :: "wbuf \<Rightarrow> 'v \<Rightarrow> wbuf option"
    and dec :: "wbuf \<Rightarrow> ('v \<times> wbuf) option"
    and image :: "'v \<Rightarrow> bytes"
    and width :: nat
  assumes image_length: "length (image v) = width"
    and enc_spec: "enc (m, h) v =
          (if h + width \<le> length m
           then Some (take h m @ image v @ drop (h + width) m, h + width) else None)"
    and dec_spec: "h + width \<le> length m \<Longrightarrow> take width (drop h m) = image v \<Longrightarrow>
          dec (m, h) = Some (v, (m, h + width))"
begin

lemma enc_fits: "enc (m, h) v \<noteq> None \<longleftrightarrow> h + width \<le> length m"
  by (simp add: enc_spec)

lemma enc_frame:
  assumes "enc (m, h) v = Some (m', h')"
  shows "length m' = length m \<and> h' = h + width \<and> take h m' = take h m \<and> drop h' m' = drop h' m"
  using assms by (auto simp: enc_spec image_length split: if_splits)

lemma enc_image:
  assumes "enc (m, h) v = Some (m', h')"
  shows "take width (drop h m') = image v"
  using assms by (auto simp: enc_spec image_length split: if_splits)

lemma dec_enc:
  assumes "enc (m, h) v = Some (m', h')"
  shows "dec (m', h) = Some (v, (m', h'))"
proof -
  have "h + width \<le> length m" using assms by (simp add: enc_spec split: if_splits)
  then show ?thesis
    using enc_frame [OF assms] enc_image [OF assms] dec_spec [of h m' v] by simp
qed

lemma dec_enc_later:
  assumes "enc (m, h) v = Some (m', h')" and "take h' m'' = take h' m'" and "length m'' = length m'"
  shows "dec (m'', h) = Some (v, (m'', h'))"
proof -
  have len: "h + width \<le> length m''" and h': "h' = h + width"
    using assms enc_frame [OF assms(1)] by (auto simp: enc_spec split: if_splits)
  have "take width (drop h m'') = drop h (take h' m'')" by (simp add: h' take_drop add.commute)
  also have "\<dots> = take width (drop h m')" using assms(2) by (simp add: h' take_drop add.commute)
  finally show ?thesis using dec_spec [OF len] enc_image [OF assms(1)] h' by simp
qed

lemma image_inj: "image v = image w \<Longrightarrow> v = w"
  using dec_spec [of 0 "image v" v] dec_spec [of 0 "image v" w] by (simp add: image_length)

end

section \<open>The code satisfies the contract\<close>

fun put_bytes :: "bytes \<Rightarrow> wbuf \<Rightarrow> wbuf option" where
  "put_bytes [] w = Some w"
| "put_bytes (x # xs) w = do { w' \<leftarrow> put_byte x w; put_bytes xs w' }"

lemma put_bytes_spec:
  "xs \<noteq> [] \<or> h \<le> length m \<Longrightarrow>
   put_bytes xs (m, h) =
     (if h + length xs \<le> length m
      then Some (take h m @ xs @ drop (h + length xs) m, h + length xs) else None)"
proof (induction xs arbitrary: m h)
  case Nil
  then show ?case by simp
next
  case (Cons x xs)
  show ?case
  proof (cases "h < length m")
    case True
    then have "put_bytes (x # xs) (m, h) = put_bytes xs (m[h := x], Suc h)" by simp
    also have "\<dots> = (if Suc h + length xs \<le> length m
        then Some (take (Suc h) (m[h := x]) @ xs @ drop (Suc h + length xs) (m[h := x]),
                   Suc h + length xs) else None)"
      using Cons.IH [of "Suc h" "m[h := x]"] True by simp
    finally show ?thesis using True by (simp add: take_Suc_conv_app_nth)
  qed simp
qed

lemma put_bytes_width:
  assumes "length xs = n" and "0 < n"
  shows "put_bytes xs (m, h) =
     (if h + n \<le> length m then Some (take h m @ xs @ drop (h + n) m, h + n) else None)"
  using put_bytes_spec [of xs h m] assms by auto

lemma put_bytes_fun:
  "put_bytes [] = Some" "put_bytes (x # xs) = (\<lambda>w. put_byte x w \<bind> put_bytes xs)"
  by (rule ext, simp)+

lemma pack_uint8_bytes: "pack_uint8 w v = put_bytes [v] w"
  by (simp add: pack_uint8_def put_bytes_fun)

lemma pack_uint16_bytes: "pack_uint16 w v = put_bytes [get_byte v 1, get_byte v 0] w"
  by (simp add: pack_uint16_def put_bytes_fun)

lemma pack_uint32_bytes:
  "pack_uint32 w v = put_bytes [get_byte v 3, get_byte v 2, get_byte v 1, get_byte v 0] w"
  by (simp add: pack_uint32_def put_bytes_fun)

lemma pack_uint64_bytes:
  "pack_uint64 w v = put_bytes [get_byte v 7, get_byte v 6, get_byte v 5, get_byte v 4,
                                get_byte v 3, get_byte v 2, get_byte v 1, get_byte v 0] w"
  by (simp add: pack_uint64_def put_bytes_fun)

lemma window_nth:
  assumes "take n (drop h m) = xs" and "i < n" and "h + n \<le> length m"
  shows "m ! (h + i) = xs ! i"
  using assms by auto

lemma window_nth_list:
  assumes "take n (drop h m) = xs" and "h + n \<le> length m"
  shows "\<forall>i < n. m ! (h + i) = xs ! i"
  using assms by auto

lemma unpack_uint16_window:
  assumes "h + 2 \<le> length m" and "take 2 (drop h m) = [get_byte v 1, get_byte v 0]"
  shows "unpack_uint16 (m, h) = Some (v, (m, h + 2))"
proof -
  note n = window_nth [OF assms(2) _ assms(1)]
  have "m ! h = get_byte v 1" "m ! Suc h = get_byte v 0"
    using n [of 0] n [of 1] by simp_all
  then show ?thesis
    using assms(1) word16_of_bytes [of v] by (simp add: unpack_uint16_def)
qed

lemma unpack_uint32_window:
  assumes "h + 4 \<le> length m"
    and "take 4 (drop h m) = [get_byte v 3, get_byte v 2, get_byte v 1, get_byte v 0]"
  shows "unpack_uint32 (m, h) = Some (v, (m, h + 4))"
proof -
  note n = window_nth [OF assms(2) _ assms(1)]
  have "m ! h = get_byte v 3" "m ! Suc h = get_byte v 2" "m ! Suc (Suc h) = get_byte v 1"
      "m ! Suc (Suc (Suc h)) = get_byte v 0"
    using n [of 0] n [of 1] n [of 2] n [of 3] by (simp_all add: numeral_eq_Suc)
  then show ?thesis
    using assms(1) word32_of_bytes [of v] by (simp add: unpack_uint32_def)
qed

lemma unpack_uint64_window:
  assumes "h + 8 \<le> length m"
    and "take 8 (drop h m) = [get_byte v 7, get_byte v 6, get_byte v 5, get_byte v 4,
                              get_byte v 3, get_byte v 2, get_byte v 1, get_byte v 0]"
  shows "unpack_uint64 (m, h) = Some (v, (m, h + 8))"
proof -
  note n = window_nth [OF assms(2) _ assms(1)]
  have "m ! h = get_byte v 7" "m ! Suc h = get_byte v 6" "m ! Suc (Suc h) = get_byte v 5"
      "m ! Suc (Suc (Suc h)) = get_byte v 4" "m ! Suc (Suc (Suc (Suc h))) = get_byte v 3"
      "m ! Suc (Suc (Suc (Suc (Suc h)))) = get_byte v 2"
      "m ! Suc (Suc (Suc (Suc (Suc (Suc h))))) = get_byte v 1"
      "m ! Suc (Suc (Suc (Suc (Suc (Suc (Suc h)))))) = get_byte v 0"
    using n [of 0] n [of 1] n [of 2] n [of 3] n [of 4] n [of 5] n [of 6] n [of 7]
    by (simp_all add: numeral_eq_Suc)
  then show ?thesis
    using assms(1) word64_of_bytes [of v] by (simp add: unpack_uint64_def)
qed

interpretation p8: byte_codec pack_uint8 unpack_uint8 "\<lambda>v. [v]" 1
  by unfold_locales
     (auto simp: pack_uint8_bytes put_bytes_spec unpack_uint8_def dest: window_nth [where i = 0]
           simp del: put_bytes.simps)

interpretation p16: byte_codec pack_uint16 unpack_uint16 "\<lambda>v. [get_byte v 1, get_byte v 0]" 2
  by unfold_locales
     (simp_all add: pack_uint16_bytes put_bytes_spec unpack_uint16_window del: put_bytes.simps)

interpretation p32: byte_codec pack_uint32 unpack_uint32
    "\<lambda>v. [get_byte v 3, get_byte v 2, get_byte v 1, get_byte v 0]" 4
  by unfold_locales
     (simp_all add: pack_uint32_bytes put_bytes_width [where n = 4] unpack_uint32_window del: put_bytes.simps)

interpretation p64: byte_codec pack_uint64 unpack_uint64
    "\<lambda>v. [get_byte v 7, get_byte v 6, get_byte v 5, get_byte v 4,
          get_byte v 3, get_byte v 2, get_byte v 1, get_byte v 0]" 8
  by unfold_locales
     (simp_all add: pack_uint64_bytes put_bytes_width [where n = 8] unpack_uint64_window del: put_bytes.simps)

text \<open>A blob of a fixed length, read back with the same length.\<close>

lemma pack_blob_frame:
  assumes "pack_blob (m, h) len object = Some (m', h')"
  shows "length m' = length m \<and> h' = h + len \<and> take h m' = take h m \<and> drop h' m' = drop h' m"
  using assms by (auto split: if_splits)

lemma unpack_pack_blob:
  assumes "pack_blob (m, h) len object = Some (m', h')"
  shows "unpack_blob (m', h) len = Some (take len object, (m', h'))"
  using assms by (auto split: if_splits)

lemma ntohq_bytes:
  "get_byte (ntohq False v) k = get_byte v (7 - k)" if "k < 8"
proof (rule bit_word_eqI)
  fix n assume "n < LENGTH(8)"
  then have n: "n < 8" by simp
  have k: "k = 0 \<or> k = 1 \<or> k = 2 \<or> k = 3 \<or> k = 4 \<or> k = 5 \<or> k = 6 \<or> k = 7" using that by linarith
  show "bit (get_byte (ntohq False v) k) n = bit (get_byte v (7 - k)) n"
    using k n by (elim disjE) (simp_all add: bit_get_byte ntohq_def bit_or_iff bit_set_get_byte)
qed

lemma take_eq_mono: "take n xs = take n ys \<Longrightarrow> k \<le> n \<Longrightarrow> take k xs = take k ys"
  by (metis min.absorb1 take_take)

lemma drop_eq_mono: "drop n xs = drop n ys \<Longrightarrow> n \<le> k \<Longrightarrow> drop k xs = drop k ys"
  by (metis drop_drop le_add_diff_inverse2)

text \<open>
  C29.  A message packed field by field (8, 16, 32 and 64 bits, then a blob) is read back by the
  matching sequence of unpack calls: every field has its value, the read head ends where the
  write head ended, and no byte outside the message is changed.
\<close>

theorem pack_message_roundtrip:
  assumes "do { w \<leftarrow> pack_uint8 (m, h) a; w \<leftarrow> pack_uint16 w b; w \<leftarrow> pack_uint32 w c;
                w \<leftarrow> pack_uint64 w d; pack_blob w len object } = Some (m', h')"
  shows "do { (a', r) \<leftarrow> unpack_uint8 (m', h); (b', r) \<leftarrow> unpack_uint16 r;
              (c', r) \<leftarrow> unpack_uint32 r; (d', r) \<leftarrow> unpack_uint64 r;
              (o', r) \<leftarrow> unpack_blob r len; Some (a', b', c', d', o', r) }
         = Some (a, b, c, d, take len object, (m', h')) \<and>
         h' = h + 15 + len \<and> length m' = length m \<and> take h m' = take h m \<and> drop h' m' = drop h' m"
    (is "?read \<and> ?frame")
proof -
  obtain m1 h1 m2 h2 m3 h3 m4 h4 where
    w1: "pack_uint8 (m, h) a = Some (m1, h1)" and w2: "pack_uint16 (m1, h1) b = Some (m2, h2)" and
    w3: "pack_uint32 (m2, h2) c = Some (m3, h3)" and w4: "pack_uint64 (m3, h3) d = Some (m4, h4)" and
    w5: "pack_blob (m4, h4) len object = Some (m', h')"
    using assms by (auto simp: Some_bind_iff simp del: pack_blob.simps)
  note f = p8.enc_frame [OF w1] p16.enc_frame [OF w2] p32.enc_frame [OF w3] p64.enc_frame [OF w4]
    pack_blob_frame [OF w5]
  have t4: "take h4 m' = take h4 m4" using f by simp
  have t3: "take h3 m' = take h3 m3" using f take_eq_mono [OF t4, of h3] by simp
  have t2: "take h2 m' = take h2 m2" using f take_eq_mono [OF t3, of h2] by simp
  have t1: "take h1 m' = take h1 m1" using f take_eq_mono [OF t2, of h1] by simp
  have "unpack_uint8 (m', h) = Some (a, (m', h1))" "unpack_uint16 (m', h1) = Some (b, (m', h2))"
    "unpack_uint32 (m', h2) = Some (c, (m', h3))" "unpack_uint64 (m', h3) = Some (d, (m', h4))"
    using p8.dec_enc_later [OF w1 t1] p16.dec_enc_later [OF w2 t2] p32.dec_enc_later [OF w3 t3]
      p64.dec_enc_later [OF w4 t4] f by simp_all
  then have ?read
    using unpack_pack_blob [OF w5] by (simp del: unpack_blob.simps)
  moreover have ?frame
  proof -
    have "drop h' m4 = drop h' m3" by (rule drop_eq_mono [of h4]) (use f in auto)
    moreover have "drop h' m3 = drop h' m2" by (rule drop_eq_mono [of h3]) (use f in auto)
    moreover have "drop h' m2 = drop h' m1" by (rule drop_eq_mono [of h2]) (use f in auto)
    moreover have "drop h' m1 = drop h' m" by (rule drop_eq_mono [of h1]) (use f in auto)
    ultimately show ?thesis using f take_eq_mono [OF t1, of h] by auto
  qed
  ultimately show ?thesis by blast
qed

theorem pack_message_roundtrip_witness:
  "\<exists>m' h'. do { w \<leftarrow> pack_uint8 (replicate 20 0, 1) 7; w \<leftarrow> pack_uint16 w 0x1234;
        w \<leftarrow> pack_uint32 w 0xDEADBEEF; w \<leftarrow> pack_uint64 w 5; pack_blob w 2 [8, 9, 10] } = Some (m', h')
      \<and> m' = [0, 7, 0x12, 0x34, 0xDE, 0xAD, 0xBE, 0xEF, 0, 0, 0, 0, 0, 0, 0, 5, 8, 9, 0, 0]
      \<and> h' = 1 + 15 + (2 :: nat)"
proof -
  have e: "do { w \<leftarrow> pack_uint8 (replicate 20 0, 1) 7; w \<leftarrow> pack_uint16 w 0x1234;
        w \<leftarrow> pack_uint32 w 0xDEADBEEF; w \<leftarrow> pack_uint64 w 5; pack_blob w 2 [8, 9, 10] }
      = Some ([0, 7, 0x12, 0x34, 0xDE, 0xAD, 0xBE, 0xEF, 0, 0, 0, 0, 0, 0, 0, 5, 8, 9, 0, 0], 18)"
    by code_simp
  show ?thesis using e pack_message_roundtrip [OF e] by blast
qed

end
