(* ===== verification/Packet_Parser.thy ===== *)
theory Packet_Parser
  imports Doca_Prelude
begin

text \<open>
  Model of \<open>applications/common/packet_parser.c\<close> and of the contexts of
  \<open>applications/common/packet_parser.h\<close>: Ethernet, IPv4, IPv6 with extension headers, TCP, UDP and
  GTP-U, and the three whole-packet parsers built from them.

  A packet is a byte list \<open>b\<close>; the C arguments \<open>data\<close> and \<open>data_end\<close> are an offset \<open>off\<close> and
  \<open>length b\<close>.  Every parser threads its context, so what an error path has already written
  is part of the result.  The DPDK helpers the file calls are not part of the repository: they
  are the fields of the record \<open>dpdk\<close>, a parameter of the parsers.  \<open>rte_ipv4_hdr_len\<close> and
  \<open>rte_ipv4_frag_pkt_is_fragmented\<close> get the 20 header bytes they point to,
  \<open>rte_ipv6_get_next_ext\<close> the bytes from its pointer to the end of the packet and the protocol;
  it returns the next protocol (negative when there is none) and the extension length it stored,
  or \<open>None\<close> when it reads behind the bytes it was given: the function has no length argument and
  the parser calls it before it compares with \<open>data_end\<close>.
  The TCP header length is the file's own \<open>get_rte_tcp_hdr_len\<close>.
\<close>

section \<open>Parameters: DPDK helpers\<close>

record dpdk =
  rte_ipv4_hdr_len :: "bytes \<Rightarrow> u8"
  rte_ipv4_frag_pkt_is_fragmented :: "bytes \<Rightarrow> bool"
  rte_ipv6_get_next_ext :: "bytes \<Rightarrow> int \<Rightarrow> (int \<times> nat) option"

definition EINVAL :: int where "EINVAL = 22"

text \<open>
  Documented behaviour of the extension parser: a header that is an extension has a positive
  length, which termination rests on; and the protocol and length of a header are its first two
  bytes, so a header of which two bytes are there is read inside the packet.
\<close>

definition next_ext_progress :: "dpdk \<Rightarrow> bool" where
  "next_ext_progress d \<longleftrightarrow>
     (\<forall>p proto np n. rte_ipv6_get_next_ext d p proto = Some (np, n) \<longrightarrow> np \<noteq> - EINVAL \<longrightarrow> 0 < n)"

definition next_ext_reads :: "dpdk \<Rightarrow> bool" where
  "next_ext_reads d \<longleftrightarrow> (\<forall>p proto. 2 \<le> length p \<longrightarrow> rte_ipv6_get_next_ext d p proto \<noteq> None)"

section \<open>Constants and contexts\<close>

abbreviation (input) SIZEOF_ETHER_HDR :: nat where "SIZEOF_ETHER_HDR \<equiv> 14"
abbreviation (input) SIZEOF_IPV4_HDR :: nat where "SIZEOF_IPV4_HDR \<equiv> 20"
abbreviation (input) SIZEOF_IPV6_HDR :: nat where "SIZEOF_IPV6_HDR \<equiv> 40"
abbreviation (input) SIZEOF_TCP_HDR :: nat where "SIZEOF_TCP_HDR \<equiv> 20"
abbreviation (input) SIZEOF_UDP_HDR :: nat where "SIZEOF_UDP_HDR \<equiv> 8"
abbreviation (input) SIZEOF_GTP_HDR :: nat where "SIZEOF_GTP_HDR \<equiv> 8"
abbreviation (input) SIZEOF_GTP_OPT :: nat where "SIZEOF_GTP_OPT \<equiv> 4"
abbreviation (input) SIZEOF_GTP_PSC :: nat where "SIZEOF_GTP_PSC \<equiv> 3"

abbreviation (input) ETHER_TYPE_IPV4 :: u16 where "ETHER_TYPE_IPV4 \<equiv> 0x0800"
abbreviation (input) ETHER_TYPE_IPV6 :: u16 where "ETHER_TYPE_IPV6 \<equiv> 0x86DD"
abbreviation (input) PROTO_IPV4 :: u8 where "PROTO_IPV4 \<equiv> 4"
abbreviation (input) PROTO_TCP :: u8 where "PROTO_TCP \<equiv> 6"
abbreviation (input) PROTO_UDP :: u8 where "PROTO_UDP \<equiv> 17"
abbreviation (input) PROTO_IPV6 :: u8 where "PROTO_IPV6 \<equiv> 41"
abbreviation (input) IPPROTO_FRAGMENT :: int where "IPPROTO_FRAGMENT \<equiv> 44"
abbreviation (input) IPPROTO_NONE :: u8 where "IPPROTO_NONE \<equiv> 59"
abbreviation (input) GTPU_PORT :: u16 where "GTPU_PORT \<equiv> 2152"

datatype parser_pkt_type =
  PARSER_PKT_TYPE_TUNNELED | PARSER_PKT_TYPE_PLAIN | PARSER_PKT_TYPE_UNKNOWN

record link_parser_ctx =
  lk_len :: nat
  lk_next_proto :: u16
  lk_eth :: "nat option"

record network_parser_ctx =
  nw_len :: nat
  nw_ip_version :: u8
  nw_next_proto :: u8
  nw_frag :: bool
  nw_ipv4_hdr :: "nat option"
  nw_ipv6_hdr :: "nat option"
  nw_ipv6_frag_ext :: "nat option"

record transport_parser_ctx =
  tp_proto :: u8
  tp_len :: nat
  tp_udp_hdr :: "nat option"
  tp_tcp_hdr :: "nat option"

record gtp_parser_ctx =
  gtp_len :: nat
  gtp_hdr :: "nat option"
  gtp_opt_hdr :: "nat option"
  gtp_ext_hdr :: "nat option"

record conn_parser_ctx =
  cn_len :: nat
  cn_link_ctx :: link_parser_ctx
  cn_network_ctx :: network_parser_ctx
  cn_transport_ctx :: transport_parser_ctx

record tun_parser_ctx =
  tn_len :: nat
  tn_link_ctx :: link_parser_ctx
  tn_network_ctx :: network_parser_ctx
  tn_transport_ctx :: transport_parser_ctx
  tn_gtp_ctx :: gtp_parser_ctx
  tn_inner :: conn_parser_ctx

text \<open>The zero-initialised contexts (\<open>= {0}\<close>).\<close>

definition link0 :: link_parser_ctx where
  "link0 = \<lparr>lk_len = 0, lk_next_proto = 0, lk_eth = None\<rparr>"

definition network0 :: network_parser_ctx where
  "network0 = \<lparr>nw_len = 0, nw_ip_version = 0, nw_next_proto = 0, nw_frag = False,
     nw_ipv4_hdr = None, nw_ipv6_hdr = None, nw_ipv6_frag_ext = None\<rparr>"

definition transport0 :: transport_parser_ctx where
  "transport0 = \<lparr>tp_proto = 0, tp_len = 0, tp_udp_hdr = None, tp_tcp_hdr = None\<rparr>"

definition gtp0 :: gtp_parser_ctx where
  "gtp0 = \<lparr>gtp_len = 0, gtp_hdr = None, gtp_opt_hdr = None, gtp_ext_hdr = None\<rparr>"

definition conn0 :: conn_parser_ctx where
  "conn0 = \<lparr>cn_len = 0, cn_link_ctx = link0, cn_network_ctx = network0,
     cn_transport_ctx = transport0\<rparr>"

definition tun0 :: tun_parser_ctx where
  "tun0 = \<lparr>tn_len = 0, tn_link_ctx = link0, tn_network_ctx = network0,
     tn_transport_ctx = transport0, tn_gtp_ctx = gtp0, tn_inner = conn0\<rparr>"

section \<open>Link, network, transport and GTP-U headers\<close>

definition link_parse ::
  "bytes \<Rightarrow> nat \<Rightarrow> link_parser_ctx \<Rightarrow> (doca_error_t \<times> link_parser_ctx) option" where
  "link_parse b off ctx =
     (if off + SIZEOF_ETHER_HDR > length b then Some (DOCA_ERROR_INVALID_VALUE, ctx)
      else do {
        next_proto \<leftarrow> rd16be b (off + 12);
        if next_proto \<noteq> ETHER_TYPE_IPV4 \<and> next_proto \<noteq> ETHER_TYPE_IPV6
        then Some (DOCA_ERROR_INVALID_VALUE, ctx)
        else Some (DOCA_SUCCESS,
               ctx\<lparr>lk_len := SIZEOF_ETHER_HDR, lk_next_proto := next_proto, lk_eth := Some off\<rparr>) })"

text \<open>
  The \<open>while (proto != -EINVAL)\<close> loop over the extension headers.  It returns the error code and
  the locals \<open>next_proto\<close>, \<open>total_len\<close> and \<open>ipv6_frag_ext\<close>; a read behind the packet and a loop that
  never ends are \<open>None\<close>.
\<close>

partial_function (option) ipv6_ext_loop ::
  "dpdk \<Rightarrow> bytes \<Rightarrow> nat \<Rightarrow> int \<Rightarrow> u8 \<Rightarrow> nat \<Rightarrow> nat option \<Rightarrow>
   (doca_error_t \<times> u8 \<times> nat \<times> nat option) option" where
  "ipv6_ext_loop d b off proto next_proto total_len frag_ext =
     (if proto = - EINVAL then Some (DOCA_SUCCESS, next_proto, total_len, frag_ext)
      else do {
        let frag_ext' = (if proto = IPPROTO_FRAGMENT then Some (off + total_len) else frag_ext);
        (proto', ext_len) \<leftarrow> rte_ipv6_get_next_ext d (drop (off + total_len) b) proto;
        let total_len' = total_len + ext_len;
        if off + total_len' > length b
        then Some (DOCA_ERROR_INVALID_VALUE, of_int proto, total_len', frag_ext')
        else ipv6_ext_loop d b off proto' (of_int proto) total_len' frag_ext' })"

definition ipv6_hdr_parse ::
  "dpdk \<Rightarrow> bytes \<Rightarrow> nat \<Rightarrow> network_parser_ctx \<Rightarrow> (doca_error_t \<times> network_parser_ctx) option" where
  "ipv6_hdr_parse d b off ctx =
     (if off + SIZEOF_IPV6_HDR > length b then Some (DOCA_ERROR_INVALID_VALUE, ctx)
      else do {
        proto \<leftarrow> rd8 b (off + 6);
        (ret, next_proto, total_len, frag_ext) \<leftarrow>
          ipv6_ext_loop d b off (uint proto) IPPROTO_NONE SIZEOF_IPV6_HDR None;
        if ret \<noteq> DOCA_SUCCESS then Some (DOCA_ERROR_INVALID_VALUE, ctx)
        else let ctx1 = ctx\<lparr>nw_next_proto := next_proto, nw_ipv6_hdr := Some off\<rparr>;
                 ctx2 = (case frag_ext of None \<Rightarrow> ctx1
                         | Some f \<Rightarrow> ctx1\<lparr>nw_frag := True, nw_ipv6_frag_ext := Some f\<rparr>)
             in Some (DOCA_SUCCESS, ctx2\<lparr>nw_len := total_len\<rparr>) })"

definition network_parse ::
  "dpdk \<Rightarrow> bytes \<Rightarrow> nat \<Rightarrow> u16 \<Rightarrow> network_parser_ctx \<Rightarrow>
   (doca_error_t \<times> network_parser_ctx) option" where
  "network_parse d b off expected_proto ctx =
     (if off = length b then Some (DOCA_ERROR_INVALID_VALUE, ctx)
      else do {
        first \<leftarrow> rd8 b off;
        let version = drop_bit 4 first;
        if version = 4 then
          (if expected_proto \<noteq> 0 \<and> expected_proto \<noteq> ETHER_TYPE_IPV4
           then Some (DOCA_ERROR_INVALID_VALUE, ctx)
           else let ctx = ctx\<lparr>nw_ip_version := PROTO_IPV4\<rparr> in
             if off + SIZEOF_IPV4_HDR > length b then Some (DOCA_ERROR_INVALID_VALUE, ctx)
             else do {
               hdr \<leftarrow> rd_bytes b off SIZEOF_IPV4_HDR;
               let hdr_len = unat (rte_ipv4_hdr_len d hdr);
               if off + hdr_len > length b then Some (DOCA_ERROR_INVALID_VALUE, ctx)
               else do {
                 next_proto \<leftarrow> rd8 b (off + 9);
                 Some (DOCA_SUCCESS,
                   ctx\<lparr>nw_len := hdr_len, nw_next_proto := next_proto,
                       nw_frag := rte_ipv4_frag_pkt_is_fragmented d hdr,
                       nw_ipv4_hdr := Some off\<rparr>) } })
        else if version = 6 then
          (if expected_proto \<noteq> 0 \<and> expected_proto \<noteq> ETHER_TYPE_IPV6
           then Some (DOCA_ERROR_INVALID_VALUE, ctx)
           else do {
             (ret, ctx) \<leftarrow> ipv6_hdr_parse d b off (ctx\<lparr>nw_ip_version := PROTO_IPV6\<rparr>);
             if ret \<noteq> DOCA_SUCCESS then Some (DOCA_ERROR_INVALID_VALUE, ctx)
             else Some (DOCA_SUCCESS, ctx) })
        else Some (DOCA_ERROR_INVALID_VALUE, ctx) })"

definition get_rte_tcp_hdr_len :: "u8 \<Rightarrow> u8" where
  "get_rte_tcp_hdr_len data_off = drop_bit 4 (data_off AND 0xf0) * 4"

definition transport_parse ::
  "bytes \<Rightarrow> nat \<Rightarrow> u8 \<Rightarrow> transport_parser_ctx \<Rightarrow> (doca_error_t \<times> transport_parser_ctx) option" where
  "transport_parse b off proto ctx =
     (if proto = PROTO_TCP then
        (if off + SIZEOF_TCP_HDR > length b then Some (DOCA_ERROR_INVALID_VALUE, ctx)
         else do {
           data_off \<leftarrow> rd8 b (off + 12);
           let hdr_len = unat (get_rte_tcp_hdr_len data_off);
           if off + hdr_len > length b then Some (DOCA_ERROR_INVALID_VALUE, ctx)
           else Some (DOCA_SUCCESS, ctx\<lparr>tp_len := hdr_len, tp_tcp_hdr := Some off, tp_proto := proto\<rparr>) })
      else if proto = PROTO_UDP then
        (if off + SIZEOF_UDP_HDR > length b then Some (DOCA_ERROR_INVALID_VALUE, ctx)
         else Some (DOCA_SUCCESS,
                ctx\<lparr>tp_len := SIZEOF_UDP_HDR, tp_udp_hdr := Some off, tp_proto := proto\<rparr>))
      else Some (DOCA_ERROR_NOT_SUPPORTED, ctx))"

text \<open>The bit fields of the first GTP byte: \<open>ver:3\<close>, ..., \<open>e:1, s:1, pn:1\<close>.\<close>

definition gtp_ver :: "u8 \<Rightarrow> u8" where "gtp_ver info = drop_bit 5 info"
definition gtp_e :: "u8 \<Rightarrow> bool" where "gtp_e info = bit info 2"
definition gtp_s :: "u8 \<Rightarrow> bool" where "gtp_s info = bit info 1"
definition gtp_pn :: "u8 \<Rightarrow> bool" where "gtp_pn info = bit info 0"

definition gtpu_parse ::
  "bytes \<Rightarrow> nat \<Rightarrow> gtp_parser_ctx \<Rightarrow> (doca_error_t \<times> gtp_parser_ctx) option" where
  "gtpu_parse b data_beg ctx =
     (if data_beg + SIZEOF_GTP_HDR > length b then Some (DOCA_ERROR_INVALID_VALUE, ctx)
      else do {
        info \<leftarrow> rd8 b data_beg;
        let data = data_beg + SIZEOF_GTP_HDR;
        let done = (\<lambda>data opt ext. Some (DOCA_SUCCESS,
              ctx\<lparr>gtp_len := data - data_beg, gtp_hdr := Some data_beg,
                  gtp_opt_hdr := opt, gtp_ext_hdr := ext\<rparr>));
        if gtp_ver info \<noteq> 1 then Some (DOCA_ERROR_NOT_SUPPORTED, ctx)
        else if gtp_e info \<or> gtp_s info \<or> gtp_pn info then
          (if data + SIZEOF_GTP_OPT > length b then Some (DOCA_ERROR_INVALID_VALUE, ctx)
           else let opt = data; data = data + SIZEOF_GTP_OPT in
             if gtp_e info then do {
               next_ext \<leftarrow> rd8 b (opt + 3);
               if next_ext \<noteq> 0x85 then Some (DOCA_ERROR_NOT_SUPPORTED, ctx)
               else let ext = data; gtpext_len = SIZEOF_GTP_PSC + 1 in
                 if data + gtpext_len > length b then Some (DOCA_ERROR_INVALID_VALUE, ctx)
                 else do {
                   ext_hdr_len \<leftarrow> rd8 b ext;
                   if ext_hdr_len \<noteq> 1 then Some (DOCA_ERROR_NOT_SUPPORTED, ctx)
                   else do {
                     chained \<leftarrow> rd8 b (ext + SIZEOF_GTP_PSC);
                     if chained \<noteq> 0 then Some (DOCA_ERROR_NOT_SUPPORTED, ctx)
                     else done (data + gtpext_len) (Some opt) (Some ext) } } }
             else done data (Some opt) None)
        else done data None None })"

section \<open>Whole-packet parsers\<close>

definition conn_parse ::
  "dpdk \<Rightarrow> bytes \<Rightarrow> nat \<Rightarrow> conn_parser_ctx \<Rightarrow> (doca_error_t \<times> conn_parser_ctx) option" where
  "conn_parse d b off ctx = do {
     (ret, network_ctx) \<leftarrow> network_parse d b (off + cn_len ctx)
        (lk_next_proto (cn_link_ctx ctx)) (cn_network_ctx ctx);
     let ctx = ctx\<lparr>cn_network_ctx := network_ctx\<rparr>;
     if ret \<noteq> DOCA_SUCCESS then Some (ret, ctx)
     else let ctx = ctx\<lparr>cn_len := cn_len ctx + nw_len network_ctx\<rparr> in
       if nw_frag network_ctx then Some (DOCA_ERROR_AGAIN, ctx)
       else do {
         (ret, transport_ctx) \<leftarrow> transport_parse b (off + cn_len ctx)
            (nw_next_proto network_ctx) (cn_transport_ctx ctx);
         let ctx = ctx\<lparr>cn_transport_ctx := transport_ctx\<rparr>;
         if ret \<noteq> DOCA_SUCCESS then Some (ret, ctx)
         else Some (DOCA_SUCCESS, ctx\<lparr>cn_len := cn_len ctx + tp_len transport_ctx\<rparr>) } }"

definition plain_parse ::
  "dpdk \<Rightarrow> bytes \<Rightarrow> conn_parser_ctx \<Rightarrow> (doca_error_t \<times> conn_parser_ctx) option" where
  "plain_parse d b ctx = do {
     (ret, link_ctx) \<leftarrow> link_parse b (cn_len ctx) (cn_link_ctx ctx);
     let ctx = ctx\<lparr>cn_link_ctx := link_ctx\<rparr>;
     if ret \<noteq> DOCA_SUCCESS then Some (ret, ctx)
     else conn_parse d b 0 (ctx\<lparr>cn_len := cn_len ctx + lk_len link_ctx\<rparr>) }"

text \<open>The common tail of \<open>tunnel_parse\<close> and \<open>unknown_parse\<close>: the GTP-U header and the inner packet.\<close>

definition gtpu_inner_parse ::
  "dpdk \<Rightarrow> bytes \<Rightarrow> tun_parser_ctx \<Rightarrow> (doca_error_t \<times> tun_parser_ctx) option" where
  "gtpu_inner_parse d b ctx = do {
     (ret, gtp_ctx) \<leftarrow> gtpu_parse b (tn_len ctx) (tn_gtp_ctx ctx);
     let ctx = ctx\<lparr>tn_gtp_ctx := gtp_ctx\<rparr>;
     if ret \<noteq> DOCA_SUCCESS then Some (ret, ctx)
     else do {
       let ctx = ctx\<lparr>tn_len := tn_len ctx + gtp_len gtp_ctx\<rparr>;
       (ret, inner) \<leftarrow> conn_parse d b (tn_len ctx) (tn_inner ctx);
       let ctx = ctx\<lparr>tn_inner := inner\<rparr>;
       if ret = DOCA_SUCCESS \<or> ret = DOCA_ERROR_AGAIN
       then Some (ret, ctx\<lparr>tn_len := tn_len ctx + cn_len inner\<rparr>)
       else Some (ret, ctx) } }"

definition tunnel_parse ::
  "dpdk \<Rightarrow> bytes \<Rightarrow> tun_parser_ctx \<Rightarrow> (doca_error_t \<times> tun_parser_ctx) option" where
  "tunnel_parse d b ctx = do {
     (ret, link_ctx) \<leftarrow> link_parse b (tn_len ctx) (tn_link_ctx ctx);
     let ctx = ctx\<lparr>tn_link_ctx := link_ctx\<rparr>;
     if ret \<noteq> DOCA_SUCCESS then Some (ret, ctx)
     else do {
       let ctx = ctx\<lparr>tn_len := tn_len ctx + lk_len link_ctx\<rparr>;
       (ret, network_ctx) \<leftarrow> network_parse d b (tn_len ctx) (lk_next_proto link_ctx)
          (tn_network_ctx ctx);
       let ctx = ctx\<lparr>tn_network_ctx := network_ctx\<rparr>;
       if ret \<noteq> DOCA_SUCCESS then Some (ret, ctx)
       else let ctx = ctx\<lparr>tn_len := tn_len ctx + nw_len network_ctx\<rparr> in
         if nw_frag network_ctx then Some (DOCA_ERROR_AGAIN, ctx)
         else do {
           (ret, transport_ctx) \<leftarrow> transport_parse b (tn_len ctx) (nw_next_proto network_ctx)
              (tn_transport_ctx ctx);
           let ctx = ctx\<lparr>tn_transport_ctx := transport_ctx\<rparr>;
           if ret \<noteq> DOCA_SUCCESS then Some (ret, ctx)
           else gtpu_inner_parse d b (ctx\<lparr>tn_len := tn_len ctx + tp_len transport_ctx\<rparr>) } } }"

text \<open>
  \<open>unknown_parse\<close> parses into local contexts, then decides the packet type.  The type is left
  as it was on the early error returns.
\<close>

definition unknown_parse ::
  "dpdk \<Rightarrow> bytes \<Rightarrow> tun_parser_ctx \<Rightarrow> parser_pkt_type \<Rightarrow>
   (doca_error_t \<times> tun_parser_ctx \<times> parser_pkt_type) option" where
  "unknown_parse d b ctx ty = do {
     (ret, link_ctx) \<leftarrow> link_parse b 0 link0;
     if ret \<noteq> DOCA_SUCCESS then Some (ret, ctx, ty)
     else do {
       let len = lk_len link_ctx;
       (ret, network_ctx) \<leftarrow> network_parse d b len (lk_next_proto link_ctx) network0;
       if ret \<noteq> DOCA_SUCCESS then Some (ret, ctx, ty)
       else let len = len + nw_len network_ctx in
         if nw_frag network_ctx
         then Some (DOCA_ERROR_AGAIN,
                ctx\<lparr>tn_inner := (tn_inner ctx)\<lparr>cn_link_ctx := link_ctx, cn_network_ctx := network_ctx,
                                                cn_len := cn_len (tn_inner ctx) + len\<rparr>,
                    tn_len := tn_len ctx + len\<rparr>, PARSER_PKT_TYPE_PLAIN)
         else do {
           (ret, transport_ctx) \<leftarrow> transport_parse b len (nw_next_proto network_ctx) transport0;
           if ret \<noteq> DOCA_SUCCESS then Some (ret, ctx, ty)
           else do {
             let len = len + tp_len transport_ctx;
             plain \<leftarrow> (if tp_proto transport_ctx \<noteq> PROTO_UDP then Some True
                      else do {
                        hdr \<leftarrow> tp_udp_hdr transport_ctx;
                        dst_port \<leftarrow> rd16be b (hdr + 2);
                        Some (dst_port \<noteq> GTPU_PORT) });
             if plain
             then Some (DOCA_SUCCESS,
                    ctx\<lparr>tn_inner := (tn_inner ctx)\<lparr>cn_link_ctx := link_ctx,
                          cn_network_ctx := network_ctx, cn_transport_ctx := transport_ctx,
                          cn_len := cn_len (tn_inner ctx) + len\<rparr>,
                        tn_len := tn_len ctx + len\<rparr>, PARSER_PKT_TYPE_PLAIN)
             else do {
               (ret, ctx) \<leftarrow> gtpu_inner_parse d b
                  (ctx\<lparr>tn_link_ctx := link_ctx, tn_network_ctx := network_ctx,
                      tn_transport_ctx := transport_ctx, tn_len := tn_len ctx + len\<rparr>);
               Some (ret, ctx, PARSER_PKT_TYPE_TUNNELED) } } } } }"

section \<open>The contract of a header parser\<close>

text \<open>
  What the whole-packet parsers rely on: a header parser that succeeds has consumed bytes of the
  packet only, and (for a total one) a parser started inside the packet returns.
\<close>

locale bounded_header =
  fixes parse :: "bytes \<Rightarrow> nat \<Rightarrow> 'c \<Rightarrow> (doca_error_t \<times> 'c) option"
    and hlen :: "'c \<Rightarrow> nat"
  assumes fits: "parse b off c = Some (DOCA_SUCCESS, c') \<Longrightarrow> off \<le> length b \<Longrightarrow>
                 off + hlen c' \<le> length b"

locale total_header = bounded_header +
  assumes returns: "off \<le> length b \<Longrightarrow> parse b off c \<noteq> None"
begin

lemma outcome:
  assumes "off \<le> length b"
  obtains e c' where "parse b off c = Some (e, c')"
    and "e = DOCA_SUCCESS \<Longrightarrow> off + hlen c' \<le> length b"
  using returns [OF assms, of c] fits [of b off c] assms by (cases "parse b off c") auto

end

interpretation lk: total_header link_parse lk_len
  by unfold_locales (auto simp: link_parse_def rd_simps split: if_splits)

interpretation tp: total_header "\<lambda>b off. transport_parse b off proto" tp_len for proto
  by unfold_locales
     (auto simp: transport_parse_def rd_simps Let_def split: if_splits)

interpretation gt: total_header gtpu_parse gtp_len
  by unfold_locales
     (auto simp: gtpu_parse_def rd_simps Let_def split: if_splits)

section \<open>IPv6 extension headers\<close>

lemma ipv6_ext_loop_bounds:
  assumes "ipv6_ext_loop d b off proto np tot fr = Some (e, np', tot', fr')"
  shows "tot \<le> tot' \<and> (off + tot \<le> length b \<longrightarrow> e = DOCA_SUCCESS \<longrightarrow> off + tot' \<le> length b)"
proof -
  let ?P = "\<lambda>d b off (proto :: int) (np :: u8) tot (fr :: nat option) (r :: doca_error_t \<times> u8 \<times> nat \<times> nat option).
     tot \<le> fst (snd (snd r)) \<and> (off + tot \<le> length b \<longrightarrow> fst r = DOCA_SUCCESS \<longrightarrow>
       off + fst (snd (snd r)) \<le> length (b :: bytes))"
  have "?P d b off proto np tot fr (e, np', tot', fr')"
  proof (rule ipv6_ext_loop.raw_induct [where P = ?P, OF _ assms], goal_cases)
    case (1 rec d b off proto np tot fr r)
    show ?case
    proof (cases "proto = - EINVAL")
      case True
      then show ?thesis using 1(2) by auto
    next
      case False
      then obtain p n where g: "rte_ipv6_get_next_ext d (drop (off + tot) b) proto = Some (p, n)"
        using 1(2) by (auto simp: Let_def Some_bind_iff)
      show ?thesis
      proof (cases "off + (tot + n) > length b")
        case True
        then show ?thesis using 1(2) False g by (auto simp: Let_def)
      next
        case short: False
        then have "rec d b off p (of_int proto) (tot + n) (if proto = 44 then Some (off + tot) else fr) = Some r"
          using 1(2) False g by (simp add: Let_def)
        from 1(1) [OF this] short show ?thesis by simp
      qed
    qed
  qed
  then show ?thesis by simp
qed

text \<open>
  The chain of extension headers that leads to a read behind the packet: each header but the last
  ends inside the packet, and the read of the last one's first bytes goes wrong.
\<close>

inductive ext_cut :: "dpdk \<Rightarrow> bytes \<Rightarrow> nat \<Rightarrow> int \<Rightarrow> nat \<Rightarrow> bool" for d b off where
  here: "proto \<noteq> - EINVAL \<Longrightarrow> rte_ipv6_get_next_ext d (drop (off + tot) b) proto = None \<Longrightarrow>
     ext_cut d b off proto tot"
| there: "proto \<noteq> - EINVAL \<Longrightarrow> rte_ipv6_get_next_ext d (drop (off + tot) b) proto = Some (proto', n) \<Longrightarrow>
     off + (tot + n) \<le> length b \<Longrightarrow> ext_cut d b off proto' (tot + n) \<Longrightarrow> ext_cut d b off proto tot"

inductive_simps ext_cut_iff: "ext_cut d b off proto tot"

lemma ext_cut_place:
  "ext_cut d b off proto tot \<Longrightarrow> next_ext_reads d \<Longrightarrow> off + tot \<le> length b \<Longrightarrow>
   \<exists>i. off + tot \<le> i \<and> i \<le> length b \<and> length b < i + 2"
proof (induction rule: ext_cut.induct)
  case (here proto tot)
  have "rte_ipv6_get_next_ext d (drop (off + tot) b) proto \<noteq> None" if "2 \<le> length (drop (off + tot) b)"
    using here(3) that unfolding next_ext_reads_def by blast
  with here(2) have "\<not> 2 \<le> length (drop (off + tot) b)" by blast
  then show ?case using here(4) by (intro exI [of _ "off + tot"]) simp
next
  case (there proto tot proto' n)
  then obtain i where "off + (tot + n) \<le> i" "i \<le> length b" "length b < i + 2" by auto
  then show ?case by (intro exI [of _ i]) simp
qed

lemma ipv6_ext_loop_None:
  assumes "next_ext_progress d" and "off + tot \<le> length b"
  shows "ipv6_ext_loop d b off proto np tot fr = None \<longleftrightarrow> ext_cut d b off proto tot"
  using assms(2)
proof (induction "length b - (off + tot)" arbitrary: proto np tot fr rule: less_induct)
  case less
  have stop: "ipv6_ext_loop d b off (- EINVAL) np' tot' fr' = Some (DOCA_SUCCESS, np', tot', fr')"
    "\<not> ext_cut d b off (- EINVAL) tot'" for np' tot' fr'
    by (simp_all add: ipv6_ext_loop.simps ext_cut_iff [of d b off "- EINVAL" tot'])
  note unfold = ipv6_ext_loop.simps [of d b off proto np tot fr] ext_cut_iff [of d b off proto tot]
  show ?case
  proof (cases "rte_ipv6_get_next_ext d (drop (off + tot) b) proto")
    case None
    then show ?thesis unfolding unfold by (simp add: Let_def)
  next
    case (Some r)
    obtain p n where r: "r = (p, n)" by (cases r)
    show ?thesis
    proof (cases "proto = - EINVAL \<or> off + (tot + n) > length b \<or> p = - EINVAL")
      case True
      then show ?thesis unfolding unfold using Some r stop by (auto simp: Let_def)
    next
      case False
      then have "0 < n" using assms(1) Some r by (auto simp: next_ext_progress_def)
      with False less.prems have "length b - (off + (tot + n)) < length b - (off + tot)"
        by linarith
      then show ?thesis
        using False less.hyps [of "tot + n"] Some r unfolding unfold by (simp add: Let_def)
    qed
  qed
qed

text \<open>The IPv6 headers on which the parser reads behind the packet.\<close>

definition ipv6_cut :: "dpdk \<Rightarrow> bytes \<Rightarrow> nat \<Rightarrow> bool" where
  "ipv6_cut d b off \<longleftrightarrow> off + 40 \<le> length b \<and> drop_bit 4 (b ! off) = 6 \<and>
     ext_cut d b off (uint (b ! (off + 6))) 40"

lemma ipv6_cut_place:
  assumes "ipv6_cut d b off" and "next_ext_reads d"
  shows "\<exists>i. off + 40 \<le> i \<and> i \<le> length b \<and> length b < i + 2"
  using assms ext_cut_place by (auto simp: ipv6_cut_def)

lemma ipv6_hdr_parse_fits:
  assumes "ipv6_hdr_parse d b off c = Some (DOCA_SUCCESS, c')"
  shows "off + nw_len c' \<le> length b"
  using assms
  by (auto simp: ipv6_hdr_parse_def rd_simps Some_bind_iff Let_def split: if_splits option.splits
      dest!: ipv6_ext_loop_bounds)

lemma ipv6_hdr_parse_None:
  assumes "next_ext_progress d"
  shows "ipv6_hdr_parse d b off c = None \<longleftrightarrow>
    off + 40 \<le> length b \<and> ext_cut d b off (uint (b ! (off + 6))) 40"
proof (cases "off + 40 > length b")
  case False
  then show ?thesis
    using ipv6_ext_loop_None [OF assms, of off 40 b "uint (b ! (off + 6))" 59 None]
    by (cases "ipv6_ext_loop d b off (uint (b ! (off + 6))) 59 40 None")
       (auto simp: ipv6_hdr_parse_def rd_simps Let_def)
qed (simp add: ipv6_hdr_parse_def)

interpretation nw: bounded_header "\<lambda>b off. network_parse d b off expected_proto" nw_len
  for d expected_proto
  by unfold_locales
     (auto simp: network_parse_def rd_simps Some_bind_iff Let_def
           split: if_splits dest!: ipv6_hdr_parse_fits)

lemma network_parse_None:
  assumes "next_ext_progress d" and "off \<le> length b"
  shows "network_parse d b off expected_proto c = None \<longleftrightarrow>
    (expected_proto = 0 \<or> expected_proto = 0x86DD) \<and> ipv6_cut d b off"
proof (cases "off = length b")
  case False
  then have "off < length b" using assms(2) by simp
  then show ?thesis
    using ipv6_hdr_parse_None [OF assms(1), of b off "c\<lparr>nw_ip_version := 41\<rparr>"]
    by (cases "ipv6_hdr_parse d b off (c\<lparr>nw_ip_version := 41\<rparr>)")
       (auto simp: network_parse_def rd_simps Let_def ipv6_cut_def split: if_splits)
qed (simp add: network_parse_def ipv6_cut_def)

section \<open>Whole packets: safety and bounds\<close>

lemma no_again [simp]:
  "link_parse b i l \<noteq> Some (DOCA_ERROR_AGAIN, l')"
  "network_parse d b i p n \<noteq> Some (DOCA_ERROR_AGAIN, n')"
  "transport_parse b i q t \<noteq> Some (DOCA_ERROR_AGAIN, t')"
  "gtpu_parse b i g \<noteq> Some (DOCA_ERROR_AGAIN, g')"
  by (auto simp: link_parse_def network_parse_def transport_parse_def gtpu_parse_def Some_bind_iff Let_def
      split: if_splits)

lemma conn_parse_None:
  assumes "off + cn_len ctx \<le> length b"
  shows "conn_parse d b off ctx = None \<longleftrightarrow>
    network_parse d b (off + cn_len ctx) (lk_next_proto (cn_link_ctx ctx)) (cn_network_ctx ctx) = None"
proof (cases "network_parse d b (off + cn_len ctx) (lk_next_proto (cn_link_ctx ctx)) (cn_network_ctx ctx)")
  case (Some r)
  obtain e n where r: "r = (e, n)" by (cases r)
  have "transport_parse b (off + (cn_len ctx + nw_len n)) (nw_next_proto n) (cn_transport_ctx ctx) \<noteq> None"
    if "e = DOCA_SUCCESS"
    using that Some r nw.fits [of d b "off + cn_len ctx"] assms by (intro tp.returns) (auto simp: add.assoc)
  then show ?thesis using Some r by (auto simp: conn_parse_def Let_def)
qed (simp add: conn_parse_def)

lemma conn_parse_len:
  assumes "conn_parse d b off ctx = Some (ret, ctx')" and "off + cn_len ctx \<le> length b"
    and "ret = DOCA_SUCCESS \<or> ret = DOCA_ERROR_AGAIN"
  shows "off + cn_len ctx' \<le> length b"
proof -
  let ?nw = "network_parse d b (off + cn_len ctx) (lk_next_proto (cn_link_ctx ctx)) (cn_network_ctx ctx)"
  obtain n where n: "?nw = Some (DOCA_SUCCESS, n)"
    using assms(1,3) by (auto simp: conn_parse_def Some_bind_iff Let_def split: if_splits)
  then have "off + (cn_len ctx + nw_len n) \<le> length b"
    using nw.fits [OF n assms(2)] by simp
  then show ?thesis
    using assms(1,3) n tp.fits [of b "off + (cn_len ctx + nw_len n)" "nw_next_proto n" "cn_transport_ctx ctx"]
    by (auto simp: conn_parse_def Some_bind_iff Let_def add.assoc split: if_splits)
qed

lemma gtpu_inner_parse_None:
  assumes "next_ext_progress d" and "tn_len ctx \<le> length b" and "tn_inner ctx = conn0"
  shows "gtpu_inner_parse d b ctx = None \<longleftrightarrow>
    (\<exists>g. gtpu_parse b (tn_len ctx) (tn_gtp_ctx ctx) = Some (DOCA_SUCCESS, g) \<and> ipv6_cut d b (tn_len ctx + gtp_len g))"
proof -
  obtain e g where g: "gtpu_parse b (tn_len ctx) (tn_gtp_ctx ctx) = Some (e, g)"
      "e = DOCA_SUCCESS \<Longrightarrow> tn_len ctx + gtp_len g \<le> length b"
    using gt.outcome [OF assms(2)] by metis
  have "conn_parse d b (tn_len ctx + gtp_len g) conn0 = None \<longleftrightarrow> ipv6_cut d b (tn_len ctx + gtp_len g)"
    if "e = DOCA_SUCCESS"
    using g(2) [OF that] network_parse_None [OF assms(1), of "tn_len ctx + gtp_len g" b 0 network0]
      conn_parse_None [of "tn_len ctx + gtp_len g" conn0 b d]
    by (simp add: conn0_def link0_def)
  then show ?thesis using g(1) assms(3)
    by (cases "conn_parse d b (tn_len ctx + gtp_len g) conn0") (auto simp: gtpu_inner_parse_def Let_def)
qed

lemma gtpu_inner_parse_len:
  assumes "gtpu_inner_parse d b ctx = Some (ret, ctx')" and "tn_len ctx \<le> length b" and "cn_len (tn_inner ctx) = 0"
    and "ret = DOCA_SUCCESS \<or> ret = DOCA_ERROR_AGAIN"
  shows "tn_len ctx' \<le> length b"
proof -
  obtain e g where e: "gtpu_parse b (tn_len ctx) (tn_gtp_ctx ctx) = Some (e, g)"
    using assms(1) by (auto simp: gtpu_inner_parse_def Some_bind_iff)
  then have "e = DOCA_SUCCESS" using assms(1,4) by (cases "e = DOCA_SUCCESS") (auto simp: gtpu_inner_parse_def Let_def)
  with e assms(1,4) obtain i where g: "gtpu_parse b (tn_len ctx) (tn_gtp_ctx ctx) = Some (DOCA_SUCCESS, g)"
      "conn_parse d b (tn_len ctx + gtp_len g) (tn_inner ctx) = Some (ret, i)"
      "tn_len ctx' = tn_len ctx + gtp_len g + cn_len i"
    by (cases "conn_parse d b (tn_len ctx + gtp_len g) (tn_inner ctx)")
       (auto simp: gtpu_inner_parse_def Let_def split: if_splits)
  have "tn_len ctx + gtp_len g + cn_len (tn_inner ctx) \<le> length b" using gt.fits [OF g(1) assms(2)] assms(3) by simp
  then show ?thesis using conn_parse_len [OF g(2) _ assms(4)] g(3) by simp
qed

text \<open>An IPv6 packet, by its Ethernet type.\<close>

definition eth_ipv6 :: "bytes \<Rightarrow> bool" where
  "eth_ipv6 b \<longleftrightarrow> 14 \<le> length b \<and> be16 (b ! 12) (b ! 13) = 0x86DD"

lemma plain_parse_None:
  assumes "next_ext_progress d"
  shows "plain_parse d b conn0 = None \<longleftrightarrow> eth_ipv6 b \<and> ipv6_cut d b 14"
proof (cases "length b < 14")
  case True
  then show ?thesis by (simp add: plain_parse_def conn0_def link_parse_def eth_ipv6_def)
next
  case False
  let ?p = "be16 (b ! 12) (b ! 13)"
  have "conn_parse d b 0 (conn0\<lparr>cn_link_ctx := l, cn_len := 14\<rparr>) = None \<longleftrightarrow>
      (lk_next_proto l = 0 \<or> lk_next_proto l = 0x86DD) \<and> ipv6_cut d b 14" for l
    using False network_parse_None [OF assms, of 14 b "lk_next_proto l" network0]
      conn_parse_None [of 0 "conn0\<lparr>cn_link_ctx := l, cn_len := 14\<rparr>" b d] by (simp add: conn0_def)
  then show ?thesis
    using False by (auto simp: plain_parse_def link_parse_def rd_simps eth_ipv6_def conn0_def link0_def Let_def)
qed

lemma plain_parse_len:
  assumes "plain_parse d b ctx = Some (ret, ctx')" and "cn_len ctx \<le> length b"
    and "ret = DOCA_SUCCESS \<or> ret = DOCA_ERROR_AGAIN"
  shows "cn_len ctx' \<le> length b"
proof -
  obtain l where l: "link_parse b (cn_len ctx) (cn_link_ctx ctx) = Some (DOCA_SUCCESS, l)"
      "conn_parse d b 0 (ctx\<lparr>cn_link_ctx := l, cn_len := cn_len ctx + lk_len l\<rparr>) = Some (ret, ctx')"
    using assms(1,3) by (auto simp: plain_parse_def Some_bind_iff Let_def split: if_splits)
  show ?thesis using conn_parse_len [OF l(2) _ assms(3)] lk.fits [OF l(1) assms(2)] by simp
qed

text \<open>
  The link, network and transport part of \<open>tunnel_parse\<close> is \<open>plain_parse\<close> on the outer fields of
  the context, and so is the first part of \<open>unknown_parse\<close>.
\<close>

definition outer_of :: "tun_parser_ctx \<Rightarrow> conn_parser_ctx" where
  "outer_of ctx = \<lparr>cn_len = tn_len ctx, cn_link_ctx = tn_link_ctx ctx,
     cn_network_ctx = tn_network_ctx ctx, cn_transport_ctx = tn_transport_ctx ctx\<rparr>"

definition with_outer :: "tun_parser_ctx \<Rightarrow> conn_parser_ctx \<Rightarrow> tun_parser_ctx" where
  "with_outer ctx c = ctx\<lparr>tn_link_ctx := cn_link_ctx c, tn_network_ctx := cn_network_ctx c,
     tn_transport_ctx := cn_transport_ctx c, tn_len := cn_len c\<rparr>"

definition is_gtpu :: "bytes \<Rightarrow> transport_parser_ctx \<Rightarrow> bool option" where
  "is_gtpu b t = (if tp_proto t \<noteq> 17 then Some False
                  else do { hdr \<leftarrow> tp_udp_hdr t; dst_port \<leftarrow> rd16be b (hdr + 2);
                            Some (dst_port = 2152) })"

lemma tunnel_parse_front:
  "tunnel_parse d b ctx = do {
     (ret, c) \<leftarrow> plain_parse d b (outer_of ctx);
     if ret \<noteq> DOCA_SUCCESS then Some (ret, with_outer ctx c)
     else gtpu_inner_parse d b (with_outer ctx c) }"
  by (simp add: tunnel_parse_def plain_parse_def conn_parse_def outer_of_def with_outer_def Let_def
      split: Option.bind_splits)

lemma unknown_parse_front:
  "unknown_parse d b tun0 ty = do {
     (ret, c) \<leftarrow> plain_parse d b conn0;
     if ret = DOCA_ERROR_AGAIN
     then Some (ret, tun0\<lparr>tn_inner := c, tn_len := cn_len c\<rparr>, PARSER_PKT_TYPE_PLAIN)
     else if ret \<noteq> DOCA_SUCCESS then Some (ret, tun0, ty)
     else do {
       gtpu \<leftarrow> is_gtpu b (cn_transport_ctx c);
       if \<not> gtpu then Some (ret, tun0\<lparr>tn_inner := c, tn_len := cn_len c\<rparr>, PARSER_PKT_TYPE_PLAIN)
       else do { (ret, ctx) \<leftarrow> gtpu_inner_parse d b (with_outer tun0 c);
                 Some (ret, ctx, PARSER_PKT_TYPE_TUNNELED) } } }"
  by (auto simp: unknown_parse_def plain_parse_def conn_parse_def with_outer_def is_gtpu_def
      tun0_def conn0_def Let_def split: Option.bind_splits)

section \<open>Header pointers stay inside the packet\<close>

definition network_wf :: "bytes \<Rightarrow> network_parser_ctx \<Rightarrow> bool" where
  "network_wf b n \<longleftrightarrow>
     (nw_ip_version n = 4 \<and> (\<exists>p. nw_ipv4_hdr n = Some p \<and> p + 20 \<le> length b)) \<or>
     (nw_ip_version n = 41 \<and> (\<exists>p. nw_ipv6_hdr n = Some p \<and> p + 40 \<le> length b))"

definition transport_wf :: "bytes \<Rightarrow> transport_parser_ctx \<Rightarrow> bool" where
  "transport_wf b t \<longleftrightarrow>
     (tp_proto t = 6 \<and> (\<exists>p. tp_tcp_hdr t = Some p \<and> p + 20 \<le> length b)) \<or>
     (tp_proto t = 17 \<and> (\<exists>p. tp_udp_hdr t = Some p \<and> p + 8 \<le> length b))"

definition gtp_wf :: "bytes \<Rightarrow> gtp_parser_ctx \<Rightarrow> bool" where
  "gtp_wf b g \<longleftrightarrow> (\<exists>p. gtp_hdr g = Some p \<and> p + 8 \<le> length b) \<and>
     (\<forall>q. gtp_ext_hdr g = Some q \<longrightarrow> q + 4 \<le> length b)"

definition conn_wf :: "bytes \<Rightarrow> conn_parser_ctx \<Rightarrow> bool" where
  "conn_wf b c \<longleftrightarrow> network_wf b (cn_network_ctx c) \<and> transport_wf b (cn_transport_ctx c)"

lemma network_parse_wf:
  assumes "network_parse d b off p n = Some (DOCA_SUCCESS, n')"
  shows "network_wf b n'"
  using assms
  by (auto simp: network_parse_def ipv6_hdr_parse_def network_wf_def Some_bind_iff Let_def
      split: if_splits option.splits)

lemma transport_parse_wf:
  assumes "transport_parse b off p t = Some (DOCA_SUCCESS, t')"
  shows "transport_wf b t' \<and> tp_proto t' = p"
  using assms
  by (auto simp: transport_parse_def transport_wf_def Some_bind_iff Let_def split: if_splits)

lemma gtpu_parse_wf:
  assumes "gtpu_parse b off g = Some (DOCA_SUCCESS, g')"
  shows "gtp_wf b g'"
  using assms
  by (auto simp: gtpu_parse_def gtp_wf_def Some_bind_iff Let_def split: if_splits)

lemma conn_parse_successE:
  assumes "conn_parse d b off c = Some (DOCA_SUCCESS, c')"
  obtains n t where
    "network_parse d b (off + cn_len c) (lk_next_proto (cn_link_ctx c)) (cn_network_ctx c)
       = Some (DOCA_SUCCESS, n)"
    "\<not> nw_frag n"
    "transport_parse b (off + (cn_len c + nw_len n)) (nw_next_proto n) (cn_transport_ctx c)
       = Some (DOCA_SUCCESS, t)"
    "c' = c\<lparr>cn_network_ctx := n, cn_transport_ctx := t, cn_len := cn_len c + nw_len n + tp_len t\<rparr>"
  using assms by (auto simp: conn_parse_def Let_def success_simps)

lemma conn_parse_wf:
  assumes "conn_parse d b off c = Some (DOCA_SUCCESS, c')"
  shows "conn_wf b c' \<and> tp_proto (cn_transport_ctx c') = nw_next_proto (cn_network_ctx c') \<and>
         \<not> nw_frag (cn_network_ctx c')"
  using assms
  by (rule conn_parse_successE) (auto simp: conn_wf_def dest: network_parse_wf transport_parse_wf)

lemma plain_parse_successE:
  assumes "plain_parse d b c = Some (DOCA_SUCCESS, c')"
  obtains l where "link_parse b (cn_len c) (cn_link_ctx c) = Some (DOCA_SUCCESS, l)"
    "conn_parse d b 0 (c\<lparr>cn_link_ctx := l, cn_len := cn_len c + lk_len l\<rparr>) = Some (DOCA_SUCCESS, c')"
  using assms by (auto simp: plain_parse_def Let_def success_simps)

lemma plain_parse_wf:
  assumes "plain_parse d b c = Some (DOCA_SUCCESS, c')"
  shows "conn_wf b c' \<and> tp_proto (cn_transport_ctx c') = nw_next_proto (cn_network_ctx c') \<and>
         \<not> nw_frag (cn_network_ctx c')"
  using assms by (rule plain_parse_successE) (rule conn_parse_wf)

definition tun_wf :: "bytes \<Rightarrow> tun_parser_ctx \<Rightarrow> bool" where
  "tun_wf b ctx \<longleftrightarrow> network_wf b (tn_network_ctx ctx) \<and> transport_wf b (tn_transport_ctx ctx) \<and>
     tp_proto (tn_transport_ctx ctx) = nw_next_proto (tn_network_ctx ctx) \<and>
     gtp_wf b (tn_gtp_ctx ctx) \<and> conn_wf b (tn_inner ctx)"

lemma gtpu_inner_parse_wf:
  assumes "gtpu_inner_parse d b ctx = Some (DOCA_SUCCESS, ctx')"
  shows "gtp_wf b (tn_gtp_ctx ctx') \<and> conn_wf b (tn_inner ctx') \<and>
     outer_of ctx' = (outer_of ctx)\<lparr>cn_len := tn_len ctx'\<rparr>"
  using assms
  by (auto simp: gtpu_inner_parse_def outer_of_def Let_def success_simps split: if_splits
      dest: gtpu_parse_wf conn_parse_wf)

lemma tunnel_parse_wf:
  assumes "tunnel_parse d b ctx = Some (DOCA_SUCCESS, ctx')"
  shows "tun_wf b ctx'"
proof -
  obtain c where c: "plain_parse d b (outer_of ctx) = Some (DOCA_SUCCESS, c)"
      "gtpu_inner_parse d b (with_outer ctx c) = Some (DOCA_SUCCESS, ctx')"
    using assms by (auto simp: tunnel_parse_front success_simps)
  show ?thesis
    using plain_parse_wf [OF c(1)] gtpu_inner_parse_wf [OF c(2)]
    by (auto simp: tun_wf_def conn_wf_def outer_of_def with_outer_def)
qed

lemma is_gtpu_returns: "transport_wf b t \<Longrightarrow> is_gtpu b t \<noteq> None"
  by (auto simp: is_gtpu_def transport_wf_def rd_simps)

lemma outer_of_tun0 [simp]: "outer_of tun0 = conn0"
  by (simp add: outer_of_def tun0_def conn0_def)

lemma with_outer_tun0 [simp]:
  "tn_inner (with_outer tun0 c) = conn0" "tn_len (with_outer tun0 c) = cn_len c"
  "tn_gtp_ctx (with_outer tun0 c) = gtp0"
  by (simp_all add: with_outer_def tun0_def)

text \<open>A tunneled packet on which the parser of the inner headers reads behind the packet.\<close>

definition inner_cut :: "dpdk \<Rightarrow> bytes \<Rightarrow> bool" where
  "inner_cut d b \<longleftrightarrow> (\<exists>c g. plain_parse d b conn0 = Some (DOCA_SUCCESS, c) \<and>
     gtpu_parse b (cn_len c) gtp0 = Some (DOCA_SUCCESS, g) \<and> ipv6_cut d b (cn_len c + gtp_len g))"

lemma plain_parse0_len:
  assumes "plain_parse d b conn0 = Some (ret, c)" "ret = DOCA_SUCCESS \<or> ret = DOCA_ERROR_AGAIN"
  shows "cn_len c \<le> length b"
  using plain_parse_len [OF assms(1) _ assms(2)] by (simp add: conn0_def)

lemma tunnel_parse_None:
  assumes "next_ext_progress d"
  shows "tunnel_parse d b tun0 = None \<longleftrightarrow> plain_parse d b conn0 = None \<or> inner_cut d b"
proof (cases "plain_parse d b conn0")
  case (Some r)
  obtain ret c where r: "r = (ret, c)" by (cases r)
  have "gtpu_inner_parse d b (with_outer tun0 c) = None \<longleftrightarrow> inner_cut d b" if "ret = DOCA_SUCCESS"
    using gtpu_inner_parse_None [OF assms, of "with_outer tun0 c" b] plain_parse0_len Some r that
    by (auto simp: inner_cut_def)
  moreover have "\<not> inner_cut d b" if "ret \<noteq> DOCA_SUCCESS" using Some r that by (simp add: inner_cut_def)
  ultimately show ?thesis using Some r by (simp add: tunnel_parse_front)
qed (simp add: tunnel_parse_front)

lemma unknown_parse_None:
  assumes "next_ext_progress d"
  shows "unknown_parse d b tun0 ty = None \<longleftrightarrow> plain_parse d b conn0 = None \<or>
    (inner_cut d b \<and> (\<exists>c. plain_parse d b conn0 = Some (DOCA_SUCCESS, c) \<and> is_gtpu b (cn_transport_ctx c) = Some True))"
proof (cases "plain_parse d b conn0")
  case (Some r)
  obtain ret c where r: "r = (ret, c)" by (cases r)
  show ?thesis
  proof (cases "ret = DOCA_SUCCESS")
    case True
    then obtain g where g: "is_gtpu b (cn_transport_ctx c) = Some g"
      using Some r plain_parse_wf is_gtpu_returns by (fastforce simp: conn_wf_def)
    have "gtpu_inner_parse d b (with_outer tun0 c) = None \<longleftrightarrow> inner_cut d b"
      using gtpu_inner_parse_None [OF assms, of "with_outer tun0 c" b] plain_parse0_len Some r True
      by (auto simp: inner_cut_def)
    then show ?thesis using Some r True g
      by (cases "gtpu_inner_parse d b (with_outer tun0 c)") (auto simp: unknown_parse_front)
  qed (use Some r in \<open>simp add: unknown_parse_front\<close>)
qed (simp add: unknown_parse_front)

lemma tunnel_parse_len:
  assumes "tunnel_parse d b tun0 = Some (ret, ctx)" "ret = DOCA_SUCCESS \<or> ret = DOCA_ERROR_AGAIN"
  shows "tn_len ctx \<le> length b"
proof -
  obtain ret' c where c: "plain_parse d b conn0 = Some (ret', c)"
      "(if ret' \<noteq> DOCA_SUCCESS then Some (ret', with_outer tun0 c) else gtpu_inner_parse d b (with_outer tun0 c)) = Some (ret, ctx)"
    using assms(1) by (auto simp: tunnel_parse_front Some_bind_iff)
  show ?thesis
  proof (cases "ret' = DOCA_SUCCESS")
    case True
    with c have g: "gtpu_inner_parse d b (with_outer tun0 c) = Some (ret, ctx)" by simp
    show ?thesis
      using gtpu_inner_parse_len [OF g _ _ assms(2)] plain_parse0_len [OF c(1)] True by (simp add: conn0_def)
  next
    case False
    then show ?thesis using c plain_parse0_len [OF c(1)] assms(2) by auto
  qed
qed

lemma tunnel_parse_successE:
  assumes "tunnel_parse d b tun0 = Some (DOCA_SUCCESS, ctx)"
  obtains off where "conn_parse d b off conn0 = Some (DOCA_SUCCESS, tn_inner ctx)"
    and "off < length b" and "lk_len (tn_link_ctx ctx) = 14"
    and "off = 14 + nw_len (tn_network_ctx ctx) + tp_len (tn_transport_ctx ctx) + gtp_len (tn_gtp_ctx ctx)"
    and "tn_len ctx = off + cn_len (tn_inner ctx)" and "8 \<le> gtp_len (tn_gtp_ctx ctx)"
proof -
  have z: "outer_of tun0 = conn0" by (simp add: outer_of_def tun0_def conn0_def)
  obtain c where c: "plain_parse d b conn0 = Some (DOCA_SUCCESS, c)"
      "gtpu_inner_parse d b (with_outer tun0 c) = Some (DOCA_SUCCESS, ctx)"
    using assms by (auto simp: tunnel_parse_front z success_simps)
  obtain l where l: "link_parse b 0 link0 = Some (DOCA_SUCCESS, l)"
      "conn_parse d b 0 (conn0\<lparr>cn_link_ctx := l, cn_len := lk_len l\<rparr>) = Some (DOCA_SUCCESS, c)"
    using plain_parse_successE [OF c(1)] by (auto simp: conn0_def)
  have 14: "lk_len l = 14" using l(1) by (auto simp: link_parse_def success_simps)
  have outer: "cn_link_ctx c = l \<and> cn_len c = 14 + nw_len (cn_network_ctx c) + tp_len (cn_transport_ctx c)"
    using l(2) 14 by (auto elim!: conn_parse_successE simp: conn0_def)
  obtain g i where g: "gtpu_parse b (cn_len c) gtp0 = Some (DOCA_SUCCESS, g)"
      and i: "conn_parse d b (cn_len c + gtp_len g) conn0 = Some (DOCA_SUCCESS, i)"
      and ctx: "ctx = (with_outer tun0 c)\<lparr>tn_gtp_ctx := g, tn_inner := i,
                        tn_len := cn_len c + gtp_len g + cn_len i\<rparr>"
    using c(2) by (auto simp: gtpu_inner_parse_def with_outer_def tun0_def Let_def success_simps
        split: if_splits)
  have "8 \<le> gtp_len g"
    using g by (auto simp: gtpu_parse_def Let_def success_simps split: if_splits)
  moreover have "cn_len c + gtp_len g < length b"
    using i by (auto elim!: conn_parse_successE simp: conn0_def network_parse_def success_simps rd8_def
        split: if_splits)
  ultimately show thesis using that i outer 14 by (simp add: ctx with_outer_def)
qed

section \<open>Locality\<close>

text \<open>The parsers look at the bytes from their offset on: parsing a packet with a prefix in front
  gives the same result with every pointer moved by the length of the prefix.\<close>

definition shift_nw :: "nat \<Rightarrow> network_parser_ctx \<Rightarrow> network_parser_ctx" where
  "shift_nw i n = n\<lparr>nw_ipv4_hdr := map_option ((+) i) (nw_ipv4_hdr n),
     nw_ipv6_hdr := map_option ((+) i) (nw_ipv6_hdr n),
     nw_ipv6_frag_ext := map_option ((+) i) (nw_ipv6_frag_ext n)\<rparr>"

definition shift_tp :: "nat \<Rightarrow> transport_parser_ctx \<Rightarrow> transport_parser_ctx" where
  "shift_tp i t = t\<lparr>tp_udp_hdr := map_option ((+) i) (tp_udp_hdr t),
     tp_tcp_hdr := map_option ((+) i) (tp_tcp_hdr t)\<rparr>"

lemma rd_append [simp]:
  "rd8 (pre @ x) (length pre + k) = rd8 x k"
  "rd16be (pre @ x) (length pre + k) = rd16be x k"
  "rd32be (pre @ x) (length pre + k) = rd32be x k"
  "rd_bytes (pre @ x) (length pre + k) n = rd_bytes x k n"
proof -
  show r8: "rd8 (pre @ x) (length pre + k) = rd8 x k" for k by (simp add: rd8_def)
  show "rd16be (pre @ x) (length pre + k) = rd16be x k"
    "rd32be (pre @ x) (length pre + k) = rd32be x k"
    by (simp_all only: rd16be_def rd32be_def r8 add.assoc)
  show "rd_bytes (pre @ x) (length pre + k) n = rd_bytes x k n"
    by (simp add: rd_bytes_def)
qed

lemma ipv6_ext_loop_local:
  assumes "ipv6_ext_loop d x k proto np tot fr = Some (e, np', tot', fr')"
  shows "ipv6_ext_loop d (pre @ x) (length pre + k) proto np tot (map_option ((+) (length pre)) fr)
         = Some (e, np', tot', map_option ((+) (length pre)) fr')"
  using assms
proof (induction d x k proto np tot fr "(e, np', tot', fr')" rule: ipv6_ext_loop.raw_induct [rotated, consumes 1])
  case (1 loop d x k proto np tot fr)
  show ?case
  proof (cases "proto = - EINVAL")
    case True
    then show ?thesis using 1(2) by (subst ipv6_ext_loop.simps) simp
  next
    case False
    then obtain p n where g: "rte_ipv6_get_next_ext d (drop (k + tot) x) proto = Some (p, n)"
      using 1(2) by (auto simp: Let_def Some_bind_iff)
    let ?fr = "if proto = 44 then Some (k + tot) else fr"
    note unfold = ipv6_ext_loop.simps [of d "pre @ x" "length pre + k" proto np tot]
    have fr: "(if proto = 44 then Some (length pre + k + tot) else map_option ((+) (length pre)) fr)
        = map_option ((+) (length pre)) ?fr" by simp
    show ?thesis
    proof (cases "k + (tot + n) > length x")
      case True
      with False 1(2) g have "(e, np', tot', fr') = (DOCA_ERROR_INVALID_VALUE, of_int proto, tot + n, ?fr)"
        by (simp add: Let_def)
      with True False g show ?thesis unfolding unfold fr by (simp add: Let_def add.assoc del: if_split)
    next
      case short: False
      with False 1(2) g have "loop d x k p (of_int proto) (tot + n) ?fr = Some (e, np', tot', fr')"
        by (simp add: Let_def del: if_split)
      from 1(1) [OF this] short False g show ?thesis
        unfolding unfold fr by (simp add: Let_def add.assoc del: if_split)
    qed
  qed
qed

lemma ext_cut_local: "ext_cut d x k proto tot \<Longrightarrow> ext_cut d (pre @ x) (length pre + k) proto tot"
  by (induction rule: ext_cut.induct) (auto simp: add.assoc intro: ext_cut.intros)

lemma ipv6_cut_local: "ipv6_cut d x k \<Longrightarrow> ipv6_cut d (pre @ x) (length pre + k)"
  using ext_cut_local [of d x k] by (auto simp: ipv6_cut_def nth_append add.assoc)

lemma ipv6_hdr_parse_local:
  assumes "ipv6_hdr_parse d x k (network0\<lparr>nw_ip_version := v\<rparr>) = Some (e, n)"
  shows "ipv6_hdr_parse d (pre @ x) (length pre + k) (network0\<lparr>nw_ip_version := v\<rparr>)
         = Some (e, shift_nw (length pre) n)"
proof (cases "k + 40 \<le> length x")
  case False
  then show ?thesis using assms by (auto simp: ipv6_hdr_parse_def network0_def shift_nw_def)
next
  case True
  then obtain proto r np tot fr where l: "rd8 x (k + 6) = Some proto"
      "ipv6_ext_loop d x k (uint proto) 59 40 None = Some (r, np, tot, fr)"
    using assms by (auto simp: ipv6_hdr_parse_def Some_bind_iff)
  show ?thesis
    using assms True l(1) l(2) ipv6_ext_loop_local [OF l(2), of pre]
    by (auto simp: ipv6_hdr_parse_def network0_def shift_nw_def Let_def add.assoc
        split: option.splits if_splits)
qed

lemma network_parse_local:
  assumes "network_parse d x k p network0 = Some (e, n)"
  shows "network_parse d (pre @ x) (length pre + k) p network0 = Some (e, shift_nw (length pre) n)"
proof (cases "k = length x")
  case True
  then show ?thesis using assms by (auto simp: network_parse_def network0_def shift_nw_def)
next
  case False
  with assms obtain first where f: "rd8 x k = Some first"
    by (auto simp: network_parse_def Some_bind_iff)
  consider "drop_bit 4 first = 4" | "drop_bit 4 first \<noteq> 4" "drop_bit 4 first = 6"
    | "drop_bit 4 first \<noteq> 4" "drop_bit 4 first \<noteq> 6" by blast
  then show ?thesis
  proof cases
    case 1
    then show ?thesis
      using assms f False
      by (simp add: network_parse_def network0_def shift_nw_def Let_def add.assoc
          split: if_split_asm Option.bind_split_asm) auto
  next
    case 2
    show ?thesis
    proof (cases "p \<noteq> 0 \<and> p \<noteq> 0x86DD")
      case True
      then show ?thesis
        using assms f False 2 by (auto simp: network_parse_def network0_def shift_nw_def Let_def)
    next
      case ok: False
      then obtain r where r: "ipv6_hdr_parse d x k (network0\<lparr>nw_ip_version := 41\<rparr>) = Some (r, n)"
          "e = (if r \<noteq> DOCA_SUCCESS then DOCA_ERROR_INVALID_VALUE else DOCA_SUCCESS)"
        using assms f False 2 by (auto simp: network_parse_def Let_def Some_bind_iff split: if_splits)
      show ?thesis
        using f False 2 ok ipv6_hdr_parse_local [OF r(1), of pre] r(2)
        by (auto simp: network_parse_def Let_def)
    qed
  next
    case 3
    then show ?thesis using assms f False by (auto simp: network_parse_def network0_def shift_nw_def)
  qed
qed

lemma transport_parse_local:
  assumes "transport_parse x k p transport0 = Some (e, t)"
  shows "transport_parse (pre @ x) (length pre + k) p transport0 = Some (e, shift_tp (length pre) t)"
  using assms
  by (auto simp: transport_parse_def transport0_def shift_tp_def Let_def Some_bind_iff add.assoc
      split: if_splits)


lemma network_parse_expected:
  assumes "network_parse d b k 0 n = Some (DOCA_SUCCESS, n')"
  shows "network_parse d b k (if nw_ip_version n' = 4 then 0x0800 else 0x86DD) n
         = Some (DOCA_SUCCESS, n')"
proof -
  have "nw_ip_version n'' = 41" if "ipv6_hdr_parse d b k (n\<lparr>nw_ip_version := 41\<rparr>) = Some (DOCA_SUCCESS, n'')" for n''
    using that by (auto simp: ipv6_hdr_parse_def Let_def success_simps split: option.splits)
  then show ?thesis
    using assms by (auto simp: network_parse_def Let_def success_simps split: if_splits)
qed

text \<open>An inner packet parsed behind one prefix parses behind any other.\<close>

lemma conn_parse_moved:
  assumes d: "next_ext_progress d"
    and i: "conn_parse d (pre0 @ x) (length pre0) conn0 = Some (DOCA_SUCCESS, i)"
    and l: "lk_next_proto l = (if nw_ip_version (cn_network_ctx i) = 4 then 0x0800 else 0x86DD)"
  obtains n t c where
    "conn_parse d (pre @ x) 0 (conn0\<lparr>cn_link_ctx := l, cn_len := length pre\<rparr>) = Some (DOCA_SUCCESS, c)"
    "cn_len c = length pre + cn_len i" "cn_link_ctx c = l"
    "cn_network_ctx i = shift_nw (length pre0) n" "cn_network_ctx c = shift_nw (length pre) n"
    "cn_transport_ctx i = shift_tp (length pre0) t" "cn_transport_ctx c = shift_tp (length pre) t"
proof -
  from i obtain n0 t0 where 0: "network_parse d (pre0 @ x) (length pre0) 0 network0 = Some (DOCA_SUCCESS, n0)"
      "\<not> nw_frag n0"
      "transport_parse (pre0 @ x) (length pre0 + nw_len n0) (nw_next_proto n0) transport0
        = Some (DOCA_SUCCESS, t0)"
      "i = conn0\<lparr>cn_network_ctx := n0, cn_transport_ctx := t0, cn_len := nw_len n0 + tp_len t0\<rparr>"
    by (rule conn_parse_successE) (auto simp: conn0_def link0_def)
  obtain e n where n: "network_parse d x 0 0 network0 = Some (e, n)"
    using network_parse_None [OF d, of 0 x 0 network0] network_parse_None [OF d, of "length pre0" "pre0 @ x" 0 network0]
      ipv6_cut_local [of d x 0 pre0] 0(1) by fastforce
  from network_parse_local [OF n, of pre0] 0(1)
  have e: "e = DOCA_SUCCESS" and n0: "n0 = shift_nw (length pre0) n" by simp_all
  then have nn: "nw_len n0 = nw_len n" "nw_next_proto n0 = nw_next_proto n" "nw_frag n0 = nw_frag n"
      "nw_ip_version n0 = nw_ip_version n" by (simp_all add: shift_nw_def)
  have "nw_len n \<le> length x" using nw.fits [of d x 0 0 network0 n] n e by simp
  then obtain e' t where t: "transport_parse x (nw_len n) (nw_next_proto n) transport0 = Some (e', t)"
    using tp.returns [of "nw_len n" x "nw_next_proto n" transport0] by fastforce
  from transport_parse_local [OF t, of pre0] 0(3) nn
  have e': "e' = DOCA_SUCCESS" and t0: "t0 = shift_tp (length pre0) t" by simp_all
  have vn: "lk_next_proto l = (if nw_ip_version n = 4 then 0x0800 else 0x86DD)"
    using l 0(4) nn by simp
  have "network_parse d (pre @ x) (length pre) (lk_next_proto l) network0
      = Some (DOCA_SUCCESS, shift_nw (length pre) n)"
    using network_parse_local [of d x 0 "lk_next_proto l" DOCA_SUCCESS n pre]
      network_parse_expected [of d x 0 network0 n] n e vn by simp
  moreover have "transport_parse (pre @ x) (length pre + nw_len n) (nw_next_proto n) transport0
      = Some (DOCA_SUCCESS, shift_tp (length pre) t)"
    using transport_parse_local [OF t, of pre] e' by simp
  ultimately show thesis
    using that [of "conn0\<lparr>cn_link_ctx := l, cn_network_ctx := shift_nw (length pre) n,
        cn_transport_ctx := shift_tp (length pre) t, cn_len := length pre + nw_len n + tp_len t\<rparr>" n t]
      0 nn n0 t0
    by (auto simp: conn_parse_def conn0_def shift_nw_def shift_tp_def Let_def)
qed

section \<open>Properties\<close>

text \<open>A concrete instance of the DPDK helpers, and a GTP-U packet, for the witnesses.\<close>

definition ref_dpdk :: dpdk where
  "ref_dpdk = \<lparr>rte_ipv4_hdr_len = (\<lambda>h. (h ! 0 AND 0x0f) * 4),
     rte_ipv4_frag_pkt_is_fragmented = (\<lambda>h. be16 (h ! 6) (h ! 7) AND 0x3fff \<noteq> 0),
     rte_ipv6_get_next_ext = (\<lambda>p proto.
        if proto = 44 then do { next \<leftarrow> rd8 p 0; Some (uint next, 8) }
        else if proto = 0 \<or> proto = 43 \<or> proto = 60
        then do { next \<leftarrow> rd8 p 0; len \<leftarrow> rd8 p 1; Some (uint next, (unat len + 1) * 8) }
        else if proto = 51
        then do { next \<leftarrow> rd8 p 0; len \<leftarrow> rd8 p 1; Some (uint next, (unat len + 2) * 4) }
        else Some (- EINVAL, 0))\<rparr>"

definition gtpu_packet :: bytes where
  "gtpu_packet =
     [2, 0, 0, 0, 0, 1, 2, 0, 0, 0, 0, 2, 0x08, 0x00,
      0x45, 0, 0, 64, 0, 0, 0, 0, 64, 17, 0, 0, 10, 0, 0, 1, 10, 0, 0, 2,
      0x08, 0x68, 0x08, 0x68, 0, 44, 0, 0,
      0x30, 0xff, 0, 28, 0, 0, 0, 123,
      0x45, 0, 0, 28, 0, 0, 0, 0, 64, 17, 0, 0, 10, 1, 0, 5, 8, 8, 8, 8,
      0x04, 0xd2, 0, 53, 0, 8, 0, 0]"

lemma ref_dpdk_progress: "next_ext_progress ref_dpdk"
  by (auto simp: next_ext_progress_def ref_dpdk_def Some_bind_iff split: if_splits)

lemma ref_dpdk_reads: "next_ext_reads ref_dpdk"
  by (auto simp: next_ext_reads_def ref_dpdk_def rd8_def)

lemmas parser_eval =
  tunnel_parse_def plain_parse_def unknown_parse_def gtpu_inner_parse_def conn_parse_def
  link_parse_def network_parse_def transport_parse_def gtpu_parse_def rd16be_def rd8_def be16_def
  rd_bytes_def gtp_ver_def gtp_e_def gtp_s_def gtp_pn_def tun0_def conn0_def link0_def network0_def
  transport0_def gtp0_def get_rte_tcp_hdr_len_def

lemma gtpu_packet_tunnel:
  "\<exists>ctx. tunnel_parse ref_dpdk gtpu_packet tun0 = Some (DOCA_SUCCESS, ctx) \<and> tn_len ctx = 78
     \<and> nw_len (tn_network_ctx ctx) = 20 \<and> cn_len (tn_inner ctx) = 28"
  by (simp add: parser_eval ref_dpdk_def gtpu_packet_def Let_def)

text \<open>An IPv6 packet that announces a hop-by-hop extension header and ends with the IPv6 header.\<close>

definition cut_packet :: bytes where
  "cut_packet =
     [2, 0, 0, 0, 0, 1, 2, 0, 0, 0, 0, 2, 0x86, 0xDD,
      0x60, 0, 0, 0, 0, 0, 0, 64,
      0xfe, 0x80, 0, 0, 0, 0, 0, 0, 0, 0, 0, 0, 0, 0, 0, 1,
      0xfe, 0x80, 0, 0, 0, 0, 0, 0, 0, 0, 0, 0, 0, 0, 0, 2]"

lemma cut_packet_cut: "eth_ipv6 cut_packet \<and> ipv6_cut ref_dpdk cut_packet 14"
proof -
  have "ext_cut ref_dpdk cut_packet 14 0 40"
    by (rule ext_cut.here) (simp_all add: cut_packet_def ref_dpdk_def EINVAL_def rd8_def)
  then show ?thesis by (simp add: cut_packet_def eth_ipv6_def ipv6_cut_def be16_def)
qed



text \<open>
  \<open>unknown_parse\<close> agrees with the parser of the type it infers: when it classifies the packet
  as tunneled, its error code and context are those of \<open>tunnel_parse\<close>; when as plain, its code and
  inner context are those of \<open>plain_parse\<close>; otherwise it fails with the code of \<open>plain_parse\<close> and
  leaves the context untouched.
\<close>

theorem unknown_parse_agrees:
  assumes "unknown_parse d b tun0 PARSER_PKT_TYPE_UNKNOWN = Some (ret, ctx, ty)"
  shows "case ty of
           PARSER_PKT_TYPE_TUNNELED \<Rightarrow> tunnel_parse d b tun0 = Some (ret, ctx)
         | PARSER_PKT_TYPE_PLAIN \<Rightarrow> plain_parse d b conn0 = Some (ret, tn_inner ctx) \<and>
             (ret = DOCA_SUCCESS \<or> ret = DOCA_ERROR_AGAIN)
         | PARSER_PKT_TYPE_UNKNOWN \<Rightarrow> ctx = tun0 \<and> ret \<noteq> DOCA_SUCCESS \<and>
             (\<exists>c. plain_parse d b conn0 = Some (ret, c))"
proof -
  show ?thesis
    using assms
    by (auto simp: unknown_parse_front tunnel_parse_front Some_bind_iff split: if_splits)
qed

theorem unknown_parse_agrees_witness:
  "\<exists>ctx. unknown_parse ref_dpdk gtpu_packet tun0 PARSER_PKT_TYPE_UNKNOWN
       = Some (DOCA_SUCCESS, ctx, PARSER_PKT_TYPE_TUNNELED) \<and>
     tunnel_parse ref_dpdk gtpu_packet tun0 = Some (DOCA_SUCCESS, ctx)"
proof -
  have "\<exists>ctx. unknown_parse ref_dpdk gtpu_packet tun0 PARSER_PKT_TYPE_UNKNOWN
       = Some (DOCA_SUCCESS, ctx, PARSER_PKT_TYPE_TUNNELED)"
    by (simp add: parser_eval ref_dpdk_def gtpu_packet_def Let_def)
  then show ?thesis using unknown_parse_agrees by fastforce
qed

text \<open>
  On success the parsed length of a tunneled packet is the sum of the header lengths, outer
  and inner, with a 14-byte Ethernet header in front, so the distance the GTP-U decapsulation
  removes (everything before the inner packet, less room for a new Ethernet header) is the outer
  IP, UDP and GTP-U headers, and does not underflow.
\<close>

theorem tunnel_parse_lengths:
  assumes "tunnel_parse d b tun0 = Some (DOCA_SUCCESS, ctx)"
  shows "lk_len (tn_link_ctx ctx) = 14 \<and>
    tn_len ctx = 14 + nw_len (tn_network_ctx ctx) + tp_len (tn_transport_ctx ctx) +
                 gtp_len (tn_gtp_ctx ctx) + cn_len (tn_inner ctx) \<and>
    cn_len (tn_inner ctx) = nw_len (cn_network_ctx (tn_inner ctx)) +
                            tp_len (cn_transport_ctx (tn_inner ctx)) \<and>
    8 \<le> gtp_len (tn_gtp_ctx ctx)"
proof -
  from assms obtain off where o: "conn_parse d b off conn0 = Some (DOCA_SUCCESS, tn_inner ctx)"
      "lk_len (tn_link_ctx ctx) = 14" "tn_len ctx = off + cn_len (tn_inner ctx)"
      "off = 14 + nw_len (tn_network_ctx ctx) + tp_len (tn_transport_ctx ctx) + gtp_len (tn_gtp_ctx ctx)"
      "8 \<le> gtp_len (tn_gtp_ctx ctx)"
    by (rule tunnel_parse_successE)
  moreover from o(1) have "cn_len (tn_inner ctx) = nw_len (cn_network_ctx (tn_inner ctx)) +
      tp_len (cn_transport_ctx (tn_inner ctx))"
    by (auto elim!: conn_parse_successE simp: conn0_def)
  ultimately show ?thesis by simp
qed

theorem tunnel_parse_lengths_witness:
  "\<exists>ctx. tunnel_parse ref_dpdk gtpu_packet tun0 = Some (DOCA_SUCCESS, ctx) \<and>
     tn_len ctx - cn_len (tn_inner ctx) - 14 = 20 + tp_len (tn_transport_ctx ctx) + gtp_len (tn_gtp_ctx ctx)"
proof -
  obtain ctx where c: "tunnel_parse ref_dpdk gtpu_packet tun0 = Some (DOCA_SUCCESS, ctx)"
      "nw_len (tn_network_ctx ctx) = 20"
    using gtpu_packet_tunnel by blast
  show ?thesis using tunnel_parse_lengths [OF c(1)] c by auto
qed

end
