(* ===== verification/Upf_Types.thy ===== *)
theory Upf_Types
  imports Packet_Parser
begin

text \<open>
  The data structures of \<open>applications/upf_accel/upf_accel.h\<close> and
  \<open>applications/upf_accel/upf_accel_flow_processing.h\<close> that the flow processing works on.

  \<^item> \<open>union upf_accel_ip\<close> (16 bytes, little-endian targets) is a 128-bit word: \<open>v4\<close> is its low 32
    bits, \<open>v6[i]\<close> its byte \<open>i\<close>.
  \<^item> An array indexed by the packet type (\<open>PARSER_PKT_TYPE_NUM\<close> = 2 elements) is a function of
    \<^typ>\<open>parser_pkt_type\<close>; the code never indexes one with \<open>PARSER_PKT_TYPE_UNKNOWN\<close>.
  \<^item> A pointer to a connection is its index in \<open>dyn_tbl_data\<close>, a pointer to an extension entry its
    index in \<open>dyn_ext_tbl_data\<close>; accesses outside the tables are \<open>None\<close>.  \<open>int32_t\<close> indices are
    integers, with \<open>-1\<close> for \<open>UPF_ACCEL_SW_AGING_LL_INVALID_NODE\<close>.
  \<^item> \<open>struct rte_hash\<close> tables are opaque (type variables \<open>'h\<close> and \<open>'x\<close>), as is the state of the DOCA
    Flow engine behind \<open>ctx\<close> (\<open>'w\<close>); a DOCA Flow entry handle is a number.
\<close>

type_synonym upf_accel_ip = "128 word"

definition ip_v4 :: "upf_accel_ip \<Rightarrow> u32" where "ip_v4 ip = ucast ip"

definition ip_set_v4 :: "upf_accel_ip \<Rightarrow> u32 \<Rightarrow> upf_accel_ip" where
  "ip_set_v4 ip v = (ip AND NOT (mask 32)) OR ucast v"

definition ip_v6 :: "upf_accel_ip \<Rightarrow> nat \<Rightarrow> u8" where
  "ip_v6 ip i = ucast (drop_bit (8 * i) ip)"

definition ip_of_v6 :: "bytes \<Rightarrow> upf_accel_ip" where
  "ip_of_v6 bs = foldr (\<lambda>x acc. ucast x OR push_bit 8 acc) bs 0"

datatype doca_flow_l3_type = L3_TYPE_NONE | L3_TYPE_IP4 | L3_TYPE_IP6

datatype upf_accel_port = UPF_ACCEL_PORT0 | UPF_ACCEL_PORT1

datatype upf_accel_pdr_pdi_si = UPF_ACCEL_PDR_PDI_SI_UL | UPF_ACCEL_PDR_PDI_SI_DL

datatype upf_accel_entry_state =
    UPF_ACCEL_ENTRY_STATE_NONE
  | UPF_ACCEL_ENTRY_STATE_PENDING
  | UPF_ACCEL_ENTRY_STATE_UNACCELERATED
  | UPF_ACCEL_ENTRY_STATE_PENDING_ACCELERATION
  | UPF_ACCEL_ENTRY_STATE_ACCELERATED
  | UPF_ACCEL_ENTRY_STATE_PENDING_DEACCELERATION

record upf_accel_ip_addr =
  ipa_addr :: upf_accel_ip
  ipa_mask :: upf_accel_ip
  ipa_ip_version :: doca_flow_l3_type

record upf_accel_ip_port_range =
  pr_from :: u16
  pr_to :: u16

record upf_accel_pdr =
  pdr_id :: u32
  pdr_farid :: u32
  pdr_urrids_num :: nat
  pdr_urrids :: "u32 list"
  pdr_qerids_num :: nat
  pdr_qerids :: "u32 list"
  pdr_pdi_si :: upf_accel_pdr_pdi_si
  pdr_pdi_local_teid_start :: u32
  pdr_pdi_local_teid_end :: u32
  pdr_pdi_local_teid_ip :: upf_accel_ip_addr
  pdr_pdi_ueip :: upf_accel_ip_addr
  pdr_pdi_sdf_proto :: u16
  pdr_pdi_qfi :: u8
  pdr_pdi_sdf_from_ip :: upf_accel_ip_addr
  pdr_pdi_sdf_from_port_range :: upf_accel_ip_port_range
  pdr_pdi_sdf_to_ip :: upf_accel_ip_addr
  pdr_pdi_sdf_to_port_range :: upf_accel_ip_port_range

record upf_accel_match_tun =
  te_ip :: upf_accel_ip
  te_id :: u32
  tun_qfi :: u8
  tun_ip_version :: doca_flow_l3_type

record upf_accel_match_5t =
  ue_ip :: upf_accel_ip
  extern_ip :: upf_accel_ip
  ue_port :: u16
  extern_port :: u16
  m5_ip_version :: doca_flow_l3_type
  ip_proto :: u8

record upf_accel_match_8t =
  m8_inner :: upf_accel_match_5t
  m8_outer :: upf_accel_match_tun

record upf_accel_match_extension =
  me_ue_ip :: upf_accel_ip
  me_te_id :: u32
  me_qfi :: u8

definition match_5t0 :: upf_accel_match_5t where
  "match_5t0 = \<lparr>ue_ip = 0, extern_ip = 0, ue_port = 0, extern_port = 0,
                m5_ip_version = L3_TYPE_NONE, ip_proto = 0\<rparr>"

definition match_tun0 :: upf_accel_match_tun where
  "match_tun0 = \<lparr>te_ip = 0, te_id = 0, tun_qfi = 0, tun_ip_version = L3_TYPE_NONE\<rparr>"

definition match_8t0 :: upf_accel_match_8t where
  "match_8t0 = \<lparr>m8_inner = match_5t0, m8_outer = match_tun0\<rparr>"

record upf_accel_sw_aging_ll =
  ll_head :: int
  ll_tail :: int

record upf_accel_sw_aging_ll_node =
  nd_prev :: int
  nd_next :: int
  nd_timestamp :: u64

record upf_accel_extension_entry_ctx =
  ex_match :: upf_accel_match_extension
  ex_entry :: "nat option"
  ex_del_next :: "nat option"
  ex_hash :: u32
  ex_md_value :: u32
  ex_ref_cnt :: u32
  ex_state :: upf_accel_entry_state

record upf_accel_flow_entry =
  fe_entry :: "nat option"
  fe_ext_entry :: "int option"
  fe_sw_aging_node :: upf_accel_sw_aging_ll_node
  fe_state :: upf_accel_entry_state

record upf_accel_dyn_entry_ctx =
  dy_match :: upf_accel_match_8t
  dy_cnt_pkts :: "parser_pkt_type \<Rightarrow> u64"
  dy_cnt_bytes :: "parser_pkt_type \<Rightarrow> u64"
  dy_entries :: "parser_pkt_type \<Rightarrow> upf_accel_flow_entry"
  dy_pdr_id :: "parser_pkt_type \<Rightarrow> u32"
  dy_conn_idx :: int
  dy_hash :: u32
  dy_port_id :: upf_accel_port

text \<open>\<open>memset(conn, 0, sizeof(*conn))\<close>.\<close>

definition node0 :: upf_accel_sw_aging_ll_node where
  "node0 = \<lparr>nd_prev = 0, nd_next = 0, nd_timestamp = 0\<rparr>"

definition flow_entry0 :: upf_accel_flow_entry where
  "flow_entry0 = \<lparr>fe_entry = None, fe_ext_entry = None, fe_sw_aging_node = node0,
                  fe_state = UPF_ACCEL_ENTRY_STATE_NONE\<rparr>"

definition dyn_ctx0 :: upf_accel_dyn_entry_ctx where
  "dyn_ctx0 = \<lparr>dy_match = match_8t0, dy_cnt_pkts = (\<lambda>_. 0), dy_cnt_bytes = (\<lambda>_. 0),
     dy_entries = (\<lambda>_. flow_entry0), dy_pdr_id = (\<lambda>_. 0), dy_conn_idx = 0, dy_hash = 0,
     dy_port_id = UPF_ACCEL_PORT0\<rparr>"

record upf_accel_packet_byte_counter =
  ctr_pkts :: u64
  ctr_bytes :: u64

record upf_accel_fp_sw_counters =
  sw_new_conn :: upf_accel_packet_byte_counter
  sw_ex_conn :: upf_accel_packet_byte_counter
  sw_err :: upf_accel_packet_byte_counter

record upf_accel_fp_accel_counters =
  ac_current :: u64
  ac_total :: u64
  ac_accel_errors :: u64
  ac_aging_errors :: u64
  ac_del_errors :: u64

record entries_status =
  es_failure :: bool
  es_nb_processed :: int

text \<open>
  \<open>struct upf_accel_fp_data\<close>.  The configuration fields the flow processing reads through \<open>ctx\<close>
  (\<open>pdrs\<close>, \<open>dpi_threshold\<close>, \<open>sw_aging_time_sec\<close>, \<open>num_ports\<close>, the static entry contexts) are fields here,
  as is the allocated size of the two data tables.
\<close>

record ('h, 'x, 'w) upf_accel_fp_data =
  fp_pdrs :: "upf_accel_pdr list"
  fp_dpi_threshold :: u32
  fp_sw_aging_time_sec :: u32
  fp_num_ports :: nat
  fp_flow :: 'w
  fp_queue_id :: u16
  fp_dyn_tbl :: 'h
  fp_dyn_tbl_size :: int
  fp_dyn_tbl_data :: "int \<Rightarrow> upf_accel_dyn_entry_ctx"
  fp_dyn_ext_tbl :: 'x
  fp_dyn_ext_tbl_size :: int
  fp_dyn_ext_tbl_data :: "int \<Rightarrow> upf_accel_extension_entry_ctx"
  fp_sw_counters :: upf_accel_fp_sw_counters
  fp_accel_counters :: "parser_pkt_type \<Rightarrow> upf_accel_fp_accel_counters"
  fp_unaccel_counters :: "parser_pkt_type \<Rightarrow> upf_accel_fp_accel_counters"
  fp_accel_failed_counters :: "parser_pkt_type \<Rightarrow> upf_accel_fp_accel_counters"
  fp_sw_aging_ll :: "parser_pkt_type \<Rightarrow> upf_accel_sw_aging_ll"
  fp_last_hw_aging_tsc :: "upf_accel_port \<Rightarrow> u64"
  fp_hw_aging_in_progress :: "upf_accel_port \<Rightarrow> bool"
  fp_static_entry_ctx :: "upf_accel_port \<Rightarrow> entries_status"

text \<open>Table accesses, \<open>None\<close> outside the allocated table.\<close>

definition conn_at :: "('h, 'x, 'w) upf_accel_fp_data \<Rightarrow> int \<Rightarrow> upf_accel_dyn_entry_ctx option" where
  "conn_at fp i = (if 0 \<le> i \<and> i < fp_dyn_tbl_size fp then Some (fp_dyn_tbl_data fp i) else None)"

definition conn_upd :: "('h, 'x, 'w) upf_accel_fp_data \<Rightarrow> int \<Rightarrow>
    (upf_accel_dyn_entry_ctx \<Rightarrow> upf_accel_dyn_entry_ctx) \<Rightarrow> ('h, 'x, 'w) upf_accel_fp_data option" where
  "conn_upd fp i f = (if 0 \<le> i \<and> i < fp_dyn_tbl_size fp
     then Some (fp\<lparr>fp_dyn_tbl_data := (fp_dyn_tbl_data fp)(i := f (fp_dyn_tbl_data fp i))\<rparr>)
     else None)"

definition ext_at :: "('h, 'x, 'w) upf_accel_fp_data \<Rightarrow> int \<Rightarrow> upf_accel_extension_entry_ctx option" where
  "ext_at fp i =
     (if 0 \<le> i \<and> i < fp_dyn_ext_tbl_size fp then Some (fp_dyn_ext_tbl_data fp i) else None)"

definition ext_upd :: "('h, 'x, 'w) upf_accel_fp_data \<Rightarrow> int \<Rightarrow>
    (upf_accel_extension_entry_ctx \<Rightarrow> upf_accel_extension_entry_ctx) \<Rightarrow>
    ('h, 'x, 'w) upf_accel_fp_data option" where
  "ext_upd fp i f = (if 0 \<le> i \<and> i < fp_dyn_ext_tbl_size fp
     then Some (fp\<lparr>fp_dyn_ext_tbl_data := (fp_dyn_ext_tbl_data fp)(i := f (fp_dyn_ext_tbl_data fp i))\<rparr>)
     else None)"

text \<open>Updates of one element of a per-type array.\<close>

definition entry_upd :: "parser_pkt_type \<Rightarrow> (upf_accel_flow_entry \<Rightarrow> upf_accel_flow_entry) \<Rightarrow>
    upf_accel_dyn_entry_ctx \<Rightarrow> upf_accel_dyn_entry_ctx" where
  "entry_upd ty f c = c\<lparr>dy_entries := (dy_entries c)(ty := f (dy_entries c ty))\<rparr>"

definition unaccel_upd :: "parser_pkt_type \<Rightarrow>
    (upf_accel_fp_accel_counters \<Rightarrow> upf_accel_fp_accel_counters) \<Rightarrow>
    ('h, 'x, 'w) upf_accel_fp_data \<Rightarrow> ('h, 'x, 'w) upf_accel_fp_data" where
  "unaccel_upd ty f fp =
     fp\<lparr>fp_unaccel_counters := (fp_unaccel_counters fp)(ty := f (fp_unaccel_counters fp ty))\<rparr>"

definition accel_upd :: "parser_pkt_type \<Rightarrow>
    (upf_accel_fp_accel_counters \<Rightarrow> upf_accel_fp_accel_counters) \<Rightarrow>
    ('h, 'x, 'w) upf_accel_fp_data \<Rightarrow> ('h, 'x, 'w) upf_accel_fp_data" where
  "accel_upd ty f fp =
     fp\<lparr>fp_accel_counters := (fp_accel_counters fp)(ty := f (fp_accel_counters fp ty))\<rparr>"

definition accel_failed_upd :: "parser_pkt_type \<Rightarrow>
    (upf_accel_fp_accel_counters \<Rightarrow> upf_accel_fp_accel_counters) \<Rightarrow>
    ('h, 'x, 'w) upf_accel_fp_data \<Rightarrow> ('h, 'x, 'w) upf_accel_fp_data" where
  "accel_failed_upd ty f fp =
     fp\<lparr>fp_accel_failed_counters := (fp_accel_failed_counters fp)(ty := f (fp_accel_failed_counters fp ty))\<rparr>"

definition ll_upd :: "parser_pkt_type \<Rightarrow> (upf_accel_sw_aging_ll \<Rightarrow> upf_accel_sw_aging_ll) \<Rightarrow>
    ('h, 'x, 'w) upf_accel_fp_data \<Rightarrow> ('h, 'x, 'w) upf_accel_fp_data" where
  "ll_upd ty f fp = fp\<lparr>fp_sw_aging_ll := (fp_sw_aging_ll fp)(ty := f (fp_sw_aging_ll fp ty))\<rparr>"

section \<open>Parameter: the DPDK hash table\<close>

text \<open>
  The calls of \<open>librte_hash\<close> the flow processing makes.  A call that changes the table returns the
  table as it is afterwards; the integer is the position (negative on failure).  The bulk lookup
  returns its error code and the array of positions.
\<close>

record ('h, 'k) rte_hash_api =
  rte_hash_hash :: "'h \<Rightarrow> 'k \<Rightarrow> u32"
  rte_hash_add_key_with_hash :: "'h \<Rightarrow> 'k \<Rightarrow> u32 \<Rightarrow> int \<times> 'h"
  rte_hash_del_key_with_hash :: "'h \<Rightarrow> 'k \<Rightarrow> u32 \<Rightarrow> int \<times> 'h"
  rte_hash_lookup :: "'h \<Rightarrow> 'k \<Rightarrow> int"
  rte_hash_lookup_bulk :: "'h \<Rightarrow> 'k list \<Rightarrow> int \<times> (nat \<Rightarrow> int)"

end
