(* ===== verification/Upf_Match.thy ===== *)
theory Upf_Match
  imports Upf_Types
begin

text \<open>
  The matching part of \<open>applications/upf_accel/upf_accel_flow_processing.c\<close>: masked IP comparison,
  extraction of the 5-tuple and of the GTP-U tunnel key from a parsed packet, and the lookup of the
  packet detection rule (PDR).  \<open>None\<close> is a read outside the packet, a NULL header pointer or a
  failed \<open>assert\<close>.
\<close>

section \<open>Masked IP comparison\<close>

definition ipv4_masked_is_matching :: "upf_accel_ip_addr \<Rightarrow> u32 \<Rightarrow> bool" where
  "ipv4_masked_is_matching masked ipv4 \<longleftrightarrow> ip_v4 (ipa_addr masked) = ipv4 AND ip_v4 (ipa_mask masked)"

text \<open>The byte loop and the \<open>memcmp\<close> of the 16 masked bytes.\<close>

definition ipv6_masked_is_matching :: "upf_accel_ip_addr \<Rightarrow> upf_accel_ip \<Rightarrow> bool" where
  "ipv6_masked_is_matching mask_ip ipv6 \<longleftrightarrow>
     (let masked = map (\<lambda>i. ip_v6 ipv6 i AND ip_v6 (ipa_mask mask_ip) i) [0..<16]
      in masked = map (ip_v6 (ipa_addr mask_ip)) [0..<16])"

definition ip_masked_is_matching :: "upf_accel_ip_addr \<Rightarrow> upf_accel_ip \<Rightarrow> bool option" where
  "ip_masked_is_matching masked ip =
     (case ipa_ip_version masked of
        L3_TYPE_IP4 \<Rightarrow> Some (ipv4_masked_is_matching masked (ip_v4 ip))
      | L3_TYPE_IP6 \<Rightarrow> Some (ipv6_masked_is_matching masked ip)
      | L3_TYPE_NONE \<Rightarrow> None)"

section \<open>Match keys\<close>

text \<open>The output parameters of \<open>upf_accel_5t_match\<close>, filled through pointers.\<close>

record tuple5 =
  t5_src_ip :: upf_accel_ip
  t5_dst_ip :: upf_accel_ip
  t5_src_port :: u16
  t5_dst_port :: u16
  t5_ip_version :: doca_flow_l3_type
  t5_ip_proto :: u8

definition upf_accel_5t_match ::
  "bytes \<Rightarrow> conn_parser_ctx \<Rightarrow> tuple5 \<Rightarrow> (doca_error_t \<times> tuple5) option" where
  "upf_accel_5t_match b parse_ctx t = do {
     let tp = cn_transport_ctx parse_ctx;
     let nw = cn_network_ctx parse_ctx;
     ports \<leftarrow> (if tp_proto tp = 6 then do {
                h \<leftarrow> tp_tcp_hdr tp; sp \<leftarrow> rd16be b h; dp \<leftarrow> rd16be b (h + 2); Some (Some (sp, dp)) }
              else if tp_proto tp = 17 then do {
                h \<leftarrow> tp_udp_hdr tp; sp \<leftarrow> rd16be b h; dp \<leftarrow> rd16be b (h + 2); Some (Some (sp, dp)) }
              else Some None);
     (case ports of
        None \<Rightarrow> Some (DOCA_ERROR_NOT_SUPPORTED, t)
      | Some (sp, dp) \<Rightarrow>
          let t = t\<lparr>t5_src_port := sp, t5_dst_port := dp\<rparr> in
          if nw_ip_version nw = 4 then do {
            h \<leftarrow> nw_ipv4_hdr nw; src \<leftarrow> rd32be b (h + 12); dst \<leftarrow> rd32be b (h + 16);
            Some (DOCA_SUCCESS,
              t\<lparr>t5_src_ip := ip_set_v4 (t5_src_ip t) src, t5_dst_ip := ip_set_v4 (t5_dst_ip t) dst,
                t5_ip_version := L3_TYPE_IP4, t5_ip_proto := tp_proto tp\<rparr>) }
          else if nw_ip_version nw = 41 then do {
            h \<leftarrow> nw_ipv6_hdr nw; src \<leftarrow> rd_bytes b (h + 8) 16; dst \<leftarrow> rd_bytes b (h + 24) 16;
            Some (DOCA_SUCCESS,
              t\<lparr>t5_src_ip := ip_of_v6 src, t5_dst_ip := ip_of_v6 dst,
                t5_ip_version := L3_TYPE_IP6, t5_ip_proto := tp_proto tp\<rparr>) }
          else Some (DOCA_ERROR_NOT_SUPPORTED, t)) }"

text \<open>The two ways the 5-tuple is laid over \<open>struct upf_accel_match_5t\<close>: the user equipment is the
  source of an uplink (RAN) packet and the destination of a downlink (WAN) one.\<close>

definition ran_view :: "upf_accel_match_5t \<Rightarrow> tuple5" where
  "ran_view m = \<lparr>t5_src_ip = ue_ip m, t5_dst_ip = extern_ip m, t5_src_port = ue_port m,
     t5_dst_port = extern_port m, t5_ip_version = m5_ip_version m, t5_ip_proto = ip_proto m\<rparr>"

definition of_ran_view :: "tuple5 \<Rightarrow> upf_accel_match_5t" where
  "of_ran_view t = \<lparr>ue_ip = t5_src_ip t, extern_ip = t5_dst_ip t, ue_port = t5_src_port t,
     extern_port = t5_dst_port t, m5_ip_version = t5_ip_version t, ip_proto = t5_ip_proto t\<rparr>"

definition wan_view :: "upf_accel_match_5t \<Rightarrow> tuple5" where
  "wan_view m = \<lparr>t5_src_ip = extern_ip m, t5_dst_ip = ue_ip m, t5_src_port = extern_port m,
     t5_dst_port = ue_port m, t5_ip_version = m5_ip_version m, t5_ip_proto = ip_proto m\<rparr>"

definition of_wan_view :: "tuple5 \<Rightarrow> upf_accel_match_5t" where
  "of_wan_view t = \<lparr>ue_ip = t5_dst_ip t, extern_ip = t5_src_ip t, ue_port = t5_dst_port t,
     extern_port = t5_src_port t, m5_ip_version = t5_ip_version t, ip_proto = t5_ip_proto t\<rparr>"

definition upf_accel_gtpu_match ::
  "bytes \<Rightarrow> tun_parser_ctx \<Rightarrow> upf_accel_match_8t \<Rightarrow> (doca_error_t \<times> upf_accel_match_8t) option" where
  "upf_accel_gtpu_match b ctx m = do {
     let nw = tn_network_ctx ctx;
     let tp = tn_transport_ctx ctx;
     unsupported \<leftarrow> (if nw_ip_version nw \<noteq> 4 \<or> nw_next_proto nw \<noteq> 17 \<or> tp_proto tp \<noteq> 17
                     then Some True
                     else do { h \<leftarrow> tp_udp_hdr tp; dp \<leftarrow> rd16be b (h + 2); Some (dp \<noteq> 2152) });
     if unsupported then Some (DOCA_ERROR_INVALID_VALUE, m)
     else do {
       (ret, t) \<leftarrow> upf_accel_5t_match b (tn_inner ctx) (ran_view (m8_inner m));
       let m = m\<lparr>m8_inner := of_ran_view t\<rparr>;
       if ret \<noteq> DOCA_SUCCESS then Some (ret, m)
       else do {
         outer \<leftarrow> (if nw_ip_version nw = 4 then do {
                     h \<leftarrow> nw_ipv4_hdr nw; src \<leftarrow> rd32be b (h + 12);
                     Some (Some ((m8_outer m)\<lparr>te_ip := ip_set_v4 (te_ip (m8_outer m)) src,
                                              tun_ip_version := L3_TYPE_IP4\<rparr>)) }
                   else if nw_ip_version nw = 41 then do {
                     h \<leftarrow> nw_ipv6_hdr nw; src \<leftarrow> rd_bytes b (h + 8) 16;
                     Some (Some ((m8_outer m)\<lparr>te_ip := ip_of_v6 src,
                                              tun_ip_version := L3_TYPE_IP6\<rparr>)) }
                   else Some None);
         (case outer of
            None \<Rightarrow> Some (DOCA_ERROR_NOT_SUPPORTED, m)
          | Some outer \<Rightarrow> do {
              g \<leftarrow> gtp_hdr (tn_gtp_ctx ctx);
              teid \<leftarrow> rd32be b (g + 4);
              let outer = outer\<lparr>te_id := teid\<rparr>;
              (case gtp_ext_hdr (tn_gtp_ctx ctx) of
                 None \<Rightarrow> Some (DOCA_SUCCESS, m\<lparr>m8_outer := outer\<rparr>)
               | Some e \<Rightarrow> do {
                   x \<leftarrow> rd8 b (e + 2);
                   Some (DOCA_SUCCESS, m\<lparr>m8_outer := outer\<lparr>tun_qfi := x AND 0x3f\<rparr>\<rparr>) }) }) } } }"

definition upf_accel_ran_match ::
  "dpdk \<Rightarrow> bytes \<Rightarrow> tun_parser_ctx \<Rightarrow> upf_accel_match_8t \<Rightarrow>
   (doca_error_t \<times> tun_parser_ctx \<times> upf_accel_match_8t) option" where
  "upf_accel_ran_match d b parse_ctx m = do {
     (ret, parse_ctx) \<leftarrow> tunnel_parse d b parse_ctx;
     if ret \<noteq> DOCA_SUCCESS then Some (ret, parse_ctx, m)
     else do { (ret, m) \<leftarrow> upf_accel_gtpu_match b parse_ctx m; Some (ret, parse_ctx, m) } }"

definition upf_accel_wan_match ::
  "dpdk \<Rightarrow> bytes \<Rightarrow> conn_parser_ctx \<Rightarrow> upf_accel_match_5t \<Rightarrow>
   (doca_error_t \<times> conn_parser_ctx \<times> upf_accel_match_5t) option" where
  "upf_accel_wan_match d b parse_ctx m = do {
     (ret, parse_ctx) \<leftarrow> plain_parse d b parse_ctx;
     if ret \<noteq> DOCA_SUCCESS then Some (ret, parse_ctx, m)
     else do { (ret, t) \<leftarrow> upf_accel_5t_match b parse_ctx (wan_view m);
               Some (ret, parse_ctx, of_wan_view t) } }"

section \<open>Packet detection rules\<close>

definition upf_accel_pdr_tunnel_is_matching ::
  "upf_accel_pdr \<Rightarrow> upf_accel_match_tun \<Rightarrow> bool option" where
  "upf_accel_pdr_tunnel_is_matching pdr m =
     (if te_id m < pdr_pdi_local_teid_start pdr \<or> te_id m > pdr_pdi_local_teid_end pdr then Some False
      else if (tun_qfi m \<noteq> 0 \<or> pdr_pdi_qfi pdr \<noteq> 0) \<and> pdr_pdi_qfi pdr \<noteq> tun_qfi m then Some False
      else if ipa_ip_version (pdr_pdi_local_teid_ip pdr) \<noteq> tun_ip_version m then Some False
      else ip_masked_is_matching (pdr_pdi_local_teid_ip pdr) (te_ip m))"

text \<open>The condition \<open>version != NONE && version != match->version && !masked_match\<close>, with C's
  short-circuit evaluation.\<close>

definition sdf_ip_rejects ::
  "upf_accel_ip_addr \<Rightarrow> doca_flow_l3_type \<Rightarrow> upf_accel_ip \<Rightarrow> bool option" where
  "sdf_ip_rejects sdf version ip =
     (if ipa_ip_version sdf \<noteq> L3_TYPE_NONE \<and> ipa_ip_version sdf \<noteq> version
      then do { matching \<leftarrow> ip_masked_is_matching sdf ip; Some (\<not> matching) }
      else Some False)"

definition upf_accel_pdr_tuple_is_matching ::
  "upf_accel_pdr \<Rightarrow> upf_accel_match_5t \<Rightarrow> bool option" where
  "upf_accel_pdr_tuple_is_matching pdr m =
     (if pdr_pdi_sdf_proto pdr \<noteq> 0 \<and> ucast (ip_proto m) \<noteq> pdr_pdi_sdf_proto pdr then Some False
      else if ue_port m < pr_from (pdr_pdi_sdf_from_port_range pdr) \<or>
              ue_port m > pr_to (pdr_pdi_sdf_from_port_range pdr) then Some False
      else if extern_port m < pr_from (pdr_pdi_sdf_to_port_range pdr) \<or>
              extern_port m > pr_to (pdr_pdi_sdf_to_port_range pdr) then Some False
      else do {
        r1 \<leftarrow> sdf_ip_rejects (pdr_pdi_sdf_from_ip pdr) (m5_ip_version m) (ue_ip m);
        if r1 then Some False
        else do {
          r2 \<leftarrow> sdf_ip_rejects (pdr_pdi_sdf_to_ip pdr) (m5_ip_version m) (extern_ip m);
          if r2 then Some False
          else if ipa_ip_version (pdr_pdi_ueip pdr) \<noteq> m5_ip_version m then Some False
          else ip_masked_is_matching (pdr_pdi_ueip pdr) (ue_ip m) } })"

fun upf_accel_ran_pdr_lookup ::
  "upf_accel_pdr list \<Rightarrow> upf_accel_match_8t \<Rightarrow> upf_accel_pdr option option" where
  "upf_accel_ran_pdr_lookup [] m = Some None"
| "upf_accel_ran_pdr_lookup (pdr # pdrs) m =
     (if pdr_pdi_si pdr \<noteq> UPF_ACCEL_PDR_PDI_SI_UL then upf_accel_ran_pdr_lookup pdrs m
      else do {
        tun \<leftarrow> upf_accel_pdr_tunnel_is_matching pdr (m8_outer m);
        if \<not> tun then upf_accel_ran_pdr_lookup pdrs m
        else do {
          tup \<leftarrow> upf_accel_pdr_tuple_is_matching pdr (m8_inner m);
          if \<not> tup then upf_accel_ran_pdr_lookup pdrs m else Some (Some pdr) } })"

fun upf_accel_wan_pdr_lookup ::
  "upf_accel_pdr list \<Rightarrow> upf_accel_match_5t \<Rightarrow> upf_accel_pdr option option" where
  "upf_accel_wan_pdr_lookup [] m = Some None"
| "upf_accel_wan_pdr_lookup (pdr # pdrs) m =
     (if pdr_pdi_si pdr \<noteq> UPF_ACCEL_PDR_PDI_SI_DL then upf_accel_wan_pdr_lookup pdrs m
      else do {
        tup \<leftarrow> upf_accel_pdr_tuple_is_matching pdr m;
        if \<not> tup then upf_accel_wan_pdr_lookup pdrs m else Some (Some pdr) })"

definition upf_accel_fp_tunnel_eq ::
  "upf_accel_match_tun \<Rightarrow> upf_accel_match_tun \<Rightarrow> bool option" where
  "upf_accel_fp_tunnel_eq tunnel1 tunnel2 = do {
     ip_neq \<leftarrow> (case tun_ip_version tunnel1 of
                  L3_TYPE_IP6 \<Rightarrow> Some (map (ip_v6 (te_ip tunnel1)) [0..<16] \<noteq>
                                      map (ip_v6 (te_ip tunnel2)) [0..<16])
                | L3_TYPE_IP4 \<Rightarrow> Some (ip_v4 (te_ip tunnel1) \<noteq> ip_v4 (te_ip tunnel2))
                | L3_TYPE_NONE \<Rightarrow> None);
     Some (\<not> ip_neq \<and> tun_ip_version tunnel1 = tun_ip_version tunnel2 \<and>
           te_id tunnel1 = te_id tunnel2 \<and> tun_qfi tunnel1 = tun_qfi tunnel2) }"

section \<open>Per-packet entry points\<close>

definition upf_accel_fp_pkt_match ::
  "dpdk \<Rightarrow> parser_pkt_type \<Rightarrow> bytes \<Rightarrow> tun_parser_ctx \<Rightarrow>
   (doca_error_t \<times> tun_parser_ctx \<times> upf_accel_match_8t) option" where
  "upf_accel_fp_pkt_match d pkt_type pkt parse_ctx =
     (let m = match_8t0 in
      if pkt_type = PARSER_PKT_TYPE_TUNNELED then upf_accel_ran_match d pkt parse_ctx m
      else do {
        (ret, c, m5) \<leftarrow> upf_accel_wan_match d pkt (tn_inner parse_ctx) (m8_inner m);
        Some (ret, parse_ctx\<lparr>tn_inner := c\<rparr>, m\<lparr>m8_inner := m5\<rparr>) })"

abbreviation (input) UPF_ACCEL_META_PKT_DIR_UL :: u32 where "UPF_ACCEL_META_PKT_DIR_UL \<equiv> 0x20"
abbreviation (input) UPF_ACCEL_META_PKT_DIR_DL :: u32 where "UPF_ACCEL_META_PKT_DIR_DL \<equiv> 0x40"
abbreviation (input) UPF_ACCEL_META_PKT_DIR_MASK :: u32 where "UPF_ACCEL_META_PKT_DIR_MASK \<equiv> 0x60"

definition upf_accel_fp_fetch_pkt_type :: "u32 \<Rightarrow> parser_pkt_type option" where
  "upf_accel_fp_fetch_pkt_type md =
     (let dir = md AND UPF_ACCEL_META_PKT_DIR_MASK in
      if dir = UPF_ACCEL_META_PKT_DIR_UL \<or> dir = UPF_ACCEL_META_PKT_DIR_DL
      then Some (if dir = UPF_ACCEL_META_PKT_DIR_UL then PARSER_PKT_TYPE_TUNNELED
                 else PARSER_PKT_TYPE_PLAIN)
      else None)"

definition upf_accel_fp_pdr_lookup ::
  "upf_accel_pdr list \<Rightarrow> parser_pkt_type \<Rightarrow> upf_accel_match_8t \<Rightarrow>
   (doca_error_t \<times> upf_accel_pdr option) option" where
  "upf_accel_fp_pdr_lookup pdrs pkt_type m = do {
     pdr \<leftarrow> (if pkt_type = PARSER_PKT_TYPE_TUNNELED then upf_accel_ran_pdr_lookup pdrs m
            else upf_accel_wan_pdr_lookup pdrs (m8_inner m));
     Some (case pdr of None \<Rightarrow> (DOCA_ERROR_NOT_FOUND, None) | Some p \<Rightarrow> (DOCA_SUCCESS, Some p)) }"

definition upf_accel_fp_extension_match_extract ::
  "upf_accel_match_8t \<Rightarrow> upf_accel_match_extension" where
  "upf_accel_fp_extension_match_extract m =
     \<lparr>me_ue_ip = ue_ip (m8_inner m), me_te_id = te_id (m8_outer m),
      me_qfi = tun_qfi (m8_outer m) AND 0x3f\<rparr>"

abbreviation (input) UPF_ACCEL_LOG_MAX_NUM_CONNECTIONS :: nat where
  "UPF_ACCEL_LOG_MAX_NUM_CONNECTIONS \<equiv> 19"

definition upf_accel_match_chain_md_calc :: "int \<Rightarrow> u16 \<Rightarrow> u32" where
  "upf_accel_match_chain_md_calc entry_idx queue_id =
     push_bit UPF_ACCEL_LOG_MAX_NUM_CONNECTIONS (ucast queue_id) OR of_int entry_idx"

text \<open>
  In-place decapsulation.  The data of the (single-segment) mbuf is a byte list;
  \<open>rte_pktmbuf_adj\<close> is a parameter that maps the data and the 16-bit length to the data left.
\<close>

abbreviation (input) UPF_ACCEL_SRC_MAC :: bytes where
  "UPF_ACCEL_SRC_MAC \<equiv> [0xde, 0xad, 0xbe, 0xef, 0x00, 0x01]"
abbreviation (input) UPF_ACCEL_DST_MAC :: bytes where
  "UPF_ACCEL_DST_MAC \<equiv> [0xde, 0xad, 0xbe, 0xef, 0x00, 0x02]"

definition upf_accel_decap ::
  "(bytes \<Rightarrow> u16 \<Rightarrow> bytes) \<Rightarrow> bytes \<Rightarrow> tun_parser_ctx \<Rightarrow> bytes option" where
  "upf_accel_decap rte_pktmbuf_adj pkt parse_ctx = do {
     let pkt = rte_pktmbuf_adj pkt
           (of_int (int (tn_len parse_ctx) - int (cn_len (tn_inner parse_ctx)) - 14));
     let version = nw_ip_version (cn_network_ctx (tn_inner parse_ctx));
     ether_type \<leftarrow> (if version = 4 then Some [0x08, 0x00]
                   else if version = 41 then Some [0x86, 0xDD]
                   else None);
     if length pkt < 14 then None
     else Some (UPF_ACCEL_DST_MAC @ UPF_ACCEL_SRC_MAC @ ether_type @ drop 14 pkt) }"

section \<open>Masked comparison and first-match lookup\<close>

lemma ip_v6_bits: "n < 128 \<Longrightarrow> bit (ip_v6 ip (n div 8)) (n mod 8) = bit ip n"
  by (simp add: ip_v6_def bit_simps)

lemma ip_v6_ext: "map (ip_v6 a) [0..<16] = map (ip_v6 b) [0..<16] \<longleftrightarrow> a = b"
proof
  assume eq: "map (ip_v6 a) [0..<16] = map (ip_v6 b) [0..<16]"
  have "ip_v6 a i = ip_v6 b i" if "i < 16" for i
    using that arg_cong [OF eq, of "\<lambda>xs. xs ! i"] by simp
  then have "bit a n = bit b n" if "n < 128" for n
    using that ip_v6_bits [of n a] ip_v6_bits [of n b] by (simp add: div_less_iff_less_mult)
  then show "a = b" by (intro bit_word_eqI) simp
qed simp

lemma ip_v6_and: "ip_v6 (a AND m) i = ip_v6 a i AND ip_v6 m i"
  by (simp add: ip_v6_def bit_eq_iff bit_simps)

lemma ipv6_masked_iff:
  "ipv6_masked_is_matching a ip \<longleftrightarrow> ip AND ipa_mask a = ipa_addr a"
  by (simp add: ipv6_masked_is_matching_def Let_def flip: ip_v6_and ip_v6_ext)

lemma ip_masked_defined:
  "ipa_ip_version a \<noteq> L3_TYPE_NONE \<Longrightarrow> ip_masked_is_matching a ip \<noteq> None"
  by (simp add: ip_masked_is_matching_def split: doca_flow_l3_type.split)

text \<open>What a rule means, with total functions only.\<close>

definition ip_in :: "upf_accel_ip_addr \<Rightarrow> doca_flow_l3_type \<Rightarrow> upf_accel_ip \<Rightarrow> bool" where
  "ip_in a version ip \<longleftrightarrow> ipa_ip_version a = version \<and>
     (case version of L3_TYPE_IP4 \<Rightarrow> ip_v4 ip AND ip_v4 (ipa_mask a) = ip_v4 (ipa_addr a)
      | L3_TYPE_IP6 \<Rightarrow> ip AND ipa_mask a = ipa_addr a | L3_TYPE_NONE \<Rightarrow> False)"

definition in_range :: "u16 \<Rightarrow> upf_accel_ip_port_range \<Rightarrow> bool" where
  "in_range p r \<longleftrightarrow> pr_from r \<le> p \<and> p \<le> pr_to r"

definition sdf_ip_ok :: "upf_accel_ip_addr \<Rightarrow> doca_flow_l3_type \<Rightarrow> upf_accel_ip \<Rightarrow> bool" where
  "sdf_ip_ok a version ip \<longleftrightarrow> ipa_ip_version a \<in> {L3_TYPE_NONE, version} \<or>
     ip_in a (ipa_ip_version a) ip"

definition pdr_tuple_spec :: "upf_accel_pdr \<Rightarrow> upf_accel_match_5t \<Rightarrow> bool" where
  "pdr_tuple_spec pdr m \<longleftrightarrow>
     (pdr_pdi_sdf_proto pdr = 0 \<or> ucast (ip_proto m) = pdr_pdi_sdf_proto pdr) \<and>
     in_range (ue_port m) (pdr_pdi_sdf_from_port_range pdr) \<and>
     in_range (extern_port m) (pdr_pdi_sdf_to_port_range pdr) \<and>
     sdf_ip_ok (pdr_pdi_sdf_from_ip pdr) (m5_ip_version m) (ue_ip m) \<and>
     sdf_ip_ok (pdr_pdi_sdf_to_ip pdr) (m5_ip_version m) (extern_ip m) \<and>
     ip_in (pdr_pdi_ueip pdr) (m5_ip_version m) (ue_ip m)"

definition pdr_tunnel_spec :: "upf_accel_pdr \<Rightarrow> upf_accel_match_tun \<Rightarrow> bool" where
  "pdr_tunnel_spec pdr m \<longleftrightarrow>
     pdr_pdi_local_teid_start pdr \<le> te_id m \<and> te_id m \<le> pdr_pdi_local_teid_end pdr \<and>
     pdr_pdi_qfi pdr = tun_qfi m \<and> ip_in (pdr_pdi_local_teid_ip pdr) (tun_ip_version m) (te_ip m)"

lemma ip_masked_ip_in:
  "ipa_ip_version a \<noteq> L3_TYPE_NONE \<Longrightarrow>
   ip_masked_is_matching a ip = Some (ip_in a (ipa_ip_version a) ip)"
  by (auto simp: ip_masked_is_matching_def ip_in_def ipv6_masked_iff ipv4_masked_is_matching_def
      split: doca_flow_l3_type.splits)

lemma sdf_ip_rejects_spec: "sdf_ip_rejects a version ip = Some (\<not> sdf_ip_ok a version ip)"
  by (auto simp: sdf_ip_rejects_def sdf_ip_ok_def ip_masked_ip_in)

lemma pdr_tuple_matches:
  "m5_ip_version m \<noteq> L3_TYPE_NONE \<Longrightarrow>
   upf_accel_pdr_tuple_is_matching pdr m = Some (pdr_tuple_spec pdr m)"
  by (auto simp: upf_accel_pdr_tuple_is_matching_def pdr_tuple_spec_def sdf_ip_rejects_spec
      ip_masked_ip_in in_range_def not_less ip_in_def [of _ "m5_ip_version m"])

lemma pdr_tunnel_matches:
  "tun_ip_version m \<noteq> L3_TYPE_NONE \<Longrightarrow>
   upf_accel_pdr_tunnel_is_matching pdr m = Some (pdr_tunnel_spec pdr m)"
  by (auto simp: upf_accel_pdr_tunnel_is_matching_def pdr_tunnel_spec_def ip_masked_ip_in not_less)
    (auto simp: ip_in_def)

lemma ran_pdr_lookup_find:
  assumes "m5_ip_version (m8_inner m) \<noteq> L3_TYPE_NONE" "tun_ip_version (m8_outer m) \<noteq> L3_TYPE_NONE"
  shows "upf_accel_ran_pdr_lookup pdrs m =
    Some (find (\<lambda>pdr. pdr_pdi_si pdr = UPF_ACCEL_PDR_PDI_SI_UL \<and> pdr_tunnel_spec pdr (m8_outer m) \<and>
                      pdr_tuple_spec pdr (m8_inner m)) pdrs)"
  using assms by (induction pdrs) (auto simp: pdr_tuple_matches pdr_tunnel_matches)

lemma wan_pdr_lookup_find:
  assumes "m5_ip_version m \<noteq> L3_TYPE_NONE"
  shows "upf_accel_wan_pdr_lookup pdrs m =
    Some (find (\<lambda>pdr. pdr_pdi_si pdr = UPF_ACCEL_PDR_PDI_SI_DL \<and> pdr_tuple_spec pdr m) pdrs)"
  using assms by (induction pdrs) (auto simp: pdr_tuple_matches)

section \<open>Match keys of parsed packets\<close>

lemma upf_accel_5t_match_wf:
  assumes "conn_wf b c"
  obtains t' where "upf_accel_5t_match b c t = Some (DOCA_SUCCESS, t')"
    and "t5_ip_version t' \<noteq> L3_TYPE_NONE" and "t5_ip_proto t' \<in> {6, 17}"
  using assms
  by (auto simp: conn_wf_def network_wf_def transport_wf_def upf_accel_5t_match_def rd_simps Let_def)

lemma upf_accel_gtpu_match_wf:
  assumes "tun_wf b ctx"
  obtains ret m' where "upf_accel_gtpu_match b ctx m = Some (ret, m')"
    and "ret = DOCA_SUCCESS \<Longrightarrow>
      m5_ip_version (m8_inner m') \<noteq> L3_TYPE_NONE \<and> ip_proto (m8_inner m') \<in> {6, 17} \<and>
      tun_ip_version (m8_outer m') = L3_TYPE_IP4 \<and>
      (tun_qfi (m8_outer m') = tun_qfi (m8_outer m) \<or> tun_qfi (m8_outer m') < 64)"
proof -
  from assms have wf: "conn_wf b (tn_inner ctx)" "transport_wf b (tn_transport_ctx ctx)"
      "network_wf b (tn_network_ctx ctx)" "gtp_wf b (tn_gtp_ctx ctx)" by (auto simp: tun_wf_def)
  obtain t' where t: "upf_accel_5t_match b (tn_inner ctx) (ran_view (m8_inner m)) = Some (DOCA_SUCCESS, t')"
      "t5_ip_version t' \<noteq> L3_TYPE_NONE" "t5_ip_proto t' \<in> {6, 17}"
    using upf_accel_5t_match_wf [OF wf(1)] by metis
  have q: "x AND 0x3f < (64 :: u8)" for x
    by (rule le_less_trans [of _ 63]) (simp_all add: word_and_le1 word_and_le2)
  show thesis
  proof (cases "tp_proto (tn_transport_ctx ctx) = 17 \<and> nw_ip_version (tn_network_ctx ctx) = 4")
    case False
    then show thesis
      using that [of DOCA_ERROR_INVALID_VALUE m] by (auto simp: upf_accel_gtpu_match_def Let_def)
  next
    case True
    with wf obtain u h g where p: "tp_udp_hdr (tn_transport_ctx ctx) = Some u" "u + 8 \<le> length b"
        "nw_ipv4_hdr (tn_network_ctx ctx) = Some h" "h + 20 \<le> length b"
        "gtp_hdr (tn_gtp_ctx ctx) = Some g" "g + 8 \<le> length b"
      by (auto simp: transport_wf_def network_wf_def gtp_wf_def)
    have e: "q + 4 \<le> length b" if "gtp_ext_hdr (tn_gtp_ctx ctx) = Some q" for q
      using wf(4) that by (simp add: gtp_wf_def)
    have "\<exists>ret m'. upf_accel_gtpu_match b ctx m = Some (ret, m') \<and> (ret = DOCA_SUCCESS \<longrightarrow>
        m5_ip_version (m8_inner m') \<noteq> L3_TYPE_NONE \<and> ip_proto (m8_inner m') \<in> {6, 17} \<and>
        tun_ip_version (m8_outer m') = L3_TYPE_IP4 \<and>
        (tun_qfi (m8_outer m') = tun_qfi (m8_outer m) \<or> tun_qfi (m8_outer m') < 64))"
      using True p t e q
      by (cases "gtp_ext_hdr (tn_gtp_ctx ctx)")
        (auto simp: upf_accel_gtpu_match_def Let_def rd_simps of_ran_view_def)
    then show thesis using that by blast
  qed
qed

text \<open>A packet that the parser of its direction returns for; an accepted one yields a key.\<close>

abbreviation parser_returns :: "dpdk \<Rightarrow> parser_pkt_type \<Rightarrow> bytes \<Rightarrow> bool" where
  "parser_returns d ty pkt \<equiv>
     (if ty = PARSER_PKT_TYPE_TUNNELED then tunnel_parse d pkt tun0 \<noteq> None else plain_parse d pkt conn0 \<noteq> None)"

lemma upf_accel_fp_pkt_match_outcome:
  assumes "parser_returns d ty pkt"
  obtains ret ctx m where "upf_accel_fp_pkt_match d ty pkt tun0 = Some (ret, ctx, m)"
    and "ret = DOCA_SUCCESS \<Longrightarrow> m5_ip_version (m8_inner m) \<noteq> L3_TYPE_NONE \<and>
      ip_proto (m8_inner m) \<in> {6, 17} \<and> tun_qfi (m8_outer m) < 64 \<and>
      (if ty = PARSER_PKT_TYPE_TUNNELED then tun_ip_version (m8_outer m) = L3_TYPE_IP4
       else m8_outer m = match_tun0)"
proof (cases "ty = PARSER_PKT_TYPE_TUNNELED")
  case True
  with assms obtain ret ctx where p: "tunnel_parse d pkt tun0 = Some (ret, ctx)" by auto
  show thesis
  proof (cases "ret = DOCA_SUCCESS")
    case False
    then show thesis
      using that True p by (fastforce simp: upf_accel_fp_pkt_match_def upf_accel_ran_match_def)
  next
    case ok: True
    then obtain ret' m' where m': "upf_accel_gtpu_match pkt ctx match_8t0 = Some (ret', m')"
        "ret' = DOCA_SUCCESS \<Longrightarrow>
          m5_ip_version (m8_inner m') \<noteq> L3_TYPE_NONE \<and> ip_proto (m8_inner m') \<in> {6, 17} \<and>
          tun_ip_version (m8_outer m') = L3_TYPE_IP4 \<and>
          (tun_qfi (m8_outer m') = tun_qfi (m8_outer match_8t0) \<or> tun_qfi (m8_outer m') < 64)"
      using upf_accel_gtpu_match_wf p tunnel_parse_wf by metis
    moreover have "tun_qfi (m8_outer match_8t0) < 64" by (simp add: match_8t0_def match_tun0_def)
    ultimately show thesis
      using that [of ret' ctx m'] True p ok
      by (cases "ret' = DOCA_SUCCESS")
        (auto simp: upf_accel_fp_pkt_match_def upf_accel_ran_match_def Let_def)
  qed
next
  case False
  with assms obtain ret c where p: "plain_parse d pkt conn0 = Some (ret, c)" by auto
  show thesis
  proof (cases "ret = DOCA_SUCCESS")
    case False
    then show thesis
      using that \<open>ty \<noteq> _\<close> p
      by (fastforce simp: upf_accel_fp_pkt_match_def upf_accel_wan_match_def tun0_def)
  next
    case True
    then obtain t' where
      "upf_accel_5t_match pkt c (wan_view match_5t0) = Some (DOCA_SUCCESS, t')"
      "t5_ip_version t' \<noteq> L3_TYPE_NONE" "t5_ip_proto t' \<in> {6, 17}"
      using upf_accel_5t_match_wf p plain_parse_wf by metis
    then show thesis
      using that \<open>ty \<noteq> _\<close> p True
      by (auto simp: upf_accel_fp_pkt_match_def upf_accel_wan_match_def match_8t0_def match_tun0_def
          of_wan_view_def tun0_def)
  qed
qed

lemma pkt_match_parser_returns:
  "upf_accel_fp_pkt_match d ty pkt tun0 \<noteq> None \<Longrightarrow> parser_returns d ty pkt"
  by (auto simp: upf_accel_fp_pkt_match_def upf_accel_ran_match_def upf_accel_wan_match_def tun0_def Some_bind_iff)

lemma pkt_match_key:
  assumes "upf_accel_fp_pkt_match d ty pkt tun0 = Some (DOCA_SUCCESS, ctx, m)"
  shows "m5_ip_version (m8_inner m) \<noteq> L3_TYPE_NONE \<and> ip_proto (m8_inner m) \<in> {6, 17} \<and> tun_qfi (m8_outer m) < 64 \<and>
      (if ty = PARSER_PKT_TYPE_TUNNELED then tun_ip_version (m8_outer m) = L3_TYPE_IP4 else m8_outer m = match_tun0)"
  by (rule upf_accel_fp_pkt_match_outcome [OF pkt_match_parser_returns, of d ty pkt]) (use assms in auto)

definition pdr_matches :: "parser_pkt_type \<Rightarrow> upf_accel_match_8t \<Rightarrow> upf_accel_pdr \<Rightarrow> bool" where
  "pdr_matches ty m pdr \<longleftrightarrow>
     (if ty = PARSER_PKT_TYPE_TUNNELED
      then pdr_pdi_si pdr = UPF_ACCEL_PDR_PDI_SI_UL \<and> pdr_tunnel_spec pdr (m8_outer m)
      else pdr_pdi_si pdr = UPF_ACCEL_PDR_PDI_SI_DL) \<and> pdr_tuple_spec pdr (m8_inner m)"

lemma pdr_lookup_find:
  assumes "m5_ip_version (m8_inner m) \<noteq> L3_TYPE_NONE"
    and "ty = PARSER_PKT_TYPE_TUNNELED \<Longrightarrow> tun_ip_version (m8_outer m) \<noteq> L3_TYPE_NONE"
  shows "upf_accel_fp_pdr_lookup pdrs ty m =
    Some (case find (pdr_matches ty m) pdrs of
            None \<Rightarrow> (DOCA_ERROR_NOT_FOUND, None) | Some p \<Rightarrow> (DOCA_SUCCESS, Some p))"
proof -
  have f: "pdr_matches ty m = (\<lambda>pdr. pdr_pdi_si pdr = UPF_ACCEL_PDR_PDI_SI_UL \<and>
      pdr_tunnel_spec pdr (m8_outer m) \<and> pdr_tuple_spec pdr (m8_inner m))"
    if "ty = PARSER_PKT_TYPE_TUNNELED" using that by (auto simp: pdr_matches_def)
  have g: "pdr_matches ty m = (\<lambda>pdr. pdr_pdi_si pdr = UPF_ACCEL_PDR_PDI_SI_DL \<and>
      pdr_tuple_spec pdr (m8_inner m))"
    if "ty \<noteq> PARSER_PKT_TYPE_TUNNELED" using that by (auto simp: pdr_matches_def)
  show ?thesis
    using assms f g
    by (cases "ty = PARSER_PKT_TYPE_TUNNELED")
      (simp_all add: upf_accel_fp_pdr_lookup_def ran_pdr_lookup_find wan_pdr_lookup_find)
qed

section \<open>Decapsulation\<close>

lemma upf_accel_5t_match_local:
  assumes "cn_network_ctx c = shift_nw (length pre) n" "cn_transport_ctx c = shift_tp (length pre) t"
  shows "upf_accel_5t_match (pre @ x) c = upf_accel_5t_match x
           (c\<lparr>cn_network_ctx := n, cn_transport_ctx := t\<rparr>)"
  by (rule ext, cases "tp_tcp_hdr t"; cases "tp_udp_hdr t"; cases "nw_ipv4_hdr n"; cases "nw_ipv6_hdr n")
    (simp_all add: upf_accel_5t_match_def assms shift_nw_def shift_tp_def Let_def add.assoc
      del: add_2_eq_Suc add_2_eq_Suc' cong: if_cong)

lemma unat_adj_len:
  assumes "14 \<le> off" and "off \<le> n" and "n < 2 ^ 16"
  shows "unat (of_int (int (off + k) - int k - 14) :: u16) = off - 14"
proof -
  have "(of_int (int (off + k) - int k - 14) :: u16) = of_nat (off - 14)"
    using assms(1) by (simp add: of_nat_diff)
  then show ?thesis using assms by (simp only: unat_of_nat) simp
qed

text \<open>The documented behaviour of \<open>rte_pktmbuf_adj\<close> on a length that is in the packet.\<close>

definition adj_documented :: "(bytes \<Rightarrow> u16 \<Rightarrow> bytes) \<Rightarrow> bool" where
  "adj_documented adj \<longleftrightarrow> (\<forall>p n. unat n \<le> length p \<longrightarrow> adj p n = drop (unat n) p)"

definition ref_adj :: "bytes \<Rightarrow> u16 \<Rightarrow> bytes" where
  "ref_adj p n = (if unat n \<le> length p then drop (unat n) p else p)"

lemma decap_data:
  assumes t: "tunnel_parse d pkt tun0 = Some (DOCA_SUCCESS, ctx)"
    and off: "tn_len ctx = off + cn_len (tn_inner ctx)" "14 \<le> off" "off < length pkt"
    and len: "length pkt < 2 ^ 16" and adj: "adj_documented adj"
  shows "upf_accel_decap adj pkt ctx = Some (UPF_ACCEL_DST_MAC @ UPF_ACCEL_SRC_MAC @
     (if nw_ip_version (cn_network_ctx (tn_inner ctx)) = 4 then [0x08, 0x00] else [0x86, 0xDD]) @
     drop off pkt)"
proof -
  have "conn_wf pkt (tn_inner ctx)" using tunnel_parse_wf [OF t] by (simp add: tun_wf_def)
  then have v: "nw_ip_version (cn_network_ctx (tn_inner ctx)) = 4 \<or>
      nw_ip_version (cn_network_ctx (tn_inner ctx)) = 41"
    by (auto simp: conn_wf_def network_wf_def)
  have n: "unat (of_int (int (tn_len ctx) - int (cn_len (tn_inner ctx)) - 14) :: u16) = off - 14"
    unfolding off(1) using off len by (intro unat_adj_len) auto
  have "adj pkt (of_int (int (tn_len ctx) - int (cn_len (tn_inner ctx)) - 14)) = drop (off - 14) pkt"
    using adj n off by (simp add: adj_documented_def)
  then show ?thesis using v off by (auto simp: upf_accel_decap_def Let_def)
qed

lemma eth_link_parse:
  assumes "eth = macs @ [hi, lo]" "length macs = 12" "be16 hi lo = p" "p \<in> {0x0800, 0x86DD}"
  shows "link_parse (eth @ x) 0 link0 = Some (DOCA_SUCCESS, \<lparr>lk_len = 14, lk_next_proto = p, lk_eth = Some 0\<rparr>)"
  using assms by (auto simp: link_parse_def link0_def rd16be_def rd8_def nth_append)

section \<open>Properties\<close>

text \<open>
  C19.  Decapsulating a GTP-U packet that \<open>tunnel_parse\<close> accepted keeps the inner packet: the bytes
  after the new Ethernet header are the bytes after the tunnel headers, and parsing the result
  as a plain packet succeeds and finds the 5-tuple that was read through the tunnel.
\<close>

theorem decap_keeps_inner_packet:
  assumes "next_ext_progress d" and "adj_documented adj" and "length pkt < 2 ^ 16"
    and "tunnel_parse d pkt tun0 = Some (DOCA_SUCCESS, ctx)"
  shows "\<exists>pkt' c. upf_accel_decap adj pkt ctx = Some pkt' \<and>
     drop 14 pkt' = drop (tn_len ctx - cn_len (tn_inner ctx)) pkt \<and>
     plain_parse d pkt' conn0 = Some (DOCA_SUCCESS, c) \<and>
     cn_len c = 14 + cn_len (tn_inner ctx) \<and>
     upf_accel_5t_match pkt' c = upf_accel_5t_match pkt (tn_inner ctx)"
proof -
  from assms(4) obtain off where o: "conn_parse d pkt off conn0 = Some (DOCA_SUCCESS, tn_inner ctx)"
      "off < length pkt" "tn_len ctx = off + cn_len (tn_inner ctx)" "14 \<le> off"
    by (rule tunnel_parse_successE) auto
  let ?v4 = "nw_ip_version (cn_network_ctx (tn_inner ctx)) = 4"
  let ?x = "drop off pkt" and ?pre0 = "take off pkt"
  let ?eth = "UPF_ACCEL_DST_MAC @ UPF_ACCEL_SRC_MAC @ (if ?v4 then [0x08, 0x00] else [0x86, 0xDD])"
  let ?l = "\<lparr>lk_len = 14, lk_next_proto = (if ?v4 then 0x0800 else 0x86DD), lk_eth = Some 0\<rparr>"
  have pkt: "pkt = ?pre0 @ ?x" "length ?pre0 = off" using o(2) by simp_all
  have len: "length ?eth = 14" by simp
  have decap: "upf_accel_decap adj pkt ctx = Some (?eth @ ?x)"
    using decap_data [OF assms(4) o(3,4,2) assms(3,2)] by simp
  have link: "link_parse (?eth @ ?x) 0 link0 = Some (DOCA_SUCCESS, ?l)"
    by (rule eth_link_parse [where macs = "UPF_ACCEL_DST_MAC @ UPF_ACCEL_SRC_MAC" and
          hi = "if ?v4 then 0x08 else 0x86" and lo = "if ?v4 then 0x00 else 0xDD"])
      (auto simp: be16_def)
  have inner: "conn_parse d (?pre0 @ ?x) (length ?pre0) conn0 = Some (DOCA_SUCCESS, tn_inner ctx)"
    using o(1) pkt by metis
  obtain n t c where
    c: "conn_parse d (?eth @ ?x) 0 (conn0\<lparr>cn_link_ctx := ?l, cn_len := length ?eth\<rparr>) = Some (DOCA_SUCCESS, c)"
      "cn_len c = length ?eth + cn_len (tn_inner ctx)"
    and nt: "cn_network_ctx (tn_inner ctx) = shift_nw (length ?pre0) n"
      "cn_network_ctx c = shift_nw (length ?eth) n"
      "cn_transport_ctx (tn_inner ctx) = shift_tp (length ?pre0) t"
      "cn_transport_ctx c = shift_tp (length ?eth) t"
    by (rule conn_parse_moved [OF assms(1) inner, of ?l ?eth]) (auto simp del: append_assoc)
  have "plain_parse d (?eth @ ?x) conn0 = Some (DOCA_SUCCESS, c)"
    using link c(1) len by (simp add: plain_parse_def conn0_def Let_def del: append_assoc)
  moreover have "upf_accel_5t_match (?eth @ ?x) c = upf_accel_5t_match (?pre0 @ ?x) (tn_inner ctx)"
    by (simp only: upf_accel_5t_match_local [OF nt(2,4)] upf_accel_5t_match_local [OF nt(1,3)])
      (rule ext, simp add: upf_accel_5t_match_def)
  ultimately show ?thesis
    using decap c(2) len o(3) pkt by (intro exI [of _ "?eth @ ?x"] exI [of _ c]) simp
qed

theorem decap_keeps_inner_packet_witness:
  "\<exists>ctx pkt' c. tunnel_parse ref_dpdk gtpu_packet tun0 = Some (DOCA_SUCCESS, ctx) \<and>
     upf_accel_decap ref_adj gtpu_packet ctx = Some pkt' \<and> drop 14 pkt' = drop 50 gtpu_packet \<and>
     plain_parse ref_dpdk pkt' conn0 = Some (DOCA_SUCCESS, c)"
proof -
  obtain ctx where c: "tunnel_parse ref_dpdk gtpu_packet tun0 = Some (DOCA_SUCCESS, ctx)"
      "tn_len ctx = 78" "cn_len (tn_inner ctx) = 28"
    using gtpu_packet_tunnel by blast
  have "adj_documented ref_adj" "length gtpu_packet < 2 ^ 16"
    by (simp_all add: adj_documented_def ref_adj_def gtpu_packet_def)
  from decap_keeps_inner_packet [OF ref_dpdk_progress this c(1)] c show ?thesis by auto
qed

text \<open>
  For every packet, of either direction, extracting the match key returns exactly when the parser
  does: no further read outside the packet and no failed assertion.  When it succeeds the key is one the rest of the data path can
  handle: a TCP or UDP 5-tuple over IPv4 or IPv6, a QFI of six bits, an IPv4 tunnel for an uplink
  packet and an all-zero tunnel key for a downlink one.
\<close>

theorem pkt_match_safe:
  "case upf_accel_fp_pkt_match d ty pkt tun0 of
     None \<Rightarrow> \<not> parser_returns d ty pkt
   | Some (ret, ctx, m) \<Rightarrow> parser_returns d ty pkt \<and>
     (ret = DOCA_SUCCESS \<longrightarrow> m5_ip_version (m8_inner m) \<noteq> L3_TYPE_NONE \<and>
        ip_proto (m8_inner m) \<in> {6, 17} \<and> tun_qfi (m8_outer m) < 64 \<and>
        (if ty = PARSER_PKT_TYPE_TUNNELED then tun_ip_version (m8_outer m) = L3_TYPE_IP4
         else m8_outer m = match_tun0))"
proof (cases "upf_accel_fp_pkt_match d ty pkt tun0")
  case None
  have "\<not> parser_returns d ty pkt"
    by (rule notI, rule upf_accel_fp_pkt_match_outcome [where d = d and ty = ty and pkt = pkt]) (use None in auto)
  then show ?thesis using None by simp
next
  case (Some r)
  then show ?thesis
    using pkt_match_parser_returns [of d ty pkt] pkt_match_key [of d ty pkt] by (cases r) auto
qed

lemmas upf_match_eval =
  upf_accel_fp_pkt_match_def upf_accel_ran_match_def upf_accel_wan_match_def
  upf_accel_gtpu_match_def upf_accel_5t_match_def match_8t0_def match_5t0_def match_tun0_def
  ran_view_def of_ran_view_def wan_view_def of_wan_view_def rd32be_def be32_def

lemma gtpu_packet_match:
  "\<exists>ctx m. upf_accel_fp_pkt_match ref_dpdk PARSER_PKT_TYPE_TUNNELED gtpu_packet tun0
     = Some (DOCA_SUCCESS, ctx, m) \<and> te_id (m8_outer m) = 123 \<and> te_ip (m8_outer m) = 0x0a000001 \<and>
       tun_qfi (m8_outer m) = 0 \<and> tun_ip_version (m8_outer m) = L3_TYPE_IP4 \<and>
       m8_inner m = \<lparr>ue_ip = 0x0a010005, extern_ip = 0x08080808, ue_port = 1234, extern_port = 53,
                     m5_ip_version = L3_TYPE_IP4, ip_proto = 17\<rparr>"
  by (simp add: upf_match_eval parser_eval ref_dpdk_def gtpu_packet_def Let_def ip_set_v4_def)

theorem pkt_match_safe_witness:
  "\<exists>ctx m. upf_accel_fp_pkt_match ref_dpdk PARSER_PKT_TYPE_TUNNELED gtpu_packet tun0
       = Some (DOCA_SUCCESS, ctx, m) \<and> ip_proto (m8_inner m) \<in> {6, 17} \<and> tun_qfi (m8_outer m) < 64"
  using pkt_match_safe [where d = ref_dpdk and ty = PARSER_PKT_TYPE_TUNNELED and pkt = gtpu_packet] gtpu_packet_match by fastforce

text \<open>
  C20.  The rule lookup of a parsed packet returns the first rule of the configured list, in order,
  that matches the packet's direction, tunnel and 5-tuple, and \<open>DOCA_ERROR_NOT_FOUND\<close> exactly when no
  rule matches; no assertion fails on the way.  A rule matches when \<open>pdr_matches\<close> holds: TEID in
  range, equal QFI, tunnel IP and user-equipment IP in the rule's masked prefixes (the byte loop
  of the IPv6 comparison is equality of the masked 128-bit addresses), SDF protocol and port ranges.
\<close>

theorem pdr_lookup_first_match:
  assumes "upf_accel_fp_pkt_match d ty pkt tun0 = Some (DOCA_SUCCESS, ctx, m)"
  shows "upf_accel_fp_pdr_lookup pdrs ty m =
    Some (case find (pdr_matches ty m) pdrs of
            None \<Rightarrow> (DOCA_ERROR_NOT_FOUND, None) | Some p \<Rightarrow> (DOCA_SUCCESS, Some p))"
proof -
  have "m5_ip_version (m8_inner m) \<noteq> L3_TYPE_NONE"
    "ty = PARSER_PKT_TYPE_TUNNELED \<Longrightarrow> tun_ip_version (m8_outer m) \<noteq> L3_TYPE_NONE"
    using pkt_match_key [OF assms] by auto
  then show ?thesis by (rule pdr_lookup_find)
qed

definition any_ip4 :: upf_accel_ip_addr where
  "any_ip4 = \<lparr>ipa_addr = 0, ipa_mask = 0, ipa_ip_version = L3_TYPE_IP4\<rparr>"

definition no_ip :: upf_accel_ip_addr where
  "no_ip = \<lparr>ipa_addr = 0, ipa_mask = 0, ipa_ip_version = L3_TYPE_NONE\<rparr>"

definition sample_pdr :: upf_accel_pdr where
  "sample_pdr = \<lparr>pdr_id = 7, pdr_farid = 1, pdr_urrids_num = 0, pdr_urrids = [], pdr_qerids_num = 0,
     pdr_qerids = [], pdr_pdi_si = UPF_ACCEL_PDR_PDI_SI_UL, pdr_pdi_local_teid_start = 100,
     pdr_pdi_local_teid_end = 200, pdr_pdi_local_teid_ip = any_ip4, pdr_pdi_ueip = any_ip4,
     pdr_pdi_sdf_proto = 17, pdr_pdi_qfi = 0, pdr_pdi_sdf_from_ip = no_ip,
     pdr_pdi_sdf_from_port_range = \<lparr>pr_from = 0, pr_to = 0xffff\<rparr>, pdr_pdi_sdf_to_ip = no_ip,
     pdr_pdi_sdf_to_port_range = \<lparr>pr_from = 0, pr_to = 0xffff\<rparr>\<rparr>"

lemmas pdr_eval = pdr_matches_def pdr_tunnel_spec_def pdr_tuple_spec_def sample_pdr_def any_ip4_def
  no_ip_def ip_in_def in_range_def sdf_ip_ok_def ip_v4_def

theorem pdr_lookup_first_match_witness:
  "\<exists>ctx m. upf_accel_fp_pkt_match ref_dpdk PARSER_PKT_TYPE_TUNNELED gtpu_packet tun0
       = Some (DOCA_SUCCESS, ctx, m) \<and>
     upf_accel_fp_pdr_lookup [sample_pdr\<lparr>pdr_pdi_qfi := 5\<rparr>, sample_pdr] PARSER_PKT_TYPE_TUNNELED m
       = Some (DOCA_SUCCESS, Some sample_pdr)"
proof -
  obtain ctx m where m: "upf_accel_fp_pkt_match ref_dpdk PARSER_PKT_TYPE_TUNNELED gtpu_packet tun0
      = Some (DOCA_SUCCESS, ctx, m)" "te_id (m8_outer m) = 123" "te_ip (m8_outer m) = 0x0a000001"
      "tun_qfi (m8_outer m) = 0" "tun_ip_version (m8_outer m) = L3_TYPE_IP4"
      "m8_inner m = \<lparr>ue_ip = 0x0a010005, extern_ip = 0x08080808, ue_port = 1234, extern_port = 53,
                     m5_ip_version = L3_TYPE_IP4, ip_proto = 17\<rparr>"
    using gtpu_packet_match by blast
  have "\<not> pdr_matches PARSER_PKT_TYPE_TUNNELED m (sample_pdr\<lparr>pdr_pdi_qfi := 5\<rparr>)"
    "pdr_matches PARSER_PKT_TYPE_TUNNELED m sample_pdr"
    using m by (simp_all add: pdr_eval)
  then show ?thesis
    using pdr_lookup_first_match [OF m(1),
        of "[sample_pdr\<lparr>pdr_pdi_qfi := 5\<rparr>, sample_pdr]"] m(1) by auto
qed

text \<open>
  C34.  The SDF address filters of a rule are not enforced for packets of their own IP version: two
  rules that differ only in a filter address or mask of the packet's version give the same verdict,
  for the source and for the destination filter.  (The condition in the code compares the versions
  with \<open>!=\<close>, so a filter is only evaluated against packets of the other version.)
\<close>

theorem sdf_address_filter_not_enforced:
  assumes "ipa_ip_version a = m5_ip_version m" and "ipa_ip_version a' = m5_ip_version m"
  shows "upf_accel_pdr_tuple_is_matching (pdr\<lparr>pdr_pdi_sdf_from_ip := a\<rparr>) m =
           upf_accel_pdr_tuple_is_matching (pdr\<lparr>pdr_pdi_sdf_from_ip := a'\<rparr>) m \<and>
         upf_accel_pdr_tuple_is_matching (pdr\<lparr>pdr_pdi_sdf_to_ip := a\<rparr>) m =
           upf_accel_pdr_tuple_is_matching (pdr\<lparr>pdr_pdi_sdf_to_ip := a'\<rparr>) m"
  using assms by (simp add: upf_accel_pdr_tuple_is_matching_def sdf_ip_rejects_spec sdf_ip_ok_def)

theorem sdf_address_filter_not_enforced_witness:
  "upf_accel_pdr_tuple_is_matching
     (sample_pdr\<lparr>pdr_pdi_sdf_from_ip := \<lparr>ipa_addr = 0x01020304, ipa_mask = 0xffffffff,
                                         ipa_ip_version = L3_TYPE_IP4\<rparr>\<rparr>)
     \<lparr>ue_ip = 0x0a010005, extern_ip = 0x08080808, ue_port = 1234, extern_port = 53,
      m5_ip_version = L3_TYPE_IP4, ip_proto = 17\<rparr> = Some True"
  (is "upf_accel_pdr_tuple_is_matching (_\<lparr>pdr_pdi_sdf_from_ip := ?a\<rparr>) ?m = _")
proof -
  have "upf_accel_pdr_tuple_is_matching (sample_pdr\<lparr>pdr_pdi_sdf_from_ip := any_ip4\<rparr>) ?m = Some True"
    by (simp add: pdr_tuple_matches pdr_eval)
  with sdf_address_filter_not_enforced [of ?a ?m any_ip4 sample_pdr]
  show ?thesis by (simp add: any_ip4_def)
qed

text \<open>
  The metadata value that chains an extension entry to its connections is unique: for entry
  indices below \<open>UPF_ACCEL_MAX_NUM_CONNECTIONS\<close> and queue numbers of at most 13 bits (what the
  static assertion on \<open>RTE_MAX_LCORE\<close> provides) the index and the queue can be read back from it.
\<close>

theorem match_chain_md_unique:
  assumes "0 \<le> idx" and "idx < 2 ^ 19" and "q < 2 ^ 13"
  shows "uint (upf_accel_match_chain_md_calc idx q AND mask 19) = idx \<and>
         drop_bit 19 (upf_accel_match_chain_md_calc idx q) = (ucast q :: u32)"
proof -
  have i: "\<not> bit idx n" if "19 \<le> n" for n
    using assms(1,2) that by (metis bit_take_bit_iff linorder_not_le take_bit_int_eq_self)
  have q: "\<not> bit q n" if "13 \<le> n" for n
    using assms(3) that by (metis bit_take_bit_iff linorder_not_le take_bit_eq_self_iff_drop_bit_eq_0 less_mask_eq take_bit_eq_mask)
  have "upf_accel_match_chain_md_calc idx q AND mask 19 = (of_int idx :: u32)"
    using i by (intro bit_word_eqI) (auto simp: upf_accel_match_chain_md_calc_def bit_simps not_le[symmetric])
  moreover have "uint (of_int idx :: u32) = idx"
    using assms by (simp add: uint_word_of_int_eq take_bit_int_eq_self)
  moreover have "drop_bit 19 (upf_accel_match_chain_md_calc idx q) = (ucast q :: u32)"
    using i q
    by (intro bit_word_eqI) (auto simp: upf_accel_match_chain_md_calc_def bit_simps not_le [symmetric])
  ultimately show ?thesis by simp
qed

theorem match_chain_md_unique_witness:
  "uint (upf_accel_match_chain_md_calc 5 3 AND mask 19) = 5 \<and>
   drop_bit 19 (upf_accel_match_chain_md_calc 5 3) = (3 :: u32)"
  using match_chain_md_unique [of 5 3] by simp

end
