(* ===== verification/Upf_Accel.thy ===== *)
theory Upf_Accel
  imports Upf_Match
begin

text \<open>
  The functions of \<open>applications/upf_accel/upf_accel_flow_processing.c\<close> that turn a software match
  key into a hardware rule (lines 770 to 1121).  The structures handed to the DOCA Flow SDK are
  modelled by the fields the code writes; a network-order field by the number it encodes, except
  \<open>pkt_meta\<close>, which is kept as the raw word the code stores (some callers convert the byte order,
  some do not).  \<open>doca_flow_pipe_basic_add_entry\<close> and \<open>doca_flow_pipe_remove_entry\<close> are parameters.
\<close>

section \<open>Hardware rules\<close>

datatype upf_accel_pipe_type =
    UPF_ACCEL_PIPE_8T_IPV4 | UPF_ACCEL_PIPE_8T_IPV6 | UPF_ACCEL_PIPE_8T_IPV6_EXT
  | UPF_ACCEL_PIPE_7T_IPV4 | UPF_ACCEL_PIPE_7T_IPV6 | UPF_ACCEL_PIPE_7T_IPV6_EXT
  | UPF_ACCEL_PIPE_5T_IPV4 | UPF_ACCEL_PIPE_5T_IPV6 | UPF_ACCEL_PIPE_5T_IPV6_EXT

record doca_flow_header_format =
  hf_ip4_src :: u32
  hf_ip4_dst :: u32
  hf_ip4_next_proto :: u8
  hf_ip6_src :: upf_accel_ip
  hf_ip6_dst :: upf_accel_ip
  hf_ip6_next_proto :: u8
  hf_tcp_src_port :: u16
  hf_tcp_dst_port :: u16
  hf_udp_src_port :: u16
  hf_udp_dst_port :: u16

record doca_flow_match =
  fm_pkt_meta :: u32
  fm_outer :: doca_flow_header_format
  fm_inner :: doca_flow_header_format
  fm_gtp_teid :: u32
  fm_gtp_ext_psc_qfi :: u8

definition header0 :: doca_flow_header_format where
  "header0 = \<lparr>hf_ip4_src = 0, hf_ip4_dst = 0, hf_ip4_next_proto = 0, hf_ip6_src = 0, hf_ip6_dst = 0,
     hf_ip6_next_proto = 0, hf_tcp_src_port = 0, hf_tcp_dst_port = 0, hf_udp_src_port = 0,
     hf_udp_dst_port = 0\<rparr>"

definition hw_match0 :: doca_flow_match where
  "hw_match0 = \<lparr>fm_pkt_meta = 0, fm_outer = header0, fm_inner = header0, fm_gtp_teid = 0,
     fm_gtp_ext_psc_qfi = 0\<rparr>"

text \<open>\<open>DOCA_HTOBE32\<close> on a little-endian host.\<close>

definition htobe32 :: "u32 \<Rightarrow> u32" where
  "htobe32 x = push_bit 24 (x AND 0xff) OR push_bit 16 (drop_bit 8 x AND 0xff) OR
     push_bit 8 (drop_bit 16 x AND 0xff) OR (drop_bit 24 x AND 0xff)"

text \<open>The user context of a DOCA Flow entry.\<close>

datatype entry_ref = Dyn_entry int | Ext_entry int | Static_entry upf_accel_port

text \<open>
  Parameter: DOCA Flow.  Adding an entry gives the error code, the handle the SDK stores through the
  \<open>entry\<close> pointer (\<open>None\<close> when it stores nothing) and the new state of the engine.
\<close>

record 'w doca_flow_api =
  doca_flow_pipe_basic_add_entry :: "'w \<Rightarrow> u16 \<Rightarrow> upf_accel_port \<times> upf_accel_pipe_type \<Rightarrow>
    doca_flow_match \<Rightarrow> u32 \<Rightarrow> entry_ref \<Rightarrow> doca_error_t \<times> nat option \<times> 'w"
  doca_flow_pipe_remove_entry :: "'w \<Rightarrow> u16 \<Rightarrow> nat option \<Rightarrow> doca_error_t \<times> 'w"

text \<open>The switch on the transport protocol; another protocol fails an assertion.\<close>

definition set_l4_port :: "u8 \<Rightarrow> u16 \<Rightarrow> u16 \<Rightarrow> doca_flow_header_format \<Rightarrow>
    doca_flow_header_format option" where
  "set_l4_port proto src dst h =
     (if proto = 6 then Some (h\<lparr>hf_tcp_dst_port := dst, hf_tcp_src_port := src\<rparr>)
      else if proto = 17 then Some (h\<lparr>hf_udp_dst_port := dst, hf_udp_src_port := src\<rparr>)
      else None)"

text \<open>Pipe and match of each kind of rule, then the function that adds it.\<close>

definition hw_8t_ipv4 :: "upf_accel_match_8t \<Rightarrow> (upf_accel_pipe_type \<times> doca_flow_match) option" where
  "hw_8t_ipv4 m = do {
     let (pipe, hm) =
       (if tun_qfi (m8_outer m) \<noteq> 0
        then (UPF_ACCEL_PIPE_8T_IPV4, hw_match0\<lparr>fm_gtp_ext_psc_qfi := tun_qfi (m8_outer m)\<rparr>)
        else (UPF_ACCEL_PIPE_7T_IPV4, hw_match0));
     inner \<leftarrow> set_l4_port (ip_proto (m8_inner m)) (ue_port (m8_inner m)) (extern_port (m8_inner m))
        (header0\<lparr>hf_ip4_src := ip_v4 (ue_ip (m8_inner m)), hf_ip4_dst := ip_v4 (extern_ip (m8_inner m)),
                 hf_ip4_next_proto := ip_proto (m8_inner m)\<rparr>);
     Some (pipe, hm\<lparr>fm_outer := header0\<lparr>hf_ip4_src := ip_v4 (te_ip (m8_outer m))\<rparr>,
                    fm_inner := inner, fm_gtp_teid := te_id (m8_outer m)\<rparr>) }"

definition upf_accel_pipe_8t_ipv4_accel ::
  "'w doca_flow_api \<Rightarrow> 'w \<Rightarrow> upf_accel_port \<Rightarrow> u16 \<Rightarrow> upf_accel_match_8t \<Rightarrow> u32 \<Rightarrow> entry_ref \<Rightarrow>
   (doca_error_t \<times> nat option \<times> 'w) option" where
  "upf_accel_pipe_8t_ipv4_accel flow w port_id queue_id m pdr entry_ctx = do {
     (pipe, hw_match) \<leftarrow> hw_8t_ipv4 m;
     Some (doca_flow_pipe_basic_add_entry flow w queue_id (port_id, pipe) hw_match (htobe32 pdr) entry_ctx) }"

definition hw_8t_ipv6 ::
  "upf_accel_match_8t \<Rightarrow> u32 \<Rightarrow> (upf_accel_pipe_type \<times> doca_flow_match) option" where
  "hw_8t_ipv6 m metadata_value = do {
     let pipe = (if tun_qfi (m8_outer m) \<noteq> 0 then UPF_ACCEL_PIPE_8T_IPV6 else UPF_ACCEL_PIPE_7T_IPV6);
     inner \<leftarrow> set_l4_port (ip_proto (m8_inner m)) (ue_port (m8_inner m)) (extern_port (m8_inner m))
        (header0\<lparr>hf_ip6_dst := extern_ip (m8_inner m), hf_ip6_next_proto := ip_proto (m8_inner m)\<rparr>);
     Some (pipe, hw_match0\<lparr>fm_pkt_meta := metadata_value,
                           fm_outer := header0\<lparr>hf_ip4_src := ip_v4 (te_ip (m8_outer m))\<rparr>,
                           fm_inner := inner\<rparr>) }"

definition upf_accel_pipe_8t_ipv6_accel ::
  "'w doca_flow_api \<Rightarrow> 'w \<Rightarrow> upf_accel_port \<Rightarrow> u16 \<Rightarrow> upf_accel_match_8t \<Rightarrow> u32 \<Rightarrow> u32 \<Rightarrow> entry_ref \<Rightarrow>
   (doca_error_t \<times> nat option \<times> 'w) option" where
  "upf_accel_pipe_8t_ipv6_accel flow w port_id queue_id m pdr metadata_value entry_ctx = do {
     (pipe, hw_match) \<leftarrow> hw_8t_ipv6 m metadata_value;
     Some (doca_flow_pipe_basic_add_entry flow w queue_id (port_id, pipe) hw_match (htobe32 pdr) entry_ctx) }"

definition hw_8t_ipv6_ext :: "upf_accel_match_extension \<Rightarrow> upf_accel_pipe_type \<times> doca_flow_match" where
  "hw_8t_ipv6_ext m =
     (let (pipe, hm) = (if me_qfi m \<noteq> 0
                        then (UPF_ACCEL_PIPE_8T_IPV6_EXT, hw_match0\<lparr>fm_gtp_ext_psc_qfi := me_qfi m AND 0x3f\<rparr>)
                        else (UPF_ACCEL_PIPE_7T_IPV6_EXT, hw_match0))
      in (pipe, hm\<lparr>fm_gtp_teid := me_te_id m, fm_inner := header0\<lparr>hf_ip6_src := me_ue_ip m\<rparr>\<rparr>))"

definition upf_accel_pipe_8t_ipv6_ext_accel ::
  "'w doca_flow_api \<Rightarrow> 'w \<Rightarrow> upf_accel_port \<Rightarrow> u16 \<Rightarrow> upf_accel_match_extension \<Rightarrow> u32 \<Rightarrow> entry_ref \<Rightarrow>
   doca_error_t \<times> nat option \<times> 'w" where
  "upf_accel_pipe_8t_ipv6_ext_accel flow w port_id queue_id m metadata_value entry_ctx =
     (let (pipe, hw_match) = hw_8t_ipv6_ext m in
      doca_flow_pipe_basic_add_entry flow w queue_id (port_id, pipe) hw_match metadata_value entry_ctx)"

definition hw_5t_ipv4 :: "upf_accel_match_5t \<Rightarrow> (upf_accel_pipe_type \<times> doca_flow_match) option" where
  "hw_5t_ipv4 m = do {
     outer \<leftarrow> set_l4_port (ip_proto m) (extern_port m) (ue_port m)
        (header0\<lparr>hf_ip4_dst := ip_v4 (ue_ip m), hf_ip4_src := ip_v4 (extern_ip m),
                 hf_ip4_next_proto := ip_proto m\<rparr>);
     Some (UPF_ACCEL_PIPE_5T_IPV4, hw_match0\<lparr>fm_outer := outer\<rparr>) }"

definition upf_accel_pipe_5t_ipv4_accel ::
  "'w doca_flow_api \<Rightarrow> 'w \<Rightarrow> upf_accel_port \<Rightarrow> u16 \<Rightarrow> upf_accel_match_5t \<Rightarrow> u32 \<Rightarrow> entry_ref \<Rightarrow>
   (doca_error_t \<times> nat option \<times> 'w) option" where
  "upf_accel_pipe_5t_ipv4_accel flow w port_id queue_id m pdr entry_ctx = do {
     (pipe, hw_match) \<leftarrow> hw_5t_ipv4 m;
     Some (doca_flow_pipe_basic_add_entry flow w queue_id (port_id, pipe) hw_match (htobe32 pdr) entry_ctx) }"

definition hw_5t_ipv6 ::
  "upf_accel_match_5t \<Rightarrow> u32 \<Rightarrow> (upf_accel_pipe_type \<times> doca_flow_match) option" where
  "hw_5t_ipv6 m metadata_value = do {
     outer \<leftarrow> set_l4_port (ip_proto m) (extern_port m) (ue_port m)
        (header0\<lparr>hf_ip6_src := extern_ip m, hf_ip6_next_proto := ip_proto m\<rparr>);
     Some (UPF_ACCEL_PIPE_5T_IPV6, hw_match0\<lparr>fm_pkt_meta := metadata_value, fm_outer := outer\<rparr>) }"

definition upf_accel_pipe_5t_ipv6_accel ::
  "'w doca_flow_api \<Rightarrow> 'w \<Rightarrow> upf_accel_port \<Rightarrow> u16 \<Rightarrow> upf_accel_match_5t \<Rightarrow> u32 \<Rightarrow> u32 \<Rightarrow> entry_ref \<Rightarrow>
   (doca_error_t \<times> nat option \<times> 'w) option" where
  "upf_accel_pipe_5t_ipv6_accel flow w port_id queue_id m pdr metadata_value entry_ctx = do {
     (pipe, hw_match) \<leftarrow> hw_5t_ipv6 m metadata_value;
     Some (doca_flow_pipe_basic_add_entry flow w queue_id (port_id, pipe) hw_match (htobe32 pdr) entry_ctx) }"

definition hw_5t_ipv6_ext :: "upf_accel_match_extension \<Rightarrow> upf_accel_pipe_type \<times> doca_flow_match" where
  "hw_5t_ipv6_ext m = (UPF_ACCEL_PIPE_5T_IPV6_EXT,
     hw_match0\<lparr>fm_outer := header0\<lparr>hf_ip6_dst := me_ue_ip m\<rparr>\<rparr>)"

definition upf_accel_pipe_5t_ipv6_ext_accel ::
  "'w doca_flow_api \<Rightarrow> 'w \<Rightarrow> upf_accel_port \<Rightarrow> u16 \<Rightarrow> upf_accel_match_extension \<Rightarrow> u32 \<Rightarrow> entry_ref \<Rightarrow>
   doca_error_t \<times> nat option \<times> 'w" where
  "upf_accel_pipe_5t_ipv6_ext_accel flow w port_id queue_id m metadata_value entry_ctx =
     (let (pipe, hw_match) = hw_5t_ipv6_ext m in
      doca_flow_pipe_basic_add_entry flow w queue_id (port_id, pipe) hw_match metadata_value entry_ctx)"

section \<open>A hardware rule identifies one software key\<close>

text \<open>Addresses of IPv4 keys use the low 32 bits only.\<close>

definition v4_narrow :: "upf_accel_ip \<Rightarrow> bool" where "v4_narrow ip \<longleftrightarrow> ip = ucast (ip_v4 ip)"

definition key_narrow :: "upf_accel_match_8t \<Rightarrow> bool" where
  "key_narrow m \<longleftrightarrow> v4_narrow (te_ip (m8_outer m)) \<and>
     (m5_ip_version (m8_inner m) = L3_TYPE_IP4 \<longrightarrow>
        v4_narrow (ue_ip (m8_inner m)) \<and> v4_narrow (extern_ip (m8_inner m)))"

lemma v4_narrow_set: "v4_narrow (ip_set_v4 0 v)" "v4_narrow 0"
  by (auto simp: v4_narrow_def ip_set_v4_def ip_v4_def bit_eq_iff bit_simps dest: bit_imp_le_length)

lemma v4_narrow_eq: "v4_narrow a \<Longrightarrow> v4_narrow b \<Longrightarrow> ip_v4 a = ip_v4 b \<Longrightarrow> a = b"
  by (metis v4_narrow_def)

lemma upf_accel_5t_match_narrow:
  assumes "upf_accel_5t_match b c t = Some (DOCA_SUCCESS, t')" "t5_src_ip t = 0" "t5_dst_ip t = 0"
    and "t5_ip_version t' = L3_TYPE_IP4"
  shows "v4_narrow (t5_src_ip t') \<and> v4_narrow (t5_dst_ip t')"
  using assms
  by (cases "nw_ip_version (cn_network_ctx c) = 4"; cases "nw_ip_version (cn_network_ctx c) = 41")
    (auto simp: upf_accel_5t_match_def Let_def Some_bind_iff v4_narrow_set split: option.splits)

lemma pkt_match_narrow:
  assumes "upf_accel_fp_pkt_match d ty pkt tun0 = Some (DOCA_SUCCESS, ctx, m)"
  shows "key_narrow m"
proof (cases "ty = PARSER_PKT_TYPE_TUNNELED")
  case True
  with assms obtain c where g: "upf_accel_gtpu_match pkt c match_8t0 = Some (DOCA_SUCCESS, m)"
    by (auto simp: upf_accel_fp_pkt_match_def upf_accel_ran_match_def Let_def Some_bind_iff split: if_splits)
  obtain t where t: "upf_accel_5t_match pkt (tn_inner c) (ran_view (m8_inner match_8t0)) = Some (DOCA_SUCCESS, t)"
      "m8_inner m = of_ran_view t" and te: "v4_narrow (te_ip (m8_outer m))"
    using g by (auto simp: upf_accel_gtpu_match_def Let_def success_simps match_8t0_def match_tun0_def
        v4_narrow_set split: if_splits option.splits)
  show ?thesis
    using te upf_accel_5t_match_narrow [OF t(1)]
    by (auto simp: key_narrow_def t(2) of_ran_view_def ran_view_def match_8t0_def match_5t0_def)
next
  case False
  with assms obtain c t where "upf_accel_5t_match pkt c (wan_view match_5t0) = Some (DOCA_SUCCESS, t)"
      "m = match_8t0\<lparr>m8_inner := of_wan_view t\<rparr>"
    by (auto simp: upf_accel_fp_pkt_match_def upf_accel_wan_match_def Let_def Some_bind_iff match_8t0_def
        split: if_splits)
  then show ?thesis
    using upf_accel_5t_match_narrow [of pkt c "wan_view match_5t0" t]
    by (auto simp: key_narrow_def of_wan_view_def wan_view_def match_8t0_def match_5t0_def match_tun0_def
        v4_narrow_set)
qed

text \<open>
  The hardware rules of a flow: the rule of the connection and, over IPv6, the extension rule that
  sets the metadata the connection's rule matches.
\<close>

definition hw_rules :: "parser_pkt_type \<Rightarrow> upf_accel_match_8t \<Rightarrow> u32 \<Rightarrow>
    ((upf_accel_pipe_type \<times> doca_flow_match) \<times> (upf_accel_pipe_type \<times> doca_flow_match) option) option" where
  "hw_rules ty m md =
     (if m5_ip_version (m8_inner m) = L3_TYPE_IP6
      then (if ty = PARSER_PKT_TYPE_TUNNELED
            then do { r \<leftarrow> hw_8t_ipv6 m md;
                      Some (r, Some (hw_8t_ipv6_ext (upf_accel_fp_extension_match_extract m))) }
            else do { r \<leftarrow> hw_5t_ipv6 (m8_inner m) md;
                      Some (r, Some (hw_5t_ipv6_ext (upf_accel_fp_extension_match_extract m))) })
      else (if ty = PARSER_PKT_TYPE_TUNNELED
            then do { r \<leftarrow> hw_8t_ipv4 m; Some (r, None) }
            else do { r \<leftarrow> hw_5t_ipv4 (m8_inner m); Some (r, None) }))"

lemmas hw_defs = hw_8t_ipv4_def hw_8t_ipv6_def hw_8t_ipv6_ext_def hw_5t_ipv4_def hw_5t_ipv6_def
  hw_5t_ipv6_ext_def upf_accel_fp_extension_match_extract_def set_l4_port_def hw_match0_def header0_def

lemma small_and: "q < 64 \<Longrightarrow> q AND 0x3f = (q :: u8)"
  using less_mask_eq [of q 6] by (simp add: mask_eq_exp_minus_1)

text \<open>A key the data path can handle, as the match functions produce it.\<close>

definition key_ok :: "parser_pkt_type \<Rightarrow> upf_accel_match_8t \<Rightarrow> bool" where
  "key_ok ty m \<longleftrightarrow> m5_ip_version (m8_inner m) \<noteq> L3_TYPE_NONE \<and> ip_proto (m8_inner m) \<in> {6, 17} \<and>
     tun_qfi (m8_outer m) < 64 \<and> key_narrow m \<and>
     (if ty = PARSER_PKT_TYPE_TUNNELED then tun_ip_version (m8_outer m) = L3_TYPE_IP4
      else m8_outer m = match_tun0)"

lemma pkt_match_key_ok:
  assumes "upf_accel_fp_pkt_match d ty pkt tun0 = Some (DOCA_SUCCESS, ctx, m)"
  shows "key_ok ty m"
  using pkt_match_key [OF assms] pkt_match_narrow [OF assms] by (simp add: key_ok_def)

lemma hw_rules_defined: "key_ok ty m \<Longrightarrow> hw_rules ty m md \<noteq> None"
  by (auto simp: key_ok_def hw_rules_def hw_defs Let_def)

lemma hw_rules_v4_inj:
  assumes "key_ok ty m" "key_ok ty m'" "hw_rules ty m md = hw_rules ty m' md'"
    and "m5_ip_version (m8_inner m) = L3_TYPE_IP4"
  shows "m = m'"
proof -
  have v: "m5_ip_version (m8_inner m') = L3_TYPE_IP4"
    using assms by (cases "m5_ip_version (m8_inner m')")
      (auto simp: hw_rules_def key_ok_def hw_defs Let_def split: if_splits)
  note n = v4_narrow_eq
  have "m8_inner m = m8_inner m'"
    using assms v
    by (auto simp: hw_rules_def key_ok_def key_narrow_def hw_defs Let_def
        intro!: upf_accel_match_5t.equality n split: if_splits)
  moreover have "m8_outer m = m8_outer m'"
    using assms v
    by (auto simp: hw_rules_def key_ok_def key_narrow_def hw_defs Let_def
        intro!: upf_accel_match_tun.equality n split: if_splits)
  ultimately show ?thesis by (intro upf_accel_match_8t.equality) auto
qed

lemma hw_rules_v6_inj:
  assumes "key_ok ty m" "key_ok ty m'" "hw_rules ty m md = hw_rules ty m' md'"
    and "m5_ip_version (m8_inner m) = L3_TYPE_IP6"
  shows "m = m'"
proof -
  have v: "m5_ip_version (m8_inner m') = L3_TYPE_IP6"
    using assms by (cases "m5_ip_version (m8_inner m')")
      (auto simp: hw_rules_def key_ok_def hw_defs Let_def split: if_splits)
  have "m8_inner m = m8_inner m'"
    using assms v
    by (auto simp: hw_rules_def key_ok_def key_narrow_def hw_defs Let_def
        intro!: upf_accel_match_5t.equality split: if_splits)
  moreover have "m8_outer m = m8_outer m'"
    using assms v
    by (auto simp: hw_rules_def key_ok_def key_narrow_def hw_defs Let_def small_and
        intro!: upf_accel_match_tun.equality v4_narrow_eq split: if_splits)
  ultimately show ?thesis by (intro upf_accel_match_8t.equality) auto
qed

lemma hw_rules_direction:
  assumes "key_ok ty m" "key_ok ty' m'" "hw_rules ty m md = hw_rules ty' m' md'"
    and "ty = PARSER_PKT_TYPE_TUNNELED"
  shows "ty' = PARSER_PKT_TYPE_TUNNELED"
  using assms by (auto simp: hw_rules_def key_ok_def hw_defs Let_def split: if_splits)

section \<open>Properties\<close>

text \<open>
  C25.  The hardware rules built for a packet exist (no assertion fails) and identify its flow: two
  packets for which the same rules would be installed have the same direction and the same match key
  (5-tuple and, for uplink, tunnel address, TEID and QFI).  For IPv6 flows, whose key is split over
  two chained rules, this is the pair of rules.
\<close>

theorem hw_rules_identify_flow:
  assumes "ty \<noteq> PARSER_PKT_TYPE_UNKNOWN" and "ty' \<noteq> PARSER_PKT_TYPE_UNKNOWN"
    and "upf_accel_fp_pkt_match d ty pkt tun0 = Some (DOCA_SUCCESS, ctx, m)"
    and "upf_accel_fp_pkt_match d ty' pkt' tun0 = Some (DOCA_SUCCESS, ctx', m')"
  shows "hw_rules ty m md \<noteq> None \<and> (hw_rules ty m md = hw_rules ty' m' md' \<longrightarrow> ty = ty' \<and> m = m')"
proof -
  have k: "key_ok ty m" "key_ok ty' m'" using pkt_match_key_ok assms by blast+
  have "ty = ty' \<and> m = m'" if e: "hw_rules ty m md = hw_rules ty' m' md'"
  proof -
    have t: "ty = ty'"
      using hw_rules_direction [OF k e] hw_rules_direction [OF k(2,1) e [symmetric]] assms(1,2)
      by (cases ty; cases ty') auto
    then show ?thesis
      using k e hw_rules_v4_inj [of ty m m' md md'] hw_rules_v6_inj [of ty m m' md md']
      by (cases "m5_ip_version (m8_inner m)") (auto simp: key_ok_def)
  qed
  then show ?thesis using hw_rules_defined [OF k(1)] by blast
qed

theorem hw_rules_identify_flow_witness:
  "\<exists>ctx m. upf_accel_fp_pkt_match ref_dpdk PARSER_PKT_TYPE_TUNNELED gtpu_packet tun0
       = Some (DOCA_SUCCESS, ctx, m) \<and> hw_rules PARSER_PKT_TYPE_TUNNELED m 0 \<noteq> None"
proof -
  obtain ctx m where "upf_accel_fp_pkt_match ref_dpdk PARSER_PKT_TYPE_TUNNELED gtpu_packet tun0
      = Some (DOCA_SUCCESS, ctx, m)" using gtpu_packet_match by blast
  then show ?thesis
    using hw_rules_identify_flow [of PARSER_PKT_TYPE_TUNNELED PARSER_PKT_TYPE_TUNNELED
        ref_dpdk gtpu_packet ctx m gtpu_packet ctx m 0 0] by auto
qed

end
