(* ===== verification/Upf_Aging.thy ===== *)
theory Upf_Aging
  imports Upf_Types
begin

text \<open>
  The entry state machine and the software aging list of
  \<open>applications/upf_accel/upf_accel_flow_processing.c\<close> (lines 66 to 383).

  The aging list is a doubly linked list threaded through the nodes embedded in the connection
  table, one per direction, most recently used flow first.  \<open>None\<close> is a failed \<open>assert\<close> of the state
  machine, an access outside the connection table, or (for the scan) a loop that does not end.
\<close>

section \<open>Entry state machine\<close>

fun state_change_allowed :: "upf_accel_entry_state \<Rightarrow> upf_accel_entry_state \<Rightarrow> bool" where
  "state_change_allowed current UPF_ACCEL_ENTRY_STATE_NONE =
     (current \<in> {UPF_ACCEL_ENTRY_STATE_PENDING, UPF_ACCEL_ENTRY_STATE_UNACCELERATED,
        UPF_ACCEL_ENTRY_STATE_PENDING_ACCELERATION, UPF_ACCEL_ENTRY_STATE_ACCELERATED,
        UPF_ACCEL_ENTRY_STATE_PENDING_DEACCELERATION})"
| "state_change_allowed current UPF_ACCEL_ENTRY_STATE_PENDING =
     (current = UPF_ACCEL_ENTRY_STATE_NONE)"
| "state_change_allowed current UPF_ACCEL_ENTRY_STATE_UNACCELERATED =
     (current = UPF_ACCEL_ENTRY_STATE_PENDING)"
| "state_change_allowed current UPF_ACCEL_ENTRY_STATE_PENDING_ACCELERATION =
     (current \<in> {UPF_ACCEL_ENTRY_STATE_NONE, UPF_ACCEL_ENTRY_STATE_PENDING,
        UPF_ACCEL_ENTRY_STATE_UNACCELERATED})"
| "state_change_allowed current UPF_ACCEL_ENTRY_STATE_ACCELERATED =
     (current = UPF_ACCEL_ENTRY_STATE_PENDING_ACCELERATION)"
| "state_change_allowed current UPF_ACCEL_ENTRY_STATE_PENDING_DEACCELERATION =
     (current = UPF_ACCEL_ENTRY_STATE_ACCELERATED)"

definition upf_accel_fp_entry_state_change ::
  "upf_accel_entry_state \<Rightarrow> upf_accel_entry_state \<Rightarrow> upf_accel_entry_state option" where
  "upf_accel_fp_entry_state_change current_state new_state =
     (if state_change_allowed current_state new_state then Some new_state else None)"

definition upf_accel_fp_entry_is_alive :: "upf_accel_entry_state \<Rightarrow> bool" where
  "upf_accel_fp_entry_is_alive state \<longleftrightarrow> state \<noteq> UPF_ACCEL_ENTRY_STATE_NONE"

definition upf_accel_fp_entry_is_established :: "upf_accel_entry_state \<Rightarrow> bool" where
  "upf_accel_fp_entry_is_established state \<longleftrightarrow>
     state = UPF_ACCEL_ENTRY_STATE_PENDING_ACCELERATION \<or>
     state = UPF_ACCEL_ENTRY_STATE_PENDING_DEACCELERATION \<or> state = UPF_ACCEL_ENTRY_STATE_ACCELERATED"

definition upf_accel_fp_get_opposite_pkt_type :: "parser_pkt_type \<Rightarrow> parser_pkt_type" where
  "upf_accel_fp_get_opposite_pkt_type pkt_type =
     (if pkt_type = PARSER_PKT_TYPE_TUNNELED then PARSER_PKT_TYPE_PLAIN else PARSER_PKT_TYPE_TUNNELED)"

text \<open>The state change applied to one entry of a connection in the table.\<close>

definition conn_state_change ::
  "('h, 'x, 'w) upf_accel_fp_data \<Rightarrow> int \<Rightarrow> parser_pkt_type \<Rightarrow> upf_accel_entry_state \<Rightarrow>
   ('h, 'x, 'w) upf_accel_fp_data option" where
  "conn_state_change fp conn pkt_type new_state = do {
     c \<leftarrow> conn_at fp conn;
     s \<leftarrow> upf_accel_fp_entry_state_change (fe_state (dy_entries c pkt_type)) new_state;
     conn_upd fp conn (entry_upd pkt_type (\<lambda>e. e\<lparr>fe_state := s\<rparr>)) }"

definition upf_accel_fp_delete_flow ::
  "('h, upf_accel_match_5t) rte_hash_api \<Rightarrow> ('h, 'x, 'w) upf_accel_fp_data \<Rightarrow> int \<Rightarrow> parser_pkt_type \<Rightarrow>
   (doca_error_t \<times> ('h, 'x, 'w) upf_accel_fp_data) option" where
  "upf_accel_fp_delete_flow api fp conn pkt_type = do {
     c \<leftarrow> conn_at fp conn;
     let opposite_dir_type = upf_accel_fp_get_opposite_pkt_type pkt_type;
     let last_entry = (\<not> upf_accel_fp_entry_is_alive (fe_state (dy_entries c opposite_dir_type)));
     fp \<leftarrow> conn_state_change fp conn pkt_type UPF_ACCEL_ENTRY_STATE_NONE;
     if \<not> last_entry then Some (DOCA_SUCCESS, fp)
     else let (r, tbl) = rte_hash_del_key_with_hash api (fp_dyn_tbl fp) (m8_inner (dy_match c)) (dy_hash c);
              fp = fp\<lparr>fp_dyn_tbl := tbl\<rparr>
          in if r < 0 then Some (DOCA_ERROR_INVALID_VALUE, fp) else Some (DOCA_SUCCESS, fp) }"

section \<open>The aging list\<close>

abbreviation (input) UPF_ACCEL_SW_AGING_LL_INVALID_NODE :: int where
  "UPF_ACCEL_SW_AGING_LL_INVALID_NODE \<equiv> - 1"

definition upf_accel_sw_aging_ll_init ::
  "('h, 'x, 'w) upf_accel_fp_data \<Rightarrow> parser_pkt_type \<Rightarrow> ('h, 'x, 'w) upf_accel_fp_data" where
  "upf_accel_sw_aging_ll_init fp pkt_type =
     ll_upd pkt_type (\<lambda>ll. ll\<lparr>ll_head := UPF_ACCEL_SW_AGING_LL_INVALID_NODE,
                              ll_tail := UPF_ACCEL_SW_AGING_LL_INVALID_NODE\<rparr>) fp"

definition node_upd :: "parser_pkt_type \<Rightarrow>
    (upf_accel_sw_aging_ll_node \<Rightarrow> upf_accel_sw_aging_ll_node) \<Rightarrow>
    upf_accel_dyn_entry_ctx \<Rightarrow> upf_accel_dyn_entry_ctx" where
  "node_upd ty f = entry_upd ty (\<lambda>e. e\<lparr>fe_sw_aging_node := f (fe_sw_aging_node e)\<rparr>)"

definition upf_accel_sw_aging_ll_node_init ::
  "upf_accel_dyn_entry_ctx \<Rightarrow> parser_pkt_type \<Rightarrow> upf_accel_dyn_entry_ctx" where
  "upf_accel_sw_aging_ll_node_init conn pkt_type =
     node_upd pkt_type (\<lambda>node. node\<lparr>nd_prev := UPF_ACCEL_SW_AGING_LL_INVALID_NODE,
                                    nd_next := UPF_ACCEL_SW_AGING_LL_INVALID_NODE\<rparr>) conn"

definition upf_accel_sw_aging_ll_node_is_valid :: "int \<Rightarrow> bool" where
  "upf_accel_sw_aging_ll_node_is_valid node_idx \<longleftrightarrow> node_idx \<noteq> UPF_ACCEL_SW_AGING_LL_INVALID_NODE"

definition upf_accel_sw_aging_ll_node_exist ::
  "('h, 'x, 'w) upf_accel_fp_data \<Rightarrow> upf_accel_dyn_entry_ctx \<Rightarrow> parser_pkt_type \<Rightarrow> bool" where
  "upf_accel_sw_aging_ll_node_exist fp conn pkt_type \<longleftrightarrow>
     (let node = fe_sw_aging_node (dy_entries conn pkt_type); conn_idx = dy_conn_idx conn in
      upf_accel_sw_aging_ll_node_is_valid (nd_prev node) \<or>
      upf_accel_sw_aging_ll_node_is_valid (nd_next node) \<or>
      conn_idx = ll_head (fp_sw_aging_ll fp pkt_type) \<or> conn_idx = ll_tail (fp_sw_aging_ll fp pkt_type))"

definition upf_accel_sw_aging_ll_node_remove ::
  "('h, 'x, 'w) upf_accel_fp_data \<Rightarrow> int \<Rightarrow> parser_pkt_type \<Rightarrow>
   (bool \<times> ('h, 'x, 'w) upf_accel_fp_data) option" where
  "upf_accel_sw_aging_ll_node_remove fp conn pkt_type = do {
     c \<leftarrow> conn_at fp conn;
     let prev = nd_prev (fe_sw_aging_node (dy_entries c pkt_type));
     let next = nd_next (fe_sw_aging_node (dy_entries c pkt_type));
     let conn_idx = dy_conn_idx c;
     if \<not> upf_accel_sw_aging_ll_node_exist fp c pkt_type then Some (False, fp)
     else do {
       fp \<leftarrow> (if upf_accel_sw_aging_ll_node_is_valid prev
              then conn_upd fp prev (node_upd pkt_type (\<lambda>n. n\<lparr>nd_next := next\<rparr>)) else Some fp);
       fp \<leftarrow> (if upf_accel_sw_aging_ll_node_is_valid next
              then conn_upd fp next (node_upd pkt_type (\<lambda>n. n\<lparr>nd_prev := prev\<rparr>)) else Some fp);
       let fp = (if ll_tail (fp_sw_aging_ll fp pkt_type) = conn_idx
                 then ll_upd pkt_type (\<lambda>ll. ll\<lparr>ll_tail := prev\<rparr>) fp else fp);
       let fp = (if ll_head (fp_sw_aging_ll fp pkt_type) = conn_idx
                 then ll_upd pkt_type (\<lambda>ll. ll\<lparr>ll_head := next\<rparr>) fp else fp);
       Some (True, unaccel_upd pkt_type (\<lambda>k. k\<lparr>ac_current := ac_current k - 1\<rparr>) fp) } }"

text \<open>\<open>tsc\<close> is what \<open>rte_rdtsc()\<close> returns.\<close>

definition upf_accel_sw_aging_ll_node_insert ::
  "u64 \<Rightarrow> ('h, 'x, 'w) upf_accel_fp_data \<Rightarrow> int \<Rightarrow> parser_pkt_type \<Rightarrow>
   ('h, 'x, 'w) upf_accel_fp_data option" where
  "upf_accel_sw_aging_ll_node_insert tsc fp conn pkt_type = do {
     c \<leftarrow> conn_at fp conn;
     let old_head = ll_head (fp_sw_aging_ll fp pkt_type);
     let conn_idx = dy_conn_idx c;
     fp \<leftarrow> (if upf_accel_sw_aging_ll_node_is_valid old_head
            then conn_upd fp old_head (node_upd pkt_type (\<lambda>n. n\<lparr>nd_prev := conn_idx\<rparr>)) else Some fp);
     fp \<leftarrow> conn_upd fp conn (node_upd pkt_type (\<lambda>n. n\<lparr>nd_prev := UPF_ACCEL_SW_AGING_LL_INVALID_NODE,
                                                      nd_next := old_head, nd_timestamp := tsc\<rparr>));
     let fp = ll_upd pkt_type (\<lambda>ll. ll\<lparr>ll_head := conn_idx\<rparr>) fp;
     let fp = (if \<not> upf_accel_sw_aging_ll_node_is_valid (ll_tail (fp_sw_aging_ll fp pkt_type))
               then ll_upd pkt_type (\<lambda>ll. ll\<lparr>ll_tail := conn_idx\<rparr>) fp else fp);
     Some (unaccel_upd pkt_type (\<lambda>k. k\<lparr>ac_current := ac_current k + 1\<rparr>) fp) }"

definition upf_accel_sw_aging_ll_node_move_to_head ::
  "u64 \<Rightarrow> ('h, 'x, 'w) upf_accel_fp_data \<Rightarrow> int \<Rightarrow> parser_pkt_type \<Rightarrow>
   ('h, 'x, 'w) upf_accel_fp_data option" where
  "upf_accel_sw_aging_ll_node_move_to_head tsc fp conn pkt_type = do {
     (existed, fp) \<leftarrow> upf_accel_sw_aging_ll_node_remove fp conn pkt_type;
     let fp = (if \<not> existed
               then unaccel_upd pkt_type (\<lambda>k. k\<lparr>ac_total := ac_total k + 1\<rparr>) fp else fp);
     upf_accel_sw_aging_ll_node_insert tsc fp conn pkt_type }"

text \<open>The \<open>while\<close> loop of the scan, from the node \<open>cur\<close>.\<close>

partial_function (option) sw_aging_scan_loop ::
  "('h, upf_accel_match_5t) rte_hash_api \<Rightarrow> u64 \<Rightarrow> u64 \<Rightarrow> parser_pkt_type \<Rightarrow> int \<Rightarrow>
   ('h, 'x, 'w) upf_accel_fp_data \<Rightarrow> (int \<times> ('h, 'x, 'w) upf_accel_fp_data) option" where
  "sw_aging_scan_loop api tsc aging_period_tsc pkt_type cur fp =
     (if \<not> upf_accel_sw_aging_ll_node_is_valid cur then Some (cur, fp)
      else do {
        c \<leftarrow> conn_at fp cur;
        if tsc - nd_timestamp (fe_sw_aging_node (dy_entries c pkt_type)) < aging_period_tsc
        then Some (cur, fp)
        else do {
          (ret, fp) \<leftarrow> upf_accel_fp_delete_flow api fp cur pkt_type;
          let fp = (if ret \<noteq> DOCA_SUCCESS
                    then unaccel_upd pkt_type (\<lambda>k. k\<lparr>ac_aging_errors := ac_aging_errors k + 1\<rparr>) fp
                    else fp);
          let fp = unaccel_upd pkt_type (\<lambda>k. k\<lparr>ac_current := ac_current k - 1\<rparr>) fp;
          c \<leftarrow> conn_at fp cur;
          sw_aging_scan_loop api tsc aging_period_tsc pkt_type
            (nd_prev (fe_sw_aging_node (dy_entries c pkt_type))) fp } })"

definition upf_accel_sw_aging_ll_scan ::
  "('h, upf_accel_match_5t) rte_hash_api \<Rightarrow> u64 \<Rightarrow> u64 \<Rightarrow> ('h, 'x, 'w) upf_accel_fp_data \<Rightarrow>
   parser_pkt_type \<Rightarrow> ('h, 'x, 'w) upf_accel_fp_data option" where
  "upf_accel_sw_aging_ll_scan api tsc_hz tsc fp pkt_type = do {
     let aging_period_tsc = ucast (fp_sw_aging_time_sec fp) * tsc_hz;
     (cur, fp) \<leftarrow> sw_aging_scan_loop api tsc aging_period_tsc pkt_type
                     (ll_tail (fp_sw_aging_ll fp pkt_type)) fp;
     Some (ll_upd pkt_type (\<lambda>ll. ll\<lparr>ll_tail := cur\<rparr>) fp) }"

section \<open>Doubly linked segments\<close>

text \<open>
  \<open>dseg nx pv p xs q\<close>: following \<open>nx\<close> from the first element of \<open>xs\<close> visits \<open>xs\<close> and then \<open>q\<close>,
  following \<open>pv\<close> from the last visits \<open>xs\<close> backwards and then \<open>p\<close>.
\<close>

definition hd0 :: "'a list \<Rightarrow> 'a \<Rightarrow> 'a" where "hd0 xs q = (if xs = [] then q else hd xs)"
definition last0 :: "'a \<Rightarrow> 'a list \<Rightarrow> 'a" where "last0 p xs = (if xs = [] then p else last xs)"

lemma hd0_simps [simp]: "hd0 [] q = q" "hd0 (x # xs) q = x" "hd0 (xs @ ys) q = hd0 xs (hd0 ys q)"
  by (auto simp: hd0_def)

lemma last0_simps [simp]: "last0 p [] = p" "last0 p (x # xs) = last0 x xs"
  "last0 p (xs @ ys) = last0 (last0 p xs) ys"
  by (auto simp: last0_def)

lemma last0_in: "xs \<noteq> [] \<Longrightarrow> last0 p xs \<in> set xs"
  by (simp add: last0_def)

lemma hd0_in: "xs \<noteq> [] \<Longrightarrow> hd0 xs q \<in> set xs"
  by (simp add: hd0_def)

fun dseg :: "(int \<Rightarrow> int) \<Rightarrow> (int \<Rightarrow> int) \<Rightarrow> int \<Rightarrow> int list \<Rightarrow> int \<Rightarrow> bool" where
  "dseg nx pv p [] q = True"
| "dseg nx pv p (x # xs) q = (pv x = p \<and> nx x = hd0 xs q \<and> dseg nx pv x xs q)"

lemma dseg_append [simp]:
  "dseg nx pv p (xs @ ys) q \<longleftrightarrow> dseg nx pv p xs (hd0 ys q) \<and> dseg nx pv (last0 p xs) ys q"
  by (induction xs arbitrary: p) (auto simp: hd0_def)

lemma dseg_frame:
  assumes "\<And>x. x \<in> set xs \<Longrightarrow> nx' x = nx x" "\<And>x. x \<in> set xs \<Longrightarrow> pv' x = pv x"
  shows "dseg nx' pv' p xs q = dseg nx pv p xs q"
  using assms by (induction xs arbitrary: p) auto

lemma dseg_set_next:
  assumes "dseg nx pv p xs q" and "distinct xs"
  shows "dseg (nx(last0 z xs := q')) pv p xs q' \<or> xs = []"
proof (cases xs rule: rev_cases)
  case (snoc ys y)
  moreover have "dseg (nx(y := q')) pv p ys y = dseg nx pv p ys y"
    using assms(2) snoc by (intro dseg_frame) auto
  ultimately show ?thesis using assms by simp
qed simp

lemma dseg_set_prev:
  assumes "dseg nx pv p xs q" and "distinct xs"
  shows "dseg nx (pv(hd0 xs z := p')) p' xs q \<or> xs = []"
proof (cases xs)
  case (Cons y ys)
  moreover have "dseg nx (pv(y := p')) y ys q = dseg nx pv y ys q"
    using assms(2) Cons by (intro dseg_frame) auto
  ultimately show ?thesis using assms by simp
qed simp

text \<open>Unlinking an element and linking one in front.\<close>

lemma dseg_unlink:
  assumes "dseg nx pv p (xs @ c # ys) q" and "distinct (xs @ c # ys)"
  shows "dseg (if xs = [] then nx else nx(last0 p xs := hd0 ys q))
              (if ys = [] then pv else pv(hd0 ys q := last0 p xs)) p (xs @ ys) q"
proof -
  let ?nx = "if xs = [] then nx else nx(last0 p xs := hd0 ys q)"
  let ?pv = "if ys = [] then pv else pv(hd0 ys q := last0 p xs)"
  have l: "xs \<noteq> [] \<Longrightarrow> last0 p xs \<in> set xs" and h: "ys \<noteq> [] \<Longrightarrow> hd0 ys q \<in> set ys"
    by (auto intro: last0_in hd0_in)
  from assms have s: "dseg nx pv p xs c" "dseg nx pv c ys q" and d: "distinct xs" "distinct ys"
      and x: "set xs \<inter> set ys = {}" by auto
  have "dseg ?nx pv p xs (hd0 ys q)"
    using dseg_set_next [OF s(1) d(1), of p "hd0 ys q"] by auto
  moreover have "dseg ?nx ?pv p xs (hd0 ys q) = dseg ?nx pv p xs (hd0 ys q)"
    using h x by (intro dseg_frame) (auto simp: disjoint_iff)
  ultimately have 1: "dseg ?nx ?pv p xs (hd0 ys q)" by simp
  have "dseg nx ?pv (last0 p xs) ys q"
    using dseg_set_prev [OF s(2) d(2), of q "last0 p xs"] by auto
  moreover have "dseg ?nx ?pv (last0 p xs) ys q = dseg nx ?pv (last0 p xs) ys q"
    using l x by (intro dseg_frame) (auto simp: disjoint_iff)
  ultimately have 2: "dseg ?nx ?pv (last0 p xs) ys q" by simp
  from 1 2 show ?thesis by simp
qed

lemma dseg_link:
  assumes "dseg nx pv p xs q" and "distinct (c # xs)"
  shows "dseg (nx(c := hd0 xs q)) ((if xs = [] then pv else pv(hd0 xs q := c))(c := p)) p (c # xs) q"
proof -
  have "dseg nx (if xs = [] then pv else pv(hd0 xs q := c)) c xs q"
    using dseg_set_prev [OF assms(1), of q c] assms(2) by auto
  moreover have "dseg (nx(c := hd0 xs q)) ((if xs = [] then pv else pv(hd0 xs q := c))(c := p)) c xs q
      = dseg nx (if xs = [] then pv else pv(hd0 xs q := c)) c xs q"
    using assms(2) by (intro dseg_frame) auto
  ultimately show ?thesis by simp
qed

section \<open>The list a state represents\<close>

definition node_of :: "('h, 'x, 'w) upf_accel_fp_data \<Rightarrow> parser_pkt_type \<Rightarrow> int \<Rightarrow> upf_accel_sw_aging_ll_node" where
  "node_of fp ty i = fe_sw_aging_node (dy_entries (fp_dyn_tbl_data fp i) ty)"

abbreviation nx_of :: "('h, 'x, 'w) upf_accel_fp_data \<Rightarrow> parser_pkt_type \<Rightarrow> int \<Rightarrow> int" where
  "nx_of fp ty \<equiv> \<lambda>i. nd_next (node_of fp ty i)"
abbreviation pv_of :: "('h, 'x, 'w) upf_accel_fp_data \<Rightarrow> parser_pkt_type \<Rightarrow> int \<Rightarrow> int" where
  "pv_of fp ty \<equiv> \<lambda>i. nd_prev (node_of fp ty i)"
abbreviation stamp_of :: "('h, 'x, 'w) upf_accel_fp_data \<Rightarrow> parser_pkt_type \<Rightarrow> int \<Rightarrow> u64" where
  "stamp_of fp ty \<equiv> \<lambda>i. nd_timestamp (node_of fp ty i)"
abbreviation state_of :: "('h, 'x, 'w) upf_accel_fp_data \<Rightarrow> parser_pkt_type \<Rightarrow> int \<Rightarrow> upf_accel_entry_state" where
  "state_of fp ty \<equiv> \<lambda>i. fe_state (dy_entries (fp_dyn_tbl_data fp i) ty)"

definition in_table :: "('h, 'x, 'w) upf_accel_fp_data \<Rightarrow> int \<Rightarrow> bool" where
  "in_table fp i \<longleftrightarrow> 0 \<le> i \<and> i < fp_dyn_tbl_size fp \<and> dy_conn_idx (fp_dyn_tbl_data fp i) = i"

definition aging_list :: "parser_pkt_type \<Rightarrow> ('h, 'x, 'w) upf_accel_fp_data \<Rightarrow> int list \<Rightarrow> bool" where
  "aging_list ty fp xs \<longleftrightarrow> distinct xs \<and> (\<forall>x \<in> set xs. in_table fp x) \<and>
     ll_head (fp_sw_aging_ll fp ty) = hd0 xs (- 1) \<and> ll_tail (fp_sw_aging_ll fp ty) = last0 (- 1) xs \<and>
     dseg (nx_of fp ty) (pv_of fp ty) (- 1) xs (- 1)"

text \<open>A connection the data path may hand to the list operations: one that is in the list, or one
  whose node has just been initialised.\<close>

definition listable :: "parser_pkt_type \<Rightarrow> ('h, 'x, 'w) upf_accel_fp_data \<Rightarrow> int list \<Rightarrow> int \<Rightarrow> bool" where
  "listable ty fp xs c \<longleftrightarrow> in_table fp c \<and>
     (c \<in> set xs \<or> pv_of fp ty c = - 1 \<and> nx_of fp ty c = - 1)"

text \<open>Everything but the list nodes of one direction.\<close>

definition strip :: "parser_pkt_type \<Rightarrow> upf_accel_dyn_entry_ctx \<Rightarrow> upf_accel_dyn_entry_ctx" where
  "strip ty c = node_upd ty (\<lambda>_. node0) c"

definition list_frame :: "parser_pkt_type \<Rightarrow> ('h, 'x, 'w) upf_accel_fp_data \<Rightarrow>
    ('h, 'x, 'w) upf_accel_fp_data \<Rightarrow> bool" where
  "list_frame ty fp fp' \<longleftrightarrow> (\<forall>i. strip ty (fp_dyn_tbl_data fp' i) = strip ty (fp_dyn_tbl_data fp i)) \<and>
     (\<exists>d ll k. fp' = fp\<lparr>fp_dyn_tbl_data := d, fp_sw_aging_ll := (fp_sw_aging_ll fp)(ty := ll),
                        fp_unaccel_counters := (fp_unaccel_counters fp)(ty := k)\<rparr>)"

definition put_node :: "parser_pkt_type \<Rightarrow> int \<Rightarrow>
    (upf_accel_sw_aging_ll_node \<Rightarrow> upf_accel_sw_aging_ll_node) \<Rightarrow>
    ('h, 'x, 'w) upf_accel_fp_data \<Rightarrow> ('h, 'x, 'w) upf_accel_fp_data" where
  "put_node ty i f fp =
     fp\<lparr>fp_dyn_tbl_data := (fp_dyn_tbl_data fp)(i := node_upd ty f (fp_dyn_tbl_data fp i))\<rparr>"

named_theorems list_simps \<open>effect of the list updates on nodes, ends and table\<close>

lemma conn_upd_node [list_simps]:
  "in_table fp i \<Longrightarrow> conn_upd fp i (node_upd ty f) = Some (put_node ty i f fp)"
  by (simp add: conn_upd_def in_table_def put_node_def)

lemma conn_at_in [list_simps]: "in_table fp i \<Longrightarrow> conn_at fp i = Some (fp_dyn_tbl_data fp i)"
  by (simp add: conn_at_def in_table_def)

lemma put_node_simps [list_simps]:
  "node_of (put_node ty i f fp) ty = (node_of fp ty)(i := f (node_of fp ty i))"
  "in_table (put_node ty i f fp) j = in_table fp j"
  "fp_sw_aging_ll (put_node ty i f fp) = fp_sw_aging_ll fp"
  "fp_unaccel_counters (put_node ty i f fp) = fp_unaccel_counters fp"
  by (auto simp: node_of_def put_node_def node_upd_def entry_upd_def in_table_def fun_eq_iff)

lemma ll_upd_simps [list_simps]:
  "node_of (ll_upd ty g fp) t = node_of fp t"
  "in_table (ll_upd ty g fp) j = in_table fp j"
  "fp_sw_aging_ll (ll_upd ty g fp) = (fp_sw_aging_ll fp)(ty := g (fp_sw_aging_ll fp ty))"
  "fp_unaccel_counters (ll_upd ty g fp) = fp_unaccel_counters fp"
  "fp_dyn_tbl_data (ll_upd ty g fp) = fp_dyn_tbl_data fp"
  by (auto simp: node_of_def ll_upd_def in_table_def fun_eq_iff)

lemma unaccel_upd_simps [list_simps]:
  "node_of (unaccel_upd ty k fp) t = node_of fp t"
  "in_table (unaccel_upd ty k fp) j = in_table fp j"
  "fp_sw_aging_ll (unaccel_upd ty k fp) = fp_sw_aging_ll fp"
  "fp_unaccel_counters (unaccel_upd ty k fp) = (fp_unaccel_counters fp)(ty := k (fp_unaccel_counters fp ty))"
  "fp_dyn_tbl_data (unaccel_upd ty k fp) = fp_dyn_tbl_data fp"
  by (auto simp: node_of_def unaccel_upd_def in_table_def fun_eq_iff)

lemma list_frame_refl: "list_frame ty fp fp"
  by (auto simp: list_frame_def intro!: exI [of _ "fp_dyn_tbl_data fp"] exI [of _ "fp_sw_aging_ll fp ty"]
      exI [of _ "fp_unaccel_counters fp ty"])

lemma list_frame_trans: "list_frame ty a b \<Longrightarrow> list_frame ty b c \<Longrightarrow> list_frame ty a c"
  by (auto simp: list_frame_def) blast

lemma list_frame_put: "list_frame ty fp (put_node ty i f fp)"
  by (auto simp: list_frame_def put_node_def strip_def node_upd_def entry_upd_def
      intro!: exI [of _ "fp_sw_aging_ll fp ty"] exI [of _ "fp_unaccel_counters fp ty"])

lemma list_frame_ll: "list_frame ty fp (ll_upd ty g fp)"
  by (auto simp: list_frame_def ll_upd_def
      intro!: exI [of _ "fp_dyn_tbl_data fp"] exI [of _ "fp_unaccel_counters fp ty"])

lemma list_frame_unaccel: "list_frame ty fp (unaccel_upd ty k fp)"
  by (auto simp: list_frame_def unaccel_upd_def
      intro!: exI [of _ "fp_dyn_tbl_data fp"] exI [of _ "fp_sw_aging_ll fp ty"])

lemma list_frame_steps:
  assumes "list_frame ty fp a"
  shows "list_frame ty fp (put_node ty i f a)" "list_frame ty fp (ll_upd ty g a)"
    "list_frame ty fp (unaccel_upd ty k a)"
  by (rule list_frame_trans [OF assms list_frame_put] list_frame_trans [OF assms list_frame_ll]
      list_frame_trans [OF assms list_frame_unaccel])+

lemma list_frame_fields:
  assumes "list_frame ty fp fp'"
  shows "fp_dyn_tbl_size fp' = fp_dyn_tbl_size fp" "fp_dyn_tbl fp' = fp_dyn_tbl fp"
    "dy_conn_idx (fp_dyn_tbl_data fp' i) = dy_conn_idx (fp_dyn_tbl_data fp i)"
    "dy_match (fp_dyn_tbl_data fp' i) = dy_match (fp_dyn_tbl_data fp i)"
    "state_of fp' t i = state_of fp t i" "in_table fp' i = in_table fp i"
    "t \<noteq> ty \<Longrightarrow> node_of fp' t i = node_of fp t i"
    "t \<noteq> ty \<Longrightarrow> fp_sw_aging_ll fp' t = fp_sw_aging_ll fp t"
proof -
  from assms obtain d ll k where fp': "fp' = fp\<lparr>fp_dyn_tbl_data := d,
      fp_sw_aging_ll := (fp_sw_aging_ll fp)(ty := ll),
      fp_unaccel_counters := (fp_unaccel_counters fp)(ty := k)\<rparr>"
    and s: "\<And>i. strip ty (d i) = strip ty (fp_dyn_tbl_data fp i)" by (auto simp: list_frame_def)
  have "dy_conn_idx (d i) = dy_conn_idx (fp_dyn_tbl_data fp i)"
      "dy_match (d i) = dy_match (fp_dyn_tbl_data fp i)"
    using arg_cong [OF s [of i], of dy_conn_idx] arg_cong [OF s [of i], of dy_match]
    by (simp_all add: strip_def node_upd_def entry_upd_def)
  moreover have "fe_state (dy_entries (d i) t) = fe_state (dy_entries (fp_dyn_tbl_data fp i) t)"
    using arg_cong [OF s [of i], of "\<lambda>c. fe_state (dy_entries c t)"]
    by (simp add: strip_def node_upd_def entry_upd_def split: if_splits)
  moreover have "t \<noteq> ty \<Longrightarrow> dy_entries (d i) t = dy_entries (fp_dyn_tbl_data fp i) t"
    using arg_cong [OF s [of i], of "\<lambda>c. dy_entries c t"]
    by (simp add: strip_def node_upd_def entry_upd_def)
  ultimately show "fp_dyn_tbl_size fp' = fp_dyn_tbl_size fp" "fp_dyn_tbl fp' = fp_dyn_tbl fp"
    "dy_conn_idx (fp_dyn_tbl_data fp' i) = dy_conn_idx (fp_dyn_tbl_data fp i)"
    "dy_match (fp_dyn_tbl_data fp' i) = dy_match (fp_dyn_tbl_data fp i)"
    "state_of fp' t i = state_of fp t i" "in_table fp' i = in_table fp i"
    "t \<noteq> ty \<Longrightarrow> node_of fp' t i = node_of fp t i"
    "t \<noteq> ty \<Longrightarrow> fp_sw_aging_ll fp' t = fp_sw_aging_ll fp t"
    by (simp_all add: fp' in_table_def node_of_def)
qed

lemma hd0_ne: "xs \<noteq> [] \<Longrightarrow> hd0 xs q = hd xs" by (simp add: hd0_def)

lemma last0_ne: "xs \<noteq> [] \<Longrightarrow> last0 p xs = last xs" by (simp add: last0_def)

lemma in_table_neq: "in_table fp i \<Longrightarrow> i \<noteq> - 1" by (auto simp: in_table_def)

lemma ends_neq:
  assumes "\<forall>x \<in> set xs. in_table fp x"
  shows "last0 (- 1) xs = - 1 \<longleftrightarrow> xs = []" "hd0 xs (- 1) = - 1 \<longleftrightarrow> xs = []"
  using assms last0_in [of xs "- 1"] hd0_in [of xs "- 1"] in_table_neq [of fp] by auto

section \<open>The list operations refine operations on lists\<close>

lemma node_remove_in:
  assumes rep: "aging_list ty fp (xs @ c # ys)"
  obtains fp' where "upf_accel_sw_aging_ll_node_remove fp c ty = Some (True, fp')"
    and "aging_list ty fp' (xs @ ys)" and "list_frame ty fp fp'"
    and "\<And>i. stamp_of fp' ty i = stamp_of fp ty i"
    and "\<And>i. i \<notin> set (xs @ ys) \<Longrightarrow> node_of fp' ty i = node_of fp ty i"
    and "fp_unaccel_counters fp' = (fp_unaccel_counters fp)
           (ty := (fp_unaccel_counters fp ty)\<lparr>ac_current := ac_current (fp_unaccel_counters fp ty) - 1\<rparr>)"
proof -
  let ?p = "last0 (- 1) xs" and ?n = "hd0 ys (- 1)"
  from rep have d: "distinct (xs @ c # ys)" and t: "\<forall>x \<in> set (xs @ c # ys). in_table fp x"
    and h: "ll_head (fp_sw_aging_ll fp ty) = hd0 (xs @ [c]) (- 1)"
    and tl: "ll_tail (fp_sw_aging_ll fp ty) = last0 c ys"
    and seg: "dseg (nx_of fp ty) (pv_of fp ty) (- 1) (xs @ c # ys) (- 1)"
    by (auto simp: aging_list_def)
  have c: "in_table fp c" "dy_conn_idx (fp_dyn_tbl_data fp c) = c" "pv_of fp ty c = ?p" "nx_of fp ty c = ?n"
    using t seg by (auto simp: in_table_def)
  have p: "?p = - 1 \<longleftrightarrow> xs = []" "xs \<noteq> [] \<Longrightarrow> in_table fp ?p \<and> ?p \<in> set xs"
    using t ends_neq(1) [of xs fp] last0_in [of xs "- 1"] by auto
  have n: "?n = - 1 \<longleftrightarrow> ys = []" "ys \<noteq> [] \<Longrightarrow> in_table fp ?n \<and> ?n \<in> set ys"
    using t ends_neq(2) [of ys fp] hd0_in [of ys "- 1"] by auto
  let ?f1 = "if xs = [] then fp else put_node ty ?p (\<lambda>n. n\<lparr>nd_next := ?n\<rparr>) fp"
  let ?f2 = "if ys = [] then ?f1 else put_node ty ?n (\<lambda>n. n\<lparr>nd_prev := ?p\<rparr>) ?f1"
  let ?f3 = "if ys = [] then ll_upd ty (\<lambda>ll. ll\<lparr>ll_tail := ?p\<rparr>) ?f2 else ?f2"
  let ?f4 = "if xs = [] then ll_upd ty (\<lambda>ll. ll\<lparr>ll_head := ?n\<rparr>) ?f3 else ?f3"
  let ?fp = "unaccel_upd ty (\<lambda>k. k\<lparr>ac_current := ac_current k - 1\<rparr>) ?f4"
  have tail: "last0 c ys = c \<longleftrightarrow> ys = []" using d last0_in [of ys c] by auto
  have head: "hd0 (xs @ [c]) (- 1) = c \<longleftrightarrow> xs = []" using d hd0_in [of xs c] by auto
  have exist: "upf_accel_sw_aging_ll_node_exist fp (fp_dyn_tbl_data fp c) ty"
    using c p(1) h by (auto simp: upf_accel_sw_aging_ll_node_exist_def upf_accel_sw_aging_ll_node_is_valid_def
        node_of_def [symmetric] Let_def)
  have run: "upf_accel_sw_aging_ll_node_remove fp c ty = Some (True, ?fp)"
    using c exist p n h tl head tail
    by (simp add: upf_accel_sw_aging_ll_node_remove_def upf_accel_sw_aging_ll_node_is_valid_def
        node_of_def [symmetric] Let_def list_simps)
  have fr: "list_frame ty fp ?fp"
    by (auto intro!: list_frame_steps list_frame_refl)
  have np: "nx_of ?fp ty = (if xs = [] then nx_of fp ty else (nx_of fp ty)(?p := ?n))"
    "pv_of ?fp ty = (if ys = [] then pv_of fp ty else (pv_of fp ty)(?n := ?p))"
    by (auto simp: list_simps fun_eq_iff)
  have "aging_list ty ?fp (xs @ ys)"
    using dseg_unlink [OF seg d] d t h tl
    by (auto simp only: aging_list_def np) (auto simp: list_simps hd0_ne last0_ne)
  moreover have "stamp_of ?fp ty i = stamp_of fp ty i" for i by (auto simp: list_simps)
  moreover have "node_of ?fp ty i = node_of fp ty i" if "i \<notin> set (xs @ ys)" for i
    using that p(2) n(2) by (auto simp: list_simps)
  ultimately show thesis using that [OF run _ fr] by (simp add: list_simps)
qed

lemma node_remove_out:
  assumes rep: "aging_list ty fp xs" and c: "listable ty fp xs c" "c \<notin> set xs"
  shows "upf_accel_sw_aging_ll_node_remove fp c ty = Some (False, fp)"
proof -
  from rep have t: "\<forall>x \<in> set xs. in_table fp x" by (simp add: aging_list_def)
  have i: "in_table fp c" "dy_conn_idx (fp_dyn_tbl_data fp c) = c" "pv_of fp ty c = - 1" "nx_of fp ty c = - 1"
    using c by (auto simp: listable_def in_table_def)
  have "c \<noteq> hd0 xs (- 1)" "c \<noteq> last0 (- 1) xs"
    using c(2) in_table_neq [OF i(1)] hd0_in [of xs "- 1"] last0_in [of xs "- 1"] by (cases "xs = []"; auto)+
  then show ?thesis
    using i rep
    by (simp add: upf_accel_sw_aging_ll_node_remove_def upf_accel_sw_aging_ll_node_exist_def
        upf_accel_sw_aging_ll_node_is_valid_def aging_list_def node_of_def [symmetric] Let_def list_simps)
qed

lemma node_insert:
  assumes rep: "aging_list ty fp xs" and c: "in_table fp c" "c \<notin> set xs"
  obtains fp' where "upf_accel_sw_aging_ll_node_insert tsc fp c ty = Some fp'"
    and "aging_list ty fp' (c # xs)" and "list_frame ty fp fp'"
    and "\<And>i. stamp_of fp' ty i = (if i = c then tsc else stamp_of fp ty i)"
    and "\<And>i. i \<notin> set (c # xs) \<Longrightarrow> node_of fp' ty i = node_of fp ty i"
    and "fp_unaccel_counters fp' = (fp_unaccel_counters fp)
           (ty := (fp_unaccel_counters fp ty)\<lparr>ac_current := ac_current (fp_unaccel_counters fp ty) + 1\<rparr>)"
proof -
  let ?n = "hd0 xs (- 1)"
  from rep have d: "distinct (c # xs)" and t: "\<forall>x \<in> set xs. in_table fp x"
    and h: "ll_head (fp_sw_aging_ll fp ty) = ?n" and tl: "ll_tail (fp_sw_aging_ll fp ty) = last0 (- 1) xs"
    and seg: "dseg (nx_of fp ty) (pv_of fp ty) (- 1) xs (- 1)"
    using c by (auto simp: aging_list_def)
  have n: "?n = - 1 \<longleftrightarrow> xs = []" "xs \<noteq> [] \<Longrightarrow> in_table fp ?n \<and> ?n \<in> set xs"
    using t ends_neq(2) [of xs fp] hd0_in [of xs "- 1"] by auto
  have l: "last0 (- 1) xs = - 1 \<longleftrightarrow> xs = []" using t ends_neq(1) [of xs fp] by auto
  have i: "dy_conn_idx (fp_dyn_tbl_data fp c) = c" using c(1) by (simp add: in_table_def)
  let ?f1 = "if xs = [] then fp else put_node ty ?n (\<lambda>n. n\<lparr>nd_prev := c\<rparr>) fp"
  let ?f2 = "put_node ty c (\<lambda>n. n\<lparr>nd_prev := - 1, nd_next := ?n, nd_timestamp := tsc\<rparr>) ?f1"
  let ?f3 = "ll_upd ty (\<lambda>ll. ll\<lparr>ll_head := c\<rparr>) ?f2"
  let ?f4 = "if xs = [] then ll_upd ty (\<lambda>ll. ll\<lparr>ll_tail := c\<rparr>) ?f3 else ?f3"
  let ?fp = "unaccel_upd ty (\<lambda>k. k\<lparr>ac_current := ac_current k + 1\<rparr>) ?f4"
  have run: "upf_accel_sw_aging_ll_node_insert tsc fp c ty = Some ?fp"
    using c(1) n h tl l i
    by (simp add: upf_accel_sw_aging_ll_node_insert_def upf_accel_sw_aging_ll_node_is_valid_def
        Let_def list_simps)
  have fr: "list_frame ty fp ?fp"
    by (auto intro!: list_frame_steps list_frame_refl)
  have np: "nx_of ?fp ty = (nx_of fp ty)(c := ?n)"
    "pv_of ?fp ty = (if xs = [] then pv_of fp ty else (pv_of fp ty)(?n := c))(c := - 1)"
    by (auto simp: list_simps fun_eq_iff)
  have "aging_list ty ?fp (c # xs)"
    using dseg_link [OF seg d] d t h tl c(1)
    by (auto simp only: aging_list_def np) (auto simp: list_simps hd0_ne last0_ne)
  moreover have "stamp_of ?fp ty i = (if i = c then tsc else stamp_of fp ty i)" for i
    using n d by (auto simp: list_simps)
  moreover have "node_of ?fp ty i = node_of fp ty i" if "i \<notin> set (c # xs)" for i
    using that n(2) by (auto simp: list_simps)
  ultimately show thesis using that [OF run _ fr] by (simp add: list_simps)
qed

lemma node_move_to_head:
  assumes rep: "aging_list ty fp xs" and c: "listable ty fp xs c"
  obtains fp' where "upf_accel_sw_aging_ll_node_move_to_head tsc fp c ty = Some fp'"
    and "aging_list ty fp' (c # remove1 c xs)" and "list_frame ty fp fp'"
    and "\<And>i. stamp_of fp' ty i = (if i = c then tsc else stamp_of fp ty i)"
    and "\<And>i. i \<notin> set (c # xs) \<Longrightarrow> node_of fp' ty i = node_of fp ty i"
    and "ac_current (fp_unaccel_counters fp' ty) =
           ac_current (fp_unaccel_counters fp ty) + (if c \<in> set xs then 0 else 1)"
    and "ac_total (fp_unaccel_counters fp' ty) =
           ac_total (fp_unaccel_counters fp ty) + (if c \<in> set xs then 0 else 1)"
proof (cases "c \<in> set xs")
  case True
  then obtain ys zs where xs: "xs = ys @ c # zs" by (auto dest: split_list)
  with rep have dis: "distinct (ys @ c # zs)" by (simp add: aging_list_def)
  have rm: "remove1 c xs = ys @ zs" using dis xs by (simp add: remove1_append)
  obtain f1 where f1: "upf_accel_sw_aging_ll_node_remove fp c ty = Some (True, f1)"
      "aging_list ty f1 (ys @ zs)" "list_frame ty fp f1" "\<And>i. stamp_of f1 ty i = stamp_of fp ty i"
      "\<And>i. i \<notin> set (ys @ zs) \<Longrightarrow> node_of f1 ty i = node_of fp ty i"
      "fp_unaccel_counters f1 = (fp_unaccel_counters fp)
        (ty := (fp_unaccel_counters fp ty)\<lparr>ac_current := ac_current (fp_unaccel_counters fp ty) - 1\<rparr>)"
    by (rule node_remove_in [OF rep [unfolded xs]]) blast
  have "in_table f1 c" "c \<notin> set (ys @ zs)"
    using c dis list_frame_fields(6) [OF f1(3)] by (auto simp: listable_def)
  then obtain f2 where f2: "upf_accel_sw_aging_ll_node_insert tsc f1 c ty = Some f2"
      "aging_list ty f2 (c # ys @ zs)" "list_frame ty f1 f2"
      "\<And>i. stamp_of f2 ty i = (if i = c then tsc else stamp_of f1 ty i)"
      "\<And>i. i \<notin> set (c # ys @ zs) \<Longrightarrow> node_of f2 ty i = node_of f1 ty i"
      "fp_unaccel_counters f2 = (fp_unaccel_counters f1)
        (ty := (fp_unaccel_counters f1 ty)\<lparr>ac_current := ac_current (fp_unaccel_counters f1 ty) + 1\<rparr>)"
    by (rule node_insert [OF f1(2), where tsc = tsc]) blast
  show thesis
  proof (rule that)
    show "upf_accel_sw_aging_ll_node_move_to_head tsc fp c ty = Some f2"
      using f1(1) f2(1) by (simp add: upf_accel_sw_aging_ll_node_move_to_head_def)
    show "list_frame ty fp f2" by (rule list_frame_trans [OF f1(3) f2(3)])
  qed (use f1(4,5,6) f2(2,4,5,6) True rm xs in simp_all)
next
  case False
  let ?f1 = "unaccel_upd ty (\<lambda>k. k\<lparr>ac_total := ac_total k + 1\<rparr>) fp"
  have "aging_list ty ?f1 xs" using rep by (simp add: aging_list_def list_simps)
  moreover have "in_table ?f1 c" using c by (simp add: listable_def list_simps)
  ultimately obtain f2 where f2: "upf_accel_sw_aging_ll_node_insert tsc ?f1 c ty = Some f2"
      "aging_list ty f2 (c # xs)" "list_frame ty ?f1 f2"
      "\<And>i. stamp_of f2 ty i = (if i = c then tsc else stamp_of ?f1 ty i)"
      "\<And>i. i \<notin> set (c # xs) \<Longrightarrow> node_of f2 ty i = node_of ?f1 ty i"
      "fp_unaccel_counters f2 = (fp_unaccel_counters ?f1)
        (ty := (fp_unaccel_counters ?f1 ty)\<lparr>ac_current := ac_current (fp_unaccel_counters ?f1 ty) + 1\<rparr>)"
    by (rule node_insert [OF _ _ False, where tsc = tsc]) blast
  show thesis
  proof (rule that)
    show "upf_accel_sw_aging_ll_node_move_to_head tsc fp c ty = Some f2"
      using node_remove_out [OF rep c False] f2(1)
      by (simp add: upf_accel_sw_aging_ll_node_move_to_head_def)
    show "list_frame ty fp f2" by (rule list_frame_trans [OF list_frame_unaccel f2(3)])
  qed (use f2(2,4,5,6) False in \<open>simp_all add: remove1_idem unaccel_upd_simps\<close>)
qed

section \<open>The interface of a least-recently-used list\<close>

text \<open>
  What the data path relies on: touching a flow moves it to the front with the current time and
  leaves every other flow where it was.
\<close>

locale lru_list =
  fixes rep :: "'s \<Rightarrow> 'i list \<Rightarrow> bool"
    and usable :: "'s \<Rightarrow> 'i list \<Rightarrow> 'i \<Rightarrow> bool"
    and stamp :: "'s \<Rightarrow> 'i \<Rightarrow> u64"
    and touch :: "u64 \<Rightarrow> 's \<Rightarrow> 'i \<Rightarrow> 's option"
  assumes rep_distinct: "rep s xs \<Longrightarrow> distinct xs"
    and touch_moves: "rep s xs \<Longrightarrow> usable s xs c \<Longrightarrow>
      \<exists>s'. touch t s c = Some s' \<and> rep s' (c # remove1 c xs) \<and>
           (\<forall>i. stamp s' i = (if i = c then t else stamp s i)) \<and>
           (\<forall>d. usable s xs d \<longrightarrow> usable s' (c # remove1 c xs) d)"
begin

primrec touches :: "(u64 \<times> 'i) list \<Rightarrow> 's \<Rightarrow> 's option" where
  "touches [] s = Some s"
| "touches (e # es) s = do { s \<leftarrow> touch (fst e) s (snd e); touches es s }"

text \<open>Front to back, the flows are ordered by their last use, and the time stamps agree.\<close>

definition ordered :: "'s \<Rightarrow> 'i list \<Rightarrow> u64 \<Rightarrow> bool" where
  "ordered s xs now \<longleftrightarrow> rep s xs \<and> sorted_wrt (\<lambda>a b. stamp s b \<le> stamp s a) xs \<and>
     (\<forall>x \<in> set xs. stamp s x \<le> now)"

lemma ordered_touch:
  assumes "ordered s xs now" and "usable s xs c" and "now \<le> t"
  obtains s' where "touch t s c = Some s'" and "ordered s' (c # remove1 c xs) t"
    and "\<And>i. stamp s' i = (if i = c then t else stamp s i)"
    and "\<And>d. usable s xs d \<Longrightarrow> usable s' (c # remove1 c xs) d"
proof -
  have rep: "rep s xs" using assms(1) by (simp add: ordered_def)
  from touch_moves [OF rep assms(2), of t]
  obtain s' where s': "touch t s c = Some s'" "rep s' (c # remove1 c xs)"
      "\<And>i. stamp s' i = (if i = c then t else stamp s i)"
      "\<And>d. usable s xs d \<Longrightarrow> usable s' (c # remove1 c xs) d" by blast
  have c: "c \<notin> set (remove1 c xs)" using rep_distinct [OF rep] by simp
  have "sorted_wrt (\<lambda>a b. stamp s b \<le> stamp s a) (remove1 c xs)"
    using assms(1) by (simp add: ordered_def sorted_wrt_filter
        distinct_remove1_removeAll rep_distinct [OF rep] removeAll_filter_not_eq)
  then have "sorted_wrt (\<lambda>a b. stamp s' b \<le> stamp s' a) (remove1 c xs)"
    by (rule sorted_wrt_mono_rel [rotated]) (use c s'(3) in auto)
  moreover have "\<forall>x \<in> set (remove1 c xs). stamp s' x \<le> t"
    using assms c s'(3) by (fastforce simp: ordered_def dest: notin_set_remove1)
  ultimately have "ordered s' (c # remove1 c xs) t"
    using s'(2,3) by (simp add: ordered_def)
  then show thesis using that s' by blast
qed

lemma touches_ordered:
  assumes "ordered s xs now" and "\<forall>c \<in> snd ` set es. usable s xs c"
    and "sorted (now # map fst es)"
  shows "\<exists>s'. touches es s = Some s' \<and>
     ordered s' (foldl (\<lambda>xs c. c # remove1 c xs) xs (map snd es)) (last (now # map fst es)) \<and>
     (\<forall>i. stamp s' i = foldl (\<lambda>st e. st(snd e := fst e)) (stamp s) es i)"
  using assms
proof (induction es arbitrary: s xs now)
  case (Cons e es)
  obtain s1 where s1: "touch (fst e) s (snd e) = Some s1" "ordered s1 (snd e # remove1 (snd e) xs) (fst e)"
      "\<And>i. stamp s1 i = (if i = snd e then fst e else stamp s i)"
      "\<And>d. usable s xs d \<Longrightarrow> usable s1 (snd e # remove1 (snd e) xs) d"
    using ordered_touch [OF Cons.prems(1), of "snd e" "fst e"] Cons.prems(2,3) by auto
  have "stamp s1 = (stamp s)(snd e := fst e)" using s1(3) by auto
  moreover have "\<forall>c \<in> snd ` set es. usable s1 (snd e # remove1 (snd e) xs) c" "sorted (fst e # map fst es)"
    using Cons.prems(2,3) s1(4) by simp_all
  ultimately show ?case using Cons.IH [OF s1(2)] s1(1) by simp
qed (auto simp: ordered_def)

end

lemma foldl_to_front: "foldl (\<lambda>xs c. c # remove1 c xs) [] cs = rev (remdups cs)"
proof (induction cs rule: rev_induct)
  case (snoc c cs)
  have "remdups (cs @ [c]) = remove1 c (remdups cs) @ [c]"
    by (induction cs) (auto simp: remove1_idem)
  with snoc show ?case
    by (simp add: distinct_remove1_removeAll removeAll_filter_not_eq rev_filter)
qed simp

interpretation al: lru_list "aging_list ty" "listable ty" "\<lambda>fp. stamp_of fp ty"
    "\<lambda>tsc fp c. upf_accel_sw_aging_ll_node_move_to_head tsc fp c ty" for ty
proof
  fix s :: "('h, 'x, 'w) upf_accel_fp_data" and xs c t
  show "distinct xs" if "aging_list ty s xs" using that by (simp add: aging_list_def)
  assume rep: "aging_list ty s xs" and c: "listable ty s xs c"
  obtain s' where s': "upf_accel_sw_aging_ll_node_move_to_head t s c ty = Some s'"
      "aging_list ty s' (c # remove1 c xs)" "list_frame ty s s'"
      "\<And>i. stamp_of s' ty i = (if i = c then t else stamp_of s ty i)"
      "\<And>i. i \<notin> set (c # xs) \<Longrightarrow> node_of s' ty i = node_of s ty i"
    by (rule node_move_to_head [OF rep c, where tsc = t]) blast
  have "listable ty s' (c # remove1 c xs) d" if "listable ty s xs d" for d
    using that s'(5) [of d] list_frame_fields(6) [OF s'(3), of d]
    by (auto simp: listable_def)
  with s' show "\<exists>s'. upf_accel_sw_aging_ll_node_move_to_head t s c ty = Some s' \<and>
      aging_list ty s' (c # remove1 c xs) \<and>
      (\<forall>i. stamp_of s' ty i = (if i = c then t else stamp_of s ty i)) \<and>
      (\<forall>d. listable ty s xs d \<longrightarrow> listable ty s' (c # remove1 c xs) d)" by blast
qed

section \<open>The aging scan\<close>

definition end_flow :: "parser_pkt_type \<Rightarrow> upf_accel_dyn_entry_ctx \<Rightarrow> upf_accel_dyn_entry_ctx" where
  "end_flow ty = entry_upd ty (\<lambda>e. e\<lparr>fe_state := UPF_ACCEL_ENTRY_STATE_NONE\<rparr>)"

text \<open>The hash table after the flow \<open>c\<close> has ended: its key is deleted when the other direction is
  not alive.\<close>

definition drop_key :: "('h, upf_accel_match_5t) rte_hash_api \<Rightarrow> parser_pkt_type \<Rightarrow>
    (int \<Rightarrow> upf_accel_dyn_entry_ctx) \<Rightarrow> int \<Rightarrow> 'h \<Rightarrow> 'h" where
  "drop_key api ty d c h =
     (if upf_accel_fp_entry_is_alive (fe_state (dy_entries (d c) (upf_accel_fp_get_opposite_pkt_type ty)))
      then h else snd (rte_hash_del_key_with_hash api h (m8_inner (dy_match (d c))) (dy_hash (d c))))"

lemma delete_flow_alive:
  assumes "in_table fp c" and "state_of fp ty c \<noteq> UPF_ACCEL_ENTRY_STATE_NONE"
  obtains ret where "upf_accel_fp_delete_flow api fp c ty = Some (ret,
      fp\<lparr>fp_dyn_tbl_data := (fp_dyn_tbl_data fp)(c := end_flow ty (fp_dyn_tbl_data fp c)),
         fp_dyn_tbl := drop_key api ty (fp_dyn_tbl_data fp) c (fp_dyn_tbl fp)\<rparr>)"
proof -
  have a: "state_change_allowed (state_of fp ty c) UPF_ACCEL_ENTRY_STATE_NONE"
    using assms(2) by (cases "state_of fp ty c") auto
  have "\<exists>ret. upf_accel_fp_delete_flow api fp c ty = Some (ret,
      fp\<lparr>fp_dyn_tbl_data := (fp_dyn_tbl_data fp)(c := end_flow ty (fp_dyn_tbl_data fp c)),
         fp_dyn_tbl := drop_key api ty (fp_dyn_tbl_data fp) c (fp_dyn_tbl fp)\<rparr>)"
    using assms(1) a
    by (auto simp: upf_accel_fp_delete_flow_def conn_state_change_def conn_at_def conn_upd_def in_table_def
        upf_accel_fp_entry_state_change_def end_flow_def drop_key_def Let_def split: prod.splits)
  then show thesis using that by blast
qed

definition expired :: "u64 \<Rightarrow> u64 \<Rightarrow> u64 \<Rightarrow> bool" where
  "expired tsc period stamp \<longleftrightarrow> \<not> tsc - stamp < period"

text \<open>What the scan leaves when it ends the flows \<open>old\<close>, oldest last.\<close>

definition ended :: "('h, upf_accel_match_5t) rte_hash_api \<Rightarrow> parser_pkt_type \<Rightarrow> int list \<Rightarrow>
    ('h, 'x, 'w) upf_accel_fp_data \<Rightarrow> ('h, 'x, 'w) upf_accel_fp_data \<Rightarrow> bool" where
  "ended api ty old fp fp' \<longleftrightarrow>
     (\<exists>errors. fp' = fp\<lparr>
        fp_dyn_tbl_data := (\<lambda>i. if i \<in> set old then end_flow ty (fp_dyn_tbl_data fp i) else fp_dyn_tbl_data fp i),
        fp_dyn_tbl := foldr (drop_key api ty (fp_dyn_tbl_data fp)) old (fp_dyn_tbl fp),
        fp_unaccel_counters := (fp_unaccel_counters fp)(ty := (fp_unaccel_counters fp ty)
          \<lparr>ac_current := ac_current (fp_unaccel_counters fp ty) - of_nat (length old),
           ac_aging_errors := errors\<rparr>)\<rparr>)"

lemma opposite_neq [simp]: "upf_accel_fp_get_opposite_pkt_type ty \<noteq> ty"
  by (cases ty) (auto simp: upf_accel_fp_get_opposite_pkt_type_def)

lemma end_flow_simps [simp]:
  "fe_sw_aging_node (dy_entries (end_flow ty d) t) = fe_sw_aging_node (dy_entries d t)"
  "dy_conn_idx (end_flow ty d) = dy_conn_idx d" "dy_match (end_flow ty d) = dy_match d"
  "dy_hash (end_flow ty d) = dy_hash d"
  "t \<noteq> ty \<Longrightarrow> dy_entries (end_flow ty d) t = dy_entries d t"
  "fe_state (dy_entries (end_flow ty d) ty) = UPF_ACCEL_ENTRY_STATE_NONE"
  by (auto simp: end_flow_def entry_upd_def)

lemma scan_loop_step:
  assumes "in_table fp c" and "state_of fp ty c \<noteq> UPF_ACCEL_ENTRY_STATE_NONE"
    and "expired tsc period (stamp_of fp ty c)"
  obtains fp' where "ended api ty [c] fp fp'"
    and "sw_aging_scan_loop api tsc period ty c fp =
         sw_aging_scan_loop api tsc period ty (pv_of fp ty c) fp'"
proof -
  obtain ret where r: "upf_accel_fp_delete_flow api fp c ty = Some (ret,
      fp\<lparr>fp_dyn_tbl_data := (fp_dyn_tbl_data fp)(c := end_flow ty (fp_dyn_tbl_data fp c)),
         fp_dyn_tbl := drop_key api ty (fp_dyn_tbl_data fp) c (fp_dyn_tbl fp)\<rparr>)" (is "_ = Some (_, ?f1)")
    using delete_flow_alive [OF assms(1,2)] by blast
  let ?f2 = "if ret \<noteq> DOCA_SUCCESS
     then unaccel_upd ty (\<lambda>k. k\<lparr>ac_aging_errors := ac_aging_errors k + 1\<rparr>) ?f1 else ?f1"
  let ?f3 = "unaccel_upd ty (\<lambda>k. k\<lparr>ac_current := ac_current k - 1\<rparr>) ?f2"
  have c: "conn_at fp c = Some (fp_dyn_tbl_data fp c)" "c \<noteq> - 1" "0 \<le> c" "c < fp_dyn_tbl_size fp"
    using assms(1) by (auto simp: in_table_def conn_at_def)
  have d: "fp_dyn_tbl_data ?f3 c = end_flow ty (fp_dyn_tbl_data fp c)"
      "fp_dyn_tbl_size ?f3 = fp_dyn_tbl_size fp"
    by (simp_all add: unaccel_upd_def)
  have "sw_aging_scan_loop api tsc period ty c fp =
      sw_aging_scan_loop api tsc period ty (pv_of fp ty c) ?f3"
    using assms(3) c r d
    by (subst sw_aging_scan_loop.simps)
      (simp add: upf_accel_sw_aging_ll_node_is_valid_def expired_def node_of_def Let_def conn_at_def [of ?f3]
        del: if_split)
  moreover have "ended api ty [c] fp ?f3"
    unfolding ended_def
    by (rule exI [of _ "ac_aging_errors (fp_unaccel_counters fp ty) + (if ret \<noteq> DOCA_SUCCESS then 1 else 0)"])
      (auto simp: unaccel_upd_def fun_eq_iff)
  ultimately show thesis using that by blast
qed

lemma ended_refl: "ended api ty [] fp fp"
  unfolding ended_def by (rule exI [of _ "ac_aging_errors (fp_unaccel_counters fp ty)"]) simp

lemma ended_trans:
  assumes "ended api ty [c] fp f1" and "ended api ty old f1 f2" and "c \<notin> set old"
  shows "ended api ty (old @ [c]) fp f2"
proof -
  have "drop_key api ty (fp_dyn_tbl_data f1) i h = drop_key api ty (fp_dyn_tbl_data fp) i h" for i h
    using assms(1) by (cases "i = c") (auto simp: ended_def drop_key_def)
  then have "drop_key api ty (fp_dyn_tbl_data f1) = drop_key api ty (fp_dyn_tbl_data fp)" by blast
  note dk = this
  from assms(1) obtain e1 where f1: "f1 = fp\<lparr>
      fp_dyn_tbl_data := (\<lambda>i. if i = c then end_flow ty (fp_dyn_tbl_data fp i) else fp_dyn_tbl_data fp i),
      fp_dyn_tbl := drop_key api ty (fp_dyn_tbl_data fp) c (fp_dyn_tbl fp),
      fp_unaccel_counters := (fp_unaccel_counters fp)(ty := (fp_unaccel_counters fp ty)
        \<lparr>ac_current := ac_current (fp_unaccel_counters fp ty) - 1, ac_aging_errors := e1\<rparr>)\<rparr>"
    by (auto simp: ended_def)
  from assms(2) obtain e2 where f2: "f2 = f1\<lparr>
      fp_dyn_tbl_data := (\<lambda>i. if i \<in> set old then end_flow ty (fp_dyn_tbl_data f1 i) else fp_dyn_tbl_data f1 i),
      fp_dyn_tbl := foldr (drop_key api ty (fp_dyn_tbl_data fp)) old (fp_dyn_tbl f1),
      fp_unaccel_counters := (fp_unaccel_counters f1)(ty := (fp_unaccel_counters f1 ty)
        \<lparr>ac_current := ac_current (fp_unaccel_counters f1 ty) - of_nat (length old), ac_aging_errors := e2\<rparr>)\<rparr>"
    by (auto simp: ended_def dk)
  have d: "(\<lambda>i. if i \<in> set old then end_flow ty (fp_dyn_tbl_data f1 i) else fp_dyn_tbl_data f1 i) =
      (\<lambda>i. if i \<in> set (old @ [c]) then end_flow ty (fp_dyn_tbl_data fp i) else fp_dyn_tbl_data fp i)"
    using assms(3) by (auto simp: f1 fun_eq_iff)
  show ?thesis
    unfolding ended_def f2 d by (rule exI [of _ e2]) (simp add: f1 algebra_simps)
qed

text \<open>The scan ends the longest expired suffix of the list, and stops at the flow before it.\<close>

lemma ended_fields:
  assumes "ended api ty old fp fp'"
  shows "node_of fp' t i = node_of fp t i" "in_table fp' i = in_table fp i"
    "i \<notin> set old \<Longrightarrow> fp_dyn_tbl_data fp' i = fp_dyn_tbl_data fp i"
    "i \<in> set old \<Longrightarrow> state_of fp' ty i = UPF_ACCEL_ENTRY_STATE_NONE"
    "fp_sw_aging_ll fp' = fp_sw_aging_ll fp"
  using assms by (auto simp: ended_def node_of_def in_table_def split: if_splits)

lemma scan_loop_suffix:
  assumes "\<forall>x \<in> set (keep @ old). in_table fp x" and "distinct (keep @ old)"
    and "dseg (nx_of fp ty) (pv_of fp ty) (- 1) (keep @ old) q"
    and "\<forall>x \<in> set old. expired tsc period (stamp_of fp ty x) \<and> state_of fp ty x \<noteq> UPF_ACCEL_ENTRY_STATE_NONE"
    and "keep \<noteq> [] \<Longrightarrow> \<not> expired tsc period (stamp_of fp ty (last keep))"
  shows "\<exists>fp'. sw_aging_scan_loop api tsc period ty (last0 (- 1) (keep @ old)) fp
            = Some (last0 (- 1) keep, fp') \<and> ended api ty old fp fp'"
  using assms
proof (induction old arbitrary: fp q rule: rev_induct)
  case Nil
  have "sw_aging_scan_loop api tsc period ty (last0 (- 1) keep) fp = Some (last0 (- 1) keep, fp)"
  proof (cases "keep = []")
    case True
    then show ?thesis
      by (subst sw_aging_scan_loop.simps) (simp add: upf_accel_sw_aging_ll_node_is_valid_def)
  next
    case False
    then have "in_table fp (last keep)" "\<not> expired tsc period (stamp_of fp ty (last keep))"
      using Nil by auto
    then show ?thesis
      using False by (subst sw_aging_scan_loop.simps)
        (simp add: last0_ne upf_accel_sw_aging_ll_node_is_valid_def expired_def node_of_def list_simps)
  qed
  with ended_refl show ?case by fastforce
next
  case (snoc c old)
  obtain f1 where f1: "ended api ty [c] fp f1" "sw_aging_scan_loop api tsc period ty c fp =
      sw_aging_scan_loop api tsc period ty (pv_of fp ty c) f1"
    by (rule scan_loop_step [of fp c ty tsc period api]) (use snoc.prems in auto)
  have p: "pv_of fp ty c = last0 (- 1) (keep @ old)" using snoc.prems(3) by simp
  note e = ended_fields [OF f1(1)]
  have "\<exists>fp'. sw_aging_scan_loop api tsc period ty (last0 (- 1) (keep @ old)) f1
            = Some (last0 (- 1) keep, fp') \<and> ended api ty old f1 fp'"
  proof (rule snoc.IH)
    show "\<forall>x \<in> set (keep @ old). in_table f1 x" "distinct (keep @ old)"
      using snoc.prems(1,2) by (auto simp: e)
    show "dseg (nx_of f1 ty) (pv_of f1 ty) (- 1) (keep @ old) c"
      using snoc.prems(3) by (simp add: e)
    show "\<forall>x \<in> set old. expired tsc period (stamp_of f1 ty x) \<and> state_of f1 ty x \<noteq> UPF_ACCEL_ENTRY_STATE_NONE"
    proof
      fix x assume x: "x \<in> set old"
      then have "x \<notin> set [c]" using snoc.prems(2) by auto
      then show "expired tsc period (stamp_of f1 ty x) \<and> state_of f1 ty x \<noteq> UPF_ACCEL_ENTRY_STATE_NONE"
        using snoc.prems(4) x e(3) [of x] by (simp add: e(1))
    qed
    show "keep \<noteq> [] \<Longrightarrow> \<not> expired tsc period (stamp_of f1 ty (last keep))"
      using snoc.prems(5) by (simp add: e)
  qed
  then obtain f2 where f2: "sw_aging_scan_loop api tsc period ty (last0 (- 1) (keep @ old)) f1
      = Some (last0 (- 1) keep, f2)" "ended api ty old f1 f2" by blast
  have "ended api ty (old @ [c]) fp f2" using ended_trans [OF f1(1) f2(2)] snoc.prems(2) by simp
  then show ?case using f1(2) f2(1) p by simp
qed

text \<open>On a list ordered by last use the longest expired suffix is the set of all expired flows.\<close>

lemma sorted_suffix:
  assumes "sorted_wrt (\<lambda>a b. P a \<longrightarrow> P b) xs"
  shows "xs = filter (\<lambda>x. \<not> P x) xs @ filter P xs"
  using assms by (induction xs) (auto simp: filter_id_conv filter_empty_conv)

lemma expired_mono:
  assumes "b \<le> a" "a \<le> tsc" "expired tsc period a" shows "expired tsc period (b :: u64)"
  using assms by (auto simp: expired_def word_less_nat_alt word_le_nat_alt unat_sub)

lemma scan_ordered:
  assumes "al.ordered ty fp xs now" and "now \<le> tsc"
    and "\<forall>x \<in> set xs. state_of fp ty x \<noteq> UPF_ACCEL_ENTRY_STATE_NONE"
    and "period = ucast (fp_sw_aging_time_sec fp) * hz"
    and "old = filter (\<lambda>x. expired tsc period (stamp_of fp ty x)) xs"
    and "keep = filter (\<lambda>x. \<not> expired tsc period (stamp_of fp ty x)) xs"
  obtains fp1 where "ended api ty old fp fp1"
    and "upf_accel_sw_aging_ll_scan api hz tsc fp ty =
         Some (ll_upd ty (\<lambda>ll. ll\<lparr>ll_tail := last0 (- 1) keep\<rparr>) fp1)"
    and "xs = keep @ old"
proof -
  have rep: "aging_list ty fp xs" and so: "sorted_wrt (\<lambda>a b. stamp_of fp ty b \<le> stamp_of fp ty a) xs"
    and le: "\<forall>x \<in> set xs. stamp_of fp ty x \<le> tsc"
    using assms(1,2) by (auto simp: al.ordered_def)
  have "sorted_wrt (\<lambda>a b. expired tsc period (stamp_of fp ty a) \<longrightarrow> expired tsc period (stamp_of fp ty b)) xs"
    by (rule sorted_wrt_mono_rel [OF _ so]) (use expired_mono le in blast)
  then have xs: "xs = keep @ old" unfolding assms(5,6) by (rule sorted_suffix)
  have "last keep \<in> set keep" if "keep \<noteq> []" using that by simp
  then have lk: "keep \<noteq> [] \<Longrightarrow> \<not> expired tsc period (stamp_of fp ty (last keep))"
    unfolding assms(6) by auto
  have "\<exists>fp'. sw_aging_scan_loop api tsc period ty (last0 (- 1) (keep @ old)) fp
            = Some (last0 (- 1) keep, fp') \<and> ended api ty old fp fp'"
  proof (rule scan_loop_suffix [where q = "- 1"])
    show "\<forall>x \<in> set (keep @ old). in_table fp x" "distinct (keep @ old)"
      "dseg (nx_of fp ty) (pv_of fp ty) (- 1) (keep @ old) (- 1)"
      unfolding xs [symmetric] using rep by (simp_all add: aging_list_def)
    show "\<forall>x \<in> set old. expired tsc period (stamp_of fp ty x) \<and> state_of fp ty x \<noteq> UPF_ACCEL_ENTRY_STATE_NONE"
      using assms(3) by (simp add: assms(5))
  qed (rule lk)
  then obtain fp1 where "sw_aging_scan_loop api tsc period ty (last0 (- 1) xs) fp
      = Some (last0 (- 1) keep, fp1)" "ended api ty old fp fp1" unfolding xs [symmetric] by blast
  with rep xs show thesis
    using that assms(4) by (simp add: upf_accel_sw_aging_ll_scan_def aging_list_def Let_def)
qed

section \<open>Properties\<close>

text \<open>A concrete table of two unaccelerated downlink flows, for the witnesses.\<close>

definition demo_api :: "(unit, 'k) rte_hash_api" where
  "demo_api = \<lparr>rte_hash_hash = (\<lambda>_ _. 0), rte_hash_add_key_with_hash = (\<lambda>h _ _. (0, h)),
     rte_hash_del_key_with_hash = (\<lambda>h _ _. (0, h)), rte_hash_lookup = (\<lambda>_ _. - 2),
     rte_hash_lookup_bulk = (\<lambda>_ _. (0, \<lambda>_. - 2))\<rparr>"

definition demo_conn :: "int \<Rightarrow> upf_accel_dyn_entry_ctx" where
  "demo_conn i = dyn_ctx0\<lparr>dy_conn_idx := i, dy_entries := (\<lambda>ty. flow_entry0
     \<lparr>fe_sw_aging_node := \<lparr>nd_prev = - 1, nd_next = - 1, nd_timestamp = 0\<rparr>,
      fe_state := (if ty = PARSER_PKT_TYPE_PLAIN then UPF_ACCEL_ENTRY_STATE_UNACCELERATED
                   else UPF_ACCEL_ENTRY_STATE_NONE)\<rparr>)\<rparr>"

definition counters0 :: upf_accel_fp_accel_counters where
  "counters0 = \<lparr>ac_current = 0, ac_total = 0, ac_accel_errors = 0, ac_aging_errors = 0, ac_del_errors = 0\<rparr>"

definition demo_fp :: "(unit, unit, unit) upf_accel_fp_data" where
  "demo_fp = \<lparr>fp_pdrs = [], fp_dpi_threshold = 2, fp_sw_aging_time_sec = 10, fp_num_ports = 2,
     fp_flow = (), fp_queue_id = 0, fp_dyn_tbl = (), fp_dyn_tbl_size = 2, fp_dyn_tbl_data = demo_conn,
     fp_dyn_ext_tbl = (), fp_dyn_ext_tbl_size = 0,
     fp_dyn_ext_tbl_data = (\<lambda>_. \<lparr>ex_match = \<lparr>me_ue_ip = 0, me_te_id = 0, me_qfi = 0\<rparr>, ex_entry = None,
        ex_del_next = None, ex_hash = 0, ex_md_value = 0, ex_ref_cnt = 0,
        ex_state = UPF_ACCEL_ENTRY_STATE_NONE\<rparr>),
     fp_sw_counters = \<lparr>sw_new_conn = \<lparr>ctr_pkts = 0, ctr_bytes = 0\<rparr>,
        sw_ex_conn = \<lparr>ctr_pkts = 0, ctr_bytes = 0\<rparr>, sw_err = \<lparr>ctr_pkts = 0, ctr_bytes = 0\<rparr>\<rparr>,
     fp_accel_counters = (\<lambda>_. counters0), fp_unaccel_counters = (\<lambda>_. counters0),
     fp_accel_failed_counters = (\<lambda>_. counters0),
     fp_sw_aging_ll = (\<lambda>_. \<lparr>ll_head = - 1, ll_tail = - 1\<rparr>),
     fp_last_hw_aging_tsc = (\<lambda>_. 0), fp_hw_aging_in_progress = (\<lambda>_. False),
     fp_static_entry_ctx = (\<lambda>_. \<lparr>es_failure = False, es_nb_processed = 0\<rparr>)\<rparr>"

lemma demo_fp_list: "aging_list ty demo_fp []"
  by (simp add: aging_list_def demo_fp_def)

lemma demo_fp_listable: "0 \<le> c \<Longrightarrow> c < 2 \<Longrightarrow> listable ty demo_fp [] c"
  by (simp add: listable_def in_table_def node_of_def demo_fp_def demo_conn_def)

text \<open>
  C3.  The aging list refines a list of connection numbers: on a well-formed list, and for a
  connection that is in it or has a freshly initialised node, \<open>move_to_head\<close> returns, puts the
  connection in front and keeps the order of the others, and \<open>remove\<close> returns, reports whether the
  connection was in the list and takes it out.  Neither touches anything but the list nodes, the
  list ends and the counters of its direction, and the \<open>current\<close> counter stays the length of the list.
\<close>

theorem aging_list_refinement:
  assumes "aging_list ty fp xs" and "listable ty fp xs c"
    and "ac_current (fp_unaccel_counters fp ty) = of_nat (length xs)"
  shows "(\<exists>fp'. upf_accel_sw_aging_ll_node_move_to_head tsc fp c ty = Some fp' \<and>
            aging_list ty fp' (c # remove1 c xs) \<and> list_frame ty fp fp' \<and>
            ac_current (fp_unaccel_counters fp' ty) = of_nat (length (c # remove1 c xs))) \<and>
         (\<exists>fp'. upf_accel_sw_aging_ll_node_remove fp c ty = Some (c \<in> set xs, fp') \<and>
            aging_list ty fp' (remove1 c xs) \<and> list_frame ty fp fp' \<and>
            ac_current (fp_unaccel_counters fp' ty) = of_nat (length (remove1 c xs)))"
proof
  have len: "length xs = Suc (length (remove1 c xs))" if "c \<in> set xs"
    using that length_pos_if_in_set [OF that] by (simp add: length_remove1)
  obtain fp' where f: "upf_accel_sw_aging_ll_node_move_to_head tsc fp c ty = Some fp'"
      "aging_list ty fp' (c # remove1 c xs)" "list_frame ty fp fp'"
      "ac_current (fp_unaccel_counters fp' ty) =
         ac_current (fp_unaccel_counters fp ty) + (if c \<in> set xs then 0 else 1)"
    by (rule node_move_to_head [OF assms(1,2), where tsc = tsc]) blast
  have "ac_current (fp_unaccel_counters fp' ty) = of_nat (length (c # remove1 c xs))"
    using f(4) assms(3) len by (cases "c \<in> set xs") (simp_all add: remove1_idem)
  with f show "\<exists>fp'. upf_accel_sw_aging_ll_node_move_to_head tsc fp c ty = Some fp' \<and>
      aging_list ty fp' (c # remove1 c xs) \<and> list_frame ty fp fp' \<and>
      ac_current (fp_unaccel_counters fp' ty) = of_nat (length (c # remove1 c xs))" by blast
  show "\<exists>fp'. upf_accel_sw_aging_ll_node_remove fp c ty = Some (c \<in> set xs, fp') \<and>
      aging_list ty fp' (remove1 c xs) \<and> list_frame ty fp fp' \<and>
      ac_current (fp_unaccel_counters fp' ty) = of_nat (length (remove1 c xs))"
  proof (cases "c \<in> set xs")
    case False
    then show ?thesis
      using node_remove_out [OF assms(1,2)] assms(1,3) list_frame_refl by (simp add: remove1_idem)
  next
    case True
    then obtain ys zs where xs: "xs = ys @ c # zs" "c \<notin> set ys" by (auto dest: split_list_first)
    obtain fp' where "upf_accel_sw_aging_ll_node_remove fp c ty = Some (True, fp')"
        "aging_list ty fp' (ys @ zs)" "list_frame ty fp fp'"
        "fp_unaccel_counters fp' = (fp_unaccel_counters fp)
          (ty := (fp_unaccel_counters fp ty)\<lparr>ac_current := ac_current (fp_unaccel_counters fp ty) - 1\<rparr>)"
      by (rule node_remove_in [OF assms(1) [unfolded xs(1)]]) blast
    then show ?thesis using assms(3) xs True by (simp add: remove1_append)
  qed
qed

theorem aging_list_refinement_witness:
  "\<exists>fp'. upf_accel_sw_aging_ll_node_move_to_head 5 demo_fp 1 PARSER_PKT_TYPE_PLAIN = Some fp' \<and>
     aging_list PARSER_PKT_TYPE_PLAIN fp' [1]"
  using aging_list_refinement [OF demo_fp_list demo_fp_listable, of 1 PARSER_PKT_TYPE_PLAIN 5]
  by (auto simp: demo_fp_def counters0_def)

text \<open>A sequence of packets of unaccelerated flows, as time stamps and connections.\<close>

primrec use_flows :: "parser_pkt_type \<Rightarrow> (u64 \<times> int) list \<Rightarrow> ('h, 'x, 'w) upf_accel_fp_data \<Rightarrow>
    ('h, 'x, 'w) upf_accel_fp_data option" where
  "use_flows ty [] fp = Some fp"
| "use_flows ty (e # es) fp = do {
     fp \<leftarrow> upf_accel_sw_aging_ll_node_move_to_head (fst e) fp (snd e) ty; use_flows ty es fp }"

lemma use_flows_touches: "use_flows ty es fp = al.touches ty es fp"
  by (induction es arbitrary: fp) simp_all

lemma use_flows_state:
  "use_flows ty es fp = Some fp' \<Longrightarrow> al.ordered ty fp xs now \<Longrightarrow> \<forall>c \<in> snd ` set es. listable ty fp xs c \<Longrightarrow>
   sorted (now # map fst es) \<Longrightarrow> state_of fp' t i = state_of fp t i \<and> fp_sw_aging_time_sec fp' = fp_sw_aging_time_sec fp"
proof (induction es arbitrary: fp xs now)
  case (Cons e es)
  have rep: "aging_list ty fp xs" and l: "listable ty fp xs (snd e)"
    using Cons.prems by (auto simp: al.ordered_def)
  obtain f1 where f1: "upf_accel_sw_aging_ll_node_move_to_head (fst e) fp (snd e) ty = Some f1"
      "list_frame ty fp f1"
    by (rule node_move_to_head [OF rep l, where tsc = "fst e"]) blast
  obtain f1' where "upf_accel_sw_aging_ll_node_move_to_head (fst e) fp (snd e) ty = Some f1'"
      "al.ordered ty f1' (snd e # remove1 (snd e) xs) (fst e)"
      "\<And>d. listable ty fp xs d \<Longrightarrow> listable ty f1' (snd e # remove1 (snd e) xs) d"
    by (rule al.ordered_touch [OF Cons.prems(2) l, of "fst e"]) (use Cons.prems(4) in auto)
  with f1 have "state_of fp' t i = state_of f1 t i \<and> fp_sw_aging_time_sec fp' = fp_sw_aging_time_sec f1"
    using Cons.prems by (intro Cons.IH) auto
  moreover have "fp_sw_aging_time_sec f1 = fp_sw_aging_time_sec fp"
    using f1(2) by (auto simp: list_frame_def)
  ultimately show ?case using list_frame_fields(5) [OF f1(2)] by simp
qed simp

definition last_use :: "(u64 \<times> int) list \<Rightarrow> int \<Rightarrow> u64" where
  "last_use es c = fst (last (filter (\<lambda>e. snd e = c) es))"

lemma foldl_last_use:
  "c \<in> snd ` set es \<Longrightarrow> foldl (\<lambda>st e. st(snd e := fst e)) st es c = last_use es c"
  by (induction es rule: rev_induct) (auto simp: last_use_def)

lemma dseg_last_next: "dseg nx pv p xs q \<Longrightarrow> xs \<noteq> [] \<Longrightarrow> nx (last xs) = q"
  by (induction xs arbitrary: p) (auto simp: hd0_def split: if_splits)

lemma use_flows_ordered:
  assumes "aging_list ty fp []" and "\<forall>c \<in> snd ` set es. listable ty fp [] c"
    and "sorted (map fst es)" and "\<forall>e \<in> set es. fst e \<le> tsc"
  obtains fp1 xs now where "use_flows ty es fp = Some fp1" and "al.ordered ty fp1 xs now" and "now \<le> tsc"
    and "set xs = snd ` set es" and "\<forall>c \<in> set xs. stamp_of fp1 ty c = last_use es c"
    and "\<forall>t i. state_of fp1 t i = state_of fp t i \<and> fp_sw_aging_time_sec fp1 = fp_sw_aging_time_sec fp"
proof -
  let ?xs = "rev (remdups (map snd es))"
  have o0: "al.ordered ty fp [] 0" using assms(1) by (simp add: al.ordered_def)
  have s0: "sorted (0 # map fst es)" using assms(3) by simp
  obtain fp1 where t: "al.touches ty es fp = Some fp1"
    and o: "al.ordered ty fp1 (foldl (\<lambda>xs c. c # remove1 c xs) [] (map snd es)) (last (0 # map fst es))"
    and st: "\<forall>i. stamp_of fp1 ty i = foldl (\<lambda>st e. st(snd e := fst e)) (stamp_of fp ty) es i"
    using al.touches_ordered [OF o0 assms(2) s0] by (elim exE conjE)
  have run: "use_flows ty es fp = Some fp1" using t by (simp add: use_flows_touches)
  show thesis
  proof (rule that [OF run])
    show "al.ordered ty fp1 ?xs (last (0 # map fst es))" using o by (simp only: foldl_to_front)
    show "last (0 # map fst es) \<le> tsc" using assms(4) by (cases "es = []") (auto simp: last_map)
    show "\<forall>c \<in> set ?xs. stamp_of fp1 ty c = last_use es c"
      using st foldl_last_use by simp
  qed (use use_flows_state [OF run o0 assms(2) s0] in simp_all)
qed

lemma cut_list_broken:
  assumes "aging_list ty fp xs" and "xs = keep @ old" and "old \<noteq> []" and "ended api ty olds fp fp2"
  shows "\<not> (\<exists>zs. aging_list ty (ll_upd ty (\<lambda>ll. ll\<lparr>ll_tail := last0 (- 1) keep\<rparr>) fp2) zs)"
proof
  let ?f = "ll_upd ty (\<lambda>ll. ll\<lparr>ll_tail := last0 (- 1) keep\<rparr>) fp2"
  note e = ended_fields [OF assms(4)]
  assume "\<exists>zs. aging_list ty ?f zs"
  then obtain zs where zs: "aging_list ty ?f zs" ..
  have valid: "hd old \<noteq> - 1" using assms(1-3) by (cases old) (auto simp: aging_list_def in_table_def)
  have head: "hd0 zs (- 1) = hd0 (keep @ old) (- 1)"
    using zs assms(1,2) e(5) by (simp add: aging_list_def ll_upd_def)
  have tail: "last0 (- 1) zs = last0 (- 1) keep" using zs by (simp add: aging_list_def ll_upd_def)
  show False
  proof (cases "keep = []")
    case True
    have "\<forall>z \<in> set zs. z \<noteq> - 1" using zs by (auto simp: aging_list_def in_table_def)
    then have "zs = []" using tail True last0_in [of zs "- 1"] by auto
    then show False using head True valid assms(3) by (simp add: hd0_def)
  next
    case False
    then have k: "last0 (- 1) keep = last keep" "last keep \<in> set keep" by (simp_all add: last0_def)
    have "in_table fp (last keep)" using assms(1,2) k(2) by (simp add: aging_list_def)
    then have "last keep \<noteq> - 1" by (auto simp: in_table_def)
    then have z: "zs \<noteq> []" "last zs = last keep" using tail k by (auto simp: last0_def split: if_splits)
    have "nx_of ?f ty (last zs) = - 1"
      using zs z(1) by (auto simp: aging_list_def dest: dseg_last_next)
    moreover have "nx_of fp ty (last keep) = hd old"
      using assms(1-3) False by (auto simp: aging_list_def hd0_def dest!: dseg_last_next)
    ultimately show False using z valid e(1) by (simp add: ll_upd_def node_of_def)
  qed
qed



text \<open>The aging scan with a bound on its steps; the outer \<^term>\<open>None\<close> is the bound being reached.\<close>

fun scan_bounded :: "nat \<Rightarrow> ('h, upf_accel_match_5t) rte_hash_api \<Rightarrow> u64 \<Rightarrow> u64 \<Rightarrow> parser_pkt_type \<Rightarrow> int \<Rightarrow>
   ('h, 'x, 'w) upf_accel_fp_data \<Rightarrow> (int \<times> ('h, 'x, 'w) upf_accel_fp_data) option option" where
  "scan_bounded 0 api tsc period ty cur fp = None"
| "scan_bounded (Suc n) api tsc period ty cur fp =
     (if \<not> upf_accel_sw_aging_ll_node_is_valid cur then Some (Some (cur, fp))
      else case conn_at fp cur of None \<Rightarrow> Some None
      | Some c \<Rightarrow>
        if tsc - nd_timestamp (fe_sw_aging_node (dy_entries c ty)) < period then Some (Some (cur, fp))
        else (case upf_accel_fp_delete_flow api fp cur ty of None \<Rightarrow> Some None
          | Some (ret, fp) \<Rightarrow>
            let fp = (if ret \<noteq> DOCA_SUCCESS
                      then unaccel_upd ty (\<lambda>k. k\<lparr>ac_aging_errors := ac_aging_errors k + 1\<rparr>) fp else fp);
                fp = unaccel_upd ty (\<lambda>k. k\<lparr>ac_current := ac_current k - 1\<rparr>) fp
            in case conn_at fp cur of None \<Rightarrow> Some None
               | Some c \<Rightarrow> scan_bounded n api tsc period ty (nd_prev (fe_sw_aging_node (dy_entries c ty))) fp))"

lemma scan_bounded_sound:
  "scan_bounded n api tsc period ty cur fp = Some r \<Longrightarrow> sw_aging_scan_loop api tsc period ty cur fp = r"
proof (induction n arbitrary: cur fp)
  case (Suc n)
  show ?case
    using Suc.prems
    by (subst sw_aging_scan_loop.simps)
      (auto simp: Let_def Suc.IH split: if_splits option.splits prod.splits)
qed simp

lemma scan_of_bounded:
  "scan_bounded n api tsc (ucast (fp_sw_aging_time_sec fp) * hz) ty (ll_tail (fp_sw_aging_ll fp ty)) fp = Some r \<Longrightarrow>
   upf_accel_sw_aging_ll_scan api hz tsc fp ty = map_option (\<lambda>(cur, fp). ll_upd ty (\<lambda>ll. ll\<lparr>ll_tail := cur\<rparr>) fp) r"
  by (cases r) (auto simp: upf_accel_sw_aging_ll_scan_def scan_bounded_sound Let_def)

text \<open>
  Two unaccelerated flows, of which the older one ages out; a new flow takes its place in the
  table, and the younger one leaves the list because it is accelerated.
\<close>

definition reuse_scenario :: "(unit, unit, unit) upf_accel_fp_data \<Rightarrow> (unit, unit, unit) upf_accel_fp_data option" where
  "reuse_scenario fp = do {
     fp \<leftarrow> conn_upd fp 0 (\<lambda>_. upf_accel_sw_aging_ll_node_init (demo_conn 0) PARSER_PKT_TYPE_PLAIN);
     fp \<leftarrow> upf_accel_sw_aging_ll_node_move_to_head 13 fp 0 PARSER_PKT_TYPE_PLAIN;
     (_, fp) \<leftarrow> upf_accel_sw_aging_ll_node_remove fp 1 PARSER_PKT_TYPE_PLAIN;
     Some fp }"

definition plain_scan :: "u64 \<Rightarrow> (unit, unit, unit) upf_accel_fp_data \<Rightarrow>
    (int \<times> (unit, unit, unit) upf_accel_fp_data) option option" where
  "plain_scan tsc fp = scan_bounded 3 demo_api tsc (ucast (fp_sw_aging_time_sec fp) * 1) PARSER_PKT_TYPE_PLAIN
     (ll_tail (fp_sw_aging_ll fp PARSER_PKT_TYPE_PLAIN)) fp"

definition stuck :: "'a option option \<Rightarrow> bool" where
  "stuck r = (case r of Some x \<Rightarrow> Option.is_none x | None \<Rightarrow> False)"

lemma stuck_iff: "stuck r \<longleftrightarrow> r = Some None"
  by (auto simp: stuck_def Option.is_none_def split: option.splits)

lemma reuse_eval:
  "(case use_flows PARSER_PKT_TYPE_PLAIN [(0, 0), (5, 1)] demo_fp of None \<Rightarrow> False
    | Some fp \<Rightarrow> (case plain_scan 12 fp of Some (Some (cur, fp1)) \<Rightarrow>
       (case reuse_scenario (ll_upd PARSER_PKT_TYPE_PLAIN (\<lambda>ll. ll\<lparr>ll_tail := cur\<rparr>) fp1) of None \<Rightarrow> False
        | Some fp \<Rightarrow> state_of fp PARSER_PKT_TYPE_PLAIN 0 = UPF_ACCEL_ENTRY_STATE_UNACCELERATED \<and>
            pv_of fp PARSER_PKT_TYPE_PLAIN 0 = 0 \<and>
            stuck (plain_scan 100 fp))
       | _ \<Rightarrow> False))"
  by code_simp

text \<open>
  C40.  The scan does not repair the links it cuts.  Whenever it ends at least one flow, what it
  leaves is no well-formed list any more: either the head still is the number of an ended flow, or
  the last flow kept still has one as its \<open>next\<close>.
\<close>

theorem scan_leaves_stale_links:
  assumes "aging_list ty fp []" and "\<forall>c \<in> snd ` set es. listable ty fp [] c"
    and "\<forall>c \<in> snd ` set es. state_of fp ty c \<noteq> UPF_ACCEL_ENTRY_STATE_NONE"
    and "sorted (map fst es)" and "\<forall>e \<in> set es. fst e \<le> tsc"
    and "\<exists>c \<in> snd ` set es. ucast (fp_sw_aging_time_sec fp) * hz \<le> tsc - last_use es c"
  shows "\<exists>fp1 fp2. use_flows ty es fp = Some fp1 \<and>
     upf_accel_sw_aging_ll_scan api hz tsc fp1 ty = Some fp2 \<and> \<not> (\<exists>xs. aging_list ty fp2 xs)"
proof -
  obtain fp1 xs now where run: "use_flows ty es fp = Some fp1" and o: "al.ordered ty fp1 xs now" "now \<le> tsc"
    and sx: "set xs = snd ` set es" and st: "\<forall>c \<in> set xs. stamp_of fp1 ty c = last_use es c"
    and same: "\<forall>t i. state_of fp1 t i = state_of fp t i \<and> fp_sw_aging_time_sec fp1 = fp_sw_aging_time_sec fp"
    by (rule use_flows_ordered [OF assms(1,2,4,5)])
  let ?period = "ucast (fp_sw_aging_time_sec fp1) * hz"
  let ?old = "filter (\<lambda>x. expired tsc ?period (stamp_of fp1 ty x)) xs"
  let ?keep = "filter (\<lambda>x. \<not> expired tsc ?period (stamp_of fp1 ty x)) xs"
  have "\<forall>x \<in> set xs. state_of fp1 ty x \<noteq> UPF_ACCEL_ENTRY_STATE_NONE" using assms(3) same sx by simp
  then obtain fp2 where e: "ended api ty ?old fp1 fp2"
    and scan: "upf_accel_sw_aging_ll_scan api hz tsc fp1 ty = Some (ll_upd ty (\<lambda>ll. ll\<lparr>ll_tail := last0 (- 1) ?keep\<rparr>) fp2)"
    and xs: "xs = ?keep @ ?old"
    by (rule scan_ordered [OF o _ refl refl refl, where api = api])
  have rep: "aging_list ty fp1 xs" using o by (simp add: al.ordered_def)
  have "?old \<noteq> []"
  proof -
    obtain c where "c \<in> set xs" "expired tsc ?period (stamp_of fp1 ty c)"
      using assms(6) sx st same by (auto simp: expired_def not_less)
    then have "c \<in> set ?old" by simp
    then show ?thesis by (metis empty_iff list.set(1))
  qed
  then have "\<not> (\<exists>zs. aging_list ty (ll_upd ty (\<lambda>ll. ll\<lparr>ll_tail := last0 (- 1) ?keep\<rparr>) fp2) zs)"
    by (rule cut_list_broken [OF rep xs _ e])
  then show ?thesis using run scan by blast
qed

theorem scan_leaves_stale_links_witness:
  "\<exists>fp1 fp2. use_flows PARSER_PKT_TYPE_PLAIN [(0, 0), (5, 1)] demo_fp = Some fp1 \<and>
     upf_accel_sw_aging_ll_scan demo_api 1 12 fp1 PARSER_PKT_TYPE_PLAIN = Some fp2 \<and>
     \<not> (\<exists>xs. aging_list PARSER_PKT_TYPE_PLAIN fp2 xs)"
  using scan_leaves_stale_links [OF demo_fp_list, of "[(0, 0), (5, 1)]" PARSER_PKT_TYPE_PLAIN 12 1 demo_api]
    demo_fp_listable [of 0 PARSER_PKT_TYPE_PLAIN] demo_fp_listable [of 1 PARSER_PKT_TYPE_PLAIN]
  by (simp add: last_use_def demo_fp_def demo_conn_def)

text \<open>
  The stale link is harmful.  Two unaccelerated flows are in the list and the older one ages
  out; a new flow takes its place in the table and the younger one leaves the list because it is
  accelerated.  The remaining flow then is its own predecessor, and the scan that should end it
  does not return a state: the state machine rejects ending the same flow twice.
\<close>

theorem stale_link_breaks_aging:
  "\<exists>fp1 fp2 fp3. use_flows PARSER_PKT_TYPE_PLAIN [(0, 0), (5, 1)] demo_fp = Some fp1 \<and>
     upf_accel_sw_aging_ll_scan demo_api 1 12 fp1 PARSER_PKT_TYPE_PLAIN = Some fp2 \<and>
     reuse_scenario fp2 = Some fp3 \<and>
     state_of fp3 PARSER_PKT_TYPE_PLAIN 0 = UPF_ACCEL_ENTRY_STATE_UNACCELERATED \<and>
     pv_of fp3 PARSER_PKT_TYPE_PLAIN 0 = 0 \<and>
     upf_accel_sw_aging_ll_scan demo_api 1 100 fp3 PARSER_PKT_TYPE_PLAIN = None"
proof -
  obtain fp1 cur fa fp3 where
    "use_flows PARSER_PKT_TYPE_PLAIN [(0, 0), (5, 1)] demo_fp = Some fp1"
    "plain_scan 12 fp1 = Some (Some (cur, fa))"
    "reuse_scenario (ll_upd PARSER_PKT_TYPE_PLAIN (\<lambda>ll. ll\<lparr>ll_tail := cur\<rparr>) fa) = Some fp3"
    "state_of fp3 PARSER_PKT_TYPE_PLAIN 0 = UPF_ACCEL_ENTRY_STATE_UNACCELERATED"
    "pv_of fp3 PARSER_PKT_TYPE_PLAIN 0 = 0"
    "plain_scan 100 fp3 = Some None"
    using reuse_eval by (auto simp: stuck_iff split: option.splits)
  then show ?thesis
    using scan_of_bounded [OF \<open>plain_scan 12 fp1 = _\<close> [unfolded plain_scan_def]]
      scan_of_bounded [OF \<open>plain_scan 100 fp3 = _\<close> [unfolded plain_scan_def]] by simp
qed

end
