(* ===== verification/Upf_Datapath.thy ===== *)
theory Upf_Datapath
  imports Upf_Accel Upf_Aging
begin

text \<open>
  The data path of \<open>applications/upf_accel/upf_accel_flow_processing.c\<close>: connection lookup,
  acceleration, burst processing, the DOCA Flow entry callbacks, and one iteration of the polling
  loop of a core.

  The packets a port delivers, the values of the time stamp counter, the entry events and the
  result of the transmit call are inputs.  A packet is its data and its metadata word; the data is
  one segment, so \<open>pkt_len\<close> is its length.
\<close>

record ('h, 'x, 'w) upf_env =
  env_dpdk :: dpdk
  env_adj :: "bytes \<Rightarrow> u16 \<Rightarrow> bytes"
  env_dyn :: "('h, upf_accel_match_5t) rte_hash_api"
  env_ext :: "('x, upf_accel_match_extension) rte_hash_api"
  env_flow :: "'w doca_flow_api"
  env_tsc_hz :: u64

record pkt =
  pk_data :: bytes
  pk_md :: u32

text \<open>One slot of \<open>struct upf_accel_fp_burst_ctx\<close>.\<close>

record burst_slot =
  bs_pkt :: pkt
  bs_match :: upf_accel_match_8t
  bs_conn :: "int option"
  bs_parse_ctx :: tun_parser_ctx
  bs_type :: parser_pkt_type
  bs_drop :: bool

section \<open>Connection lookup\<close>

definition upf_accel_fp_conn_lookup ::
  "('h, 'x, 'w) upf_env \<Rightarrow> ('h, 'x, 'w) upf_accel_fp_data \<Rightarrow> upf_accel_port \<Rightarrow> parser_pkt_type \<Rightarrow>
   upf_accel_match_8t \<Rightarrow> int \<Rightarrow> (doca_error_t \<times> int option \<times> ('h, 'x, 'w) upf_accel_fp_data) option" where
  "upf_accel_fp_conn_lookup env fp rx_port_id pkt_type m conn_idx =
     (if conn_idx < 0 then do {
        (result, found) \<leftarrow> upf_accel_fp_pdr_lookup (fp_pdrs fp) pkt_type m;
        if result \<noteq> DOCA_SUCCESS then Some (result, None, fp)
        else do {
          pdr \<leftarrow> found;
          let hash = rte_hash_hash (env_dyn env) (fp_dyn_tbl fp) (m8_inner m);
          let (conn_idx, tbl) = rte_hash_add_key_with_hash (env_dyn env) (fp_dyn_tbl fp) (m8_inner m) hash;
          let fp = fp\<lparr>fp_dyn_tbl := tbl\<rparr>;
          if conn_idx < 0
          then Some (DOCA_ERROR_FULL, None,
                 accel_failed_upd pkt_type (\<lambda>k. k\<lparr>ac_accel_errors := ac_accel_errors k + 1\<rparr>) fp)
          else do {
            fp \<leftarrow> conn_upd fp conn_idx (\<lambda>_. dyn_ctx0\<lparr>dy_match := m, dy_hash := hash, dy_port_id := rx_port_id,
                    dy_pdr_id := (dy_pdr_id dyn_ctx0)(pkt_type := pdr_id pdr), dy_conn_idx := conn_idx\<rparr>);
            fp \<leftarrow> conn_state_change fp conn_idx pkt_type UPF_ACCEL_ENTRY_STATE_PENDING;
            fp \<leftarrow> conn_upd fp conn_idx (\<lambda>c. upf_accel_sw_aging_ll_node_init c pkt_type);
            Some (DOCA_SUCCESS, Some conn_idx, fp) } } }
      else do {
        c \<leftarrow> conn_at fp conn_idx;
        let alive = upf_accel_fp_entry_is_alive (fe_state (dy_entries c pkt_type));
        other_tunnel \<leftarrow> (if pkt_type = PARSER_PKT_TYPE_TUNNELED \<and> alive
                        then do { eq \<leftarrow> upf_accel_fp_tunnel_eq (m8_outer m) (m8_outer (dy_match c)); Some (\<not> eq) }
                        else Some False);
        if other_tunnel then Some (DOCA_ERROR_ALREADY_EXIST, None, fp)
        else do {
          fp \<leftarrow> (if pkt_type = PARSER_PKT_TYPE_TUNNELED
                 then conn_upd fp conn_idx (\<lambda>c. c\<lparr>dy_match := (dy_match c)\<lparr>m8_outer := m8_outer m\<rparr>\<rparr>)
                 else Some fp);
          if alive then Some (DOCA_SUCCESS, Some conn_idx, fp)
          else do {
            (result, found) \<leftarrow> upf_accel_fp_pdr_lookup (fp_pdrs fp) pkt_type m;
            if result \<noteq> DOCA_SUCCESS then Some (result, None, fp)
            else do {
              pdr \<leftarrow> found;
              fp \<leftarrow> conn_state_change fp conn_idx pkt_type UPF_ACCEL_ENTRY_STATE_PENDING;
              fp \<leftarrow> conn_upd fp conn_idx (\<lambda>c. c\<lparr>dy_pdr_id := (dy_pdr_id c)(pkt_type := pdr_id pdr)\<rparr>);
              fp \<leftarrow> conn_upd fp conn_idx (\<lambda>c. upf_accel_sw_aging_ll_node_init c pkt_type);
              Some (DOCA_SUCCESS, Some conn_idx, fp) } } } })"

section \<open>Acceleration of a flow\<close>

text \<open>The handle stored through \<open>&flow_entry->entry\<close>, when the SDK stored one.\<close>

definition store_handle :: "parser_pkt_type \<Rightarrow> nat option \<Rightarrow> upf_accel_dyn_entry_ctx \<Rightarrow> upf_accel_dyn_entry_ctx" where
  "store_handle ty h c = (case h of None \<Rightarrow> c | Some _ \<Rightarrow> entry_upd ty (\<lambda>e. e\<lparr>fe_entry := h\<rparr>) c)"

text \<open>The final switch on the result of adding the hardware rule.\<close>

definition flow_accel_finish ::
  "('h, 'x, 'w) upf_accel_fp_data \<Rightarrow> parser_pkt_type \<Rightarrow> int \<Rightarrow> doca_error_t \<Rightarrow>
   (doca_error_t \<times> ('h, 'x, 'w) upf_accel_fp_data) option" where
  "flow_accel_finish fp pkt_type conn ret =
     (if ret = DOCA_SUCCESS then do {
        fp \<leftarrow> conn_state_change fp conn pkt_type UPF_ACCEL_ENTRY_STATE_PENDING_ACCELERATION;
        (_, fp) \<leftarrow> upf_accel_sw_aging_ll_node_remove fp conn pkt_type;
        Some (DOCA_SUCCESS, fp) }
      else Some (DOCA_ERROR_FULL,
             accel_failed_upd pkt_type (\<lambda>k. k\<lparr>ac_current := ac_current k + 1, ac_total := ac_total k + 1\<rparr>) fp))"

definition upf_accel_fp_flow_accel ::
  "('h, 'x, 'w) upf_env \<Rightarrow> ('h, 'x, 'w) upf_accel_fp_data \<Rightarrow> upf_accel_port \<Rightarrow> parser_pkt_type \<Rightarrow>
   upf_accel_match_8t \<Rightarrow> int \<Rightarrow> (doca_error_t \<times> ('h, 'x, 'w) upf_accel_fp_data) option" where
  "upf_accel_fp_flow_accel env fp port_id pkt_type m conn = do {
     c \<leftarrow> conn_at fp conn;
     let st = fe_state (dy_entries c pkt_type);
     let pdr = dy_pdr_id c pkt_type;
     if upf_accel_fp_entry_is_established st then Some (DOCA_ERROR_ALREADY_EXIST, fp)
     else if upf_accel_fp_entry_is_alive st \<and> dy_cnt_pkts c pkt_type + 1 < ucast (fp_dpi_threshold fp)
     then do {
       fp \<leftarrow> conn_state_change fp conn pkt_type UPF_ACCEL_ENTRY_STATE_UNACCELERATED;
       Some (DOCA_SUCCESS, fp) }
     else if m5_ip_version (m8_inner m) = L3_TYPE_IP6 then do {
       let ext_match = upf_accel_fp_extension_match_extract m;
       let idx = rte_hash_lookup (env_ext env) (fp_dyn_ext_tbl fp) ext_match;
       (fp, idx, pending_del) \<leftarrow>
         (if idx < 0 then do {
            let hash = rte_hash_hash (env_ext env) (fp_dyn_ext_tbl fp) ext_match;
            let (idx, tbl) = rte_hash_add_key_with_hash (env_ext env) (fp_dyn_ext_tbl fp) ext_match hash;
            fp \<leftarrow> ext_upd (fp\<lparr>fp_dyn_ext_tbl := tbl\<rparr>) idx (\<lambda>e. e\<lparr>ex_match := ext_match, ex_hash := hash,
                    ex_md_value := upf_accel_match_chain_md_calc idx (fp_queue_id fp)\<rparr>);
            Some (fp, idx, False) }
          else do {
            e \<leftarrow> ext_at fp idx;
            Some (fp, idx, ex_state e = UPF_ACCEL_ENTRY_STATE_PENDING_DEACCELERATION) });
       if pending_del then do {
         fp \<leftarrow> conn_state_change fp conn pkt_type UPF_ACCEL_ENTRY_STATE_UNACCELERATED;
         Some (DOCA_SUCCESS, fp) }
       else do {
         fp \<leftarrow> conn_upd fp conn (entry_upd pkt_type (\<lambda>f. f\<lparr>fe_ext_entry := Some idx\<rparr>));
         fp \<leftarrow> ext_upd fp idx (\<lambda>e. e\<lparr>ex_ref_cnt := ex_ref_cnt e + 1\<rparr>);
         e \<leftarrow> ext_at fp idx;
         (ret, entry, w) \<leftarrow>
           (if pkt_type = PARSER_PKT_TYPE_TUNNELED
            then upf_accel_pipe_8t_ipv6_accel (env_flow env) (fp_flow fp) port_id (fp_queue_id fp) m pdr
                   (ex_md_value e) (Dyn_entry conn)
            else upf_accel_pipe_5t_ipv6_accel (env_flow env) (fp_flow fp) port_id (fp_queue_id fp) (m8_inner m) pdr
                   (ex_md_value e) (Dyn_entry conn));
         fp \<leftarrow> conn_upd (fp\<lparr>fp_flow := w\<rparr>) conn (store_handle pkt_type entry);
         flow_accel_finish fp pkt_type conn ret } }
     else do {
       (ret, entry, w) \<leftarrow>
         (if pkt_type = PARSER_PKT_TYPE_TUNNELED
          then upf_accel_pipe_8t_ipv4_accel (env_flow env) (fp_flow fp) port_id (fp_queue_id fp) m pdr (Dyn_entry conn)
          else upf_accel_pipe_5t_ipv4_accel (env_flow env) (fp_flow fp) port_id (fp_queue_id fp) (m8_inner m) pdr
                 (Dyn_entry conn));
       fp \<leftarrow> conn_upd (fp\<lparr>fp_flow := w\<rparr>) conn (store_handle pkt_type entry);
       flow_accel_finish fp pkt_type conn ret } }"

section \<open>Burst processing\<close>

definition upf_accel_packet_byte_counter_inc ::
  "upf_accel_packet_byte_counter \<Rightarrow> pkt \<Rightarrow> upf_accel_packet_byte_counter" where
  "upf_accel_packet_byte_counter_inc ctr pkt =
     ctr\<lparr>ctr_pkts := ctr_pkts ctr + 1, ctr_bytes := ctr_bytes ctr + of_nat (length (pk_data pkt))\<rparr>"

text \<open>Parsing of one packet of the burst (the body of the loop), and of the whole burst.\<close>

definition pkts_match_slot :: "('h, 'x, 'w) upf_env \<Rightarrow> pkt \<Rightarrow> burst_slot option" where
  "pkts_match_slot env pkt = do {
     ty \<leftarrow> upf_accel_fp_fetch_pkt_type (pk_md pkt);
     (ret, ctx, m) \<leftarrow> upf_accel_fp_pkt_match (env_dpdk env) ty (pk_data pkt) tun0;
     Some \<lparr>bs_pkt = pkt, bs_match = m, bs_conn = None, bs_parse_ctx = ctx, bs_type = ty,
           bs_drop = (ret \<noteq> DOCA_SUCCESS)\<rparr> }"

fun upf_accel_fp_pkts_match :: "('h, 'x, 'w) upf_env \<Rightarrow> pkt list \<Rightarrow> burst_slot list option" where
  "upf_accel_fp_pkts_match env [] = Some []"
| "upf_accel_fp_pkts_match env (pkt # pkts) = do {
     s \<leftarrow> pkts_match_slot env pkt; ss \<leftarrow> upf_accel_fp_pkts_match env pkts; Some (s # ss) }"

fun conns_lookup_loop :: "('h, 'x, 'w) upf_env \<Rightarrow> upf_accel_port \<Rightarrow> (burst_slot \<times> int) list \<Rightarrow>
    ('h, 'x, 'w) upf_accel_fp_data \<Rightarrow> (burst_slot list \<times> ('h, 'x, 'w) upf_accel_fp_data) option" where
  "conns_lookup_loop env rx_port_id [] fp = Some ([], fp)"
| "conns_lookup_loop env rx_port_id ((s, idx) # ss) fp = do {
     (s, fp) \<leftarrow> (if bs_drop s then Some (s, fp)
                else do {
                  (ret, conn, fp) \<leftarrow> upf_accel_fp_conn_lookup env fp rx_port_id (bs_type s) (bs_match s) idx;
                  Some (if ret \<noteq> DOCA_SUCCESS then (s\<lparr>bs_drop := True\<rparr>, fp) else (s\<lparr>bs_conn := conn\<rparr>, fp)) });
     (ss, fp) \<leftarrow> conns_lookup_loop env rx_port_id ss fp;
     Some (s # ss, fp) }"

text \<open>The bulk lookup comes first: it does not see the keys the loop adds.\<close>

definition upf_accel_fp_conns_lookup ::
  "('h, 'x, 'w) upf_env \<Rightarrow> ('h, 'x, 'w) upf_accel_fp_data \<Rightarrow> upf_accel_port \<Rightarrow> burst_slot list \<Rightarrow>
   (burst_slot list \<times> ('h, 'x, 'w) upf_accel_fp_data) option" where
  "upf_accel_fp_conns_lookup env fp rx_port_id slots =
     (if slots = [] then Some (slots, fp)
      else let (err, conn_idxs) = rte_hash_lookup_bulk (env_dyn env) (fp_dyn_tbl fp)
                 (map (\<lambda>s. m8_inner (bs_match s)) slots)
           in if err \<noteq> 0 then None
              else conns_lookup_loop env rx_port_id (zip slots (map conn_idxs [0..<length slots])) fp)"

definition flows_accel_slot ::
  "('h, 'x, 'w) upf_env \<Rightarrow> upf_accel_port \<Rightarrow> burst_slot \<Rightarrow> ('h, 'x, 'w) upf_accel_fp_data \<Rightarrow>
   ('h, 'x, 'w) upf_accel_fp_data option" where
  "flows_accel_slot env rx_port_id s fp =
     (if bs_drop s then Some fp
      else do {
        conn \<leftarrow> bs_conn s;
        (ret, fp) \<leftarrow> upf_accel_fp_flow_accel env fp rx_port_id (bs_type s) (bs_match s) conn;
        c \<leftarrow> conn_at fp conn;
        let ctrs = fp_sw_counters fp;
        let fp = fp\<lparr>fp_sw_counters :=
              (if dy_cnt_pkts c (bs_type s) \<noteq> 0
               then ctrs\<lparr>sw_ex_conn := upf_accel_packet_byte_counter_inc (sw_ex_conn ctrs) (bs_pkt s)\<rparr>
               else ctrs\<lparr>sw_new_conn := upf_accel_packet_byte_counter_inc (sw_new_conn ctrs) (bs_pkt s)\<rparr>)\<rparr>;
        conn_upd fp conn (\<lambda>c. c\<lparr>
          dy_cnt_pkts := (dy_cnt_pkts c)(bs_type s := dy_cnt_pkts c (bs_type s) + 1),
          dy_cnt_bytes := (dy_cnt_bytes c)(bs_type s :=
             dy_cnt_bytes c (bs_type s) + of_nat (length (pk_data (bs_pkt s))))\<rparr>) })"

fun upf_accel_fp_flows_accel ::
  "('h, 'x, 'w) upf_env \<Rightarrow> upf_accel_port \<Rightarrow> burst_slot list \<Rightarrow> ('h, 'x, 'w) upf_accel_fp_data \<Rightarrow>
   ('h, 'x, 'w) upf_accel_fp_data option" where
  "upf_accel_fp_flows_accel env rx_port_id [] fp = Some fp"
| "upf_accel_fp_flows_accel env rx_port_id (s # ss) fp = do {
     fp \<leftarrow> flows_accel_slot env rx_port_id s fp; upf_accel_fp_flows_accel env rx_port_id ss fp }"

definition upf_accel_fp_pkt_err_drop ::
  "('h, 'x, 'w) upf_accel_fp_data \<Rightarrow> pkt \<Rightarrow> ('h, 'x, 'w) upf_accel_fp_data" where
  "upf_accel_fp_pkt_err_drop fp pkt =
     fp\<lparr>fp_sw_counters := (fp_sw_counters fp)
          \<lparr>sw_err := upf_accel_packet_byte_counter_inc (sw_err (fp_sw_counters fp)) pkt\<rparr>\<rparr>"

definition upf_accel_md_set :: "pkt \<Rightarrow> u32 \<Rightarrow> pkt option" where
  "upf_accel_md_set pkt md = (if md < 32 then Some (pkt\<lparr>pk_md := md\<rparr>) else None)"

definition is_flow_unaccelerated :: "parser_pkt_type \<Rightarrow> upf_accel_dyn_entry_ctx \<Rightarrow> bool" where
  "is_flow_unaccelerated pkt_type c \<longleftrightarrow>
     fe_state (dy_entries c pkt_type) = UPF_ACCEL_ENTRY_STATE_UNACCELERATED"

text \<open>Post-processing of one packet; \<open>tsc\<close> is the time stamp counter when its flow is touched.\<close>

definition postprocess_slot ::
  "('h, 'x, 'w) upf_env \<Rightarrow> u64 \<Rightarrow> burst_slot \<Rightarrow> ('h, 'x, 'w) upf_accel_fp_data \<Rightarrow>
   (pkt option \<times> ('h, 'x, 'w) upf_accel_fp_data) option" where
  "postprocess_slot env tsc s fp =
     (if bs_drop s then Some (None, upf_accel_fp_pkt_err_drop fp (bs_pkt s))
      else do {
        conn \<leftarrow> bs_conn s;
        data \<leftarrow> (if bs_type s = PARSER_PKT_TYPE_TUNNELED
                then upf_accel_decap (env_adj env) (pk_data (bs_pkt s)) (bs_parse_ctx s)
                else Some (pk_data (bs_pkt s)));
        c \<leftarrow> conn_at fp conn;
        fp \<leftarrow> (if is_flow_unaccelerated (bs_type s) c
               then upf_accel_sw_aging_ll_node_move_to_head tsc fp conn (bs_type s) else Some fp);
        c \<leftarrow> conn_at fp conn;
        pkt \<leftarrow> upf_accel_md_set ((bs_pkt s)\<lparr>pk_data := data\<rparr>) (dy_pdr_id c (bs_type s));
        Some (Some pkt, fp) })"

fun upf_accel_fp_burst_postprocess ::
  "('h, 'x, 'w) upf_env \<Rightarrow> (nat \<Rightarrow> u64) \<Rightarrow> nat \<Rightarrow> burst_slot list \<Rightarrow> ('h, 'x, 'w) upf_accel_fp_data \<Rightarrow>
   (pkt list \<times> ('h, 'x, 'w) upf_accel_fp_data) option" where
  "upf_accel_fp_burst_postprocess env tsc i [] fp = Some ([], fp)"
| "upf_accel_fp_burst_postprocess env tsc i (s # ss) fp = do {
     (out, fp) \<leftarrow> postprocess_slot env (tsc i) s fp;
     (tx, fp) \<leftarrow> upf_accel_fp_burst_postprocess env tsc (Suc i) ss fp;
     Some (case out of None \<Rightarrow> tx | Some pkt \<Rightarrow> pkt # tx, fp) }"

section \<open>Entry callbacks\<close>

datatype doca_flow_entry_status =
  ENTRY_STATUS_IN_PROCESS | ENTRY_STATUS_SUCCESS | ENTRY_STATUS_ERROR

datatype doca_flow_entry_op = ENTRY_OP_ADD | ENTRY_OP_DEL | ENTRY_OP_UPD | ENTRY_OP_AGED

text \<open>The arguments of a callback.\<close>

record flow_event =
  ev_entry :: "nat option"
  ev_queue :: u16
  ev_status :: doca_flow_entry_status
  ev_op :: doca_flow_entry_op
  ev_user_ctx :: "entry_ref option"

definition ext_state_change ::
  "('h, 'x, 'w) upf_accel_fp_data \<Rightarrow> int \<Rightarrow> upf_accel_entry_state \<Rightarrow>
   ('h, 'x, 'w) upf_accel_fp_data option" where
  "ext_state_change fp ext new_state = do {
     e \<leftarrow> ext_at fp ext;
     s \<leftarrow> upf_accel_fp_entry_state_change (ex_state e) new_state;
     ext_upd fp ext (\<lambda>e. e\<lparr>ex_state := s\<rparr>) }"

definition upf_accel_fp_delete_extension_entry ::
  "('h, 'x, 'w) upf_env \<Rightarrow> ('h, 'x, 'w) upf_accel_fp_data \<Rightarrow> int \<Rightarrow>
   (doca_error_t \<times> ('h, 'x, 'w) upf_accel_fp_data) option" where
  "upf_accel_fp_delete_extension_entry env fp ext = do {
     fp \<leftarrow> ext_state_change fp ext UPF_ACCEL_ENTRY_STATE_NONE;
     e \<leftarrow> ext_at fp ext;
     let (r, tbl) = rte_hash_del_key_with_hash (env_ext env) (fp_dyn_ext_tbl fp) (ex_match e) (ex_hash e);
     let fp = fp\<lparr>fp_dyn_ext_tbl := tbl\<rparr>;
     if r < 0 then Some (DOCA_ERROR_INVALID_VALUE, fp) else Some (DOCA_SUCCESS, fp) }"

definition upf_accel_dyn_entry_cb_get_pkt_type ::
  "upf_accel_dyn_entry_ctx \<Rightarrow> nat option \<Rightarrow> parser_pkt_type" where
  "upf_accel_dyn_entry_cb_get_pkt_type c entry =
     (if entry = fe_entry (dy_entries c PARSER_PKT_TYPE_TUNNELED) then PARSER_PKT_TYPE_TUNNELED
      else if entry = fe_entry (dy_entries c PARSER_PKT_TYPE_PLAIN) then PARSER_PKT_TYPE_PLAIN
      else PARSER_PKT_TYPE_UNKNOWN)"

definition upf_accel_dyn_entry_cb_add ::
  "('h, 'x, 'w) upf_env \<Rightarrow> ('h, 'x, 'w) upf_accel_fp_data \<Rightarrow> int \<Rightarrow> doca_flow_entry_status \<Rightarrow>
   parser_pkt_type \<Rightarrow> ('h, 'x, 'w) upf_accel_fp_data option" where
  "upf_accel_dyn_entry_cb_add env fp conn status pkt_type = do {
     c \<leftarrow> conn_at fp conn;
     let fp = (if status \<noteq> ENTRY_STATUS_SUCCESS
               then accel_failed_upd pkt_type (\<lambda>k. k\<lparr>ac_current := ac_current k + 1, ac_total := ac_total k + 1\<rparr>)
                      (accel_upd pkt_type (\<lambda>k. k\<lparr>ac_accel_errors := ac_accel_errors k + 1\<rparr>) fp)
               else fp);
     fp \<leftarrow> conn_state_change fp conn pkt_type UPF_ACCEL_ENTRY_STATE_ACCELERATED;
     let fp = accel_upd pkt_type (\<lambda>k. k\<lparr>ac_current := ac_current k + 1, ac_total := ac_total k + 1\<rparr>) fp;
     (case fe_ext_entry (dy_entries c pkt_type) of
        None \<Rightarrow> Some fp
      | Some ext \<Rightarrow> do {
          e \<leftarrow> ext_at fp ext;
          if upf_accel_fp_entry_is_alive (ex_state e) then Some fp
          else do {
            fp \<leftarrow> ext_state_change fp ext UPF_ACCEL_ENTRY_STATE_PENDING_ACCELERATION;
            let (ret, entry, w) =
              (if pkt_type = PARSER_PKT_TYPE_TUNNELED
               then upf_accel_pipe_8t_ipv6_ext_accel (env_flow env) (fp_flow fp) (dy_port_id c) (fp_queue_id fp)
                      (ex_match e) (ex_md_value e) (Ext_entry ext)
               else upf_accel_pipe_5t_ipv6_ext_accel (env_flow env) (fp_flow fp) (dy_port_id c) (fp_queue_id fp)
                      (ex_match e) (ex_md_value e) (Ext_entry ext));
            fp \<leftarrow> (case entry of None \<Rightarrow> Some (fp\<lparr>fp_flow := w\<rparr>)
                   | Some _ \<Rightarrow> ext_upd (fp\<lparr>fp_flow := w\<rparr>) ext (\<lambda>e. e\<lparr>ex_entry := entry\<rparr>));
            Some (if ret \<noteq> DOCA_SUCCESS
                  then accel_upd pkt_type (\<lambda>k. k\<lparr>ac_accel_errors := ac_accel_errors k + 1\<rparr>) fp else fp) } }) }"

definition upf_accel_dyn_entry_cb_age ::
  "('h, 'x, 'w) upf_env \<Rightarrow> ('h, 'x, 'w) upf_accel_fp_data \<Rightarrow> int \<Rightarrow> nat option \<Rightarrow> doca_flow_entry_status \<Rightarrow>
   u16 \<Rightarrow> parser_pkt_type \<Rightarrow> ('h, 'x, 'w) upf_accel_fp_data option" where
  "upf_accel_dyn_entry_cb_age env fp conn entry status pipe_queue pkt_type = do {
     c \<leftarrow> conn_at fp conn;
     let aging_error = accel_upd pkt_type (\<lambda>k. k\<lparr>ac_aging_errors := ac_aging_errors k + 1\<rparr>);
     let fp = (if status \<noteq> ENTRY_STATUS_SUCCESS then aging_error fp else fp);
     fp \<leftarrow> conn_state_change fp conn pkt_type UPF_ACCEL_ENTRY_STATE_PENDING_DEACCELERATION;
     (fp, entry_to_delete) \<leftarrow>
       (case fe_ext_entry (dy_entries c pkt_type) of
          None \<Rightarrow> Some (fp, entry)
        | Some ext \<Rightarrow> do {
            e \<leftarrow> ext_at fp ext;
            if ex_ref_cnt e = 0 then None
            else do {
              fp \<leftarrow> ext_upd fp ext (\<lambda>e. e\<lparr>ex_ref_cnt := ex_ref_cnt e - 1\<rparr>);
              if ex_ref_cnt e - 1 = 0 then do {
                fp \<leftarrow> ext_state_change fp ext UPF_ACCEL_ENTRY_STATE_PENDING_DEACCELERATION;
                fp \<leftarrow> ext_upd fp ext (\<lambda>e. e\<lparr>ex_del_next := entry\<rparr>);
                Some (fp, ex_entry e) }
              else Some (fp, entry) } });
     let (ret, w) = doca_flow_pipe_remove_entry (env_flow env) (fp_flow fp) pipe_queue entry_to_delete;
     let fp = fp\<lparr>fp_flow := w\<rparr>;
     Some (if ret \<noteq> DOCA_SUCCESS then aging_error fp else fp) }"

definition upf_accel_dyn_entry_cb_del ::
  "('h, 'x, 'w) upf_env \<Rightarrow> ('h, 'x, 'w) upf_accel_fp_data \<Rightarrow> int \<Rightarrow> doca_flow_entry_status \<Rightarrow>
   parser_pkt_type \<Rightarrow> ('h, 'x, 'w) upf_accel_fp_data option" where
  "upf_accel_dyn_entry_cb_del env fp conn status pkt_type = do {
     let del_error = accel_upd pkt_type (\<lambda>k. k\<lparr>ac_del_errors := ac_del_errors k + 1\<rparr>);
     let fp = (if status \<noteq> ENTRY_STATUS_SUCCESS then del_error fp else fp);
     fp \<leftarrow> conn_upd fp conn (entry_upd pkt_type (\<lambda>f. f\<lparr>fe_ext_entry := None\<rparr>));
     (ret, fp) \<leftarrow> upf_accel_fp_delete_flow (env_dyn env) fp conn pkt_type;
     Some (if ret \<noteq> DOCA_SUCCESS then del_error fp
           else accel_upd pkt_type (\<lambda>k. k\<lparr>ac_current := ac_current k - 1\<rparr>) fp) }"

definition upf_accel_dyn_entry_cb ::
  "('h, 'x, 'w) upf_env \<Rightarrow> ('h, 'x, 'w) upf_accel_fp_data \<Rightarrow> int \<Rightarrow> flow_event \<Rightarrow>
   ('h, 'x, 'w) upf_accel_fp_data option" where
  "upf_accel_dyn_entry_cb env fp conn ev = do {
     c \<leftarrow> conn_at fp conn;
     let pkt_type = upf_accel_dyn_entry_cb_get_pkt_type c (ev_entry ev);
     if pkt_type = PARSER_PKT_TYPE_UNKNOWN then Some fp
     else (case ev_op ev of
             ENTRY_OP_ADD \<Rightarrow> upf_accel_dyn_entry_cb_add env fp conn (ev_status ev) pkt_type
           | ENTRY_OP_AGED \<Rightarrow> upf_accel_dyn_entry_cb_age env fp conn (ev_entry ev) (ev_status ev) (ev_queue ev) pkt_type
           | ENTRY_OP_DEL \<Rightarrow> upf_accel_dyn_entry_cb_del env fp conn (ev_status ev) pkt_type
           | ENTRY_OP_UPD \<Rightarrow> Some fp) }"

definition ext_pkt_type :: "upf_accel_extension_entry_ctx \<Rightarrow> parser_pkt_type" where
  "ext_pkt_type e = (if me_te_id (ex_match e) \<noteq> 0 then PARSER_PKT_TYPE_TUNNELED else PARSER_PKT_TYPE_PLAIN)"

definition upf_accel_ext_entry_cb_add ::
  "('h, 'x, 'w) upf_accel_fp_data \<Rightarrow> int \<Rightarrow> doca_flow_entry_status \<Rightarrow>
   ('h, 'x, 'w) upf_accel_fp_data option" where
  "upf_accel_ext_entry_cb_add fp ext status = do {
     e \<leftarrow> ext_at fp ext;
     let fp = (if status \<noteq> ENTRY_STATUS_SUCCESS
               then accel_upd (ext_pkt_type e) (\<lambda>k. k\<lparr>ac_accel_errors := ac_accel_errors k + 1\<rparr>) fp else fp);
     ext_state_change fp ext UPF_ACCEL_ENTRY_STATE_ACCELERATED }"

definition upf_accel_ext_entry_cb_del ::
  "('h, 'x, 'w) upf_env \<Rightarrow> ('h, 'x, 'w) upf_accel_fp_data \<Rightarrow> int \<Rightarrow> doca_flow_entry_status \<Rightarrow> u16 \<Rightarrow>
   ('h, 'x, 'w) upf_accel_fp_data option" where
  "upf_accel_ext_entry_cb_del env fp ext status pipe_queue = do {
     e \<leftarrow> ext_at fp ext;
     let del_error = accel_upd (ext_pkt_type e) (\<lambda>k. k\<lparr>ac_del_errors := ac_del_errors k + 1\<rparr>);
     let fp = (if status \<noteq> ENTRY_STATUS_SUCCESS then del_error fp else fp);
     (ret, fp) \<leftarrow> upf_accel_fp_delete_extension_entry env fp ext;
     Some (if ret = DOCA_SUCCESS
           then fp\<lparr>fp_flow := snd (doca_flow_pipe_remove_entry (env_flow env) (fp_flow fp) pipe_queue (ex_del_next e))\<rparr>
           else del_error fp) }"

definition upf_accel_ext_entry_cb ::
  "('h, 'x, 'w) upf_env \<Rightarrow> ('h, 'x, 'w) upf_accel_fp_data \<Rightarrow> int \<Rightarrow> flow_event \<Rightarrow>
   ('h, 'x, 'w) upf_accel_fp_data option" where
  "upf_accel_ext_entry_cb env fp ext ev =
     (case ev_op ev of
        ENTRY_OP_ADD \<Rightarrow> upf_accel_ext_entry_cb_add fp ext (ev_status ev)
      | ENTRY_OP_DEL \<Rightarrow> upf_accel_ext_entry_cb_del env fp ext (ev_status ev) (ev_queue ev)
      | _ \<Rightarrow> Some fp)"

definition upf_accel_static_entry_cb :: "entries_status \<Rightarrow> flow_event \<Rightarrow> entries_status" where
  "upf_accel_static_entry_cb es ev =
     (case ev_op ev of
        ENTRY_OP_UPD \<Rightarrow> es
      | ENTRY_OP_AGED \<Rightarrow> es
      | _ \<Rightarrow> es\<lparr>es_failure := (es_failure es \<or> ev_status ev \<noteq> ENTRY_STATUS_SUCCESS),
                es_nb_processed := es_nb_processed es + 1\<rparr>)"

definition upf_accel_check_for_valid_entry_aging ::
  "('h, 'x, 'w) upf_env \<Rightarrow> ('h, 'x, 'w) upf_accel_fp_data \<Rightarrow> flow_event \<Rightarrow>
   ('h, 'x, 'w) upf_accel_fp_data option" where
  "upf_accel_check_for_valid_entry_aging env fp ev =
     (case ev_user_ctx ev of
        None \<Rightarrow> Some fp
      | Some (Dyn_entry conn) \<Rightarrow> upf_accel_dyn_entry_cb env fp conn ev
      | Some (Ext_entry ext) \<Rightarrow> upf_accel_ext_entry_cb env fp ext ev
      | Some (Static_entry p) \<Rightarrow> Some (fp\<lparr>fp_static_entry_ctx := (fp_static_entry_ctx fp)
             (p := upf_accel_static_entry_cb (fp_static_entry_ctx fp p) ev)\<rparr>))"

text \<open>The callbacks the SDK makes during one call, in order.\<close>

fun run_events ::
  "('h, 'x, 'w) upf_env \<Rightarrow> flow_event list \<Rightarrow> ('h, 'x, 'w) upf_accel_fp_data \<Rightarrow>
   ('h, 'x, 'w) upf_accel_fp_data option" where
  "run_events env [] fp = Some fp"
| "run_events env (ev # evs) fp = do {
     fp \<leftarrow> upf_accel_check_for_valid_entry_aging env fp ev; run_events env evs fp }"

section \<open>The polling loop\<close>

text \<open>What the outside world delivers during one iteration on a port.\<close>

record port_input =
  pi_rx :: "pkt list"
  pi_tsc :: "nat \<Rightarrow> u64"
  pi_tsc_poll :: u64
  pi_tsc_start :: u64
  pi_num_aged :: int
  pi_aged :: "flow_event list"
  pi_processed :: "flow_event list"
  pi_sent :: nat

abbreviation ports_of :: "nat \<Rightarrow> upf_accel_port list" where
  "ports_of n \<equiv> take n [UPF_ACCEL_PORT0, UPF_ACCEL_PORT1]"

definition upf_accel_aging_init ::
  "(upf_accel_port \<Rightarrow> u64) \<Rightarrow> ('h, 'x, 'w) upf_accel_fp_data \<Rightarrow> ('h, 'x, 'w) upf_accel_fp_data" where
  "upf_accel_aging_init tsc fp = fp\<lparr>fp_last_hw_aging_tsc := (\<lambda>p.
     if p \<in> set (ports_of (fp_num_ports fp)) then tsc p else fp_last_hw_aging_tsc fp p)\<rparr>"

definition upf_accel_hw_aging_poll ::
  "('h, 'x, 'w) upf_env \<Rightarrow> port_input \<Rightarrow> ('h, 'x, 'w) upf_accel_fp_data \<Rightarrow> upf_accel_port \<Rightarrow>
   (doca_error_t \<times> ('h, 'x, 'w) upf_accel_fp_data) option" where
  "upf_accel_hw_aging_poll env inp fp port_id = do {
     let aging_interval_tsc = 1 * env_tsc_hz env;
     let fp = (if pi_tsc_poll inp - fp_last_hw_aging_tsc fp port_id \<ge> aging_interval_tsc
               then fp\<lparr>fp_hw_aging_in_progress := (fp_hw_aging_in_progress fp)(port_id := True),
                       fp_last_hw_aging_tsc := (fp_last_hw_aging_tsc fp)(port_id := pi_tsc_start inp)\<rparr>
               else fp);
     if \<not> fp_hw_aging_in_progress fp port_id then Some (DOCA_SUCCESS, fp)
     else do {
       fp \<leftarrow> run_events env (pi_aged inp) fp;
       Some (DOCA_SUCCESS,
         if pi_num_aged inp = - 1
         then fp\<lparr>fp_hw_aging_in_progress := (fp_hw_aging_in_progress fp)(port_id := False)\<rparr> else fp) } }"

text \<open>The result is the packets handed to the transmit call that it accepted, and the state.\<close>

definition upf_accel_fp_run_port ::
  "('h, 'x, 'w) upf_env \<Rightarrow> port_input \<Rightarrow> ('h, 'x, 'w) upf_accel_fp_data \<Rightarrow> upf_accel_port \<Rightarrow>
   (pkt list \<times> ('h, 'x, 'w) upf_accel_fp_data) option" where
  "upf_accel_fp_run_port env inp fp rx_port_id = do {
     slots \<leftarrow> upf_accel_fp_pkts_match env (pi_rx inp);
     (slots, fp) \<leftarrow> upf_accel_fp_conns_lookup env fp rx_port_id slots;
     fp \<leftarrow> upf_accel_fp_flows_accel env rx_port_id slots fp;
     (tx, fp) \<leftarrow> upf_accel_fp_burst_postprocess env (pi_tsc inp) 0 slots fp;
     (_, fp) \<leftarrow> upf_accel_hw_aging_poll env inp fp rx_port_id;
     fp \<leftarrow> run_events env (pi_processed inp) fp;
     Some (take (pi_sent inp) tx, fold (\<lambda>p fp. upf_accel_fp_pkt_err_drop fp p) (drop (pi_sent inp) tx) fp) }"

fun fp_run_ports ::
  "('h, 'x, 'w) upf_env \<Rightarrow> (upf_accel_port \<Rightarrow> port_input) \<Rightarrow> (upf_accel_port \<Rightarrow> upf_accel_port) \<Rightarrow>
   upf_accel_port list \<Rightarrow> ('h, 'x, 'w) upf_accel_fp_data \<Rightarrow>
   ((upf_accel_port \<times> pkt list) list \<times> ('h, 'x, 'w) upf_accel_fp_data) option" where
  "fp_run_ports env inp get_fwd_port [] fp = Some ([], fp)"
| "fp_run_ports env inp get_fwd_port (p # ps) fp = do {
     (tx, fp) \<leftarrow> upf_accel_fp_run_port env (inp p) fp p;
     (txs, fp) \<leftarrow> fp_run_ports env inp get_fwd_port ps fp;
     Some ((get_fwd_port p, tx) # txs, fp) }"

definition upf_accel_fp_run ::
  "('h, 'x, 'w) upf_env \<Rightarrow> (upf_accel_port \<Rightarrow> port_input) \<Rightarrow> (upf_accel_port \<Rightarrow> upf_accel_port) \<Rightarrow>
   ('h, 'x, 'w) upf_accel_fp_data \<Rightarrow>
   ((upf_accel_port \<times> pkt list) list \<times> ('h, 'x, 'w) upf_accel_fp_data) option" where
  "upf_accel_fp_run env inp get_fwd_port fp =
     fp_run_ports env inp get_fwd_port (ports_of (fp_num_ports fp)) fp"

section \<open>What the operations leave alone\<close>

text \<open>Reads of the tables change nothing.\<close>

lemma read_vc:
  "(\<And>x. Q x) \<Longrightarrow> ensures (conn_at fp i) Q" "(\<And>x. R x) \<Longrightarrow> ensures (ext_at fp i) R"
  "(\<And>x. S x) \<Longrightarrow> ensures (upf_accel_fp_pdr_lookup pdrs ty m) S"
  "(\<And>x. T x) \<Longrightarrow> ensures (upf_accel_fp_entry_state_change s s') T"
  "(\<And>x. U x) \<Longrightarrow> ensures (upf_accel_fp_tunnel_eq t t') U"
  "(\<And>x. V x) \<Longrightarrow> ensures (upf_accel_pipe_8t_ipv6_accel flow w p q m8 pdr md e) V"
  "(\<And>x. V x) \<Longrightarrow> ensures (upf_accel_pipe_5t_ipv6_accel flow w p q m5 pdr md e) V"
  "(\<And>x. V x) \<Longrightarrow> ensures (upf_accel_pipe_8t_ipv4_accel flow w p q m8 pdr e) V"
  "(\<And>x. V x) \<Longrightarrow> ensures (upf_accel_pipe_5t_ipv4_accel flow w p q m5 pdr e) V"
  by (simp_all add: ensures_def)

text \<open>The software packet counters.\<close>

abbreviation keeps_sw :: "('h, 'x, 'w) upf_accel_fp_data \<Rightarrow> ('h, 'x, 'w) upf_accel_fp_data \<Rightarrow> bool" where
  "keeps_sw fp fp' \<equiv> fp_sw_counters fp' = fp_sw_counters fp"

lemma upd_sw_counters [simp]:
  "fp_sw_counters (unaccel_upd ty k fp) = fp_sw_counters fp"
  "fp_sw_counters (accel_upd ty k fp) = fp_sw_counters fp"
  "fp_sw_counters (accel_failed_upd ty k fp) = fp_sw_counters fp"
  "fp_sw_counters (ll_upd ty l fp) = fp_sw_counters fp"
  by (simp_all add: unaccel_upd_def accel_upd_def accel_failed_upd_def ll_upd_def)

lemma table_sw: "ensures (conn_upd fp i f) (keeps_sw fp)" "ensures (ext_upd fp i g) (keeps_sw fp)"
  by (auto simp: ensures_def conn_upd_def ext_upd_def split: if_splits)

lemmas sw1 = vc read_vc table_sw [THEN ensures_call]

lemma state_change_sw:
  "ensures (conn_state_change fp i ty s) (keeps_sw fp)" "ensures (ext_state_change fp j t) (keeps_sw fp)"
  unfolding conn_state_change_def ext_state_change_def by (intro sw1; simp)+

lemmas sw2 = sw1 state_change_sw [THEN ensures_call]

lemma delete_flow_sw: "ensures (upf_accel_fp_delete_flow api fp i ty) (\<lambda>(ret, fp'). keeps_sw fp fp')"
  unfolding upf_accel_fp_delete_flow_def by (intro sw2; simp)

lemma node_remove_sw: "ensures (upf_accel_sw_aging_ll_node_remove fp i ty) (\<lambda>(b, fp'). keeps_sw fp fp')"
  unfolding upf_accel_sw_aging_ll_node_remove_def by (intro sw2; simp)

lemma node_insert_sw: "ensures (upf_accel_sw_aging_ll_node_insert tsc fp i ty) (keeps_sw fp)"
  unfolding upf_accel_sw_aging_ll_node_insert_def by (intro sw2; simp)

lemmas sw3 = sw2 delete_flow_sw [THEN ensures_call] node_remove_sw [THEN ensures_call]
  node_insert_sw [THEN ensures_call]

lemma move_to_head_sw: "ensures (upf_accel_sw_aging_ll_node_move_to_head tsc fp i ty) (keeps_sw fp)"
  unfolding upf_accel_sw_aging_ll_node_move_to_head_def by (intro sw3; simp)

lemma flow_accel_finish_sw: "ensures (flow_accel_finish fp ty c r) (\<lambda>(ret, fp'). keeps_sw fp fp')"
  unfolding flow_accel_finish_def by (intro sw3; simp)

lemma conn_lookup_sw: "ensures (upf_accel_fp_conn_lookup env fp p ty m idx) (\<lambda>(ret, c, fp'). keeps_sw fp fp')"
  unfolding upf_accel_fp_conn_lookup_def by (intro sw3; (rule ensuresI, intro sw3)?; simp)

lemma flow_accel_sw: "ensures (upf_accel_fp_flow_accel env fp p ty m c) (\<lambda>(ret, fp'). keeps_sw fp fp')"
  unfolding upf_accel_fp_flow_accel_def
  by (intro sw3 flow_accel_finish_sw [THEN ensures_call]; simp)

lemma delete_extension_sw: "ensures (upf_accel_fp_delete_extension_entry env fp e) (\<lambda>(ret, fp'). keeps_sw fp fp')"
  unfolding upf_accel_fp_delete_extension_entry_def by (intro sw3; simp)

lemma dyn_entry_cb_add_sw: "ensures (upf_accel_dyn_entry_cb_add env fp c st ty) (keeps_sw fp)"
  unfolding upf_accel_dyn_entry_cb_add_def by (intro sw3; simp)

lemma dyn_entry_cb_age_sw: "ensures (upf_accel_dyn_entry_cb_age env fp c e st q ty) (keeps_sw fp)"
  unfolding upf_accel_dyn_entry_cb_age_def by (intro sw3; simp)

lemma dyn_entry_cb_del_sw: "ensures (upf_accel_dyn_entry_cb_del env fp c st ty) (keeps_sw fp)"
  unfolding upf_accel_dyn_entry_cb_del_def by (intro sw3; simp)

lemma dyn_entry_cb_sw: "ensures (upf_accel_dyn_entry_cb env fp c ev) (keeps_sw fp)"
  unfolding upf_accel_dyn_entry_cb_def
  by (intro sw3; simp split: doca_flow_entry_op.split
      add: dyn_entry_cb_add_sw dyn_entry_cb_age_sw dyn_entry_cb_del_sw ensures_Some)

lemma ext_entry_cb_sw: "ensures (upf_accel_ext_entry_cb env fp e ev) (keeps_sw fp)"
proof -
  have "ensures (upf_accel_ext_entry_cb_add fp e st) (keeps_sw fp)"
    "ensures (upf_accel_ext_entry_cb_del env fp e st q) (keeps_sw fp)" for st q
    unfolding upf_accel_ext_entry_cb_add_def upf_accel_ext_entry_cb_del_def
    by (intro sw3 delete_extension_sw [THEN ensures_call]; simp)+
  then show ?thesis
    by (simp add: upf_accel_ext_entry_cb_def ensures_Some split: doca_flow_entry_op.split)
qed

lemma callback_sw: "ensures (upf_accel_check_for_valid_entry_aging env fp ev) (keeps_sw fp)"
  by (simp add: upf_accel_check_for_valid_entry_aging_def dyn_entry_cb_sw ext_entry_cb_sw ensures_Some
      split: option.split entry_ref.split)

lemma run_events_sw: "ensures (run_events env evs fp) (keeps_sw fp)"
proof (induction evs arbitrary: fp)
  case (Cons ev evs)
  show ?case
    by (simp, intro vc callback_sw [THEN ensures_call] Cons.IH [THEN ensures_call]) simp
qed (simp add: ensures_Some)

lemma hw_aging_poll_sw: "ensures (upf_accel_hw_aging_poll env inp fp p) (\<lambda>(ret, fp'). keeps_sw fp fp')"
  unfolding upf_accel_hw_aging_poll_def by (intro sw3 run_events_sw [THEN ensures_call]; simp)

section \<open>Packet accounting\<close>

definition kept :: "burst_slot list \<Rightarrow> nat" where
  "kept ss = length (filter (\<lambda>s. \<not> bs_drop s) ss)"

lemma kept_simps [simp]: "kept [] = 0" "kept (s # ss) = (if bs_drop s then 0 else 1) + kept ss"
  by (simp_all add: kept_def)

lemma kept_le: "kept ss \<le> length ss"
  by (simp add: kept_def)

abbreviation err_pkts :: "('h, 'x, 'w) upf_accel_fp_data \<Rightarrow> u64" where
  "err_pkts fp \<equiv> ctr_pkts (sw_err (fp_sw_counters fp))"
abbreviation conn_pkts :: "('h, 'x, 'w) upf_accel_fp_data \<Rightarrow> u64" where
  "conn_pkts fp \<equiv> ctr_pkts (sw_new_conn (fp_sw_counters fp)) + ctr_pkts (sw_ex_conn (fp_sw_counters fp))"

lemma pkts_match_length:
  "upf_accel_fp_pkts_match env pkts = Some ss \<Longrightarrow> length ss = length pkts"
  by (induction pkts arbitrary: ss) (auto simp: Some_bind_iff)

lemma conns_lookup_loop_sw:
  "ensures (conns_lookup_loop env p ss fp) (\<lambda>(ss', fp'). length ss' = length ss \<and> keeps_sw fp fp')"
proof (induction ss arbitrary: fp)
  case (Cons e ss)
  obtain s idx where e: "e = (s, idx)" by (cases e)
  show ?case
    by (simp only: e conns_lookup_loop.simps,
        intro vc conn_lookup_sw [THEN ensures_call] Cons.IH [THEN ensures_call]) (auto split: if_splits)
qed (simp add: ensures_Some)

lemma conns_lookup_sw:
  "ensures (upf_accel_fp_conns_lookup env fp p ss) (\<lambda>(ss', fp'). length ss' = length ss \<and> keeps_sw fp fp')"
  unfolding upf_accel_fp_conns_lookup_def
  by (intro vc conns_lookup_loop_sw [THEN ensures_call]; auto)

lemma flows_accel_slot_count:
  "ensures (flows_accel_slot env p s fp) (\<lambda>fp'. err_pkts fp' = err_pkts fp \<and>
     conn_pkts fp' = conn_pkts fp + (if bs_drop s then 0 else 1))"
  unfolding flows_accel_slot_def
  by (intro sw3 flow_accel_sw [THEN ensures_call]; (rule ensuresI, intro sw3 flow_accel_sw [THEN ensures_call])?;
      simp add: upf_accel_packet_byte_counter_inc_def algebra_simps)

lemma flows_accel_count:
  "ensures (upf_accel_fp_flows_accel env p ss fp) (\<lambda>fp'. err_pkts fp' = err_pkts fp \<and>
     conn_pkts fp' = conn_pkts fp + of_nat (kept ss))"
proof (induction ss arbitrary: fp)
  case (Cons s ss)
  show ?case
    by (simp only: upf_accel_fp_flows_accel.simps,
        intro vc flows_accel_slot_count [THEN ensures_call] Cons.IH [THEN ensures_call])
      (simp add: algebra_simps)
qed (simp add: ensures_Some)

lemma postprocess_slot_count:
  "ensures (postprocess_slot env t s fp) (\<lambda>(out, fp'). (out = None \<longleftrightarrow> bs_drop s) \<and>
     err_pkts fp' = err_pkts fp + (if bs_drop s then 1 else 0) \<and> conn_pkts fp' = conn_pkts fp)"
  unfolding postprocess_slot_def
  by (intro sw3 move_to_head_sw [THEN ensures_call];
      (rule ensuresI, intro sw3 move_to_head_sw [THEN ensures_call])?;
      (rule ensuresI, intro sw3 move_to_head_sw [THEN ensures_call])?;
      (rule ensuresI, intro sw3 move_to_head_sw [THEN ensures_call])?;
      simp add: upf_accel_fp_pkt_err_drop_def upf_accel_packet_byte_counter_inc_def)

lemma postprocess_count:
  "ensures (upf_accel_fp_burst_postprocess env tsc i ss fp) (\<lambda>(tx, fp'). length tx = kept ss \<and>
     err_pkts fp' = err_pkts fp + of_nat (length ss - kept ss) \<and> conn_pkts fp' = conn_pkts fp)"
proof (induction ss arbitrary: i fp)
  case (Cons s ss)
  have le: "kept ss \<le> length ss" by (rule kept_le)
  show ?case
    by (simp only: upf_accel_fp_burst_postprocess.simps,
        intro vc postprocess_slot_count [THEN ensures_call] Cons.IH [THEN ensures_call])
      (use le in \<open>auto simp: Suc_diff_le split: option.split if_splits\<close>)
qed (simp add: ensures_Some)

lemma err_drop_fold:
  "err_pkts (fold (\<lambda>p fp. upf_accel_fp_pkt_err_drop fp p) ps fp) = err_pkts fp + of_nat (length ps)"
  "conn_pkts (fold (\<lambda>p fp. upf_accel_fp_pkt_err_drop fp p) ps fp) = conn_pkts fp"
  by (induction ps arbitrary: fp)
    (simp_all add: upf_accel_fp_pkt_err_drop_def upf_accel_packet_byte_counter_inc_def)

section \<open>Properties\<close>


section \<open>A concrete environment\<close>

text \<open>A hash table as a list of slots, and a flow engine that logs the rules it is given.\<close>

definition slot_of :: "'k option list \<Rightarrow> 'k option \<Rightarrow> nat option" where
  "slot_of h k = find (\<lambda>i. h ! i = k) [0..<length h]"

definition list_hash :: "('k option list, 'k) rte_hash_api" where
  "list_hash = \<lparr>rte_hash_hash = (\<lambda>_ _. 0),
     rte_hash_add_key_with_hash = (\<lambda>h k _. case slot_of h (Some k) of Some i \<Rightarrow> (int i, h)
        | None \<Rightarrow> (case slot_of h None of Some i \<Rightarrow> (int i, h[i := Some k]) | None \<Rightarrow> (- 28, h))),
     rte_hash_del_key_with_hash = (\<lambda>h k _. case slot_of h (Some k) of Some i \<Rightarrow> (int i, h[i := None])
        | None \<Rightarrow> (- 2, h)),
     rte_hash_lookup = (\<lambda>h k. case slot_of h (Some k) of Some i \<Rightarrow> int i | None \<Rightarrow> - 2),
     rte_hash_lookup_bulk = (\<lambda>h ks. (0, \<lambda>n. case slot_of h (Some (ks ! n)) of Some i \<Rightarrow> int i | None \<Rightarrow> - 2))\<rparr>"

type_synonym flow_log = "((upf_accel_port \<times> upf_accel_pipe_type) \<times> u32 \<times> entry_ref) list"

definition log_flow :: "flow_log doca_flow_api" where
  "log_flow = \<lparr>doca_flow_pipe_basic_add_entry = (\<lambda>w q p m a r. (DOCA_SUCCESS, Some (length w), w @ [(p, a, r)])),
     doca_flow_pipe_remove_entry = (\<lambda>w q e. (DOCA_SUCCESS, w))\<rparr>"

definition list_env :: "(upf_accel_match_5t option list, upf_accel_match_extension option list, flow_log) upf_env" where
  "list_env = \<lparr>env_dpdk = ref_dpdk, env_adj = ref_adj, env_dyn = list_hash, env_ext = list_hash,
     env_flow = log_flow, env_tsc_hz = 1\<rparr>"

definition list_fp :: "upf_accel_pdr list \<Rightarrow> u32 \<Rightarrow>
    (upf_accel_match_5t option list, upf_accel_match_extension option list, flow_log) upf_accel_fp_data" where
  "list_fp pdrs threshold = \<lparr>fp_pdrs = pdrs, fp_dpi_threshold = threshold, fp_sw_aging_time_sec = 10,
     fp_num_ports = 2, fp_flow = [], fp_queue_id = 1, fp_dyn_tbl = replicate 2 None, fp_dyn_tbl_size = 2,
     fp_dyn_tbl_data = (\<lambda>_. dyn_ctx0), fp_dyn_ext_tbl = replicate 4 None, fp_dyn_ext_tbl_size = 4,
     fp_dyn_ext_tbl_data = fp_dyn_ext_tbl_data demo_fp, fp_sw_counters = fp_sw_counters demo_fp,
     fp_accel_counters = (\<lambda>_. counters0), fp_unaccel_counters = (\<lambda>_. counters0),
     fp_accel_failed_counters = (\<lambda>_. counters0),
     fp_sw_aging_ll = (\<lambda>_. \<lparr>ll_head = - 1, ll_tail = - 1\<rparr>),
     fp_last_hw_aging_tsc = (\<lambda>_. 0), fp_hw_aging_in_progress = (\<lambda>_. False),
     fp_static_entry_ctx = (\<lambda>_. \<lparr>es_failure = False, es_nb_processed = 0\<rparr>)\<rparr>"

definition demo_input :: "pkt list \<Rightarrow> port_input" where
  "demo_input pkts = \<lparr>pi_rx = pkts, pi_tsc = (\<lambda>_. 0), pi_tsc_poll = 0, pi_tsc_start = 0, pi_num_aged = 0,
     pi_aged = [], pi_processed = [], pi_sent = 32\<rparr>"

definition demo_pkts :: "pkt list" where
  "demo_pkts = [\<lparr>pk_data = gtpu_packet, pk_md = 0x20\<rparr>, \<lparr>pk_data = [], pk_md = 0x40\<rparr>]"

lemma demo_run: "map_option (\<lambda>(tx, fp). (length tx, err_pkts fp, conn_pkts fp))
    (upf_accel_fp_run_port list_env (demo_input demo_pkts) (list_fp [sample_pdr] 2) UPF_ACCEL_PORT0)
  = Some (1, 1, 1)"
  by code_simp

section \<open>Acceleration step by step\<close>

text \<open>States with the same list nodes, list ends and connection numbers have the same aging lists.\<close>

definition same_lists :: "('h, 'x, 'w) upf_accel_fp_data \<Rightarrow> ('h, 'x, 'w) upf_accel_fp_data \<Rightarrow> bool" where
  "same_lists fp fp' \<longleftrightarrow> fp_dyn_tbl_size fp' = fp_dyn_tbl_size fp \<and> fp_sw_aging_ll fp' = fp_sw_aging_ll fp \<and>
     (\<forall>i. dy_conn_idx (fp_dyn_tbl_data fp' i) = dy_conn_idx (fp_dyn_tbl_data fp i)) \<and>
     (\<forall>t i. node_of fp' t i = node_of fp t i)"

lemma same_lists_iff:
  assumes "same_lists fp fp'"
  shows "in_table fp' = in_table fp" "aging_list t fp' = aging_list t fp" "listable t fp' = listable t fp"
  using assms by (auto simp: same_lists_def in_table_def aging_list_def listable_def fun_eq_iff)

lemma same_lists_trans: "same_lists a b \<Longrightarrow> same_lists b c \<Longrightarrow> same_lists a c"
  by (simp add: same_lists_def)

lemma entry_upd_same_lists:
  assumes "in_table fp c" and "\<And>e. fe_sw_aging_node (g e) = fe_sw_aging_node e"
  obtains fp' where "conn_upd fp c (entry_upd ty g) = Some fp'" and "same_lists fp fp'"
    and "\<And>t i. dy_entries (fp_dyn_tbl_data fp' i) t =
       (if t = ty \<and> i = c then g (dy_entries (fp_dyn_tbl_data fp i) t) else dy_entries (fp_dyn_tbl_data fp i) t)"
  using assms that
  by (auto simp: conn_upd_def in_table_def same_lists_def entry_upd_def node_of_def)

lemma state_change_ok:
  assumes "in_table fp c" and "state_change_allowed (state_of fp ty c) s"
  obtains fp' where "conn_state_change fp c ty s = Some fp'" and "same_lists fp fp'"
    and "\<And>t i. state_of fp' t i = (if t = ty \<and> i = c then s else state_of fp t i)"
proof -
  obtain fp' where "conn_upd fp c (entry_upd ty (\<lambda>e. e\<lparr>fe_state := s\<rparr>)) = Some fp'" "same_lists fp fp'"
    "\<And>t i. dy_entries (fp_dyn_tbl_data fp' i) t =
       (if t = ty \<and> i = c then (dy_entries (fp_dyn_tbl_data fp i) t)\<lparr>fe_state := s\<rparr> else dy_entries (fp_dyn_tbl_data fp i) t)"
    by (rule entry_upd_same_lists [OF assms(1), of "\<lambda>e. e\<lparr>fe_state := s\<rparr>" ty]) auto
  moreover have "conn_at fp c = Some (fp_dyn_tbl_data fp c)"
    using assms(1) by (simp add: in_table_def conn_at_def)
  ultimately show thesis
    using assms(2) that [of fp'] by (simp add: conn_state_change_def upf_accel_fp_entry_state_change_def)
qed

lemma state_change_bad:
  "in_table fp c \<Longrightarrow> \<not> state_change_allowed (state_of fp ty c) s \<Longrightarrow> conn_state_change fp c ty s = None"
  by (simp add: in_table_def conn_at_def conn_state_change_def upf_accel_fp_entry_state_change_def)

lemma store_handle_ok:
  assumes "in_table fp c"
  obtains fp' where "conn_upd (fp\<lparr>fp_flow := w\<rparr>) c (store_handle ty h) = Some fp'" and "same_lists fp fp'"
    and "\<And>t i. state_of fp' t i = state_of fp t i"
  using assms that
  by (cases h) (auto simp: store_handle_def conn_upd_def in_table_def same_lists_def entry_upd_def node_of_def)

lemma counters_same_lists [simp]:
  "same_lists fp (accel_failed_upd ty k fp)" "same_lists fp (fp\<lparr>fp_flow := w\<rparr>)"
  by (simp_all add: same_lists_def accel_failed_upd_def node_of_def)

lemma node_remove_any:
  assumes "aging_list ty fp xs" and "listable ty fp xs c"
  obtains b fp' where "upf_accel_sw_aging_ll_node_remove fp c ty = Some (b, fp')"
    and "aging_list ty fp' (remove1 c xs)" and "list_frame ty fp fp'"
proof (cases "c \<in> set xs")
  case False
  then show thesis
    using that node_remove_out [OF assms] assms(1) list_frame_refl by (auto simp: remove1_idem)
next
  case True
  then obtain ys zs where xs: "xs = ys @ c # zs" "c \<notin> set ys" by (auto dest: split_list_first)
  obtain fp' where "upf_accel_sw_aging_ll_node_remove fp c ty = Some (True, fp')"
      "aging_list ty fp' (ys @ zs)" "list_frame ty fp fp'"
    by (rule node_remove_in [OF assms(1) [unfolded xs(1)]]) blast
  then show thesis using that xs by (simp add: remove1_append)
qed

lemma flow_accel_finish_ok:
  assumes "aging_list ty fp xs" and "listable ty fp xs c"
    and "state_change_allowed (state_of fp ty c) UPF_ACCEL_ENTRY_STATE_PENDING_ACCELERATION"
  obtains fp' where "flow_accel_finish fp ty c r =
      Some (if r = DOCA_SUCCESS then DOCA_SUCCESS else DOCA_ERROR_FULL, fp')"
    and "aging_list ty fp' (if r = DOCA_SUCCESS then remove1 c xs else xs)"
    and "\<And>t i. state_of fp' t i = (if r = DOCA_SUCCESS \<and> t = ty \<and> i = c
        then UPF_ACCEL_ENTRY_STATE_PENDING_ACCELERATION else state_of fp t i)"
proof (cases "r = DOCA_SUCCESS")
  case False
  then show thesis
    by (intro that [of "accel_failed_upd ty _ fp"])
      (simp_all add: flow_accel_finish_def assms(1) same_lists_iff(2) [OF counters_same_lists(1)],
       simp add: accel_failed_upd_def)
next
  case True
  have it: "in_table fp c" using assms(2) by (simp add: listable_def)
  obtain f1 where f1: "conn_state_change fp c ty UPF_ACCEL_ENTRY_STATE_PENDING_ACCELERATION = Some f1"
      "same_lists fp f1"
      "\<And>t i. state_of f1 t i = (if t = ty \<and> i = c then UPF_ACCEL_ENTRY_STATE_PENDING_ACCELERATION else state_of fp t i)"
    by (rule state_change_ok [OF it assms(3)]) blast
  have l: "aging_list ty f1 xs" "listable ty f1 xs c" using assms(1,2) same_lists_iff [OF f1(2)] by simp_all
  obtain f2 b where f2: "upf_accel_sw_aging_ll_node_remove f1 c ty = Some (b, f2)"
      "aging_list ty f2 (remove1 c xs)" "list_frame ty f1 f2"
    by (rule node_remove_any [OF l])
  show thesis
    using that [of f2] True f1 f2 list_frame_fields(5) [OF f2(3)] by (simp add: flow_accel_finish_def)
qed


text \<open>What the flow engine answers to the rule of an IPv4 flow.\<close>

definition hw_answer :: "('h, 'x, 'w) upf_env \<Rightarrow> ('h, 'x, 'w) upf_accel_fp_data \<Rightarrow> upf_accel_port \<Rightarrow>
    parser_pkt_type \<Rightarrow> upf_accel_match_8t \<Rightarrow> int \<Rightarrow> (doca_error_t \<times> nat option \<times> 'w) option" where
  "hw_answer env fp port ty m c = do {
     ((pipe, hm), _) \<leftarrow> hw_rules ty m 0;
     Some (doca_flow_pipe_basic_add_entry (env_flow env) (fp_flow fp) (fp_queue_id fp) (port, pipe) hm
             (htobe32 (dy_pdr_id (fp_dyn_tbl_data fp c) ty)) (Dyn_entry c)) }"

lemma hw_answer_accel:
  assumes "m5_ip_version (m8_inner m) = L3_TYPE_IP4" and "conn_at fp c = Some d"
  shows "(if ty = PARSER_PKT_TYPE_TUNNELED
          then upf_accel_pipe_8t_ipv4_accel (env_flow env) (fp_flow fp) p (fp_queue_id fp) m (dy_pdr_id d ty) (Dyn_entry c)
          else upf_accel_pipe_5t_ipv4_accel (env_flow env) (fp_flow fp) p (fp_queue_id fp) (m8_inner m) (dy_pdr_id d ty)
                 (Dyn_entry c)) = hw_answer env fp p ty m c"
  using assms
  by (auto simp: hw_answer_def hw_rules_def upf_accel_pipe_8t_ipv4_accel_def upf_accel_pipe_5t_ipv4_accel_def
      conn_at_def split: if_splits bind_splits)

definition waits :: "('h, 'x, 'w) upf_accel_fp_data \<Rightarrow> parser_pkt_type \<Rightarrow> int \<Rightarrow> bool" where
  "waits fp ty c \<longleftrightarrow> dy_cnt_pkts (fp_dyn_tbl_data fp c) ty + 1 < ucast (fp_dpi_threshold fp)"

lemma flow_accel_ipv4_eq:
  assumes "in_table fp c" and "m5_ip_version (m8_inner m) = L3_TYPE_IP4"
    and "state_of fp ty c \<noteq> UPF_ACCEL_ENTRY_STATE_NONE"
  shows "upf_accel_fp_flow_accel env fp p ty m c =
    (if upf_accel_fp_entry_is_established (state_of fp ty c) then Some (DOCA_ERROR_ALREADY_EXIST, fp)
     else if waits fp ty c
     then map_option (Pair DOCA_SUCCESS) (conn_state_change fp c ty UPF_ACCEL_ENTRY_STATE_UNACCELERATED)
     else do {
       (ret, entry, w) \<leftarrow> hw_answer env fp p ty m c;
       fp \<leftarrow> conn_upd (fp\<lparr>fp_flow := w\<rparr>) c (store_handle ty entry);
       flow_accel_finish fp ty c ret })"
proof -
  have c: "conn_at fp c = Some (fp_dyn_tbl_data fp c)" using assms(1) by (simp add: in_table_def conn_at_def)
  show ?thesis
    using assms(2,3) hw_answer_accel [OF assms(2) c, of ty env p]
    by (simp add: upf_accel_fp_flow_accel_def c waits_def upf_accel_fp_entry_is_alive_def Let_def
        map_option_case split: bind_split cong: if_cong)
qed

text \<open>The data path from the connection lookup on, for a burst of already parsed packets.\<close>

definition run_slots ::
  "('h, 'x, 'w) upf_env \<Rightarrow> upf_accel_port \<Rightarrow> u64 \<Rightarrow> burst_slot list \<Rightarrow> ('h, 'x, 'w) upf_accel_fp_data \<Rightarrow>
   ('h, 'x, 'w) upf_accel_fp_data option" where
  "run_slots env p tsc ss fp = do {
     (ss, fp) \<leftarrow> upf_accel_fp_conns_lookup env fp p ss;
     fp \<leftarrow> upf_accel_fp_flows_accel env p ss fp;
     (tx, fp) \<leftarrow> upf_accel_fp_burst_postprocess env (\<lambda>_. tsc) 0 ss fp;
     Some fp }"

definition slot_for :: "parser_pkt_type \<Rightarrow> upf_accel_match_8t \<Rightarrow> burst_slot" where
  "slot_for ty m = \<lparr>bs_pkt = \<lparr>pk_data = replicate 64 0, pk_md = 0\<rparr>, bs_match = m, bs_conn = None,
     bs_parse_ctx = tun0\<lparr>tn_len := 50, tn_inner := conn0\<lparr>cn_network_ctx := network0\<lparr>nw_ip_version := 4\<rparr>\<rparr>\<rparr>,
     bs_type = ty, bs_drop = False\<rparr>"

definition dl_pdr :: upf_accel_pdr where
  "dl_pdr = sample_pdr\<lparr>pdr_id := 3, pdr_pdi_si := UPF_ACCEL_PDR_PDI_SI_DL\<rparr>"

definition flow_key :: "upf_accel_ip \<Rightarrow> upf_accel_match_5t" where
  "flow_key ue = \<lparr>ue_ip = ue, extern_ip = 0x08080808, ue_port = 1000, extern_port = 53,
     m5_ip_version = L3_TYPE_IP4, ip_proto = 17\<rparr>"

definition dl_slot :: "upf_accel_ip \<Rightarrow> burst_slot" where
  "dl_slot ue = slot_for PARSER_PKT_TYPE_PLAIN (match_8t0\<lparr>m8_inner := flow_key ue\<rparr>)"

definition ul_slot :: "upf_accel_ip \<Rightarrow> burst_slot" where
  "ul_slot ue = slot_for PARSER_PKT_TYPE_TUNNELED \<lparr>m8_inner = flow_key ue,
     m8_outer = \<lparr>te_ip = 0x0a000001, te_id = 123, tun_qfi = 0, tun_ip_version = L3_TYPE_IP4\<rparr>\<rparr>"


text \<open>
  A flow can be made to wait only once: the second packet below the inspection threshold is
  rejected by the entry state machine (\<open>UNACCELERATED\<close> to \<open>UNACCELERATED\<close>), so the program stops at
  the assertion.  With a threshold of 3 or more the second packet of every flow gets there.
\<close>

theorem waiting_twice_fails:
  assumes "in_table fp c" and "m5_ip_version (m8_inner m) = L3_TYPE_IP4"
    and "state_of fp ty c = UPF_ACCEL_ENTRY_STATE_UNACCELERATED" and "waits fp ty c"
  shows "upf_accel_fp_flow_accel env fp p ty m c = None"
  using assms flow_accel_ipv4_eq [OF assms(1,2), of ty env p] state_change_bad [OF assms(1)]
  by (simp add: upf_accel_fp_entry_is_established_def)

lemma first_packet_eval:
  "(case run_slots list_env UPF_ACCEL_PORT0 0 [dl_slot 1] (list_fp [dl_pdr] 3) of None \<Rightarrow> False
    | Some fp \<Rightarrow> in_table fp 0 \<and> waits fp PARSER_PKT_TYPE_PLAIN 0 \<and>
        state_of fp PARSER_PKT_TYPE_PLAIN 0 = UPF_ACCEL_ENTRY_STATE_UNACCELERATED)"
  by code_simp

theorem waiting_twice_fails_witness:
  "\<exists>fp. run_slots list_env UPF_ACCEL_PORT0 0 [dl_slot 1] (list_fp [dl_pdr] 3) = Some fp \<and>
     upf_accel_fp_flow_accel list_env fp UPF_ACCEL_PORT0 PARSER_PKT_TYPE_PLAIN (bs_match (dl_slot 1)) 0 = None"
  using first_packet_eval waiting_twice_fails [of _ 0 "bs_match (dl_slot 1)" PARSER_PKT_TYPE_PLAIN list_env UPF_ACCEL_PORT0]
  by (auto simp: dl_slot_def slot_for_def flow_key_def match_8t0_def split: option.splits)

definition one_flow_fp ::
  "(upf_accel_match_5t option list, upf_accel_match_extension option list, flow_log) upf_accel_fp_data" where
  "one_flow_fp = (list_fp [] 1)\<lparr>fp_dyn_tbl_data := demo_conn\<rparr>"




section \<open>New connections\<close>

text \<open>The connection record set up for the first packet of a connection.\<close>

definition new_conn :: "upf_accel_match_8t \<Rightarrow> u32 \<Rightarrow> upf_accel_port \<Rightarrow> parser_pkt_type \<Rightarrow> u32 \<Rightarrow> int \<Rightarrow>
    upf_accel_dyn_entry_ctx" where
  "new_conn m hash p ty pdr i = dyn_ctx0\<lparr>dy_match := m, dy_hash := hash, dy_port_id := p,
     dy_pdr_id := (dy_pdr_id dyn_ctx0)(ty := pdr), dy_conn_idx := i,
     dy_entries := (dy_entries dyn_ctx0)(ty := flow_entry0\<lparr>fe_state := UPF_ACCEL_ENTRY_STATE_PENDING,
       fe_sw_aging_node := node0\<lparr>nd_prev := - 1, nd_next := - 1\<rparr>\<rparr>)\<rparr>"

lemma new_conn_simps:
  "dy_entries dyn_ctx0 t = flow_entry0" "fe_sw_aging_node flow_entry0 = node0"
  "fe_state flow_entry0 = UPF_ACCEL_ENTRY_STATE_NONE" "nd_prev node0 = 0" "nd_next node0 = 0"
  "dy_entries (new_conn m h p ty pdr i) t = (if t = ty then flow_entry0\<lparr>fe_state := UPF_ACCEL_ENTRY_STATE_PENDING,
     fe_sw_aging_node := node0\<lparr>nd_prev := - 1, nd_next := - 1\<rparr>\<rparr> else flow_entry0)"
  "dy_pdr_id (new_conn m h p ty pdr i) t = (if t = ty then pdr else 0)"
  by (simp_all add: dyn_ctx0_def flow_entry0_def node0_def new_conn_def)

lemma conn_lookup_new:
  assumes "idx < 0" and "upf_accel_fp_pdr_lookup (fp_pdrs fp) ty m = Some (DOCA_SUCCESS, Some pdr)"
    and "hash = rte_hash_hash (env_dyn env) (fp_dyn_tbl fp) (m8_inner m)"
    and "rte_hash_add_key_with_hash (env_dyn env) (fp_dyn_tbl fp) (m8_inner m) hash = (i, tbl)"
    and "0 \<le> i" "i < fp_dyn_tbl_size fp"
  shows "upf_accel_fp_conn_lookup env fp p ty m idx = Some (DOCA_SUCCESS, Some i,
    fp\<lparr>fp_dyn_tbl := tbl, fp_dyn_tbl_data := (fp_dyn_tbl_data fp)(i := new_conn m hash p ty (pdr_id pdr) i)\<rparr>)"
  using assms
  by (simp add: upf_accel_fp_conn_lookup_def Let_def conn_upd_def conn_state_change_def conn_at_def new_conn_simps
      upf_accel_fp_entry_state_change_def new_conn_def entry_upd_def upf_accel_sw_aging_ll_node_init_def node_upd_def)

text \<open>Documented behaviour of the hash table: adding a key again returns its position.\<close>

definition add_again :: "('h, 'k) rte_hash_api \<Rightarrow> bool" where
  "add_again api \<longleftrightarrow> (\<forall>h k s i h'. rte_hash_add_key_with_hash api h k s = (i, h') \<longrightarrow> 0 \<le> i \<longrightarrow>
     fst (rte_hash_add_key_with_hash api h' k s) = i \<and> rte_hash_hash api h' k = rte_hash_hash api h k)"

text \<open>
  C35.  The first packets of the two directions of a new connection, in one burst.  The bulk lookup
  answers before the first packet adds the connection, so the second packet sets it up again: both
  packets go on with the same connection, but the flow of the first one is gone.  Its state is
  \<open>NONE\<close>, the PDR it matched is replaced by 0, and its list node, all zeros instead of invalid,
  links to connection 0.
\<close>

theorem both_directions_in_one_burst:
  assumes "add_again (env_dyn env)" and "\<not> bs_drop a" and "\<not> bs_drop b" and "bs_type a \<noteq> bs_type b"
    and "m8_inner (bs_match a) = m8_inner (bs_match b)"
    and "rte_hash_lookup_bulk (env_dyn env) (fp_dyn_tbl fp) [m8_inner (bs_match a), m8_inner (bs_match b)] = (0, idxs)"
    and "idxs 0 < 0" and "idxs 1 < 0"
    and "upf_accel_fp_pdr_lookup (fp_pdrs fp) (bs_type a) (bs_match a) = Some (DOCA_SUCCESS, Some pdr_a)"
    and "upf_accel_fp_pdr_lookup (fp_pdrs fp) (bs_type b) (bs_match b) = Some (DOCA_SUCCESS, Some pdr_b)"
    and "rte_hash_add_key_with_hash (env_dyn env) (fp_dyn_tbl fp) (m8_inner (bs_match a))
           (rte_hash_hash (env_dyn env) (fp_dyn_tbl fp) (m8_inner (bs_match a))) = (i, tbl)"
    and "0 \<le> i" and "i < fp_dyn_tbl_size fp"
  shows "\<exists>fp'. upf_accel_fp_conns_lookup env fp p [a, b] =
        Some ([a\<lparr>bs_conn := Some i\<rparr>, b\<lparr>bs_conn := Some i\<rparr>], fp') \<and>
     state_of fp' (bs_type a) i = UPF_ACCEL_ENTRY_STATE_NONE \<and>
     state_of fp' (bs_type b) i = UPF_ACCEL_ENTRY_STATE_PENDING \<and>
     dy_pdr_id (fp_dyn_tbl_data fp' i) (bs_type a) = 0 \<and>
     nd_prev (node_of fp' (bs_type a) i) = 0 \<and> nd_next (node_of fp' (bs_type a) i) = 0"
proof -
  let ?k = "m8_inner (bs_match a)" and ?hash = "rte_hash_hash (env_dyn env) (fp_dyn_tbl fp) (m8_inner (bs_match a))"
  let ?f1 = "fp\<lparr>fp_dyn_tbl := tbl, fp_dyn_tbl_data := (fp_dyn_tbl_data fp)
     (i := new_conn (bs_match a) ?hash p (bs_type a) (pdr_id pdr_a) i)\<rparr>"
  have again: "fst (rte_hash_add_key_with_hash (env_dyn env) tbl ?k ?hash) = i"
      "rte_hash_hash (env_dyn env) tbl ?k = ?hash"
    using assms(1,11,12) by (auto simp: add_again_def)
  obtain tbl' where t: "rte_hash_add_key_with_hash (env_dyn env) tbl ?k ?hash = (i, tbl')"
    using again(1) by (metis prod.collapse)
  have one: "upf_accel_fp_conn_lookup env fp p (bs_type a) (bs_match a) (idxs 0) = Some (DOCA_SUCCESS, Some i, ?f1)"
    by (rule conn_lookup_new [OF assms(7,9) refl assms(11-13)])
  have "upf_accel_fp_conn_lookup env ?f1 p (bs_type b) (bs_match b) (idxs 1) = Some (DOCA_SUCCESS, Some i,
      ?f1\<lparr>fp_dyn_tbl := tbl', fp_dyn_tbl_data := (fp_dyn_tbl_data ?f1)
        (i := new_conn (bs_match b) ?hash p (bs_type b) (pdr_id pdr_b) i)\<rparr>)"
    by (rule conn_lookup_new) (use assms t again in simp_all)
  with one show ?thesis
    using assms by (simp add: upf_accel_fp_conns_lookup_def upt_rec new_conn_simps node_of_def)
qed

lemma slot_of_add: "slot_of h (Some k) = None \<Longrightarrow> i < length h \<Longrightarrow> slot_of (h[i := Some k]) (Some k) = Some i"
  by (auto simp: slot_of_def find_None_iff find_Some_iff in_set_conv_nth nth_list_update intro!: exI [of _ i])

lemma slot_of_bound: "slot_of h k = Some i \<Longrightarrow> i < length h"
  by (auto simp: slot_of_def find_Some_iff)

lemma list_hash_add_again: "add_again list_hash"
  by (auto simp: add_again_def list_hash_def slot_of_add slot_of_bound split: option.splits)

theorem both_directions_in_one_burst_witness:
  "\<exists>fp'. upf_accel_fp_conns_lookup list_env (list_fp [sample_pdr, dl_pdr] 2) UPF_ACCEL_PORT0 [ul_slot 1, dl_slot 1] =
        Some ([(ul_slot 1)\<lparr>bs_conn := Some 0\<rparr>, (dl_slot 1)\<lparr>bs_conn := Some 0\<rparr>], fp') \<and>
     dy_pdr_id (fp_dyn_tbl_data fp' 0) PARSER_PKT_TYPE_TUNNELED = 0"
proof -
  have "upf_accel_fp_pdr_lookup [sample_pdr, dl_pdr] PARSER_PKT_TYPE_TUNNELED (bs_match (ul_slot 1)) =
      Some (DOCA_SUCCESS, Some sample_pdr)"
    "upf_accel_fp_pdr_lookup [sample_pdr, dl_pdr] PARSER_PKT_TYPE_PLAIN (bs_match (dl_slot 1)) =
      Some (DOCA_SUCCESS, Some dl_pdr)"
    by code_simp+
  note pdrs = this
  have slots: "m8_inner (bs_match (ul_slot 1)) = flow_key 1" "m8_inner (bs_match (dl_slot 1)) = flow_key 1"
    "bs_type (ul_slot 1) = PARSER_PKT_TYPE_TUNNELED" "bs_type (dl_slot 1) = PARSER_PKT_TYPE_PLAIN"
    "\<not> bs_drop (ul_slot 1)" "\<not> bs_drop (dl_slot 1)"
    by (simp_all add: ul_slot_def dl_slot_def slot_for_def match_8t0_def)
  have hash: "add_again (env_dyn list_env)"
    "rte_hash_lookup_bulk (env_dyn list_env) (replicate 2 None) [flow_key 1, flow_key 1] = (0, \<lambda>_. - 2)"
    "rte_hash_add_key_with_hash (env_dyn list_env) (replicate 2 None) (flow_key 1)
       (rte_hash_hash (env_dyn list_env) (replicate 2 None) (flow_key 1)) = (0, [Some (flow_key 1), None])"
    by (simp_all add: list_env_def list_hash_add_again, simp_all add: list_hash_def slot_of_def numeral_2_eq_2)
  have fp: "fp_pdrs (list_fp [sample_pdr, dl_pdr] 2) = [sample_pdr, dl_pdr]"
    "fp_dyn_tbl (list_fp [sample_pdr, dl_pdr] 2) = replicate 2 None" "fp_dyn_tbl_size (list_fp [sample_pdr, dl_pdr] 2) = 2"
    by (simp_all add: list_fp_def)
  show ?thesis
    using both_directions_in_one_burst [of list_env "ul_slot 1" "dl_slot 1" "list_fp [sample_pdr, dl_pdr] 2"
        "\<lambda>_. - 2" sample_pdr dl_pdr 0 "[Some (flow_key 1), None]" UPF_ACCEL_PORT0]
    unfolding slots fp by (auto simp: hash pdrs slots)
qed

end
