(* ===== verification/Tlp_Config.thy ===== *)
theory Tlp_Config
  imports Doca_Prelude
begin

text \<open>
  The emulated PCI configuration space of
  \<open>samples/doca_devemu/devemu_pci_device_tlp_handler/dpu/devemu_pci_device_tlp_handler_dpu_sample.c\<close>:
  its registers, their initial values, and the handlers of configuration reads and writes.

  A C union of a double word and its fields is the double word; a field is read and written by
  position, least significant first, as on the little-endian hosts the code runs on.  The function
  being serviced (\<open>cur_func\<close>) is a reference into the state of all functions.
\<close>

unbundle bit_operations_syntax

section \<open>Fields of a double word\<close>

definition lo16 :: "u32 \<Rightarrow> u16" where "lo16 w = ucast w"
definition hi16 :: "u32 \<Rightarrow> u16" where "hi16 w = ucast (drop_bit 16 w)"

definition mk16 :: "u16 \<Rightarrow> u16 \<Rightarrow> u32" where "mk16 lo hi = ucast lo OR push_bit 16 (ucast hi)"

definition set_lo16 :: "u16 \<Rightarrow> u32 \<Rightarrow> u32" where "set_lo16 v w = mk16 v (hi16 w)"
definition set_hi16 :: "u16 \<Rightarrow> u32 \<Rightarrow> u32" where "set_hi16 v w = mk16 (lo16 w) v"

definition byte0 :: "u32 \<Rightarrow> u8" where "byte0 w = ucast w"
definition set_byte0 :: "u8 \<Rightarrow> u32 \<Rightarrow> u32" where "set_byte0 v w = (w AND 0xFFFFFF00) OR ucast v"

definition mk8 :: "u8 \<Rightarrow> u8 \<Rightarrow> u8 \<Rightarrow> u8 \<Rightarrow> u32" where
  "mk8 a b c d = ucast a OR push_bit 8 (ucast b) OR push_bit 16 (ucast c) OR push_bit 24 (ucast d)"

section \<open>Registers\<close>

record pci_config_space_header =
  ch_reg0 :: u32
  ch_reg1 :: u32
  ch_reg2 :: u32
  ch_reg3 :: u32
  ch_bar :: "nat \<Rightarrow> u32"
  ch_cardbus_cis_pointer :: u32
  ch_regB :: u32
  ch_expansion_rom_base_address :: u32
  ch_regD :: u32
  ch_reserved :: u32
  ch_regF :: u32

record pci_config_space_cap_express =
  ex_reg0 :: u32
  ex_cap_register :: u32
  ex_reg2 :: u32
  ex_link_cap :: u32
  ex_reg4 :: u32
  ex_slot_cap :: u32
  ex_reg6 :: u32
  ex_reg7 :: u32
  ex_root_status :: u32
  ex_dev_cap2 :: u32
  ex_regA :: u32
  ex_link_cap2 :: u32
  ex_regC :: u32
  ex_slot_cap2 :: u32
  ex_regE :: u32

record pci_config_space_cap_msix =
  mx_reg0 :: u32
  mx_reg1 :: u32
  mx_reg2 :: u32

record pci_config_space_cap_vpd =
  vp_reg0 :: u32
  vp_msg_addr :: u32

record pci_config_space_cap_pm =
  pm_reg0 :: u32
  pm_reg1 :: u32

record pci_config_space_ext_cap_aer =
  ae_reg0 :: u32
  ae_regs :: "nat \<Rightarrow> u32"

record pci_config_space_ext_cap_sriov =
  sr_reg0 :: u32
  sr_cap_register :: u32
  sr_reg2 :: u32
  sr_reg3 :: u32
  sr_reg4 :: u32
  sr_reg5 :: u32
  sr_reg6 :: u32
  sr_supported_page_sizes :: u32
  sr_system_page_size :: u32
  sr_vf_bar :: "nat \<Rightarrow> u32"

record pci_config_space_caps =
  cc_pm_cap :: pci_config_space_cap_pm
  cc_vpd_cap :: pci_config_space_cap_vpd
  cc_msix_cap :: pci_config_space_cap_msix
  cc_express_cap :: pci_config_space_cap_express

record pci_config_space_ext_caps =
  ce_aer_ext_cap :: pci_config_space_ext_cap_aer
  ce_sriov_ext_cap :: pci_config_space_ext_cap_sriov

record pci_config_space =
  cs_header :: pci_config_space_header
  cs_caps :: pci_config_space_caps
  cs_ext_caps :: pci_config_space_ext_caps

text \<open>The handler context.  The memory regions are the bytes they hold, \<^term>\<open>None\<close> for a NULL pointer.\<close>

record tlp_handler_cxt =
  hc_bus :: u8
  hc_device :: u8
  hc_function :: u8
  hc_bdf :: u16
  hc_requester_id :: u16
  hc_completer_id :: u16
  hc_req_fmt :: u8
  hc_req_type :: u8
  hc_cmpl_fmt :: u8
  hc_cmpl_type :: u8
  hc_cmpl_length :: u8
  hc_cmpl_status :: u8
  hc_tag9 :: "1 word"
  hc_tag8 :: "1 word"
  hc_tag :: u8
  hc_cfg_space_section :: "4 word"
  hc_capability_offset :: "12 word"
  hc_capability_id :: u16
  hc_first_dw_be :: u8
  hc_bar_region_size :: u64
  hc_exp_bar_size :: u32
  hc_transaction_region_memory :: "bytes option"
  hc_transaction_region_size :: u64
  hc_exp_bar_memory :: "bytes option"

datatype doca_pci_func_type = DOCA_PCI_FUNC_TYPE_PF | DOCA_PCI_FUNC_TYPE_VF

record devemu_pci_func =
  fn_func_type :: doca_pci_func_type
  fn_vf_index :: u16
  fn_pci_config_space :: pci_config_space
  fn_cxt :: tlp_handler_cxt

text \<open>A pointer to an emulated function.\<close>

datatype func_ref = Pf | Vf nat

record devemu_tlp_resources =
  rs_pf :: devemu_pci_func
  rs_vf :: "nat \<Rightarrow> devemu_pci_func"
  rs_total_vfs :: u16
  rs_cur_func :: func_ref
  rs_is_dsp_bdf_supported :: u8

fun func_at :: "devemu_tlp_resources \<Rightarrow> func_ref \<Rightarrow> devemu_pci_func" where
  "func_at r Pf = rs_pf r"
| "func_at r (Vf i) = rs_vf r i"

fun func_upd :: "func_ref \<Rightarrow> (devemu_pci_func \<Rightarrow> devemu_pci_func) \<Rightarrow> devemu_tlp_resources \<Rightarrow> devemu_tlp_resources" where
  "func_upd Pf g r = r\<lparr>rs_pf := g (rs_pf r)\<rparr>"
| "func_upd (Vf i) g r = r\<lparr>rs_vf := (rs_vf r)(i := g (rs_vf r i))\<rparr>"

abbreviation cur_func :: "devemu_tlp_resources \<Rightarrow> devemu_pci_func" where
  "cur_func r \<equiv> func_at r (rs_cur_func r)"

abbreviation cur_cs :: "devemu_tlp_resources \<Rightarrow> pci_config_space" where
  "cur_cs r \<equiv> fn_pci_config_space (cur_func r)"

abbreviation cur_cxt :: "devemu_tlp_resources \<Rightarrow> tlp_handler_cxt" where
  "cur_cxt r \<equiv> fn_cxt (cur_func r)"

definition cxt_upd :: "(tlp_handler_cxt \<Rightarrow> tlp_handler_cxt) \<Rightarrow> devemu_tlp_resources \<Rightarrow> devemu_tlp_resources" where
  "cxt_upd g r = func_upd (rs_cur_func r) (\<lambda>f. f\<lparr>fn_cxt := g (fn_cxt f)\<rparr>) r"

definition cs_upd :: "(pci_config_space \<Rightarrow> pci_config_space) \<Rightarrow> devemu_tlp_resources \<Rightarrow> devemu_tlp_resources" where
  "cs_upd g r = func_upd (rs_cur_func r) (\<lambda>f. f\<lparr>fn_pci_config_space := g (fn_pci_config_space f)\<rparr>) r"

definition header_upd :: "(pci_config_space_header \<Rightarrow> pci_config_space_header) \<Rightarrow> pci_config_space \<Rightarrow> pci_config_space" where
  "header_upd g cs = cs\<lparr>cs_header := g (cs_header cs)\<rparr>"

definition pm_upd :: "(pci_config_space_cap_pm \<Rightarrow> pci_config_space_cap_pm) \<Rightarrow> pci_config_space \<Rightarrow> pci_config_space" where
  "pm_upd g cs = cs\<lparr>cs_caps := (cs_caps cs)\<lparr>cc_pm_cap := g (cc_pm_cap (cs_caps cs))\<rparr>\<rparr>"

definition sriov_upd :: "(pci_config_space_ext_cap_sriov \<Rightarrow> pci_config_space_ext_cap_sriov) \<Rightarrow> pci_config_space \<Rightarrow> pci_config_space" where
  "sriov_upd g cs = cs\<lparr>cs_ext_caps := (cs_ext_caps cs)\<lparr>ce_sriov_ext_cap := g (ce_sriov_ext_cap (cs_ext_caps cs))\<rparr>\<rparr>"

section \<open>Initial values\<close>

text \<open>Layout of the emulated device (\<open>devemu_pci_type_config.h\<close>).\<close>

abbreviation (input) layout_log_size :: nat where "layout_log_size \<equiv> 14"
abbreviation (input) msix_table_start_address :: u64 where "msix_table_start_address \<equiv> 0x1000"
abbreviation (input) msix_pba_start_address :: u64 where "msix_pba_start_address \<equiv> 0x2000"
abbreviation (input) transaction_start_address :: u64 where "transaction_start_address \<equiv> 0x3000"
abbreviation (input) transaction_size :: u64 where "transaction_size \<equiv> 4096"

text \<open>\<open>BAR_ENCODING_MEM_SPACE | BAR_MEM_TYPE_64_BIT | BAR_MEM_PREFETCHABLE\<close>\<close>

abbreviation (input) BAR_FLAGS :: u32 where "BAR_FLAGS \<equiv> 0 OR 4 OR 8"

definition init_pci_config_space_header :: "pci_config_space_header \<Rightarrow> pci_config_space_header" where
  "init_pci_config_space_header h = h\<lparr>
     ch_reg0 := mk16 0x1af4 0x10f0,
     ch_reg1 := mk16 0x0000 0x0010,
     ch_reg2 := ucast (0 :: u8) OR push_bit 8 0x020000,
     ch_reg3 := mk8 0x10 0x00 0x00 0x00,
     ch_bar := (ch_bar h)(0 := 0x00000000 OR BAR_FLAGS, 1 := 0, 2 := 0, 3 := 0, 4 := 0, 5 := 0),
     ch_cardbus_cis_pointer := 0,
     ch_regB := mk16 0x1af4 0x10f0,
     ch_expansion_rom_base_address := 0x00000001,
     ch_regD := (ch_regD h AND 0xFFFFFF00) OR 0x60,
     ch_regF := mk8 0 0 0 0\<rparr>"

definition init_pci_config_space_caps :: "pci_config_space_caps \<Rightarrow> pci_config_space_caps" where
  "init_pci_config_space_caps c = c\<lparr>
     cc_express_cap := \<lparr>ex_reg0 = mk16 (ucast (0x10 :: u8) OR push_bit 8 (ucast (0x48 :: u8))) 0x0002,
       ex_cap_register = 0x112c8fe2, ex_reg2 = mk16 0x2950 0x0000, ex_link_cap = 0, ex_reg4 = mk16 0x0000 0x1104,
       ex_slot_cap = 0, ex_reg6 = mk16 0 0, ex_reg7 = mk16 0 0, ex_root_status = 0, ex_dev_cap2 = 0x00030397,
       ex_regA = mk16 0 0, ex_link_cap2 = 0x0180003e, ex_regC = mk16 0 0, ex_slot_cap2 = 0, ex_regE = mk16 0 0\<rparr>,
     cc_vpd_cap := \<lparr>vp_reg0 = mk16 (ucast (0x03 :: u8) OR push_bit 8 (ucast (0x9c :: u8))) 0x8000,
       vp_msg_addr = 0x78\<rparr>,
     cc_msix_cap := \<lparr>mx_reg0 = mk16 (ucast (0x11 :: u8) OR push_bit 8 (ucast (0x40 :: u8))) 0x0000,
       mx_reg1 = 0 OR push_bit 3 (ucast (drop_bit 3 msix_table_start_address)),
       mx_reg2 = 0 OR push_bit 3 (ucast (drop_bit 3 msix_pba_start_address))\<rparr>,
     cc_pm_cap := \<lparr>pm_reg0 = mk16 (ucast (0x01 :: u8) OR push_bit 8 (ucast (0x00 :: u8))) 0x81c3,
       pm_reg1 = mk16 0x0008 0x0000\<rparr>\<rparr>"

text \<open>An extended capability header: id, version (4 bits), next offset (12 bits).\<close>

definition ext_cap_header :: "u16 \<Rightarrow> u16 \<Rightarrow> u16 \<Rightarrow> u32" where
  "ext_cap_header cap_id version next_offset = mk16 cap_id ((version AND 0xf) OR push_bit 4 (next_offset AND 0xfff))"

definition init_pci_config_space_ext_caps :: "u16 \<Rightarrow> pci_config_space_ext_caps \<Rightarrow> pci_config_space_ext_caps" where
  "init_pci_config_space_ext_caps total_vfs e =
     (let e = e\<lparr>ce_aer_ext_cap := \<lparr>ae_reg0 = ext_cap_header 0x01 0x01 0x00,
                   ae_regs = (\<lambda>i. if i < 17 then 0 else ae_regs (ce_aer_ext_cap e) i)\<rparr>\<rparr>
      in if total_vfs = 0 then e
         else e\<lparr>ce_aer_ext_cap := (ce_aer_ext_cap e)\<lparr>ae_reg0 := ext_cap_header 0x01 0x01 0x148\<rparr>,
                ce_sriov_ext_cap := \<lparr>sr_reg0 = ext_cap_header 0x0010 0x01 0x00, sr_cap_register = 0,
                  sr_reg2 = mk16 0 0, sr_reg3 = mk16 total_vfs total_vfs, sr_reg4 = mk16 0 0,
                  sr_reg5 = mk16 1 1, sr_reg6 = mk16 0 0x10f1, sr_supported_page_sizes = 0x00000001,
                  sr_system_page_size = 0, sr_vf_bar = (\<lambda>_. 0)(0 := BAR_FLAGS, 1 := 0)\<rparr>\<rparr>)"

definition init_pci_config_space :: "u16 \<Rightarrow> pci_config_space \<Rightarrow> pci_config_space" where
  "init_pci_config_space total_vfs cs = cs\<lparr>
     cs_header := init_pci_config_space_header (cs_header cs),
     cs_caps := init_pci_config_space_caps (cs_caps cs),
     cs_ext_caps := init_pci_config_space_ext_caps total_vfs (cs_ext_caps cs)\<rparr>"

definition init_tlp_handler_cxt :: "tlp_handler_cxt \<Rightarrow> tlp_handler_cxt" where
  "init_tlp_handler_cxt c = c\<lparr>hc_bus := 0, hc_device := 0, hc_function := 0, hc_bdf := 0, hc_requester_id := 0,
     hc_completer_id := 0, hc_tag := 0, hc_tag8 := 0, hc_tag9 := 0, hc_req_fmt := 0, hc_req_type := 0,
     hc_cmpl_fmt := 0, hc_cmpl_type := 0x0A, hc_cmpl_length := 0, hc_cmpl_status := 0,
     hc_cfg_space_section := 0, hc_capability_offset := 0, hc_capability_id := 0, hc_first_dw_be := 0,
     hc_bar_region_size := push_bit layout_log_size 1, hc_exp_bar_size := 0,
     hc_transaction_region_memory := None, hc_transaction_region_size := 0\<rparr>"

section \<open>Configuration reads\<close>

definition config_space_ext_cap_aer_read :: "u32 \<Rightarrow> devemu_tlp_resources \<Rightarrow> u32" where
  "config_space_ext_cap_aer_read reg_num r =
     (let cap_offset = reg_num - 64 in
      if cap_offset = 0 then ae_reg0 (ce_aer_ext_cap (cs_ext_caps (cur_cs r))) else 0)"

definition config_space_ext_cap_sriov_read :: "u32 \<Rightarrow> devemu_tlp_resources \<Rightarrow> u32" where
  "config_space_ext_cap_sriov_read reg_num r =
     (let sriov = ce_sriov_ext_cap (cs_ext_caps (cur_cs r)); cap_offset = reg_num - 82 in
      if 9 \<le> cap_offset \<and> cap_offset < 9 + 6 then sr_vf_bar sriov (unat (cap_offset - 9))
      else if cap_offset = 0 then sr_reg0 sriov
      else if cap_offset = 1 then sr_cap_register sriov
      else if cap_offset = 2 then sr_reg2 sriov
      else if cap_offset = 3 then sr_reg3 sriov
      else if cap_offset = 4 then sr_reg4 sriov
      else if cap_offset = 5 then sr_reg5 sriov
      else if cap_offset = 6 then sr_reg6 sriov
      else if cap_offset = 7 then sr_supported_page_sizes sriov
      else if cap_offset = 8 then sr_system_page_size sriov
      else 0)"

definition config_space_cap_pm_read :: "u32 \<Rightarrow> devemu_tlp_resources \<Rightarrow> u32" where
  "config_space_cap_pm_read reg_num r =
     (let pm = cc_pm_cap (cs_caps (cur_cs r)); cap_offset = reg_num - 16 in
      if cap_offset = 0 then pm_reg0 pm else if cap_offset = 1 then pm_reg1 pm else 0)"

definition config_space_cap_msix_read :: "u32 \<Rightarrow> devemu_tlp_resources \<Rightarrow> u32" where
  "config_space_cap_msix_read reg_num r =
     (let mx = cc_msix_cap (cs_caps (cur_cs r)); cap_offset = reg_num - 39 in
      if cap_offset = 0 then mx_reg0 mx else if cap_offset = 1 then mx_reg1 mx
      else if cap_offset = 2 then mx_reg2 mx else 0)"

definition config_space_cap_vpd_read :: "u32 \<Rightarrow> devemu_tlp_resources \<Rightarrow> u32" where
  "config_space_cap_vpd_read reg_num r =
     (let vp = cc_vpd_cap (cs_caps (cur_cs r)); cap_offset = reg_num - 18 in
      if cap_offset = 0 then vp_reg0 vp else if cap_offset = 1 then vp_msg_addr vp else 0)"

definition config_space_cap_pcie_read :: "u32 \<Rightarrow> devemu_tlp_resources \<Rightarrow> u32" where
  "config_space_cap_pcie_read reg_num r =
     (let ec = cc_express_cap (cs_caps (cur_cs r)); cap_offset = reg_num - 24 in
      if cap_offset = 0 then ex_reg0 ec
      else if cap_offset = 1 then ex_cap_register ec
      else if cap_offset = 2 then ex_reg2 ec
      else if cap_offset = 3 then ex_link_cap ec
      else if cap_offset = 4 then ex_reg4 ec
      else if cap_offset = 5 then ex_slot_cap ec
      else if cap_offset = 6 then ex_reg6 ec
      else if cap_offset = 7 then ex_reg7 ec
      else if cap_offset = 8 then ex_root_status ec
      else if cap_offset = 9 then ex_dev_cap2 ec
      else if cap_offset = 10 then ex_regA ec
      else if cap_offset = 11 then ex_link_cap2 ec
      else if cap_offset = 12 then ex_regC ec
      else if cap_offset = 13 then ex_slot_cap2 ec
      else if cap_offset = 14 then ex_regE ec
      else 0)"

abbreviation cur_header :: "devemu_tlp_resources \<Rightarrow> pci_config_space_header" where
  "cur_header r \<equiv> cs_header (cur_cs r)"

definition config_space_header_read_reg0 :: "devemu_tlp_resources \<Rightarrow> u32" where
  "config_space_header_read_reg0 r = ch_reg0 (cur_header r)"

definition config_space_header_read_reg1 :: "devemu_tlp_resources \<Rightarrow> u32" where
  "config_space_header_read_reg1 r = ch_reg1 (cur_header r)"

definition config_space_header_read_reg2 :: "devemu_tlp_resources \<Rightarrow> u32" where
  "config_space_header_read_reg2 r = ch_reg2 (cur_header r)"

definition config_space_header_read_reg3 :: "devemu_tlp_resources \<Rightarrow> u32" where
  "config_space_header_read_reg3 r = ch_reg3 (cur_header r)"

definition config_space_header_read_bar :: "u32 \<Rightarrow> devemu_tlp_resources \<Rightarrow> u32" where
  "config_space_header_read_bar reg_num r = (let bar_id = reg_num - 4 in ch_bar (cur_header r) (unat bar_id))"

definition config_space_header_read_reg11 :: "devemu_tlp_resources \<Rightarrow> u32" where
  "config_space_header_read_reg11 r = ch_regB (cur_header r)"

definition config_space_header_read_reg12 :: "devemu_tlp_resources \<Rightarrow> u32" where
  "config_space_header_read_reg12 r = ch_expansion_rom_base_address (cur_header r)"

definition config_space_header_read_reg13 :: "devemu_tlp_resources \<Rightarrow> u32" where
  "config_space_header_read_reg13 r = ch_regD (cur_header r)"

definition config_space_header_read_reg15 :: u32 where
  "config_space_header_read_reg15 = 0"

text \<open>The assignment to the completion fields at the end of each handler.\<close>

definition set_cmpl :: "u8 \<Rightarrow> u8 \<Rightarrow> u8 \<Rightarrow> devemu_tlp_resources \<Rightarrow> devemu_tlp_resources" where
  "set_cmpl fmt len status = cxt_upd (\<lambda>c. c\<lparr>hc_cmpl_fmt := fmt, hc_cmpl_length := len, hc_cmpl_status := status\<rparr>)"

abbreviation (input) TLP_FMT_CPL_NODATA :: u8 where "TLP_FMT_CPL_NODATA \<equiv> 0"
abbreviation (input) TLP_FMT_CPL_W_DATA :: u8 where "TLP_FMT_CPL_W_DATA \<equiv> 2"
abbreviation (input) TLP_CPL_STATUS_SC :: u8 where "TLP_CPL_STATUS_SC \<equiv> 0"
abbreviation (input) TLP_CPL_STATUS_UR :: u8 where "TLP_CPL_STATUS_UR \<equiv> 1"

definition handle_config_space_header_read :: "u32 \<Rightarrow> devemu_tlp_resources \<Rightarrow> u32 \<times> devemu_tlp_resources" where
  "handle_config_space_header_read reg_num r =
     (let data =
        (if reg_num = 0x0 then config_space_header_read_reg0 r
         else if reg_num = 0x1 then config_space_header_read_reg1 r
         else if reg_num = 0x2 then config_space_header_read_reg2 r
         else if reg_num = 0x3 then config_space_header_read_reg3 r
         else if 0x4 \<le> reg_num \<and> reg_num \<le> 0x9 then config_space_header_read_bar reg_num r
         else if reg_num = 0xa then 0
         else if reg_num = 0xb then config_space_header_read_reg11 r
         else if reg_num = 0xc then config_space_header_read_reg12 r
         else if reg_num = 0xd then config_space_header_read_reg13 r
         else if reg_num = 0xe then 0
         else if reg_num = 0xf then config_space_header_read_reg15
         else 0)
      in (data, set_cmpl TLP_FMT_CPL_W_DATA 1 TLP_CPL_STATUS_SC r))"

text \<open>The capability handlers also fill \<open>*cap_id\<close>, here threaded through.\<close>

definition handle_config_space_caps_read ::
  "u32 \<Rightarrow> devemu_tlp_resources \<Rightarrow> u16 \<Rightarrow> u32 \<times> u16 \<times> devemu_tlp_resources" where
  "handle_config_space_caps_read reg_num r cap_id =
     (let (data, cap_id) =
        (if 24 \<le> reg_num \<and> reg_num \<le> 24 + 15 - 1 then (config_space_cap_pcie_read reg_num r, 0x10)
         else if 18 \<le> reg_num \<and> reg_num \<le> 18 + 2 - 1 then (config_space_cap_vpd_read reg_num r, 0x03)
         else if 39 \<le> reg_num \<and> reg_num \<le> 39 + 3 - 1 then (config_space_cap_msix_read reg_num r, 0x11)
         else if 16 \<le> reg_num \<and> reg_num \<le> 16 + 2 - 1 then (config_space_cap_pm_read reg_num r, 0x01)
         else (0, cap_id))
      in (data, cap_id, set_cmpl TLP_FMT_CPL_W_DATA 1 TLP_CPL_STATUS_SC r))"

definition handle_config_space_ext_caps_read ::
  "u32 \<Rightarrow> devemu_tlp_resources \<Rightarrow> u16 \<Rightarrow> u32 \<times> u16 \<times> devemu_tlp_resources" where
  "handle_config_space_ext_caps_read reg_num r cap_id =
     (let (data, cap_id) =
        (if 64 \<le> reg_num \<and> reg_num \<le> 64 + 18 - 1 then (config_space_ext_cap_aer_read reg_num r, 0x01)
         else if 82 \<le> reg_num \<and> reg_num \<le> 82 + 16 - 1
         then (if fn_func_type (cur_func r) = DOCA_PCI_FUNC_TYPE_PF
               then (config_space_ext_cap_sriov_read reg_num r, 0x0010) else (0, cap_id))
         else (0, cap_id))
      in (data, cap_id, set_cmpl TLP_FMT_CPL_W_DATA 1 TLP_CPL_STATUS_SC r))"

section \<open>Configuration writes\<close>

text \<open>\<open>if (mask & m) \<dots>\<close> with the data bit copied, for a field of one bit.\<close>

definition rw_bit :: "u16 \<Rightarrow> u16 \<Rightarrow> u16 \<Rightarrow> u16 \<Rightarrow> u16" where
  "rw_bit m data msk v =
     (if msk AND m \<noteq> 0 then (if data AND m \<noteq> 0 then v OR m else v AND NOT m) else v)"

text \<open>The same for a field of several bits.\<close>

definition rw_field :: "u16 \<Rightarrow> u16 \<Rightarrow> u16 \<Rightarrow> u16 \<Rightarrow> u16" where
  "rw_field m data msk v =
     (if msk AND m \<noteq> 0
      then (if data AND m \<noteq> 0 then (v AND NOT m) OR (data AND m) else v AND NOT m) else v)"

text \<open>A bit that a written 1 clears.\<close>

definition w1c_bit :: "u16 \<Rightarrow> u16 \<Rightarrow> u16 \<Rightarrow> u16 \<Rightarrow> u16" where
  "w1c_bit m data msk v = (if msk AND m \<noteq> 0 then (if data AND m \<noteq> 0 then v AND NOT m else v) else v)"

definition config_space_cap_pm_write ::
  "u32 \<Rightarrow> u32 \<Rightarrow> u32 \<Rightarrow> devemu_tlp_resources \<Rightarrow> devemu_tlp_resources" where
  "config_space_cap_pm_write reg_num data_in be_mask r =
     (let cap_offset = reg_num - 16 in
      if cap_offset \<noteq> 1 then r
      else let data = lo16 data_in; msk = lo16 be_mask;
               r = cs_upd (pm_upd (\<lambda>pm. pm\<lparr>pm_reg1 := set_lo16
                     (rw_bit 0x8000 data msk (rw_field 0x1e00 data msk (rw_bit 0x0100 data msk
                       (rw_field 0x0003 data msk (lo16 (pm_reg1 pm)))))) (pm_reg1 pm)\<rparr>)) r
           in cxt_upd (\<lambda>c. c\<lparr>hc_capability_offset := ucast cap_offset, hc_capability_id := 0x01\<rparr>) r)"

definition config_space_header_write_reg1 ::
  "u32 \<Rightarrow> u32 \<Rightarrow> devemu_tlp_resources \<Rightarrow> devemu_tlp_resources" where
  "config_space_header_write_reg1 data_in be_mask =
     cs_upd (header_upd (\<lambda>h.
       let command = (let d = lo16 data_in; m = lo16 be_mask in
             rw_bit 0x0400 d m (rw_bit 0x0100 d m (rw_bit 0x0040 d m (rw_bit 0x0004 d m
               (rw_bit 0x0002 d m (lo16 (ch_reg1 h)))))));
           status = (let d = hi16 data_in; m = hi16 be_mask in
             w1c_bit 0x8000 d m (w1c_bit 0x4000 d m (w1c_bit 0x2000 d m (w1c_bit 0x1000 d m
               (w1c_bit 0x0800 d m (w1c_bit 0x0100 d m (hi16 (ch_reg1 h))))))))
       in h\<lparr>ch_reg1 := mk16 command status\<rparr>))"

definition config_space_header_write_reg3 ::
  "u32 \<Rightarrow> u32 \<Rightarrow> devemu_tlp_resources \<Rightarrow> devemu_tlp_resources" where
  "config_space_header_write_reg3 data_in be_mask r =
     (if byte0 be_mask \<noteq> 0
      then cs_upd (header_upd (\<lambda>h. h\<lparr>ch_reg3 := set_byte0 (byte0 data_in AND byte0 be_mask) (ch_reg3 h)\<rparr>)) r
      else r)"

text \<open>The value a write gives a BAR of a 64-bit pair of the given size; \<open>upper\<close> for the upper half.\<close>

definition bar_value :: "bool \<Rightarrow> u64 \<Rightarrow> u32 \<Rightarrow> u32 \<Rightarrow> u32" where
  "bar_value upper region_size data_in be_mask =
     (if data_in AND be_mask = 0xFFFFFFFF
      then (if upper then ucast (drop_bit 32 (NOT (region_size - 1)) AND 0xFFFFFFFF)
            else ucast (NOT (region_size - 1) AND 0xFFFFFFFF))
      else data_in AND be_mask)"

definition config_space_header_write_bar ::
  "u32 \<Rightarrow> u32 \<Rightarrow> u32 \<Rightarrow> devemu_tlp_resources \<Rightarrow> devemu_tlp_resources" where
  "config_space_header_write_bar reg_num data_in be_mask r =
     (let region_size = hc_bar_region_size (cur_cxt r); bar_id = reg_num - 4 in
      if fn_func_type (cur_func r) = DOCA_PCI_FUNC_TYPE_VF then r
      else if bar_id > 1 then r
      else cs_upd (header_upd (\<lambda>h.
        let v = bar_value (reg_num AND 1 \<noteq> 0) region_size data_in be_mask;
            v = (if bar_id = 0 then (v AND 0xFFFFFFF0) OR BAR_FLAGS else v)
        in h\<lparr>ch_bar := (ch_bar h)(unat bar_id := v)\<rparr>)) r)"

definition config_space_header_write_reg12 ::
  "u32 \<Rightarrow> u32 \<Rightarrow> devemu_tlp_resources \<Rightarrow> devemu_tlp_resources" where
  "config_space_header_write_reg12 data_in be_mask r =
     (let exp_bar_size = hc_exp_bar_size (cur_cxt r);
          v = (if data_in AND be_mask AND 0xFFFFF800 = 0xFFFFF800
               then NOT (exp_bar_size - 1) AND 0xFFFFFFFF else data_in AND be_mask)
      in cs_upd (header_upd (\<lambda>h. h\<lparr>ch_expansion_rom_base_address := (v AND 0xFFFFF800) OR 0x00000001\<rparr>)) r)"

definition handle_config_space_header_write ::
  "u32 \<Rightarrow> u32 \<Rightarrow> u32 \<Rightarrow> devemu_tlp_resources \<Rightarrow> devemu_tlp_resources" where
  "handle_config_space_header_write reg_num data_in be_mask r =
     (let r = (if reg_num = 0x1 then config_space_header_write_reg1 data_in be_mask r
               else if reg_num = 0x3 then config_space_header_write_reg3 data_in be_mask r
               else if 0x4 \<le> reg_num \<and> reg_num \<le> 0x9 then config_space_header_write_bar reg_num data_in be_mask r
               else if reg_num = 0xC then config_space_header_write_reg12 data_in be_mask r
               else r)
      in set_cmpl TLP_FMT_CPL_NODATA 0 TLP_CPL_STATUS_SC r)"

definition handle_config_space_caps_write ::
  "u32 \<Rightarrow> u32 \<Rightarrow> u32 \<Rightarrow> devemu_tlp_resources \<Rightarrow> u16 \<Rightarrow> u16 \<times> devemu_tlp_resources" where
  "handle_config_space_caps_write reg_num data_in be_mask r cap_id =
     (let (cap_id, r) = (if 16 \<le> reg_num \<and> reg_num \<le> 16 + 2 - 1
                         then (0x01, config_space_cap_pm_write reg_num data_in be_mask r) else (cap_id, r))
      in (cap_id, set_cmpl TLP_FMT_CPL_NODATA 0 TLP_CPL_STATUS_SC r))"

definition config_space_ext_cap_sriov_write ::
  "u32 \<Rightarrow> u32 \<Rightarrow> u32 \<Rightarrow> devemu_tlp_resources \<Rightarrow> devemu_tlp_resources" where
  "config_space_ext_cap_sriov_write reg_num data_in be_mask =
     cs_upd (sriov_upd (\<lambda>s.
       let cap_offset = reg_num - 82 in
       if cap_offset = 2
       then let ctrl_mask = (ucast (be_mask AND (0x0001 OR 0x0008)) :: u16)
            in s\<lparr>sr_reg2 := set_lo16 ((lo16 (sr_reg2 s) AND NOT ctrl_mask) OR (ucast data_in AND ctrl_mask)) (sr_reg2 s)\<rparr>
       else if cap_offset = 4
       then if lo16 (sr_reg2 s) AND 0x0001 = 0
            then s\<lparr>sr_reg4 := set_lo16 (ucast ((ucast (lo16 (sr_reg4 s)) AND NOT be_mask) OR
                                         (ucast (ucast data_in :: u16) AND be_mask))) (sr_reg4 s)\<rparr>
            else s
       else if cap_offset = 8
       then s\<lparr>sr_system_page_size := (sr_system_page_size s AND NOT be_mask) OR (data_in AND be_mask)\<rparr>
       else if 9 \<le> cap_offset \<and> cap_offset \<le> 14
       then let bar_id = cap_offset - 9 in
            if bar_id > 1 then s
            else let v = bar_value (bar_id = 1) (push_bit layout_log_size 1) data_in be_mask;
                     v = (if bar_id = 0 then (v AND 0xFFFFFFF0) OR BAR_FLAGS else v)
                 in s\<lparr>sr_vf_bar := (sr_vf_bar s)(unat bar_id := v)\<rparr>
       else s))"

definition handle_config_space_ext_caps_write ::
  "u32 \<Rightarrow> u32 \<Rightarrow> u32 \<Rightarrow> devemu_tlp_resources \<Rightarrow> u16 \<Rightarrow> u16 \<times> devemu_tlp_resources" where
  "handle_config_space_ext_caps_write reg_num data_in be_mask r cap_id =
     (let (cap_id, r) =
        (if fn_func_type (cur_func r) = DOCA_PCI_FUNC_TYPE_PF \<and> 82 \<le> reg_num \<and> reg_num < 82 + 16
         then (0x0010, config_space_ext_cap_sriov_write reg_num data_in be_mask r) else (cap_id, r))
      in (cap_id, set_cmpl TLP_FMT_CPL_NODATA 0 TLP_CPL_STATUS_SC r))"

section \<open>Byte enables\<close>

definition map_first_dw_be_to_mask :: "u32 \<Rightarrow> u32 option" where
  "map_first_dw_be_to_mask first_dw_be =
     (let tbl = [0x00000000, 0x000000FF, 0x0000FF00, 0x0000FFFF, 0x00FF0000, 0x00FF00FF, 0x00FFFF00, 0x00FFFFFF,
                 0xFF000000, 0xFF0000FF, 0xFF00FF00, 0xFF00FFFF, 0xFFFF0000, 0xFFFF00FF, 0xFFFFFF00, 0xFFFFFFFF]
      in if first_dw_be < 16 then Some (tbl ! unat first_dw_be) else None)"

section \<open>Dispatch on the register number\<close>

text \<open>The switches of \<open>handle_tlp_req_read_type_0\<close> and \<open>handle_tlp_req_write_type_0\<close>: the data (of a read),
  \<open>cap_id\<close>, \<open>is_cap_id_valid\<close>, \<open>is_pcie_cap\<close> and the state; the three flags start as 0.\<close>

definition config_space_read ::
  "u32 \<Rightarrow> devemu_tlp_resources \<Rightarrow> u32 \<times> u16 \<times> bool \<times> bool \<times> devemu_tlp_resources" where
  "config_space_read ext_reg_num r =
     (if ext_reg_num \<le> 15
      then let (data, r) = handle_config_space_header_read ext_reg_num r in (data, 0, False, False, r)
      else if 16 \<le> ext_reg_num \<and> ext_reg_num \<le> 63
      then let (data, cap_id, r) = handle_config_space_caps_read ext_reg_num r 0 in (data, cap_id, True, False, r)
      else if 64 \<le> ext_reg_num \<and> ext_reg_num \<le> 1023
      then let (data, cap_id, r) = handle_config_space_ext_caps_read ext_reg_num r 0 in (data, cap_id, True, True, r)
      else (0, 0, False, False, r))"

text \<open>The test \<open>cap_id != 0\<close> of the extended space compares the pointer, which is never NULL here.\<close>

definition config_space_write ::
  "u32 \<Rightarrow> u32 \<Rightarrow> u32 \<Rightarrow> devemu_tlp_resources \<Rightarrow> u16 \<times> bool \<times> bool \<times> devemu_tlp_resources" where
  "config_space_write ext_reg_num data be_mask r =
     (if ext_reg_num \<le> 15
      then (0, False, False, handle_config_space_header_write ext_reg_num data be_mask r)
      else if 16 \<le> ext_reg_num \<and> ext_reg_num \<le> 63
      then let (cap_id, r) = handle_config_space_caps_write ext_reg_num data be_mask r 0 in (cap_id, True, False, r)
      else if 64 \<le> ext_reg_num \<and> ext_reg_num \<le> 1023
      then let (cap_id, r) = handle_config_space_ext_caps_write ext_reg_num data be_mask r 0 in (cap_id, True, True, r)
      else (0, False, False, r))"

section \<open>The initial state\<close>

text \<open>The zero-initialised state of the sample.\<close>

definition cxt0 :: tlp_handler_cxt where
  "cxt0 = \<lparr>hc_bus = 0, hc_device = 0, hc_function = 0, hc_bdf = 0, hc_requester_id = 0, hc_completer_id = 0,
     hc_req_fmt = 0, hc_req_type = 0, hc_cmpl_fmt = 0, hc_cmpl_type = 0, hc_cmpl_length = 0, hc_cmpl_status = 0,
     hc_tag9 = 0, hc_tag8 = 0, hc_tag = 0, hc_cfg_space_section = 0, hc_capability_offset = 0,
     hc_capability_id = 0, hc_first_dw_be = 0, hc_bar_region_size = 0, hc_exp_bar_size = 0,
     hc_transaction_region_memory = None, hc_transaction_region_size = 0, hc_exp_bar_memory = None\<rparr>"

definition config_space0 :: pci_config_space where
  "config_space0 = \<lparr>
     cs_header = \<lparr>ch_reg0 = 0, ch_reg1 = 0, ch_reg2 = 0, ch_reg3 = 0, ch_bar = (\<lambda>_. 0),
       ch_cardbus_cis_pointer = 0, ch_regB = 0, ch_expansion_rom_base_address = 0, ch_regD = 0,
       ch_reserved = 0, ch_regF = 0\<rparr>,
     cs_caps = \<lparr>cc_pm_cap = \<lparr>pm_reg0 = 0, pm_reg1 = 0\<rparr>, cc_vpd_cap = \<lparr>vp_reg0 = 0, vp_msg_addr = 0\<rparr>,
       cc_msix_cap = \<lparr>mx_reg0 = 0, mx_reg1 = 0, mx_reg2 = 0\<rparr>,
       cc_express_cap = \<lparr>ex_reg0 = 0, ex_cap_register = 0, ex_reg2 = 0, ex_link_cap = 0, ex_reg4 = 0,
         ex_slot_cap = 0, ex_reg6 = 0, ex_reg7 = 0, ex_root_status = 0, ex_dev_cap2 = 0, ex_regA = 0,
         ex_link_cap2 = 0, ex_regC = 0, ex_slot_cap2 = 0, ex_regE = 0\<rparr>\<rparr>,
     cs_ext_caps = \<lparr>ce_aer_ext_cap = \<lparr>ae_reg0 = 0, ae_regs = (\<lambda>_. 0)\<rparr>,
       ce_sriov_ext_cap = \<lparr>sr_reg0 = 0, sr_cap_register = 0, sr_reg2 = 0, sr_reg3 = 0, sr_reg4 = 0, sr_reg5 = 0,
         sr_reg6 = 0, sr_supported_page_sizes = 0, sr_system_page_size = 0, sr_vf_bar = (\<lambda>_. 0)\<rparr>\<rparr>\<rparr>"

definition func0 :: devemu_pci_func where
  "func0 = \<lparr>fn_func_type = DOCA_PCI_FUNC_TYPE_PF, fn_vf_index = 0, fn_pci_config_space = config_space0, fn_cxt = cxt0\<rparr>"

definition resources0 :: "u16 \<Rightarrow> u8 \<Rightarrow> devemu_tlp_resources" where
  "resources0 total_vfs dsp_bdf = \<lparr>rs_pf = func0, rs_vf = (\<lambda>_. func0), rs_total_vfs = total_vfs,
     rs_cur_func = Pf, rs_is_dsp_bdf_supported = dsp_bdf\<rparr>"

section \<open>Facts about fields\<close>

lemma bit_lo16 [bit_simps]: "bit (lo16 w) n \<longleftrightarrow> n < 16 \<and> bit w n"
  by (auto simp: lo16_def bit_simps)

lemma bit_hi16 [bit_simps]: "bit (hi16 w) n \<longleftrightarrow> n < 16 \<and> bit w (n + 16)"
  by (auto simp: hi16_def bit_simps add.commute)

lemma bit_mk16 [bit_simps]: "bit (mk16 a b) n \<longleftrightarrow> n < 16 \<and> bit a n \<or> 16 \<le> n \<and> bit b (n - 16)"
  using bit_imp_le_length [of a n] bit_imp_le_length [of b "n - 16"] by (auto simp: mk16_def bit_simps)

lemma mk16_simps [simp]: "lo16 (mk16 a b) = a" "hi16 (mk16 a b) = b" "mk16 (lo16 w) (hi16 w) = w"
  by (auto intro!: bit_word_eqI simp: bit_simps)

lemma set16_simps [simp]: "lo16 (set_lo16 v w) = v" "hi16 (set_lo16 v w) = hi16 w"
    "lo16 (set_hi16 v w) = lo16 w" "hi16 (set_hi16 v w) = v"
  by (simp_all add: set_lo16_def set_hi16_def)

text \<open>One-bit fields and fields of several bits.\<close>

lemma and_exp_eq_0: "(w :: 'a::len word) AND 2 ^ k = 0 \<longleftrightarrow> \<not> bit w k"
  by (simp add: bit_iff_and_push_bit_not_eq_0)

lemma bit_rw_bit:
  "m = 2 ^ k \<Longrightarrow> bit (rw_bit m data be v) n \<longleftrightarrow> (if n = k \<and> bit be k then bit data k else bit v n)"
  using bit_imp_le_length [of v n] bit_imp_le_length [of data k]
  by (auto simp: rw_bit_def and_exp_eq_0 bit_simps)

lemma bit_w1c_bit:
  "m = 2 ^ k \<Longrightarrow> bit (w1c_bit m data be v) n \<longleftrightarrow> bit v n \<and> \<not> (n = k \<and> bit be k \<and> bit data k)"
  using bit_imp_le_length [of v n]
  by (auto simp: w1c_bit_def and_exp_eq_0 bit_simps)

lemma bit_rw_field:
  assumes "\<And>i. bit m i \<Longrightarrow> bit be i = bit be k" and "bit m k"
  shows "bit (rw_field m data be v) n \<longleftrightarrow> (if bit m n \<and> bit be n then bit data n else bit v n)"
proof (cases "bit be k")
  case True
  then have "bit (be AND m) k" using assms(2) by (simp add: bit_simps)
  then have "be AND m \<noteq> 0" by auto
  moreover have "\<not> bit data n" if "data AND m = 0" "bit m n"
    using that by (metis bit_and_iff bit_0_eq bot_apply bot_bool_def)
  ultimately show ?thesis
    using assms(1) [of n] True bit_imp_le_length [of m n] bit_imp_le_length [of v n]
    by (auto simp: rw_field_def bit_simps)
next
  case False
  then have "be AND m = 0" using assms(1) by (auto intro!: bit_word_eqI simp: bit_simps)
  then show ?thesis using assms(1) [of n] False by (auto simp: rw_field_def)
qed

lemma be_mask_table:
  "\<forall>be \<in> set [0..<16]. \<forall>n \<in> set [0..<32].
     (case map_first_dw_be_to_mask (of_nat be) of None \<Rightarrow> False | Some m \<Rightarrow> bit m n = bit be (n div 8))"
  by code_simp

lemma be_mask_bits:
  assumes "map_first_dw_be_to_mask be = Some m"
  shows "bit m n \<longleftrightarrow> n < 32 \<and> bit be (n div 8)"
proof (cases "n < 32")
  case True
  have "be < 16" using assms by (auto simp: map_first_dw_be_to_mask_def Let_def split: if_splits)
  then have "unat be < 16" by (simp add: word_less_nat_alt)
  with True have "bit m n = bit (unat be) (n div 8)"
    using be_mask_table [rule_format, of "unat be" n] assms by simp
  with True show ?thesis by (simp add: bit_unsigned_iff)
next
  case False
  then show ?thesis using bit_imp_le_length [of m n] by auto
qed

section \<open>Reading and writing registers\<close>

lemma func_at_upd [simp]: "func_at (func_upd a g r) b = (if a = b then g (func_at r a) else func_at r b)"
  by (cases a; cases b) auto

lemma func_upd_fields [simp]:
  "rs_cur_func (func_upd a g r) = rs_cur_func r" "rs_total_vfs (func_upd a g r) = rs_total_vfs r"
  "rs_is_dsp_bdf_supported (func_upd a g r) = rs_is_dsp_bdf_supported r"
  by (cases a; simp)+

text \<open>What each operation on the current function leaves alone.\<close>

lemma cxt_upd_simps [simp]:
  "rs_cur_func (cxt_upd g r) = rs_cur_func r" "rs_total_vfs (cxt_upd g r) = rs_total_vfs r"
  "fn_pci_config_space (func_at (cxt_upd g r) a) = fn_pci_config_space (func_at r a)"
  "fn_func_type (func_at (cxt_upd g r) a) = fn_func_type (func_at r a)"
  "fn_vf_index (func_at (cxt_upd g r) a) = fn_vf_index (func_at r a)"
  "fn_cxt (func_at (cxt_upd g r) a) = (if a = rs_cur_func r then g (fn_cxt (func_at r a)) else fn_cxt (func_at r a))"
  by (simp_all add: cxt_upd_def)

lemma cs_upd_simps [simp]:
  "rs_cur_func (cs_upd g r) = rs_cur_func r" "rs_total_vfs (cs_upd g r) = rs_total_vfs r"
  "fn_cxt (func_at (cs_upd g r) a) = fn_cxt (func_at r a)"
  "fn_func_type (func_at (cs_upd g r) a) = fn_func_type (func_at r a)"
  "fn_vf_index (func_at (cs_upd g r) a) = fn_vf_index (func_at r a)"
  "fn_pci_config_space (func_at (cs_upd g r) a) =
     (if a = rs_cur_func r then g (fn_pci_config_space (func_at r a)) else fn_pci_config_space (func_at r a))"
  by (simp_all add: cs_upd_def)

lemma set_cmpl_simps [simp]:
  "rs_cur_func (set_cmpl a b c r) = rs_cur_func r" "rs_total_vfs (set_cmpl a b c r) = rs_total_vfs r"
  "fn_pci_config_space (func_at (set_cmpl a b c r) f) = fn_pci_config_space (func_at r f)"
  "fn_func_type (func_at (set_cmpl a b c r) f) = fn_func_type (func_at r f)"
  "fn_vf_index (func_at (set_cmpl a b c r) f) = fn_vf_index (func_at r f)"
  by (simp_all add: set_cmpl_def)

text \<open>The value of a register of the current function, and the state after a write to one.\<close>

definition reg_value :: "u32 \<Rightarrow> devemu_tlp_resources \<Rightarrow> u32" where
  "reg_value reg r = fst (config_space_read reg r)"

definition reg_written :: "u32 \<Rightarrow> u32 \<Rightarrow> u32 \<Rightarrow> devemu_tlp_resources \<Rightarrow> devemu_tlp_resources" where
  "reg_written reg data be_mask r = snd (snd (snd (config_space_write reg data be_mask r)))"

lemmas reg_read_defs = config_space_read_def handle_config_space_header_read_def handle_config_space_caps_read_def
  handle_config_space_ext_caps_read_def config_space_ext_cap_aer_read_def config_space_ext_cap_sriov_read_def
  config_space_cap_pm_read_def config_space_cap_msix_read_def config_space_cap_vpd_read_def
  config_space_cap_pcie_read_def config_space_header_read_reg0_def config_space_header_read_reg1_def
  config_space_header_read_reg2_def config_space_header_read_reg3_def config_space_header_read_bar_def
  config_space_header_read_reg11_def config_space_header_read_reg12_def config_space_header_read_reg13_def
  config_space_header_read_reg15_def

text \<open>Register values as a function of the configuration space.\<close>

definition cs_value :: "doca_pci_func_type \<Rightarrow> pci_config_space \<Rightarrow> u32 \<Rightarrow> u32" where
  "cs_value ty cs x =
     (let h = cs_header cs; c = cs_caps cs; s = ce_sriov_ext_cap (cs_ext_caps cs); e = cc_express_cap c in
      if x \<le> 15 then
        (if x = 0 then ch_reg0 h else if x = 1 then ch_reg1 h else if x = 2 then ch_reg2 h
         else if x = 3 then ch_reg3 h else if 4 \<le> x \<and> x \<le> 9 then ch_bar h (unat (x - 4))
         else if x = 11 then ch_regB h else if x = 12 then ch_expansion_rom_base_address h
         else if x = 13 then ch_regD h else 0)
      else if x = 16 then pm_reg0 (cc_pm_cap c) else if x = 17 then pm_reg1 (cc_pm_cap c)
      else if x = 18 then vp_reg0 (cc_vpd_cap c) else if x = 19 then vp_msg_addr (cc_vpd_cap c)
      else if x = 24 then ex_reg0 e else if x = 25 then ex_cap_register e else if x = 26 then ex_reg2 e
      else if x = 27 then ex_link_cap e else if x = 28 then ex_reg4 e else if x = 29 then ex_slot_cap e
      else if x = 30 then ex_reg6 e else if x = 31 then ex_reg7 e else if x = 32 then ex_root_status e
      else if x = 33 then ex_dev_cap2 e else if x = 34 then ex_regA e else if x = 35 then ex_link_cap2 e
      else if x = 36 then ex_regC e else if x = 37 then ex_slot_cap2 e else if x = 38 then ex_regE e
      else if x = 39 then mx_reg0 (cc_msix_cap c) else if x = 40 then mx_reg1 (cc_msix_cap c)
      else if x = 41 then mx_reg2 (cc_msix_cap c)
      else if x = 64 then ae_reg0 (ce_aer_ext_cap (cs_ext_caps cs))
      else if ty = DOCA_PCI_FUNC_TYPE_PF \<and> 82 \<le> x \<and> x \<le> 97 then
        (if x = 82 then sr_reg0 s else if x = 83 then sr_cap_register s else if x = 84 then sr_reg2 s
         else if x = 85 then sr_reg3 s else if x = 86 then sr_reg4 s else if x = 87 then sr_reg5 s
         else if x = 88 then sr_reg6 s else if x = 89 then sr_supported_page_sizes s
         else if x = 90 then sr_system_page_size s
         else if 91 \<le> x \<and> x \<le> 96 then sr_vf_bar s (unat (x - 91)) else 0)
      else 0)"

lemma reg_value_eq: "reg_value x r = cs_value (fn_func_type (cur_func r)) (cur_cs r) x"
proof (cases "x \<le> 97")
  case False
  then have "\<not> x \<le> 15" "\<not> x \<le> 41" "\<not> x \<le> 63" "\<not> x \<le> 81" "\<not> x \<le> 39" "\<not> x \<le> 38" "\<not> x \<le> 19" "\<not> x \<le> 17"
    by (auto simp: not_le elim: less_trans [rotated])
  with False show ?thesis
    by (auto simp: reg_value_def reg_read_defs cs_value_def Let_def)
next
  case True
  then have "unat x \<in> set [0..<98]" by (simp add: word_le_nat_alt)
  then have "(word_of_nat (unat x) :: u32) \<in> word_of_nat ` set [0..<98]" by (rule imageI)
  then have "x \<in> set (map word_of_nat [0..<98])" by (simp del: upt_rec)
  then show ?thesis
    by (simp add: upt_rec, elim disjE)
      (simp_all add: reg_value_def reg_read_defs cs_value_def Let_def word_le_nat_alt [of 9 1])
qed

lemma unat_index_1: "unat (x - c :: u32) = Suc 0 \<longleftrightarrow> x = 1 + c"
proof -
  have "unat (x - c) = Suc 0 \<longleftrightarrow> x - c = 1" using word_unat_eq_iff [of "x - c" 1] by simp
  then show ?thesis by (simp add: diff_eq_eq)
qed

lemma unat_index_0: "unat (x - c :: u32) = 0 \<longleftrightarrow> x = c"
  by (simp add: unat_eq_0)

lemma cs_value_updates:
  "cs_value ty (header_upd (\<lambda>h. h\<lparr>ch_reg1 := f h\<rparr>) cs) x = (if x = 1 then f (cs_header cs) else cs_value ty cs x)"
  "cs_value ty (header_upd (\<lambda>h. h\<lparr>ch_reg3 := f h\<rparr>) cs) x = (if x = 3 then f (cs_header cs) else cs_value ty cs x)"
  "cs_value ty (header_upd (\<lambda>h. h\<lparr>ch_bar := (ch_bar h)(0 := f h)\<rparr>) cs) x =
     (if x = 4 then f (cs_header cs) else cs_value ty cs x)"
  "cs_value ty (header_upd (\<lambda>h. h\<lparr>ch_bar := (ch_bar h)(Suc 0 := f h)\<rparr>) cs) x =
     (if x = 5 then f (cs_header cs) else cs_value ty cs x)"
  "cs_value ty (header_upd (\<lambda>h. h\<lparr>ch_expansion_rom_base_address := f h\<rparr>) cs) x =
     (if x = 12 then f (cs_header cs) else cs_value ty cs x)"
  "cs_value ty (pm_upd (\<lambda>p. p\<lparr>pm_reg1 := g p\<rparr>) cs) x =
     (if x = 17 then g (cc_pm_cap (cs_caps cs)) else cs_value ty cs x)"
  by (auto simp: cs_value_def header_upd_def pm_upd_def Let_def unat_index_0 unat_index_1)

lemma cs_value_sriov_updates:
  "cs_value DOCA_PCI_FUNC_TYPE_PF (sriov_upd (\<lambda>s. s\<lparr>sr_reg2 := f s\<rparr>) cs) x =
     (if x = 84 then f (ce_sriov_ext_cap (cs_ext_caps cs)) else cs_value DOCA_PCI_FUNC_TYPE_PF cs x)"
  "cs_value DOCA_PCI_FUNC_TYPE_PF (sriov_upd (\<lambda>s. s\<lparr>sr_reg4 := f s\<rparr>) cs) x =
     (if x = 86 then f (ce_sriov_ext_cap (cs_ext_caps cs)) else cs_value DOCA_PCI_FUNC_TYPE_PF cs x)"
  "cs_value DOCA_PCI_FUNC_TYPE_PF (sriov_upd (\<lambda>s. s\<lparr>sr_system_page_size := f s\<rparr>) cs) x =
     (if x = 90 then f (ce_sriov_ext_cap (cs_ext_caps cs)) else cs_value DOCA_PCI_FUNC_TYPE_PF cs x)"
  "cs_value DOCA_PCI_FUNC_TYPE_PF (sriov_upd (\<lambda>s. s\<lparr>sr_vf_bar := (sr_vf_bar s)(0 := f s)\<rparr>) cs) x =
     (if x = 91 then f (ce_sriov_ext_cap (cs_ext_caps cs)) else cs_value DOCA_PCI_FUNC_TYPE_PF cs x)"
  "cs_value DOCA_PCI_FUNC_TYPE_PF (sriov_upd (\<lambda>s. s\<lparr>sr_vf_bar := (sr_vf_bar s)(Suc 0 := f s)\<rparr>) cs) x =
     (if x = 92 then f (ce_sriov_ext_cap (cs_ext_caps cs)) else cs_value DOCA_PCI_FUNC_TYPE_PF cs x)"
  by (auto simp: cs_value_def sriov_upd_def Let_def unat_index_0 unat_index_1)

abbreviation cs_at :: "devemu_tlp_resources \<Rightarrow> func_ref \<Rightarrow> pci_config_space" where
  "cs_at r f \<equiv> fn_pci_config_space (func_at r f)"

text \<open>The registers a write can change.\<close>

abbreviation writable :: "u32 set" where "writable \<equiv> {1, 3, 4, 5, 12, 17, 84, 86, 90, 91, 92}"

text \<open>What the writes leave alone.\<close>

definition same_but_cs :: "devemu_tlp_resources \<Rightarrow> devemu_tlp_resources \<Rightarrow> bool" where
  "same_but_cs r r' \<longleftrightarrow> rs_cur_func r' = rs_cur_func r \<and> rs_total_vfs r' = rs_total_vfs r \<and>
     (\<forall>f. fn_func_type (func_at r' f) = fn_func_type (func_at r f) \<and>
          fn_vf_index (func_at r' f) = fn_vf_index (func_at r f) \<and>
          (f \<noteq> rs_cur_func r \<longrightarrow> func_at r' f = func_at r f))"

lemma same_but_cs_refl [simp]: "same_but_cs r r"
  by (simp add: same_but_cs_def)

lemma same_but_cs_upd [simp]:
  "same_but_cs r (cs_upd g r') = same_but_cs r r'" "same_but_cs r (cxt_upd h r') = same_but_cs r r'"
  "same_but_cs r (set_cmpl a b c r') = same_but_cs r r'"
  unfolding set_cmpl_def by (auto simp: same_but_cs_def cs_upd_def cxt_upd_def)

lemma write_same_but_cs [simp]:
  "same_but_cs r (config_space_header_write_reg1 d m r)" "same_but_cs r (config_space_header_write_reg3 d m r)"
  "same_but_cs r (config_space_header_write_bar x d m r)" "same_but_cs r (config_space_header_write_reg12 d m r)"
  "same_but_cs r (config_space_cap_pm_write x d m r)" "same_but_cs r (config_space_ext_cap_sriov_write x d m r)"
  by (simp_all add: config_space_header_write_reg1_def config_space_header_write_reg3_def
      config_space_header_write_bar_def config_space_header_write_reg12_def config_space_cap_pm_write_def
      config_space_ext_cap_sriov_write_def Let_def)

lemma reg_written_same: "same_but_cs r (reg_written x d m r)"
  by (simp add: reg_written_def config_space_write_def handle_config_space_header_write_def
      handle_config_space_caps_write_def handle_config_space_ext_caps_write_def Let_def)

lemma reg_written_frame [simp]:
  "rs_cur_func (reg_written x d m r) = rs_cur_func r"
  "fn_func_type (func_at (reg_written x d m r) f) = fn_func_type (func_at r f)"
  using reg_written_same [of r x d m] by (simp_all add: same_but_cs_def)

lemma word_gt_1: "(1 :: u32) < w \<longleftrightarrow> w \<noteq> 0 \<and> w \<noteq> 1"
proof -
  have "unat w = 0 \<longleftrightarrow> w = 0" "unat w = 1 \<longleftrightarrow> w = 1"
    using word_unat_eq_iff [of w 0] word_unat_eq_iff [of w 1] by simp_all
  then show ?thesis by (auto simp: word_less_nat_alt)
qed

lemma index_gt_1: "(1 :: u32) < x - c \<longleftrightarrow> x \<noteq> c \<and> x \<noteq> 1 + c"
  by (simp add: word_gt_1 diff_eq_eq)

lemma write_bar_noop: "x \<noteq> 4 \<Longrightarrow> x \<noteq> 5 \<Longrightarrow> config_space_header_write_bar x d m r = r"
  by (simp add: config_space_header_write_bar_def index_gt_1 Let_def)

lemma pm_write_noop: "x \<noteq> 17 \<Longrightarrow> config_space_cap_pm_write x d m r = r"
  by (simp add: config_space_cap_pm_write_def Let_def diff_eq_eq)

lemma sriov_write_noop:
  "x \<notin> {84, 86, 90, 91, 92} \<Longrightarrow>
   cs_at (config_space_ext_cap_sriov_write x d m r) (rs_cur_func r) = cur_cs r"
  by (simp add: config_space_ext_cap_sriov_write_def Let_def sriov_upd_def diff_eq_eq index_gt_1)

lemma reg_written_noop:
  assumes "x \<notin> writable"
  shows "cs_at (reg_written x d m r) (rs_cur_func r) = cur_cs r"
  using assms
  by (auto simp: reg_written_def config_space_write_def handle_config_space_header_write_def
        handle_config_space_caps_write_def handle_config_space_ext_caps_write_def Let_def write_bar_noop
        pm_write_noop sriov_write_noop)

lemma same_but_cs_cur: "same_but_cs r r' \<Longrightarrow> rs_cur_func r' = rs_cur_func r"
  by (simp add: same_but_cs_def)

lemmas write_cur_func [simp] = write_same_but_cs [THEN same_but_cs_cur]

text \<open>The configuration space after a write to each writable register.\<close>

lemma reg_written_cs:
  "cs_at (reg_written 1 d m r) (rs_cur_func r) = cs_at (config_space_header_write_reg1 d m r) (rs_cur_func r)"
  "cs_at (reg_written 3 d m r) (rs_cur_func r) = cs_at (config_space_header_write_reg3 d m r) (rs_cur_func r)"
  "cs_at (reg_written 4 d m r) (rs_cur_func r) = cs_at (config_space_header_write_bar 4 d m r) (rs_cur_func r)"
  "cs_at (reg_written 5 d m r) (rs_cur_func r) = cs_at (config_space_header_write_bar 5 d m r) (rs_cur_func r)"
  "cs_at (reg_written 12 d m r) (rs_cur_func r) = cs_at (config_space_header_write_reg12 d m r) (rs_cur_func r)"
  "cs_at (reg_written 17 d m r) (rs_cur_func r) = cs_at (config_space_cap_pm_write 17 d m r) (rs_cur_func r)"
  by (simp_all add: reg_written_def config_space_write_def handle_config_space_header_write_def
        handle_config_space_caps_write_def Let_def)

lemma reg_written_sriov_cs:
  assumes "82 \<le> x" "x < 98" "\<not> x \<le> 63"
  shows "cs_at (reg_written x d m r) (rs_cur_func r) =
     (if fn_func_type (cur_func r) = DOCA_PCI_FUNC_TYPE_PF
      then cs_at (config_space_ext_cap_sriov_write x d m r) (rs_cur_func r) else cur_cs r)"
proof -
  have "\<not> x \<le> 15" "64 \<le> x" "x \<le> 1023" using assms by (simp_all add: word_less_nat_alt word_le_nat_alt)
  with assms show ?thesis
    by (simp add: reg_written_def config_space_write_def handle_config_space_ext_caps_write_def Let_def)
qed

text \<open>The bits of a register that a write sets to the data, and those a written 1 clears.  \<open>vf_enable\<close> is the VF
  Enable bit of the SR-IOV capability, which locks \<open>NumVFs\<close>.\<close>

definition rw_bits :: "doca_pci_func_type \<Rightarrow> bool \<Rightarrow> u32 \<Rightarrow> nat set" where
  "rw_bits ty vf_enable x =
     (if x = 1 then {1, 2, 6, 8, 10}
      else if x = 3 then {0..<8}
      else if x = 17 then {0, 1, 8, 9, 10, 11, 12, 15}
      else if ty = DOCA_PCI_FUNC_TYPE_PF \<and> x = 84 then {0, 3}
      else if ty = DOCA_PCI_FUNC_TYPE_PF \<and> x = 86 \<and> \<not> vf_enable then {0..<16}
      else if ty = DOCA_PCI_FUNC_TYPE_PF \<and> x = 90 then {0..<32}
      else {})"

definition w1c_bits :: "u32 \<Rightarrow> nat set" where
  "w1c_bits x = (if x = 1 then {24, 27, 28, 29, 30, 31} else {})"

lemma bit_set_lo16: "bit (set_lo16 v w) n \<longleftrightarrow> (if n < 16 then bit v n else bit w n)"
  using bit_imp_le_length [of w n] by (auto simp: set_lo16_def bit_simps)

lemma bit_rw_fold:
  "bit (fold (\<lambda>k. rw_bit (2 ^ k) d m) ks v) n \<longleftrightarrow> (if n \<in> set ks \<and> bit m n then bit d n else bit v n)"
  by (induction ks arbitrary: v) (auto simp: bit_rw_bit)

lemma bit_w1c_fold:
  "bit (fold (\<lambda>k. w1c_bit (2 ^ k) d m) ks v) n \<longleftrightarrow> bit v n \<and> \<not> (n \<in> set ks \<and> bit m n \<and> bit d n)"
  by (induction ks arbitrary: v) (auto simp: bit_w1c_bit)

lemma reg1_bits:
  "bit (reg_value 1 (reg_written 1 d m r)) n \<longleftrightarrow>
     (if n \<in> rw_bits ty e 1 \<and> bit m n then bit d n
      else bit (reg_value 1 r) n \<and> \<not> (n \<in> w1c_bits 1 \<and> bit m n \<and> bit d n))"
proof -
  have v: "reg_value 1 (reg_written 1 d m r) =
     mk16 (fold (\<lambda>k. rw_bit (2 ^ k) (lo16 d) (lo16 m)) [1, 2, 6, 8, 10] (lo16 (reg_value 1 r)))
      (fold (\<lambda>k. w1c_bit (2 ^ k) (hi16 d) (hi16 m)) [8, 11, 12, 13, 14, 15] (hi16 (reg_value 1 r)))"
    by (simp add: reg_value_eq reg_written_cs config_space_header_write_reg1_def Let_def cs_value_updates)
      (simp add: cs_value_def)
  show ?thesis
  proof (cases "n < 16")
    case True
    then show ?thesis
      unfolding v bit_mk16 bit_rw_fold by (auto simp: bit_lo16 rw_bits_def w1c_bits_def)
  next
    case False
    then obtain k where n: "n = k + 16" by (metis add.commute le_iff_add not_le)
    show ?thesis
      unfolding v n bit_mk16 bit_w1c_fold
      by (auto simp: bit_hi16 rw_bits_def w1c_bits_def dest: bit_imp_le_length)
  qed
qed


lemma byte_uniform:
  "map_first_dw_be_to_mask be = Some m \<Longrightarrow> i div 8 = j div 8 \<Longrightarrow> i < 32 \<Longrightarrow> j < 32 \<Longrightarrow> bit m i = bit m j"
  by (simp add: be_mask_bits)

lemma reg3_bits:
  assumes "map_first_dw_be_to_mask be = Some m"
  shows "bit (reg_value 3 (reg_written 3 d m r)) n \<longleftrightarrow>
     (if n \<in> rw_bits ty e 3 \<and> bit m n then bit d n else bit (reg_value 3 r) n)"
proof -
  have v: "reg_value 3 (reg_written 3 d m r) =
      (if byte0 m \<noteq> 0 then set_byte0 (byte0 d AND byte0 m) (reg_value 3 r) else reg_value 3 r)"
    by (simp add: reg_value_eq reg_written_cs config_space_header_write_reg3_def cs_value_updates)
      (simp add: cs_value_def)
  have b: "bit (byte0 w) i \<longleftrightarrow> i < 8 \<and> bit w i" for w i by (auto simp: byte0_def bit_simps)
  have z: "byte0 m \<noteq> 0 \<longleftrightarrow> bit m 0"
    proof
    assume "byte0 m \<noteq> 0"
    then obtain i where "bit (byte0 m) i" by (auto simp: bit_eq_iff)
    then show "bit m 0" using byte_uniform [OF assms, of i 0] by (simp add: b)
  next
    assume "bit m 0"
    then have "bit (byte0 m) 0" by (simp add: b)
    then show "byte0 m \<noteq> 0" by auto
  qed
  have ff: "bit (0xFFFFFF00 :: u32) n \<longleftrightarrow> 8 \<le> n \<and> n < 32"
  proof -
    have e: "(0xFFFFFF00 :: u32) = NOT (mask 8)" by (simp add: mask_eq_exp_minus_1)
    show ?thesis unfolding e bit_not_iff bit_mask_iff by auto
  qed
  show ?thesis
  proof (cases "bit m 0")
    case True
    then have "n < 8 \<Longrightarrow> bit m n" using byte_uniform [OF assms, of n 0] by simp
    then show ?thesis using True z bit_imp_le_length [of "reg_value 3 r" n]
      unfolding v by (auto simp: set_byte0_def bit_simps b ff rw_bits_def simp del: bit_numeral_word_iff)
  next
    case False
    then have "n < 8 \<Longrightarrow> \<not> bit m n" using byte_uniform [OF assms, of n 0] by simp
    then show ?thesis using False z unfolding v by (auto simp: rw_bits_def)
  qed
qed

lemma pm_value: "reg_value 17 (reg_written 17 d m r) = set_lo16
     (rw_bit 0x8000 (lo16 d) (lo16 m) (rw_field 0x1e00 (lo16 d) (lo16 m) (rw_bit 0x0100 (lo16 d) (lo16 m)
        (rw_field 0x0003 (lo16 d) (lo16 m) (lo16 (reg_value 17 r)))))) (reg_value 17 r)"
    by (simp add: reg_value_eq reg_written_cs config_space_cap_pm_write_def Let_def cs_value_updates)
      (simp add: cs_value_def)

text \<open>The fields of the power-management control register.\<close>

lemma pm_field_bits: "bit (3 :: u16) i \<longleftrightarrow> i < 2" "bit (0x1e00 :: u16) i \<longleftrightarrow> 9 \<le> i \<and> i < 13"
proof -
  have e: "(3 :: u16) = mask 2" "(0x1e00 :: u16) = push_bit 9 (mask 4)" by (simp_all add: mask_eq_exp_minus_1)
  show "bit (3 :: u16) i \<longleftrightarrow> i < 2" unfolding e bit_mask_iff by auto
  show "bit (0x1e00 :: u16) i \<longleftrightarrow> 9 \<le> i \<and> i < 13" unfolding e bit_push_bit_iff bit_mask_iff by auto
qed

lemma rw_field_bits:
  assumes "map_first_dw_be_to_mask be = Some m" and "\<And>i. bit f i \<Longrightarrow> i div 8 = k div 8 \<and> i < 16" and "bit f k"
  shows "bit (rw_field f d (lo16 m) v) n \<longleftrightarrow> (if bit f n \<and> bit (lo16 m) n then bit d n else bit v n)"
proof (rule bit_rw_field [OF _ assms(3)])
  fix i assume "bit f i"
  then show "bit (lo16 m) i = bit (lo16 m) k"
    using byte_uniform [OF assms(1), of i k] assms(2) [of i] assms(2) [OF assms(3)] by (simp add: bit_lo16)
qed

lemma pm_bits:
  assumes "map_first_dw_be_to_mask be = Some m"
  shows "bit (reg_value 17 (reg_written 17 d m r)) n \<longleftrightarrow>
     (if n \<in> rw_bits ty e 17 \<and> bit m n then bit d n else bit (reg_value 17 r) n)"
proof -
  have a: "bit (rw_field 0x1e00 (lo16 d) (lo16 m) w) n =
      (if 9 \<le> n \<and> n < 13 \<and> bit (lo16 m) n then bit (lo16 d) n else bit w n)" for w
    using rw_field_bits [OF assms, of "0x1e00" 9 "lo16 d" w n] unfolding pm_field_bits by (auto simp: div_nat_eqI)
  have b: "bit (rw_field 3 (lo16 d) (lo16 m) w) n = (if n < 2 \<and> bit (lo16 m) n then bit (lo16 d) n else bit w n)" for w
    using rw_field_bits [OF assms, of 3 0 "lo16 d" w n] unfolding pm_field_bits by auto
  have c: "bit (rw_bit 0x8000 (lo16 d) (lo16 m) w) n =
      (if n = 15 \<and> bit (lo16 m) n then bit (lo16 d) n else bit w n)"
    "bit (rw_bit 0x100 (lo16 d) (lo16 m) w) n =
      (if n = 8 \<and> bit (lo16 m) n then bit (lo16 d) n else bit w n)" for w
    using bit_rw_bit [of "0x8000" 15 "lo16 d" "lo16 m" w n] bit_rw_bit [of "0x100" 8 "lo16 d" "lo16 m" w n] by auto
  have s: "n \<in> rw_bits ty e 17 \<longleftrightarrow> n < 2 \<or> n = 8 \<or> 9 \<le> n \<and> n < 13 \<or> n = 15"
    by (auto simp: rw_bits_def)
  show ?thesis
    unfolding pm_value bit_set_lo16 a b c s bit_lo16
    by (cases "n < 16"; cases "bit m n") auto
qed

text \<open>The SR-IOV capability of the physical function.\<close>

abbreviation vf_enable :: "devemu_tlp_resources \<Rightarrow> bool" where
  "vf_enable r \<equiv> bit (reg_value 84 r) 0"

lemma sriov_values:
  assumes "fn_func_type (cur_func r) = DOCA_PCI_FUNC_TYPE_PF"
  shows "reg_value 84 (reg_written 84 d m r) = set_lo16 ((lo16 (reg_value 84 r) AND NOT (ucast (m AND 9)))
      OR (ucast d AND ucast (m AND 9))) (reg_value 84 r)"
    "reg_value 86 (reg_written 86 d m r) = (if lo16 (reg_value 84 r) AND 1 = 0
       then set_lo16 (ucast ((ucast (lo16 (reg_value 86 r)) AND NOT m) OR (ucast (ucast d :: u16) AND m))) (reg_value 86 r)
       else reg_value 86 r)"
    "reg_value 90 (reg_written 90 d m r) = (reg_value 90 r AND NOT m) OR (d AND m)"
  using assms
  by (simp_all add: reg_value_eq reg_written_sriov_cs config_space_ext_cap_sriov_write_def cs_value_sriov_updates
      Let_def if_distrib [of "\<lambda>s. cs_value _ (sriov_upd s _) _"])
    (simp_all add: cs_value_def sriov_upd_def)

lemma sriov_bits:
  assumes "fn_func_type (cur_func r) = DOCA_PCI_FUNC_TYPE_PF" and "x \<in> {84, 86, 90}"
  shows "bit (reg_value x (reg_written x d m r)) n \<longleftrightarrow>
     (if n \<in> rw_bits DOCA_PCI_FUNC_TYPE_PF (vf_enable r) x \<and> bit m n then bit d n else bit (reg_value x r) n)"
proof -
  have b9: "bit (9 :: u32) n \<longleftrightarrow> n = 0 \<or> n = 3"
  proof -
    have e: "(9 :: u32) = 2 ^ 0 OR 2 ^ 3" by simp
    show ?thesis unfolding e bit_or_iff bit_exp_iff by auto
  qed
  have e: "lo16 (reg_value 84 r) AND 1 = 0 \<longleftrightarrow> \<not> vf_enable r"
    using and_exp_eq_0 [of "lo16 (reg_value 84 r)" 0] by (simp add: bit_lo16)
  have le: "bit w n \<Longrightarrow> n < 32" for w :: u32 using bit_imp_le_length [of w n] by simp
  consider "x = 84" | "x = 86" | "x = 90" using assms(2) by auto
  then show ?thesis
  proof cases
    case 1
    show ?thesis unfolding 1 sriov_values(1) [OF assms(1)] bit_set_lo16
      by (cases "n = 0 \<or> n = 3"; cases "n < 16")
        (simp_all add: bit_or_iff bit_and_iff bit_not_iff bit_lo16 bit_ucast_iff b9 rw_bits_def del: bit_numeral_word_iff)
  next
    case 2
    show ?thesis unfolding 2 sriov_values(2) [OF assms(1)] e
      by (cases "n < 16"; cases "vf_enable r")
        (simp_all add: bit_or_iff bit_and_iff bit_not_iff bit_set_lo16 bit_lo16 bit_ucast_iff rw_bits_def)
  next
    case 3
    then show ?thesis unfolding 3 sriov_values(3) [OF assms(1)]
      by (auto simp: bit_simps rw_bits_def dest: le)
  qed
qed

section \<open>Capability lists\<close>

text \<open>How a host finds the capabilities: from the pointer in register 13, the id and the next pointer of each
  capability header, until a pointer is 0 (the standard list) or a next offset is 0 (the extended list, which starts at
  0x100).  The results are the ids with the offsets; \<open>fuel\<close> bounds the steps.\<close>

fun cap_walk :: "nat \<Rightarrow> (u32 \<Rightarrow> u32) \<Rightarrow> u8 \<Rightarrow> (u8 \<times> u8) list option" where
  "cap_walk 0 rd ptr = None"
| "cap_walk (Suc fuel) rd ptr =
     (if ptr = 0 then Some []
      else let w = rd (ucast ptr div 4) in
           do { rest \<leftarrow> cap_walk fuel rd (ucast (drop_bit 8 w)); Some ((byte0 w, ptr) # rest) })"

fun ext_cap_walk :: "nat \<Rightarrow> (u32 \<Rightarrow> u32) \<Rightarrow> u32 \<Rightarrow> (u16 \<times> u32) list option" where
  "ext_cap_walk 0 rd off = None"
| "ext_cap_walk (Suc fuel) rd off =
     (let w = rd (off div 4); nxt = drop_bit 20 w in
      if nxt = 0 then Some [(lo16 w, off)]
      else do { rest \<leftarrow> ext_cap_walk fuel rd nxt; Some ((lo16 w, off) # rest) })"

lemma cap_walk_init:
  assumes "\<And>x. x \<in> {13, 24, 18, 39, 16} \<Longrightarrow> rd x = cs_value ty (init_pci_config_space tv cs) x"
  shows "cap_walk 5 rd (byte0 (rd 13)) = Some [(0x10, 0x60), (0x03, 0x48), (0x11, 0x9c), (0x01, 0x40)]"
proof -
  have five: "(5 :: nat) = Suc (Suc (Suc (Suc (Suc 0))))" by simp
  have e: "(0xFFFFFF00 :: u32) = NOT (mask 8)" by (simp add: mask_eq_exp_minus_1)
  have "byte0 (w AND 0xFFFFFF00) = 0" for w
    unfolding e by (rule bit_word_eqI) (simp add: byte0_def bit_simps)
  moreover have "byte0 (a OR b) = byte0 a OR byte0 b" for a b
    by (rule bit_word_eqI) (auto simp: byte0_def bit_simps)
  ultimately have "byte0 ((w AND 0xFFFFFF00) OR 0x60) = 0x60" for w
    by (simp add: byte0_def [of "0x60"])
  then have "rd 13 = (ch_regD (cs_header cs) AND 0xFFFFFF00) OR 0x60" "byte0 (rd 13) = 0x60"
    using assms [of 13]
    by (simp_all add: cs_value_def init_pci_config_space_def init_pci_config_space_header_def)
  moreover have "rd 24 = 0x00024810" "rd 18 = 0x80009c03" "rd 39 = 0x00004011" "rd 16 = 0x81c30001"
    using assms [of 24] assms [of 18] assms [of 39] assms [of 16]
    by (simp_all add: cs_value_def init_pci_config_space_def init_pci_config_space_caps_def mk16_def)
  ultimately show ?thesis
    unfolding five by (simp add: byte0_def)
qed

lemma ext_cap_walk_init:
  assumes "\<And>x. x \<in> {64, 82} \<Longrightarrow> rd x = cs_value DOCA_PCI_FUNC_TYPE_PF (init_pci_config_space tv cs) x"
  shows "ext_cap_walk 2 rd 0x100 = Some (if tv = 0 then [(0x01, 0x100)] else [(0x01, 0x100), (0x10, 0x148)])"
proof (cases "tv = 0")
  case True
  then have "rd 64 = 0x00010001" using assms [of 64]
    by (simp add: cs_value_def init_pci_config_space_def init_pci_config_space_ext_caps_def ext_cap_header_def mk16_def)
  with True show ?thesis unfolding numeral_2_eq_2 by (simp add: lo16_def)
next
  case False
  then have "rd 64 = 0x14810001" "rd 82 = 0x00010010" using assms [of 64] assms [of 82]
    by (simp_all add: cs_value_def init_pci_config_space_def init_pci_config_space_ext_caps_def ext_cap_header_def mk16_def)
  with False show ?thesis unfolding numeral_2_eq_2 by (simp add: lo16_def)
qed

text \<open>A write to a register leaves the others alone.\<close>

lemma value_if: "cs_value ty (if b then c else c') x = (if b then cs_value ty c x else cs_value ty c' x)"
  by simp

lemma header_write_other:
  assumes "y \<noteq> x"
  shows "x = 1 \<Longrightarrow> reg_value y (reg_written x d m r) = reg_value y r"
    "x = 3 \<Longrightarrow> reg_value y (reg_written x d m r) = reg_value y r"
    "x = 4 \<Longrightarrow> reg_value y (reg_written x d m r) = reg_value y r"
    "x = 5 \<Longrightarrow> reg_value y (reg_written x d m r) = reg_value y r"
    "x = 12 \<Longrightarrow> reg_value y (reg_written x d m r) = reg_value y r"
    "x = 17 \<Longrightarrow> reg_value y (reg_written x d m r) = reg_value y r"
  using assms
  by (simp_all add: reg_value_eq reg_written_cs config_space_header_write_reg1_def config_space_header_write_reg3_def
      config_space_header_write_bar_def config_space_header_write_reg12_def config_space_cap_pm_write_def Let_def
      cs_value_updates value_if)

lemma sriov_upd_if:
  "sriov_upd (\<lambda>s. if P s then f s else s) cs = (if P (ce_sriov_ext_cap (cs_ext_caps cs)) then sriov_upd f cs else cs)"
  by (simp add: sriov_upd_def)

lemma sriov_write_other:
  assumes "y \<noteq> x" "x \<in> {84, 86, 90, 91, 92}"
  shows "reg_value y (reg_written x d m r) = reg_value y r"
proof (cases "fn_func_type (cur_func r)")
  case DOCA_PCI_FUNC_TYPE_PF
  consider "x = 84" | "x = 86" | "x = 90" | "x = 91" | "x = 92" using assms(2) by auto
  then show ?thesis using assms(1) DOCA_PCI_FUNC_TYPE_PF
    by cases (simp_all add: reg_value_eq reg_written_sriov_cs config_space_ext_cap_sriov_write_def Let_def
        cs_value_sriov_updates sriov_upd_if value_if)
next
  case DOCA_PCI_FUNC_TYPE_VF
  with assms(2) show ?thesis by (auto simp: reg_value_eq reg_written_sriov_cs)
qed

lemma reg_written_other:
  assumes "y \<noteq> x"
  shows "reg_value y (reg_written x d m r) = reg_value y r"
proof (cases "x \<in> writable")
  case True
  then show ?thesis using header_write_other [OF assms, of d m r] sriov_write_other [OF assms, of d m r] by blast
next
  case False
  then show ?thesis by (simp add: reg_value_eq reg_written_noop)
qed


lemma reg_written_bits:
  assumes "map_first_dw_be_to_mask be = Some m" and "x \<notin> {4, 5, 12, 91, 92}"
  shows "bit (reg_value x (reg_written x d m r)) n \<longleftrightarrow>
     (if n \<in> rw_bits (fn_func_type (cur_func r)) (vf_enable r) x \<and> bit m n then bit d n
      else bit (reg_value x r) n \<and> \<not> (n \<in> w1c_bits x \<and> bit m n \<and> bit d n))"
proof -
  consider "x = 1" | "x = 3" | "x = 17"
    | "x \<in> {84, 86, 90}" "fn_func_type (cur_func r) = DOCA_PCI_FUNC_TYPE_PF"
    | "x \<in> {84, 86, 90}" "fn_func_type (cur_func r) = DOCA_PCI_FUNC_TYPE_VF" | "x \<notin> writable"
    using assms(2) by (cases "fn_func_type (cur_func r)") auto
  then show ?thesis
  proof cases
    case 1
    then show ?thesis using reg1_bits [of d m r n "fn_func_type (cur_func r)" "vf_enable r"] by simp
  next
    case 2
    then show ?thesis using reg3_bits [OF assms(1), of d r n "fn_func_type (cur_func r)" "vf_enable r"] by (simp add: w1c_bits_def)
  next
    case 3
    then show ?thesis using pm_bits [OF assms(1), of d r n "fn_func_type (cur_func r)" "vf_enable r"] by (simp add: w1c_bits_def)
  next
    case 4
    then have "x \<noteq> 1" by auto
    then show ?thesis using sriov_bits [OF 4(2) 4(1), of d m n] 4(2) by (simp add: w1c_bits_def)
  next
    case 5
    then have "reg_value x (reg_written x d m r) = reg_value x r" by (auto simp: reg_value_eq reg_written_sriov_cs)
    moreover have "x \<notin> {1, 3, 17}" using 5 by auto
    ultimately show ?thesis using 5(2) by (simp add: rw_bits_def w1c_bits_def)
  next
    case 6
    then have "reg_value x (reg_written x d m r) = reg_value x r" by (simp add: reg_value_eq reg_written_noop)
    moreover have "x \<notin> {1, 3, 17, 84, 86, 90}" using 6 by auto
    ultimately show ?thesis by (simp add: rw_bits_def w1c_bits_def)
  qed
qed

text \<open>
  The access rules of the base address registers (4, 5, 91 and 92 of the physical function, 12 of every function).  A
  write whose enabled data is all ones is a sizing write and leaves the size bits; any other write leaves the enabled
  bits of the data.  The bits below are constant flags.  Unlike the other registers, a byte that is not enabled does
  not keep its value: it becomes 0.
\<close>

definition base_register :: "doca_pci_func_type \<Rightarrow> u32 \<Rightarrow> bool" where
  "base_register ty x \<longleftrightarrow> x = 12 \<or> ty = DOCA_PCI_FUNC_TYPE_PF \<and> x \<in> {4, 5, 91, 92}"

definition base_bits :: "u32 \<Rightarrow> nat set" where
  "base_bits x = (if x = 12 then {11..<32} else if x = 4 \<or> x = 91 then {4..<32} else {0..<32})"

definition base_flags :: "u32 \<Rightarrow> nat set" where
  "base_flags x = (if x = 12 then {0} else if x = 4 \<or> x = 91 then {2, 3} else {})"

definition sizing_write :: "u32 \<Rightarrow> u32 \<Rightarrow> u32 \<Rightarrow> bool" where
  "sizing_write x d m \<longleftrightarrow> (\<forall>n \<in> (if x = 12 then {11..<32} else {0..<32}). bit d n \<and> bit m n)"

text \<open>The size bits: of the region of BAR 0 (64 bits over registers 4 and 5), of one virtual function's share of
  16 KiB (registers 91 and 92), of the expansion ROM.\<close>

definition size_bit :: "u64 \<Rightarrow> u32 \<Rightarrow> u32 \<Rightarrow> nat \<Rightarrow> bool" where
  "size_bit bar_size rom_size x n =
     (if x = 4 then bit (NOT (bar_size - 1)) n else if x = 5 then bit (NOT (bar_size - 1)) (n + 32)
      else if x = 91 then 14 \<le> n else if x = 92 then True else bit (NOT (rom_size - 1)) n)"

text \<open>The access rule of a register: bit \<open>n\<close> after a write of \<open>d\<close> with byte mask \<open>m\<close> over \<open>old\<close>.\<close>

definition access_rule ::
  "doca_pci_func_type \<Rightarrow> u64 \<times> u32 \<Rightarrow> bool \<Rightarrow> u32 \<Rightarrow> u32 \<Rightarrow> u32 \<Rightarrow> u32 \<Rightarrow> nat \<Rightarrow> bool" where
  "access_rule ty sizes enabled x d m old n =
     (if base_register ty x
      then if n \<in> base_bits x
           then (if sizing_write x d m then size_bit (fst sizes) (snd sizes) x n else bit d n \<and> bit m n)
           else n \<in> base_flags x
      else if n \<in> rw_bits ty enabled x \<and> bit m n then bit d n
      else bit old n \<and> \<not> (n \<in> w1c_bits x \<and> bit m n \<and> bit d n))"

definition cxt_sizing :: "tlp_handler_cxt \<Rightarrow> u64 \<times> u32" where
  "cxt_sizing c = (hc_bar_region_size c, hc_exp_bar_size c)"

lemma and_full [simp]: "(w :: u32) AND 0xFFFFFFFF = w"
proof -
  have "(0xFFFFFFFF :: u32) = - 1" by simp
  then show ?thesis by (simp only: and.right_neutral)
qed

lemma base_values:
  "fn_func_type (cur_func r) = DOCA_PCI_FUNC_TYPE_PF \<Longrightarrow> reg_value 4 (reg_written 4 d m r) =
     (bar_value False (hc_bar_region_size (cur_cxt r)) d m AND 0xFFFFFFF0) OR 12"
  "fn_func_type (cur_func r) = DOCA_PCI_FUNC_TYPE_PF \<Longrightarrow> reg_value 5 (reg_written 5 d m r) =
     bar_value True (hc_bar_region_size (cur_cxt r)) d m"
  "fn_func_type (cur_func r) = DOCA_PCI_FUNC_TYPE_PF \<Longrightarrow> reg_value 91 (reg_written 91 d m r) =
     (bar_value False (2 ^ 14) d m AND 0xFFFFFFF0) OR 12"
  "fn_func_type (cur_func r) = DOCA_PCI_FUNC_TYPE_PF \<Longrightarrow> reg_value 92 (reg_written 92 d m r) = bar_value True (2 ^ 14) d m"
  "reg_value 12 (reg_written 12 d m r) = ((if d AND m AND 0xFFFFF800 = 0xFFFFF800
     then NOT (hc_exp_bar_size (cur_cxt r) - 1) else d AND m) AND 0xFFFFF800) OR 1"
  by (simp_all add: reg_value_eq reg_written_cs reg_written_sriov_cs config_space_header_write_bar_def
      config_space_header_write_reg12_def config_space_ext_cap_sriov_write_def Let_def cs_value_updates
      cs_value_sriov_updates)

lemma high_masks:
  "bit (0xFFFFFFF0 :: u32) n \<longleftrightarrow> 4 \<le> n \<and> n < 32" "bit (0xFFFFF800 :: u32) n \<longleftrightarrow> 11 \<le> n \<and> n < 32"
  "bit (0xFFFFFFFF :: u32) n \<longleftrightarrow> n < 32" "bit (12 :: u32) n \<longleftrightarrow> n = 2 \<or> n = 3" "bit (1 :: u32) n \<longleftrightarrow> n = 0"
proof -
  have e: "(0xFFFFFFF0 :: u32) = NOT (mask 4)" "(0xFFFFF800 :: u32) = NOT (mask 11)" "(0xFFFFFFFF :: u32) = mask 32"
    "(12 :: u32) = push_bit 2 (mask 2)" by (simp_all add: mask_eq_exp_minus_1)
  show "bit (0xFFFFFFF0 :: u32) n \<longleftrightarrow> 4 \<le> n \<and> n < 32" "bit (0xFFFFF800 :: u32) n \<longleftrightarrow> 11 \<le> n \<and> n < 32"
    unfolding e bit_not_iff bit_mask_iff by auto
  show "bit (0xFFFFFFFF :: u32) n \<longleftrightarrow> n < 32" "bit (12 :: u32) n \<longleftrightarrow> n = 2 \<or> n = 3"
    unfolding e bit_push_bit_iff bit_mask_iff by auto
qed (simp add: bit_1_iff)

lemma sizing_write_iff:
  "x \<noteq> 12 \<Longrightarrow> d AND m = 0xFFFFFFFF \<longleftrightarrow> sizing_write x d m"
  "d AND m AND 0xFFFFF800 = 0xFFFFF800 \<longleftrightarrow> sizing_write 12 d m"
proof -
  have le: "bit w n \<Longrightarrow> n < 32" for w :: u32 and n using bit_imp_le_length [of w n] by simp
  show "d AND m = 0xFFFFFFFF \<longleftrightarrow> sizing_write x d m" if "x \<noteq> 12"
    unfolding bit_eq_iff [of "d AND m"] high_masks sizing_write_def using that by (auto simp: bit_and_iff dest: le)
  show "d AND m AND 0xFFFFF800 = 0xFFFFF800 \<longleftrightarrow> sizing_write 12 d m"
    unfolding bit_eq_iff [of "d AND m AND 0xFFFFF800"] bit_and_iff high_masks sizing_write_def by (auto dest: le)
qed

lemma bar_value_bits:
  assumes "x \<noteq> 12" "n < 32"
  shows "bit (bar_value upper sz d m) n \<longleftrightarrow>
     (if sizing_write x d m then bit (NOT (sz - 1)) (if upper then n + 32 else n) else bit d n \<and> bit m n)"
proof -
  have m: "bit (0xFFFFFFFF :: u64) n \<longleftrightarrow> n < 32"
  proof -
    have e: "(0xFFFFFFFF :: u64) = mask 32" by (simp add: mask_eq_exp_minus_1)
    show ?thesis unfolding e bit_mask_iff by auto
  qed
  show ?thesis unfolding bar_value_def sizing_write_iff(1) [OF assms(1)]
    using assms(2) by (auto simp: bit_ucast_iff bit_and_iff bit_drop_bit_eq m add.commute simp del: bit_numeral_word_iff)
qed

lemma vf_size_bits:
  "n < 32 \<Longrightarrow> bit (NOT (2 ^ 14 - 1 :: u64)) n \<longleftrightarrow> 14 \<le> n" "n < 32 \<Longrightarrow> bit (NOT (2 ^ 14 - 1 :: u64)) (n + 32)"
proof -
  have e: "(2 ^ 14 - 1 :: u64) = mask 14" by (simp add: mask_eq_exp_minus_1)
  show "n < 32 \<Longrightarrow> bit (NOT (2 ^ 14 - 1 :: u64)) n \<longleftrightarrow> 14 \<le> n" "n < 32 \<Longrightarrow> bit (NOT (2 ^ 14 - 1 :: u64)) (n + 32)"
    unfolding e bit_not_iff bit_mask_iff by auto
qed

lemma base_register_bits:
  assumes "base_register (fn_func_type (cur_func r)) x" "n < 32"
  shows "bit (reg_value x (reg_written x d m r)) n \<longleftrightarrow>
     (if n \<in> base_bits x
      then (if sizing_write x d m then size_bit (hc_bar_region_size (cur_cxt r)) (hc_exp_bar_size (cur_cxt r)) x n
            else bit d n \<and> bit m n)
      else n \<in> base_flags x)"
proof -
  consider "x = 12" | "x = 4" "fn_func_type (cur_func r) = DOCA_PCI_FUNC_TYPE_PF"
    | "x = 5" "fn_func_type (cur_func r) = DOCA_PCI_FUNC_TYPE_PF"
    | "x = 91" "fn_func_type (cur_func r) = DOCA_PCI_FUNC_TYPE_PF"
    | "x = 92" "fn_func_type (cur_func r) = DOCA_PCI_FUNC_TYPE_PF" using assms(1) by (auto simp: base_register_def)
  then show ?thesis
  proof cases
    case 1
    show ?thesis unfolding 1 base_values(5) sizing_write_iff(2) bit_or_iff bit_and_iff high_masks
      using assms(2) by (auto simp: base_bits_def base_flags_def size_bit_def bit_and_iff)
  next
    case 2
    show ?thesis unfolding 2(1) base_values(1) [OF 2(2)] bit_or_iff bit_and_iff high_masks
      using assms(2) bar_value_bits [of 4 n] by (auto simp: base_bits_def base_flags_def size_bit_def)
  next
    case 3
    show ?thesis unfolding 3(1) base_values(2) [OF 3(2)]
      using assms(2) bar_value_bits [of 5 n] by (auto simp: base_bits_def base_flags_def size_bit_def)
  next
    case 4
    show ?thesis unfolding 4(1) base_values(3) [OF 4(2)] bit_or_iff bit_and_iff high_masks
      using assms(2) bar_value_bits [of 91 n False "2 ^ 14" d m] vf_size_bits(1) [OF assms(2)]
      by (auto simp: base_bits_def base_flags_def size_bit_def)
  next
    case 5
    show ?thesis unfolding 5(1) base_values(4) [OF 5(2)]
      using assms(2) bar_value_bits [of 92 n True "2 ^ 14" d m] vf_size_bits(2) [OF assms(2)]
      by (auto simp: base_bits_def base_flags_def size_bit_def)
  qed
qed

lemma base_register_vf:
  assumes "\<not> base_register (fn_func_type (cur_func r)) x" "x \<in> {4, 5, 12, 91, 92}"
  shows "reg_value x (reg_written x d m r) = reg_value x r"
  using assms by (cases "fn_func_type (cur_func r)")
    (auto simp: base_register_def reg_value_eq reg_written_cs reg_written_sriov_cs config_space_header_write_bar_def Let_def)

lemma reg_written_rule:
  assumes "map_first_dw_be_to_mask be = Some m"
  shows "bit (reg_value x (reg_written x d m r)) n \<longleftrightarrow>
     access_rule (fn_func_type (cur_func r)) (cxt_sizing (cur_cxt r)) (vf_enable r) x d m (reg_value x r) n"
proof -
  consider "\<not> n < 32" | "n < 32" "base_register (fn_func_type (cur_func r)) x"
    | "\<not> base_register (fn_func_type (cur_func r)) x" "x \<in> {4, 5, 12, 91, 92}"
    | "\<not> base_register (fn_func_type (cur_func r)) x" "x \<notin> {4, 5, 12, 91, 92}" by blast
  then show ?thesis
  proof cases
    case 1
    then have "\<not> bit w n" for w :: u32 using bit_imp_le_length [of w n] by auto
    moreover have "n \<notin> base_bits x" "n \<notin> base_flags x" using 1 by (auto simp: base_bits_def base_flags_def)
    ultimately show ?thesis by (simp add: access_rule_def)
  next
    case 2
    then show ?thesis using base_register_bits [OF 2(2,1), of d m] by (simp add: access_rule_def cxt_sizing_def)
  next
    case 3
    then have "x \<notin> {1, 3, 17, 84, 86, 90}" by auto
    then show ?thesis using base_register_vf [OF 3, of d m] 3(1) by (simp add: access_rule_def rw_bits_def w1c_bits_def)
  next
    case 4
    show ?thesis using reg_written_bits [OF assms(1) 4(2), of d r n] 4(1) by (simp add: access_rule_def)
  qed
qed

lemma access_rule_vf: "access_rule DOCA_PCI_FUNC_TYPE_VF sizes e = access_rule DOCA_PCI_FUNC_TYPE_VF sizes e'"
  by (intro ext) (simp add: access_rule_def rw_bits_def)

section \<open>Properties\<close>



text \<open>A configuration write to one register of a function leaves the value of every other register of that
  function, and every other function, as it was.\<close>

theorem config_write_other:
  assumes "y \<noteq> x" and "f \<noteq> rs_cur_func r"
  shows "fst (config_space_read y (snd (snd (snd (config_space_write x d m r))))) = fst (config_space_read y r) \<and>
     func_at (snd (snd (snd (config_space_write x d m r)))) f = func_at r f"
  using reg_written_other [OF assms(1)] reg_written_same [of r x d m] assms(2)
  by (simp add: reg_value_def reg_written_def same_but_cs_def)


theorem config_write_other_witness:
  "fst (config_space_read 3 (snd (snd (snd (config_space_write 1 4 0xFFFF (resources0 2 0)))))) =
     fst (config_space_read 3 (resources0 2 0)) \<and>
   func_at (snd (snd (snd (config_space_write 1 4 0xFFFF (resources0 2 0))))) (Vf 1) = func_at (resources0 2 0) (Vf 1)"
  by (rule config_write_other) (simp_all add: resources0_def)

end
