(* ===== verification/Tlp_Handler.thy ===== *)
theory Tlp_Handler
  imports Tlp_Config
begin

text \<open>
  Requests of the emulated PCI function: the rest of
  \<open>samples/doca_devemu/devemu_pci_device_tlp_handler/dpu/devemu_pci_device_tlp_handler_dpu_sample.c\<close>
  that handles a transaction layer packet (TLP).  Header decoding, completion headers, memory reads and writes,
  routing to the physical function or a virtual function, and the request callback.

  The bit-field macros of the SDK (\<open>doca_bitfield.h\<close>) and the constant
  \<open>DOCA_DEVEMU_PCI_TLP_CHANNEL_REQ_DSP_ID_IMPLICIT\<close> are parameters.  A call that completes a request is
  recorded as a value of type \<open>tlp_completion\<close>.
\<close>

unbundle bit_operations_syntax

text \<open>\<open>be32_get h l w\<close> reads bits \<open>h\<close> down to \<open>l\<close> of the number a big-endian double word encodes,
  \<open>be32_set h l v w\<close> writes them.\<close>

record tlp_env =
  be32_get :: "nat \<Rightarrow> nat \<Rightarrow> u32 \<Rightarrow> u32"
  be32_set :: "nat \<Rightarrow> nat \<Rightarrow> u32 \<Rightarrow> u32 \<Rightarrow> u32"
  dsp_id_implicit :: u8

datatype tlp_channel_req_opcode = REQ_OPCODE_TLP | REQ_OPCODE_PCI_EVENT

record tlp_req =
  tq_opcode :: tlp_channel_req_opcode
  tq_header :: bytes
  tq_data :: bytes
  tq_dsp_id :: u8
  tq_dsp_bdf :: u16

text \<open>The completion buffers: the header as the three numbers it encodes, empty when it is not written.\<close>

record tlp_cpl =
  cp_header :: "u32 list"
  cp_data :: bytes

datatype tlp_completion =
    Complete_config_read func_ref tlp_cpl bool u16 bool
  | Complete_config_write func_ref tlp_cpl bool u16 bool
  | Complete_tlp bool func_ref tlp_cpl
  | Complete_pci_event

section \<open>Header decoding\<close>

definition hdr_field :: "tlp_env \<Rightarrow> tlp_req \<Rightarrow> nat \<Rightarrow> nat \<Rightarrow> nat \<Rightarrow> u32 option" where
  "hdr_field env q dw h l = do { w \<leftarrow> rd32be (tq_header q) (4 * dw); Some (be32_get env h l w) }"

definition GET_TLP_REQ_FMT :: "tlp_env \<Rightarrow> tlp_req \<Rightarrow> u32 option" where "GET_TLP_REQ_FMT env q = hdr_field env q 0 31 29"
definition GET_TLP_REQ_TYPE :: "tlp_env \<Rightarrow> tlp_req \<Rightarrow> u32 option" where "GET_TLP_REQ_TYPE env q = hdr_field env q 0 28 24"
definition GET_TLP_REQ_TAG9 :: "tlp_env \<Rightarrow> tlp_req \<Rightarrow> u32 option" where "GET_TLP_REQ_TAG9 env q = hdr_field env q 0 23 23"
definition GET_TLP_REQ_TAG8 :: "tlp_env \<Rightarrow> tlp_req \<Rightarrow> u32 option" where "GET_TLP_REQ_TAG8 env q = hdr_field env q 0 19 19"
definition GET_TLP_REQ_LENGTH :: "tlp_env \<Rightarrow> tlp_req \<Rightarrow> u32 option" where "GET_TLP_REQ_LENGTH env q = hdr_field env q 0 9 0"
definition GET_TLP_REQ_REQ_ID :: "tlp_env \<Rightarrow> tlp_req \<Rightarrow> u32 option" where "GET_TLP_REQ_REQ_ID env q = hdr_field env q 1 31 16"
definition GET_TLP_REQ_TAG :: "tlp_env \<Rightarrow> tlp_req \<Rightarrow> u32 option" where "GET_TLP_REQ_TAG env q = hdr_field env q 1 15 8"
definition GET_TLP_REQ_LAST_DW_BE :: "tlp_env \<Rightarrow> tlp_req \<Rightarrow> u32 option" where "GET_TLP_REQ_LAST_DW_BE env q = hdr_field env q 1 7 4"
definition GET_TLP_REQ_FIRST_DW_BE :: "tlp_env \<Rightarrow> tlp_req \<Rightarrow> u32 option" where "GET_TLP_REQ_FIRST_DW_BE env q = hdr_field env q 1 3 0"
definition GET_TLP_REQ_BUS :: "tlp_env \<Rightarrow> tlp_req \<Rightarrow> u32 option" where "GET_TLP_REQ_BUS env q = hdr_field env q 2 31 24"
definition GET_TLP_REQ_DEVICE :: "tlp_env \<Rightarrow> tlp_req \<Rightarrow> u32 option" where "GET_TLP_REQ_DEVICE env q = hdr_field env q 2 23 19"
definition GET_TLP_REQ_FUNCTION :: "tlp_env \<Rightarrow> tlp_req \<Rightarrow> u32 option" where "GET_TLP_REQ_FUNCTION env q = hdr_field env q 2 18 16"
definition GET_TLP_REQ_EXT_REG_NUM :: "tlp_env \<Rightarrow> tlp_req \<Rightarrow> u32 option" where "GET_TLP_REQ_EXT_REG_NUM env q = hdr_field env q 2 11 2"

lemmas hdr_defs = GET_TLP_REQ_FMT_def GET_TLP_REQ_TYPE_def GET_TLP_REQ_TAG9_def GET_TLP_REQ_TAG8_def
  GET_TLP_REQ_LENGTH_def GET_TLP_REQ_REQ_ID_def GET_TLP_REQ_TAG_def GET_TLP_REQ_LAST_DW_BE_def
  GET_TLP_REQ_FIRST_DW_BE_def GET_TLP_REQ_BUS_def GET_TLP_REQ_DEVICE_def GET_TLP_REQ_FUNCTION_def
  GET_TLP_REQ_EXT_REG_NUM_def

definition parse_64bit_address :: "tlp_req \<Rightarrow> u64 option" where
  "parse_64bit_address q = do {
     addr_high \<leftarrow> rd32be (tq_header q) 8;
     addr_low \<leftarrow> rd32be (tq_header q) 12;
     Some (push_bit 32 (ucast addr_high) OR ucast (addr_low AND 0xFFFFFFFC)) }"

definition parse_32bit_address :: "tlp_req \<Rightarrow> u64 option" where
  "parse_32bit_address q = do { addr_low \<leftarrow> rd32be (tq_header q) 8; Some (ucast (addr_low AND 0xFFFFFFFC)) }"

datatype tlp_req_type =
    TLP_REQ_TYPE_INVALID
  | TLP_REQ_TYPE_MEMORY_READ
  | TLP_REQ_TYPE_MEMORY_WRITE
  | TLP_REQ_TYPE_IO_READ
  | TLP_REQ_TYPE_IO_WRITE
  | TLP_REQ_TYPE_CONFIG_READ_TYPE_0
  | TLP_REQ_TYPE_CONFIG_WRITE_TYPE_0
  | TLP_REQ_TYPE_CONFIG_READ_TYPE_1
  | TLP_REQ_TYPE_CONFIG_WRITE_TYPE_1

definition get_tlp_req_type :: "tlp_env \<Rightarrow> tlp_req \<Rightarrow> tlp_req_type option" where
  "get_tlp_req_type env q = do {
     fmt \<leftarrow> GET_TLP_REQ_FMT env q;
     type \<leftarrow> GET_TLP_REQ_TYPE env q;
     let fmt = (ucast fmt :: u8);
     let type = (ucast type :: u8);
     Some (if type = 0x0 then (if fmt AND 2 \<noteq> 0 then TLP_REQ_TYPE_MEMORY_WRITE else TLP_REQ_TYPE_MEMORY_READ)
           else if type = 0x2 then (if fmt AND 2 \<noteq> 0 then TLP_REQ_TYPE_IO_WRITE else TLP_REQ_TYPE_IO_READ)
           else if type = 0x4
           then (if fmt AND 2 \<noteq> 0 then TLP_REQ_TYPE_CONFIG_WRITE_TYPE_0 else TLP_REQ_TYPE_CONFIG_READ_TYPE_0)
           else if type = 0x5
           then (if fmt AND 2 \<noteq> 0 then TLP_REQ_TYPE_CONFIG_WRITE_TYPE_1 else TLP_REQ_TYPE_CONFIG_READ_TYPE_1)
           else TLP_REQ_TYPE_INVALID) }"

definition is_non_posted_tlp_req :: "tlp_env \<Rightarrow> tlp_req \<Rightarrow> bool option" where
  "is_non_posted_tlp_req env q = do {
     req_type \<leftarrow> get_tlp_req_type env q;
     Some (req_type \<noteq> TLP_REQ_TYPE_INVALID \<and> req_type \<noteq> TLP_REQ_TYPE_MEMORY_WRITE) }"

section \<open>Completion headers\<close>

definition set_tlp_req_completion_header :: "tlp_env \<Rightarrow> devemu_tlp_resources \<Rightarrow> u16 \<Rightarrow> u32 list" where
  "set_tlp_req_completion_header env r byte_count =
     (let c = cur_cxt r;
          dw0 = be32_set env 31 29 (ucast (hc_cmpl_fmt c)) 0;
          dw0 = be32_set env 28 24 (ucast (hc_cmpl_type c)) dw0;
          dw0 = be32_set env 23 23 (ucast (hc_tag9 c)) dw0;
          dw0 = be32_set env 19 19 (ucast (hc_tag8 c)) dw0;
          dw0 = be32_set env 9 0 (ucast (hc_cmpl_length c)) dw0;
          dw1 = be32_set env 31 16 (ucast (hc_completer_id c)) 0;
          dw1 = be32_set env 15 13 (ucast (hc_cmpl_status c)) dw1;
          dw1 = be32_set env 11 0 (ucast byte_count) dw1;
          dw2 = be32_set env 31 16 (ucast (hc_requester_id c)) 0;
          dw2 = be32_set env 15 8 (ucast (hc_tag c)) dw2
      in [dw0, dw1, dw2])"

section \<open>Configuration requests\<close>

text \<open>A double word in memory, least significant byte first.\<close>

definition dw_byte :: "u32 \<Rightarrow> nat \<Rightarrow> u8" where "dw_byte w i = ucast (drop_bit (8 * i) w)"
definition dw_bytes :: "u32 \<Rightarrow> bytes" where "dw_bytes w = map (dw_byte w) [0..<4]"

definition rd32le :: "bytes \<Rightarrow> nat \<Rightarrow> u32 option" where
  "rd32le b i = do { b0 \<leftarrow> rd8 b i; b1 \<leftarrow> rd8 b (i + 1); b2 \<leftarrow> rd8 b (i + 2); b3 \<leftarrow> rd8 b (i + 3); Some (mk8 b0 b1 b2 b3) }"

text \<open>The result is the completion buffers, \<open>cap_id\<close>, \<open>is_cap_id_valid\<close>, \<open>is_pcie_cap\<close> and the state.\<close>

definition handle_tlp_req_read_type_0 ::
  "tlp_env \<Rightarrow> devemu_tlp_resources \<Rightarrow> u32 \<Rightarrow> tlp_cpl \<times> u16 \<times> bool \<times> bool \<times> devemu_tlp_resources" where
  "handle_tlp_req_read_type_0 env r ext_reg_num =
     (let (cfg_read_data, cap_id, valid, pcie, r) = config_space_read ext_reg_num r
      in (\<lparr>cp_header = set_tlp_req_completion_header env r 4, cp_data = dw_bytes cfg_read_data\<rparr>,
          cap_id, valid, pcie, r))"

definition handle_tlp_req_write_type_0 ::
  "tlp_env \<Rightarrow> tlp_req \<Rightarrow> devemu_tlp_resources \<Rightarrow> u32 \<Rightarrow>
   (tlp_cpl \<times> u16 \<times> bool \<times> bool \<times> devemu_tlp_resources) option" where
  "handle_tlp_req_write_type_0 env q r ext_reg_num = do {
     be \<leftarrow> GET_TLP_REQ_FIRST_DW_BE env q;
     be_mask \<leftarrow> map_first_dw_be_to_mask be;
     data \<leftarrow> rd32le (tq_data q) 0;
     let (cap_id, valid, pcie, r) = config_space_write ext_reg_num data be_mask r;
     Some (\<lparr>cp_header = set_tlp_req_completion_header env r 4, cp_data = []\<rparr>, cap_id, valid, pcie, r) }"

section \<open>Memory requests\<close>

definition get_dword_byte_enable_mask :: "nat \<Rightarrow> nat \<Rightarrow> u32 \<Rightarrow> u32 \<Rightarrow> u32" where
  "get_dword_byte_enable_mask dw_idx num_dwords first_dw_be last_dw_be =
     (if num_dwords = 1 \<or> dw_idx = 0 then first_dw_be
      else if dw_idx = num_dwords - 1 then last_dw_be
      else 0xF)"

definition sriov_of :: "devemu_tlp_resources \<Rightarrow> pci_config_space_ext_cap_sriov" where
  "sriov_of r = ce_sriov_ext_cap (cs_ext_caps (fn_pci_config_space (rs_pf r)))"

definition vf_bar_base :: "devemu_tlp_resources \<Rightarrow> u64" where
  "vf_bar_base r = push_bit 32 (ucast (sr_vf_bar (sriov_of r) 1)) OR ucast (sr_vf_bar (sriov_of r) 0 AND 0xFFFFFFF0)"

definition get_func_bar0_base :: "devemu_tlp_resources \<Rightarrow> u64" where
  "get_func_bar0_base r =
     (if fn_func_type (cur_func r) = DOCA_PCI_FUNC_TYPE_VF
      then vf_bar_base r + ucast (fn_vf_index (cur_func r)) * push_bit layout_log_size 1
      else push_bit 32 (ucast (ch_bar (cur_header r) 1)) OR ucast (ch_bar (cur_header r) 0 AND 0xFFFFFFF0))"

text \<open>The offset and the number of double words of an access of \<open>len\<close> bytes to a region.\<close>

definition region_params :: "u64 \<Rightarrow> u64 \<Rightarrow> u64 \<Rightarrow> u32 \<Rightarrow> (u64 \<times> u32) option" where
  "region_params base region_size address len =
     (if address < base \<or> address \<ge> base + region_size then None
      else let offset = address - base;
               max_size = region_size - offset;
               actual_size = (if ucast len < max_size then ucast len else max_size)
           in Some (offset, ucast ((actual_size + (4 - 1)) div 4)))"

text \<open>\<^term>\<open>None\<close> is \<open>DOCA_ERROR_NOT_FOUND\<close>; the result names the memory of the region.\<close>

definition evaluate_transaction_operation_params ::
  "u64 \<Rightarrow> u32 \<Rightarrow> devemu_tlp_resources \<Rightarrow> (u64 \<times> u32 \<times> bytes) option" where
  "evaluate_transaction_operation_params address len r =
     (case hc_transaction_region_memory (cur_cxt r) of
        None \<Rightarrow> None
      | Some m \<Rightarrow>
          if hc_transaction_region_size (cur_cxt r) = 0 then None
          else do {
            (offset, n) \<leftarrow> region_params (get_func_bar0_base r + transaction_start_address)
                            (hc_transaction_region_size (cur_cxt r)) address len;
            Some (offset, n, m) })"

definition evaluate_exp_bar_operation_params ::
  "u64 \<Rightarrow> u32 \<Rightarrow> devemu_tlp_resources \<Rightarrow> (u64 \<times> u32 \<times> bytes) option" where
  "evaluate_exp_bar_operation_params address len r =
     (case hc_exp_bar_memory (cur_cxt r) of
        None \<Rightarrow> None
      | Some m \<Rightarrow>
          if hc_exp_bar_size (cur_cxt r) = 0 then None
          else do {
            (offset, n) \<leftarrow> region_params (ucast (ch_expansion_rom_base_address (cur_header r) AND 0xFFFFF800))
                            (ucast (hc_exp_bar_size (cur_cxt r))) address len;
            Some (offset, n, m) })"

text \<open>The enabled bytes of one double word read from memory; the others are 0.\<close>

definition read_dword :: "bytes \<Rightarrow> nat \<Rightarrow> u32 \<Rightarrow> u32 option" where
  "read_dword m p be = do {
     b0 \<leftarrow> (if bit be 0 then rd8 m p else Some 0);
     b1 \<leftarrow> (if bit be 1 then rd8 m (p + 1) else Some 0);
     b2 \<leftarrow> (if bit be 2 then rd8 m (p + 2) else Some 0);
     b3 \<leftarrow> (if bit be 3 then rd8 m (p + 3) else Some 0);
     Some (mk8 b0 b1 b2 b3) }"

fun read_dwords :: "bytes \<Rightarrow> nat \<Rightarrow> (nat \<Rightarrow> u32) \<Rightarrow> nat list \<Rightarrow> u32 list \<Rightarrow> u32 list option" where
  "read_dwords m p be [] arr = Some arr"
| "read_dwords m p be (i # is) arr = do {
     w \<leftarrow> read_dword m (p + i * 4) (be i);
     arr \<leftarrow> wr_at arr i w;
     read_dwords m p be is arr }"

text \<open>The clearing of the first \<open>n\<close> entries, and the data returned for an address outside the regions.\<close>

definition clear_dwords :: "nat \<Rightarrow> u32 list \<Rightarrow> u32 list option" where
  "clear_dwords n arr = (if n \<le> length arr then Some (replicate n 0 @ drop n arr) else None)"

fun dummy_dwords :: "nat list \<Rightarrow> u32 list \<Rightarrow> u32 list option" where
  "dummy_dwords [] arr = Some arr"
| "dummy_dwords (i # is) arr = do { arr \<leftarrow> wr_at arr i (0xDEADBEE0 + of_nat i); dummy_dwords is arr }"

text \<open>The completion array of the caller has 5 entries, all 0 at the call.\<close>

definition get_memory_read_data ::
  "u64 \<Rightarrow> u32 \<Rightarrow> u32 \<Rightarrow> u32 \<Rightarrow> devemu_tlp_resources \<Rightarrow> (u32 list \<times> devemu_tlp_resources) option" where
  "get_memory_read_data address len first_dw_be last_dw_be r = do {
     let num_dwords = len div 4;
     let num_dwords = unat (if num_dwords > 5 then 5 else num_dwords);
     let params = (case evaluate_transaction_operation_params address len r of
                     Some x \<Rightarrow> Some x | None \<Rightarrow> evaluate_exp_bar_operation_params address len r);
     arr \<leftarrow> clear_dwords num_dwords (replicate 5 0);
     arr \<leftarrow> (case params of
               None \<Rightarrow> dummy_dwords [0..<num_dwords] arr
             | Some (offset, actual_dwords, m) \<Rightarrow>
                 read_dwords m (unat offset)
                   (\<lambda>dw_idx. get_dword_byte_enable_mask dw_idx num_dwords first_dw_be last_dw_be)
                   [0..<min (unat actual_dwords) num_dwords] arr);
     Some (arr, set_cmpl TLP_FMT_CPL_W_DATA (of_nat num_dwords) TLP_CPL_STATUS_SC r) }"

definition wr8 :: "bytes \<Rightarrow> nat \<Rightarrow> u8 \<Rightarrow> bytes option" where
  "wr8 m p v = (if p < length m then Some (m[p := v]) else None)"

definition write_dword :: "bytes \<Rightarrow> nat \<Rightarrow> u32 \<Rightarrow> u32 \<Rightarrow> bytes option" where
  "write_dword m p be w = do {
     m \<leftarrow> (if bit be 0 then wr8 m p (dw_byte w 0) else Some m);
     m \<leftarrow> (if bit be 1 then wr8 m (p + 1) (dw_byte w 1) else Some m);
     m \<leftarrow> (if bit be 2 then wr8 m (p + 2) (dw_byte w 2) else Some m);
     (if bit be 3 then wr8 m (p + 3) (dw_byte w 3) else Some m) }"

text \<open>Reading the data array out of range is an error.\<close>

fun write_dwords :: "u32 list \<Rightarrow> nat \<Rightarrow> (nat \<Rightarrow> u32) \<Rightarrow> nat list \<Rightarrow> bytes \<Rightarrow> bytes option" where
  "write_dwords data p be [] m = Some m"
| "write_dwords data p be (i # is) m = do {
     w \<leftarrow> (if i < length data then Some (data ! i) else None);
     m \<leftarrow> write_dword m (p + i * 4) (be i) w;
     write_dwords data p be is m }"

definition set_memory_write_data ::
  "u64 \<Rightarrow> u32 \<Rightarrow> u32 list \<Rightarrow> u32 \<Rightarrow> u32 \<Rightarrow> devemu_tlp_resources \<Rightarrow> devemu_tlp_resources option" where
  "set_memory_write_data address len data_array first_dw_be last_dw_be r =
     (case evaluate_transaction_operation_params address len r of
        None \<Rightarrow> Some r
      | Some (offset, num_dwords, m) \<Rightarrow> do {
          m \<leftarrow> write_dwords data_array (unat offset)
                 (\<lambda>dw_idx. get_dword_byte_enable_mask dw_idx (unat num_dwords) first_dw_be last_dw_be)
                 [0..<unat num_dwords] m;
          Some (set_cmpl 0 0 0 (cxt_upd (\<lambda>c. c\<lparr>hc_transaction_region_memory := Some m\<rparr>) r)) })"

definition handle_tlp_req_memory_read ::
  "tlp_env \<Rightarrow> tlp_req \<Rightarrow> devemu_tlp_resources \<Rightarrow> (tlp_cpl \<times> devemu_tlp_resources) option" where
  "handle_tlp_req_memory_read env q r = do {
     len \<leftarrow> GET_TLP_REQ_LENGTH env q;
     first_dw_be \<leftarrow> GET_TLP_REQ_FIRST_DW_BE env q;
     last_dw_be \<leftarrow> GET_TLP_REQ_LAST_DW_BE env q;
     fmt \<leftarrow> GET_TLP_REQ_FMT env q;
     address \<leftarrow> (if (ucast fmt :: u8) = 0x1 then parse_64bit_address q else parse_32bit_address q);
     (arr, r) \<leftarrow> get_memory_read_data address (len * 4) first_dw_be last_dw_be r;
     let n = unat (hc_cmpl_length (cur_cxt r));
     sent \<leftarrow> (if n \<le> length arr then Some (take n arr) else None);
     Some (\<lparr>cp_header = set_tlp_req_completion_header env r 4, cp_data = concat (map dw_bytes sent)\<rparr>, r) }"

text \<open>The copy of the payload to the data array of 16 entries.\<close>

fun copy_payload :: "bytes \<Rightarrow> nat \<Rightarrow> nat list \<Rightarrow> u32 list \<Rightarrow> u32 list option" where
  "copy_payload h off [] arr = Some arr"
| "copy_payload h off (i # is) arr = do {
     w \<leftarrow> rd32le h (4 * (off + i));
     arr \<leftarrow> wr_at arr i w;
     copy_payload h off is arr }"

definition handle_tlp_req_memory_write ::
  "tlp_env \<Rightarrow> tlp_req \<Rightarrow> devemu_tlp_resources \<Rightarrow> devemu_tlp_resources option" where
  "handle_tlp_req_memory_write env q r = do {
     len \<leftarrow> GET_TLP_REQ_LENGTH env q;
     first_dw_be \<leftarrow> GET_TLP_REQ_FIRST_DW_BE env q;
     last_dw_be \<leftarrow> GET_TLP_REQ_LAST_DW_BE env q;
     fmt \<leftarrow> GET_TLP_REQ_FMT env q;
     (address, off) \<leftarrow> (if (ucast fmt :: u8) = 0x3 then do { a \<leftarrow> parse_64bit_address q; Some (a, 4) }
                       else do { a \<leftarrow> parse_32bit_address q; Some (a, 3) });
     data_array \<leftarrow> copy_payload (tq_header q) off [0..<min (unat len) 16] (replicate 16 0);
     set_memory_write_data address (len * 4) data_array first_dw_be last_dw_be r }"

section \<open>Requests\<close>

definition handle_tlp_req_default ::
  "tlp_env \<Rightarrow> devemu_tlp_resources \<Rightarrow> tlp_cpl \<times> devemu_tlp_resources" where
  "handle_tlp_req_default env r =
     (let r = set_cmpl TLP_FMT_CPL_NODATA 0 TLP_CPL_STATUS_UR r
      in (\<lparr>cp_header = set_tlp_req_completion_header env r 4, cp_data = []\<rparr>, r))"

definition handle_tlp_req ::
  "tlp_env \<Rightarrow> tlp_req \<Rightarrow> devemu_tlp_resources \<Rightarrow> (tlp_completion \<times> devemu_tlp_resources) option" where
  "handle_tlp_req env q r = do {
     ext_reg_num \<leftarrow> GET_TLP_REQ_EXT_REG_NUM env q;
     req_id \<leftarrow> GET_TLP_REQ_REQ_ID env q;
     tag9 \<leftarrow> GET_TLP_REQ_TAG9 env q;
     tag8 \<leftarrow> GET_TLP_REQ_TAG8 env q;
     tag \<leftarrow> GET_TLP_REQ_TAG env q;
     let r = cxt_upd (\<lambda>c. c\<lparr>hc_requester_id := ucast req_id, hc_tag9 := ucast tag9, hc_tag8 := ucast tag8,
                            hc_tag := ucast tag\<rparr>) r;
     tlp_type \<leftarrow> get_tlp_req_type env q;
     non_posted \<leftarrow> is_non_posted_tlp_req env q;
     (if tlp_type = TLP_REQ_TYPE_CONFIG_READ_TYPE_0 then
        (let (cpl, cap_id, valid, pcie, r) = handle_tlp_req_read_type_0 env r ext_reg_num
         in Some (Complete_config_read (rs_cur_func r) cpl valid cap_id pcie, r))
      else if tlp_type = TLP_REQ_TYPE_CONFIG_WRITE_TYPE_0 then do {
        (cpl, cap_id, valid, pcie, r) \<leftarrow> handle_tlp_req_write_type_0 env q r ext_reg_num;
        Some (Complete_config_write (rs_cur_func r) cpl valid cap_id pcie, r) }
      else if tlp_type = TLP_REQ_TYPE_MEMORY_READ then do {
        (cpl, r) \<leftarrow> handle_tlp_req_memory_read env q r;
        Some (Complete_tlp non_posted (rs_cur_func r) cpl, r) }
      else if tlp_type = TLP_REQ_TYPE_MEMORY_WRITE then do {
        r \<leftarrow> handle_tlp_req_memory_write env q r;
        Some (Complete_tlp non_posted (rs_cur_func r) \<lparr>cp_header = [], cp_data = []\<rparr>, r) }
      else
        (let (cpl, r) = handle_tlp_req_default env r
         in Some (Complete_tlp non_posted (rs_cur_func r) cpl, r))) }"

section \<open>Routing\<close>

definition is_vf_enabled :: "devemu_tlp_resources \<Rightarrow> u32 \<Rightarrow> bool" where
  "is_vf_enabled r vf_index \<longleftrightarrow>
     lo16 (sr_reg2 (sriov_of r)) AND 0x0001 \<noteq> 0 \<and> vf_index < ucast (lo16 (sr_reg4 (sriov_of r)))"

text \<open>\<open>&resources->vf[i]\<close>: an index past the array is an error.\<close>

definition vf_ref :: "u32 \<Rightarrow> func_ref option" where
  "vf_ref i = (if i < 7 then Some (Vf (unat i)) else None)"

definition route_config_tlp ::
  "tlp_env \<Rightarrow> tlp_req \<Rightarrow> devemu_tlp_resources \<Rightarrow> (bool \<times> devemu_tlp_resources) option" where
  "route_config_tlp env q r = do {
     bus \<leftarrow> GET_TLP_REQ_BUS env q;
     device \<leftarrow> GET_TLP_REQ_DEVICE env q;
     function \<leftarrow> GET_TLP_REQ_FUNCTION env q;
     let bus = (ucast bus :: u8);
     let device = (ucast device :: u8);
     let func_num = (ucast function :: u8);
     if device \<noteq> 0 then Some (False, r)
     else do {
       target \<leftarrow>
         (if func_num = 0 then Some (Some Pf)
          else let vf_index = ucast func_num - 1 in
               if rs_total_vfs r = 0 \<or> func_num < 1 \<or> vf_index \<ge> ucast (rs_total_vfs r) \<or> \<not> is_vf_enabled r vf_index
               then Some None
               else do { f \<leftarrow> vf_ref vf_index; Some (Some f) });
       case target of
         None \<Rightarrow> Some (False, r)
       | Some f \<Rightarrow>
           let bdf = push_bit 8 (ucast bus) OR push_bit 3 (ucast device) OR ucast func_num;
               r = cxt_upd (\<lambda>c. c\<lparr>hc_bus := bus, hc_device := device, hc_function := func_num, hc_bdf := bdf,
                                  hc_completer_id := bdf\<rparr>) (r\<lparr>rs_cur_func := f\<rparr>)
           in Some (True, r\<lparr>rs_pf := (rs_pf r)\<lparr>fn_cxt := (fn_cxt (rs_pf r))\<lparr>hc_bus := bus\<rparr>\<rparr>\<rparr>) } }"

definition get_mmio_address :: "tlp_env \<Rightarrow> tlp_req \<Rightarrow> u64 option" where
  "get_mmio_address env q = do {
     fmt \<leftarrow> GET_TLP_REQ_FMT env q;
     if (ucast fmt :: u8) = 0x1 \<or> (ucast fmt :: u8) = 0x3 then parse_64bit_address q else parse_32bit_address q }"

text \<open>The target of a memory request; the inner \<^term>\<open>None\<close> is NULL.\<close>

definition route_mmio_tlp ::
  "devemu_tlp_resources \<Rightarrow> u64 \<Rightarrow> (func_ref option \<times> devemu_tlp_resources) option" where
  "route_mmio_tlp r address =
     (if rs_total_vfs r = 0 then Some (Some Pf, r)
      else let bar_size = push_bit layout_log_size 1; base = vf_bar_base r in
        if base \<noteq> 0 \<and> address \<ge> base \<and> address < base + ucast (rs_total_vfs r) * bar_size
        then let vf_index = (ucast ((address - base) div bar_size) :: u32) in do {
          vf \<leftarrow> vf_ref vf_index;
          let func_num = (ucast (1 + vf_index * 1) :: u8);
          if lo16 (sr_reg2 (sriov_of r)) AND 0x0008 = 0 \<or> \<not> is_vf_enabled r vf_index then Some (None, r)
          else Some (Some vf, func_upd vf (\<lambda>f. f\<lparr>fn_cxt := (fn_cxt f)\<lparr>hc_completer_id :=
                 push_bit 8 (ucast (hc_bus (fn_cxt (rs_pf r)))) OR ucast func_num\<rparr>\<rparr>) r) }
        else Some (Some Pf, r))"

section \<open>The request callback\<close>

text \<open>Completion with \<open>Unsupported Request\<close> on behalf of the physical function.\<close>

definition complete_unsupported ::
  "tlp_env \<Rightarrow> bool \<Rightarrow> devemu_tlp_resources \<Rightarrow> tlp_completion \<times> devemu_tlp_resources" where
  "complete_unsupported env non_posted r =
     (let (cpl, r) = handle_tlp_req_default env (r\<lparr>rs_cur_func := Pf\<rparr>) in (Complete_tlp non_posted Pf cpl, r))"

text \<open>\<open>user_data\<close> is the result of reading the user data of the channel; the inner \<^term>\<open>None\<close> is a return
  without completing the request.\<close>

definition tlp_req_handler_cb ::
  "tlp_env \<Rightarrow> doca_error_t \<Rightarrow> tlp_req \<Rightarrow> devemu_tlp_resources \<Rightarrow> (tlp_completion option \<times> devemu_tlp_resources) option" where
  "tlp_req_handler_cb env user_data q r =
     (if user_data \<noteq> DOCA_SUCCESS then Some (None, r)
      else if tq_opcode q = REQ_OPCODE_PCI_EVENT then Some (Some Complete_pci_event, r)
      else do {
        req_type \<leftarrow> get_tlp_req_type env q;
        let r = r\<lparr>rs_cur_func := Pf\<rparr>;
        let done = (\<lambda>(c, r). Some (Some (c :: tlp_completion), r));
        let handle = (\<lambda>r. do { x \<leftarrow> handle_tlp_req env q (set_cmpl 0 0 0 r); done x });
        if req_type = TLP_REQ_TYPE_CONFIG_READ_TYPE_0 \<or> req_type = TLP_REQ_TYPE_CONFIG_WRITE_TYPE_0
        then if rs_is_dsp_bdf_supported r \<noteq> 0 \<and> tq_dsp_id q \<noteq> 0 \<and> tq_dsp_id q < dsp_id_implicit env
          then done (complete_unsupported env True (cxt_upd (\<lambda>c. c\<lparr>hc_completer_id := tq_dsp_bdf q\<rparr>) r))
          else do {
            (found, r) \<leftarrow> route_config_tlp env q r;
            if \<not> found then done (complete_unsupported env True r) else handle r }
        else if req_type = TLP_REQ_TYPE_MEMORY_READ \<or> req_type = TLP_REQ_TYPE_MEMORY_WRITE
        then do {
          address \<leftarrow> get_mmio_address env q;
          (target, r) \<leftarrow> route_mmio_tlp r address;
          case target of
            None \<Rightarrow> do { np \<leftarrow> is_non_posted_tlp_req env q; done (complete_unsupported env np r) }
          | Some f \<Rightarrow> handle (r\<lparr>rs_cur_func := f\<rparr>) }
        else handle r })"

section \<open>Setup\<close>

text \<open>The number of virtual functions given on the command line.\<close>

definition total_vfs_callback :: "int \<Rightarrow> doca_error_t \<times> u16 option" where
  "total_vfs_callback total_vfs =
     (if total_vfs < 0 \<or> total_vfs > 7 then (DOCA_ERROR_INVALID_VALUE, None)
      else (DOCA_SUCCESS, Some (word_of_int total_vfs)))"

text \<open>\<open>mem\<close>: the allocation succeeds.\<close>

definition tlp_init_transaction_region :: "bool \<Rightarrow> u64 \<Rightarrow> devemu_pci_func \<Rightarrow> doca_error_t \<times> devemu_pci_func" where
  "tlp_init_transaction_region mem region_size f =
     (if \<not> mem then (DOCA_ERROR_NO_MEMORY, f\<lparr>fn_cxt := (fn_cxt f)\<lparr>hc_transaction_region_memory := None\<rparr>\<rparr>)
      else (DOCA_SUCCESS, f\<lparr>fn_cxt := (fn_cxt f)\<lparr>
              hc_transaction_region_memory := Some (replicate (unat region_size) 0xAA),
              hc_transaction_region_size := region_size\<rparr>\<rparr>))"

definition tlp_init_exp_bar :: "bool \<Rightarrow> u32 \<Rightarrow> devemu_tlp_resources \<Rightarrow> doca_error_t \<times> devemu_tlp_resources" where
  "tlp_init_exp_bar mem region_size r =
     (let put = (\<lambda>m n. func_upd Pf (\<lambda>f. f\<lparr>fn_cxt := (fn_cxt f)\<lparr>hc_exp_bar_memory := m, hc_exp_bar_size := n\<rparr>\<rparr>) r) in
      if \<not> mem then (DOCA_ERROR_NO_MEMORY, put None (hc_exp_bar_size (fn_cxt (rs_pf r))))
      else (DOCA_SUCCESS, put (Some (replicate (unat region_size) 0xBB)) region_size))"

definition tlp_cleanup_transaction_region :: "devemu_pci_func \<Rightarrow> devemu_pci_func" where
  "tlp_cleanup_transaction_region f =
     (if hc_transaction_region_memory (fn_cxt f) = None then f
      else f\<lparr>fn_cxt := (fn_cxt f)\<lparr>hc_transaction_region_memory := None, hc_transaction_region_size := 0\<rparr>\<rparr>)"

definition tlp_cleanup_exp_bar :: "devemu_tlp_resources \<Rightarrow> devemu_tlp_resources" where
  "tlp_cleanup_exp_bar r =
     (if hc_exp_bar_memory (fn_cxt (rs_pf r)) = None then r
      else func_upd Pf (\<lambda>f. f\<lparr>fn_cxt := (fn_cxt f)\<lparr>hc_exp_bar_memory := None, hc_exp_bar_size := 0\<rparr>\<rparr>) r)"

text \<open>A representor the SDK lists: its type (\<^term>\<open>None\<close> when the query fails), and the answers to opening it,
  to bringing its TLP device up, and to the allocation of its region.\<close>

record vf_rep =
  rp_func_type :: "doca_pci_func_type option"
  rp_open :: doca_error_t
  rp_tlp_dev :: doca_error_t
  rp_mem :: bool

text \<open>What \<open>init_vfs\<close> does with the function once its TLP device is up.\<close>

definition init_vf :: "nat \<Rightarrow> devemu_pci_func \<Rightarrow> devemu_pci_func" where
  "init_vf i f =
     f\<lparr>fn_pci_config_space := header_upd (\<lambda>h. h\<lparr>ch_reg0 := set_hi16 0x10f1 (ch_reg0 h),
           ch_bar := (\<lambda>j. if j < 6 then 0 else ch_bar h j), ch_expansion_rom_base_address := 0\<rparr>)
         (init_pci_config_space 0 (fn_pci_config_space f)),
       fn_cxt := init_tlp_handler_cxt (fn_cxt f)\<rparr>"

fun init_vfs_loop ::
  "vf_rep list \<Rightarrow> nat \<Rightarrow> devemu_tlp_resources \<Rightarrow> (doca_error_t \<times> nat \<times> devemu_tlp_resources) option" where
  "init_vfs_loop [] vf_count r = Some (DOCA_SUCCESS, vf_count, r)"
| "init_vfs_loop (rep # reps) vf_count r =
     (if \<not> vf_count < unat (rs_total_vfs r) then Some (DOCA_SUCCESS, vf_count, r)
      else if rp_func_type rep \<noteq> Some DOCA_PCI_FUNC_TYPE_VF then init_vfs_loop reps vf_count r
      else if \<not> vf_count < 7 then None
      else
        let r = func_upd (Vf vf_count) (\<lambda>f. f\<lparr>fn_func_type := DOCA_PCI_FUNC_TYPE_VF, fn_vf_index := of_nat vf_count\<rparr>) r in
        if rp_open rep \<noteq> DOCA_SUCCESS then Some (rp_open rep, vf_count, r)
        else if rp_tlp_dev rep \<noteq> DOCA_SUCCESS then Some (rp_tlp_dev rep, vf_count, r)
        else
          let (result, f) = tlp_init_transaction_region (rp_mem rep) transaction_size (init_vf vf_count (rs_vf r vf_count));
              r = func_upd (Vf vf_count) (\<lambda>_. f) r
          in if result \<noteq> DOCA_SUCCESS then Some (result, vf_count, r)
             else init_vfs_loop reps (Suc vf_count) r)"

definition init_vfs ::
  "doca_error_t \<Rightarrow> vf_rep list \<Rightarrow> devemu_tlp_resources \<Rightarrow> (doca_error_t \<times> devemu_tlp_resources) option" where
  "init_vfs rep_list_result reps r =
     (if rep_list_result \<noteq> DOCA_SUCCESS then Some (rep_list_result, r)
      else do {
        (result, vf_count, r) \<leftarrow> init_vfs_loop reps 0 r;
        Some (if result \<noteq> DOCA_SUCCESS then (result, r)
              else if vf_count \<noteq> unat (rs_total_vfs r) then (DOCA_ERROR_NOT_FOUND, r) else (DOCA_SUCCESS, r)) })"

record setup_env =
  su_tlp_dev :: doca_error_t
  su_mem :: bool
  su_exp_mem :: bool
  su_rep_list :: doca_error_t
  su_reps :: "vf_rep list"

definition tlp_devices_setup ::
  "setup_env \<Rightarrow> devemu_tlp_resources \<Rightarrow> (doca_error_t \<times> devemu_tlp_resources) option" where
  "tlp_devices_setup su r =
     (if su_tlp_dev su \<noteq> DOCA_SUCCESS then Some (su_tlp_dev su, r)
      else
        let r = func_upd Pf (\<lambda>f. f\<lparr>fn_pci_config_space := init_pci_config_space (rs_total_vfs r) (fn_pci_config_space f),
                                   fn_cxt := init_tlp_handler_cxt (fn_cxt f)\<rparr>) r;
            (result, f) = tlp_init_transaction_region (su_mem su) transaction_size (rs_pf r);
            r = func_upd Pf (\<lambda>_. f) r
        in if result \<noteq> DOCA_SUCCESS then Some (result, r)
           else
             let (result, r) = tlp_init_exp_bar (su_exp_mem su) 0x10000 r
             in if result \<noteq> DOCA_SUCCESS then Some (result, r)
                else if rs_total_vfs r > 0 then init_vfs (su_rep_list su) (su_reps su) r
                else Some (DOCA_SUCCESS, r))"

end
