(* ===== verification/Tlp_Correct.thy ===== *)
theory Tlp_Correct
  imports Tlp_Handler
begin

text \<open>
  Lemmas about the request handlers of \<open>Tlp_Handler\<close>: what every request keeps (the kinds of the functions, the
  sizes of their memories, the read-only registers), that memory accesses stay inside the regions and every complete
  request is completed, what the setup establishes, the effect of a request on the register file a host sees, and the
  identification a completion carries.
\<close>

unbundle bit_operations_syntax

section \<open>What requests keep\<close>

definition cxt_sizes :: "tlp_handler_cxt \<Rightarrow> nat option \<times> u64 \<times> bytes option \<times> u32 \<times> u64" where
  "cxt_sizes c = (map_option length (hc_transaction_region_memory c), hc_transaction_region_size c,
     hc_exp_bar_memory c, hc_exp_bar_size c, hc_bar_region_size c)"

text \<open>The registers that no write changes, the kinds of the functions and the sizes of their memories.\<close>

definition func_keeps :: "devemu_pci_func \<Rightarrow> devemu_pci_func \<Rightarrow> bool" where
  "func_keeps f f' \<longleftrightarrow> fn_func_type f' = fn_func_type f \<and> fn_vf_index f' = fn_vf_index f \<and>
     cxt_sizes (fn_cxt f') = cxt_sizes (fn_cxt f) \<and>
     (\<forall>x. x \<notin> writable \<longrightarrow> cs_value (fn_func_type f) (fn_pci_config_space f') x =
                           cs_value (fn_func_type f) (fn_pci_config_space f) x)"

definition keeps :: "devemu_tlp_resources \<Rightarrow> devemu_tlp_resources \<Rightarrow> bool" where
  "keeps r r' \<longleftrightarrow> rs_total_vfs r' = rs_total_vfs r \<and> (\<forall>f. func_keeps (func_at r f) (func_at r' f))"

lemma func_keeps_refl [simp]: "func_keeps f f"
  by (simp add: func_keeps_def)

lemma func_keeps_trans: "func_keeps f g \<Longrightarrow> func_keeps g h \<Longrightarrow> func_keeps f h"
  by (simp add: func_keeps_def)

lemma keeps_refl [simp, intro]: "keeps r r"
  by (simp add: keeps_def)

lemma keeps_trans [trans]: "keeps r s \<Longrightarrow> keeps s t \<Longrightarrow> keeps r t"
  unfolding keeps_def by (metis func_keeps_trans)

lemma func_at_cur [simp]: "func_at (r\<lparr>rs_cur_func := f\<rparr>) g = func_at r g"
  by (cases g) auto

lemma keeps_cur_func [simp]: "keeps s (r\<lparr>rs_cur_func := f\<rparr>) = keeps s r"
  by (simp add: keeps_def)

lemma keeps_func_upd:
  "keeps s r \<Longrightarrow> func_keeps (func_at r a) (g (func_at r a)) \<Longrightarrow> keeps s (func_upd a g r)"
  using func_keeps_trans by (fastforce simp: keeps_def)

lemma keeps_cxt_upd:
  "keeps s r \<Longrightarrow> cxt_sizes (g (cur_cxt r)) = cxt_sizes (cur_cxt r) \<Longrightarrow> keeps s (cxt_upd g r)"
  unfolding cxt_upd_def by (rule keeps_func_upd) (auto simp: func_keeps_def)

lemma keeps_set_cmpl: "keeps s r \<Longrightarrow> keeps s (set_cmpl a b c r)"
  unfolding set_cmpl_def by (rule keeps_cxt_upd) (auto simp: cxt_sizes_def)

lemma write_sizes:
  "cxt_sizes (fn_cxt (func_at (config_space_header_write_reg1 d m r) f)) = cxt_sizes (fn_cxt (func_at r f))"
  "cxt_sizes (fn_cxt (func_at (config_space_header_write_reg3 d m r) f)) = cxt_sizes (fn_cxt (func_at r f))"
  "cxt_sizes (fn_cxt (func_at (config_space_header_write_bar x d m r) f)) = cxt_sizes (fn_cxt (func_at r f))"
  "cxt_sizes (fn_cxt (func_at (config_space_header_write_reg12 d m r) f)) = cxt_sizes (fn_cxt (func_at r f))"
  "cxt_sizes (fn_cxt (func_at (config_space_cap_pm_write x d m r) f)) = cxt_sizes (fn_cxt (func_at r f))"
  "cxt_sizes (fn_cxt (func_at (config_space_ext_cap_sriov_write x d m r) f)) = cxt_sizes (fn_cxt (func_at r f))"
  "cxt_sizes (fn_cxt (func_at (set_cmpl a b c r) f)) = cxt_sizes (fn_cxt (func_at r f))"
  by (simp_all add: config_space_header_write_reg1_def config_space_header_write_reg3_def
      config_space_header_write_bar_def config_space_header_write_reg12_def config_space_cap_pm_write_def
      config_space_ext_cap_sriov_write_def set_cmpl_def Let_def cxt_sizes_def)

lemma reg_written_sizes:
  "cxt_sizes (fn_cxt (func_at (reg_written x d m r) f)) = cxt_sizes (fn_cxt (func_at r f))"
  by (simp add: reg_written_def config_space_write_def handle_config_space_header_write_def
      handle_config_space_caps_write_def handle_config_space_ext_caps_write_def Let_def write_sizes)

lemma reg_written_read_only:
  assumes "y \<notin> writable"
  shows "reg_value y (reg_written x d m r) = reg_value y r"
proof (cases "y = x")
  case True
  with assms show ?thesis by (simp add: reg_value_eq reg_written_noop)
qed (rule reg_written_other)

lemma keeps_reg_written: "keeps s r \<Longrightarrow> keeps s (reg_written x d m r)"
proof (rule keeps_trans)
  have s: "same_but_cs r (reg_written x d m r)" by (rule reg_written_same)
  have "func_keeps (func_at r f) (func_at (reg_written x d m r) f)" for f
  proof (cases "f = rs_cur_func r")
    case True
    then show ?thesis
      using s reg_written_read_only [of _ x d m r] by (simp add: func_keeps_def reg_written_sizes reg_value_eq same_but_cs_def)
  next
    case False
    then show ?thesis using s by (simp add: same_but_cs_def)
  qed
  then show "keeps r (reg_written x d m r)" using s by (simp add: keeps_def same_but_cs_def)
qed

section \<open>Memory accesses stay inside the regions\<close>

lemma region_params_bounds:
  assumes "region_params base sz address len = Some (offset, n)" and "unat sz < 2 ^ 31"
  shows "address = base + offset" "unat offset < unat sz" "unat address = unat base + unat offset"
    "unat n = (min (unat len) (unat sz - unat offset) + 3) div 4"
proof -
  from assms have g: "base \<le> address" "address < base + sz" and o: "offset = address - base"
    and n: "n = ucast (((if ucast len < sz - offset then ucast len else sz - offset) + 3) div 4)"
    by (auto simp: region_params_def Let_def split: if_splits)
  have u: "unat offset = unat address - unat base" using g(1) by (simp add: o unat_sub)
  then show ad: "unat address = unat base + unat offset" using g(1) by (simp add: word_le_nat_alt)
  show "address = base + offset" by (simp add: o)
  show lt: "unat offset < unat sz"
  proof -
    have "unat address < unat (base + sz)" using g(2) by (simp add: word_less_nat_alt)
    also have "\<dots> \<le> unat base + unat sz" by (simp add: unat_word_ariths)
    finally show ?thesis using ad by simp
  qed
  have d: "unat (sz - offset) = unat sz - unat offset" using lt by (simp add: unat_sub word_le_nat_alt)
  let ?a = "if ucast len < sz - offset then ucast len else sz - offset"
  have l: "unat (ucast len :: u64) = unat len" using unsigned_less [where ?'a = nat, of len] by (simp add: unsigned_ucast_eq take_bit_eq_mod)
  then have a: "unat ?a = min (unat len) (unat sz - unat offset)"
    by (simp add: word_less_nat_alt d min_def)
  then have "unat (?a + 3) = unat ?a + 3" using assms(2) by (subst unat_word_ariths) (simp add: mod_less)
  then have "unat ((?a + 3) div 4) = (unat ?a + 3) div 4" by (simp add: unat_div)
  moreover have "unat ?a < 2 ^ 31" using a assms(2) by linarith
  then have "(unat ?a + 3) div 4 < 2 ^ 32" by simp
  ultimately show "unat n = (min (unat len) (unat sz - unat offset) + 3) div 4"
    using a unfolding n by (simp add: unsigned_ucast_eq take_bit_eq_mod mod_less)
qed

definition region_ok :: "bytes option \<Rightarrow> nat \<Rightarrow> bool" where
  "region_ok mem sz \<longleftrightarrow> 4 dvd sz \<and> sz < 2 ^ 31 \<and> (\<forall>m. mem = Some m \<longrightarrow> length m = sz)"

lemma dword_in_region:
  assumes "4 dvd (sz :: nat)" "4 dvd off" "off < sz" "i < (min len (sz - off) + 3) div 4"
  shows "off + i * 4 + 3 < sz"
proof -
  obtain a b where s: "sz = 4 * a" and o: "off = 4 * b" using assms(1,2) by (auto elim!: dvdE)
  have "(min len (sz - off) + 3) div 4 \<le> (sz - off + 3) div 4" by (intro div_le_mono) simp
  also have "\<dots> = a - b" using s o assms(3) by simp
  finally have "i < a - b" using assms(4) by linarith
  then show ?thesis using s o by simp
qed

lemma read_dword_in: "p + 3 < length m \<Longrightarrow> \<exists>w. read_dword m p be = Some w"
  by (simp add: read_dword_def)

lemma write_dword_in:
  assumes "p + 3 < length m"
  shows "\<exists>m'. write_dword m p be w = Some m' \<and> length m' = length m"
  using assms by (auto simp: write_dword_def wr8_def)

lemma read_dwords_in:
  assumes "\<forall>i \<in> set js. p + i * 4 + 3 < length m \<and> i < length a"
  shows "\<exists>a'. read_dwords m p be js a = Some a' \<and> length a' = length a"
  using assms
proof (induction js arbitrary: a)
  case (Cons i js)
  then obtain w where "read_dword m (p + i * 4) (be i) = Some w" using read_dword_in [of "p + i * 4" m "be i"] by auto
  then show ?case using Cons.IH [of "a[i := w]"] Cons.prems by auto
qed simp

lemma write_dwords_in:
  assumes "\<forall>i \<in> set js. p + i * 4 + 3 < length m \<and> i < length data"
  shows "\<exists>m'. write_dwords data p be js m = Some m' \<and> length m' = length m"
  using assms
proof (induction js arbitrary: m)
  case (Cons i js)
  then obtain m' where m: "write_dword m (p + i * 4) (be i) (data ! i) = Some m'" "length m' = length m"
    using write_dword_in [of "p + i * 4" m "be i" "data ! i"] by auto
  with Cons.IH [of m'] Cons.prems show ?case by auto
qed simp

lemma rd32le_in: "i + 4 \<le> length b \<Longrightarrow> rd32le b i = Some (mk8 (b ! i) (b ! (i + 1)) (b ! (i + 2)) (b ! (i + 3)))"
  by (simp add: rd32le_def)

lemma copy_payload_in:
  assumes "\<forall>i \<in> set js. 4 * (off + i) + 4 \<le> length h \<and> i < length a"
  shows "\<exists>a'. copy_payload h off js a = Some a' \<and> length a' = length a"
  using assms
proof (induction js arbitrary: a)
  case (Cons i js)
  let ?w = "mk8 (h ! (4 * (off + i))) (h ! (4 * (off + i) + 1)) (h ! (4 * (off + i) + 2)) (h ! (4 * (off + i) + 3))"
  from Cons show ?case using Cons.IH [of "a[i := ?w]"] by (simp add: rd32le_in)
qed simp

lemma dummy_dwords_in:
  assumes "\<forall>i \<in> set js. i < length a"
  shows "\<exists>a'. dummy_dwords js a = Some a' \<and> length a' = length a"
  using assms
proof (induction js arbitrary: a)
  case (Cons i js)
  then show ?case using Cons.IH [of "a[i := 0xDEADBEE0 + of_nat i]"] by simp
qed simp

text \<open>Addresses and bases are multiples of 4.\<close>

lemma dvd4_iff: "4 dvd unat (w :: u64) \<longleftrightarrow> take_bit 2 w = 0"
proof -
  have "unat (take_bit 2 w) = unat w mod 4" by (simp only: unsigned_take_bit_eq) (simp add: take_bit_eq_mod)
  then show ?thesis by (metis mod_0_imp_dvd dvd_imp_mod_0 unat_0 unat_eq_zero)
qed

lemma low_bits_0: "take_bit 2 w = 0 \<longleftrightarrow> \<not> bit (w :: u64) 0 \<and> \<not> bit w 1"
proof
  assume "take_bit 2 w = 0"
  then have "\<not> bit (take_bit 2 w) 0" "\<not> bit (take_bit 2 w) 1" by simp_all
  then show "\<not> bit w 0 \<and> \<not> bit w 1" by (simp add: bit_take_bit_iff)
qed (auto intro!: bit_word_eqI simp: bit_simps less_2_cases_iff)

lemma parsed_address_aligned:
  "parse_64bit_address q = Some a \<Longrightarrow> 4 dvd unat a" "parse_32bit_address q = Some a \<Longrightarrow> 4 dvd unat a"
proof -
  have e: "(0xFFFFFFFC :: u32) = NOT (mask 2)" by (simp add: mask_eq_exp_minus_1)
  have "take_bit 2 (ucast (w AND 0xFFFFFFFC) :: u64) = 0"
    "take_bit 2 (push_bit 32 h OR ucast (w AND 0xFFFFFFFC) :: u64) = 0" for w :: u32 and h
    unfolding e low_bits_0 by (simp_all add: bit_simps)
  then show "parse_64bit_address q = Some a \<Longrightarrow> 4 dvd unat a" "parse_32bit_address q = Some a \<Longrightarrow> 4 dvd unat a"
    by (auto simp: parse_64bit_address_def parse_32bit_address_def Some_bind_iff dvd4_iff)
qed

lemma dvd4_offset: "4 dvd unat a \<Longrightarrow> 4 dvd unat b \<Longrightarrow> unat a = unat b + k \<Longrightarrow> 4 dvd k"
  by (simp add: dvd_add_right_iff)

lemma bar_base_aligned:
  "4 dvd unat (push_bit 32 h OR ucast (w AND 0xFFFFFFF0) :: u64)" "4 dvd unat (ucast ((w :: u32) AND 0xFFFFF800) :: u64)"
proof -
  have e: "(0xFFFFFFF0 :: u32) = NOT (mask 4)" "(0xFFFFF800 :: u32) = NOT (mask 11)" by (simp_all add: mask_eq_exp_minus_1)
  show "4 dvd unat (push_bit 32 h OR ucast (w AND 0xFFFFFFF0) :: u64)" "4 dvd unat (ucast ((w :: u32) AND 0xFFFFF800) :: u64)"
    unfolding dvd4_iff e low_bits_0 by (simp_all add: bit_simps)
qed

lemma dvd4_add: "4 dvd unat (a :: u64) \<Longrightarrow> 4 dvd unat b \<Longrightarrow> 4 dvd unat (a + b)"
  by (simp add: unat_word_ariths dvd_mod)

lemma dvd4_mult: "4 dvd unat (b :: u64) \<Longrightarrow> 4 dvd unat (a * b)"
  by (simp add: unat_word_ariths dvd_mod)

lemma get_func_bar0_base_aligned: "4 dvd unat (get_func_bar0_base r)"
  unfolding get_func_bar0_base_def vf_bar_base_def
  by (auto intro!: dvd4_add dvd4_mult bar_base_aligned)

section \<open>Every request is completed\<close>

definition regions_ok :: "tlp_handler_cxt \<Rightarrow> bool" where
  "regions_ok c \<longleftrightarrow> region_ok (hc_transaction_region_memory c) (unat (hc_transaction_region_size c)) \<and>
     region_ok (hc_exp_bar_memory c) (unat (hc_exp_bar_size c))"

definition tlp_inv :: "devemu_tlp_resources \<Rightarrow> bool" where
  "tlp_inv r \<longleftrightarrow> rs_total_vfs r \<le> 7 \<and> fn_func_type (rs_pf r) = DOCA_PCI_FUNC_TYPE_PF \<and>
     (\<forall>i < unat (rs_total_vfs r). fn_func_type (rs_vf r i) = DOCA_PCI_FUNC_TYPE_VF \<and> fn_vf_index (rs_vf r i) = of_nat i) \<and>
     (\<forall>f. regions_ok (fn_cxt (func_at r f)))"

lemma regions_ok_sizes: "cxt_sizes c' = cxt_sizes c \<Longrightarrow> regions_ok c' = regions_ok c"
  by (auto simp: cxt_sizes_def regions_ok_def region_ok_def map_option_case split: option.splits)

lemma keeps_inv:
  assumes "keeps r r'" "tlp_inv r"
  shows "tlp_inv r'"
proof -
  have k: "func_keeps (func_at r f) (func_at r' f)" for f using assms(1) by (simp add: keeps_def)
  have "regions_ok (fn_cxt (func_at r' f)) = regions_ok (fn_cxt (func_at r f))" for f
    using k [of f] by (intro regions_ok_sizes) (simp add: func_keeps_def)
  moreover have "rs_total_vfs r' = rs_total_vfs r" using assms(1) by (simp add: keeps_def)
  moreover have "fn_func_type (rs_pf r') = fn_func_type (rs_pf r)" using k [of Pf] by (simp add: func_keeps_def)
  moreover have "fn_func_type (rs_vf r' i) = fn_func_type (rs_vf r i) \<and> fn_vf_index (rs_vf r' i) = fn_vf_index (rs_vf r i)" for i
    using k [of "Vf i"] by (simp add: func_keeps_def)
  ultimately show ?thesis using assms(2) by (simp add: tlp_inv_def)
qed

lemma tlp_inv_cur [simp]: "tlp_inv (r\<lparr>rs_cur_func := f\<rparr>) = tlp_inv r"
  by (simp add: tlp_inv_def)

lemma tlp_inv_regions: "tlp_inv r \<Longrightarrow> regions_ok (cur_cxt r)"
  by (simp add: tlp_inv_def)

lemma region_access:
  assumes "region_params base sz address len = Some (offset, n)" "region_ok (Some m) (unat sz)"
    "4 dvd unat address" "4 dvd unat base" "i < unat n"
  shows "unat offset + i * 4 + 3 < length m \<and> i < (unat len + 3) div 4"
proof -
  have ok: "unat sz < 2 ^ 31" "4 dvd unat sz" "length m = unat sz" using assms(2) by (auto simp: region_ok_def)
  note b = region_params_bounds [OF assms(1) ok(1)]
  have "4 dvd unat offset" using dvd4_offset [OF assms(3,4) b(3)] .
  from dword_in_region [OF ok(2) this b(2) assms(5) [unfolded b(4)]] ok(3)
  have "unat offset + i * 4 + 3 < length m" by simp
  moreover have "(min (unat len) (unat sz - unat offset) + 3) div 4 \<le> (unat len + 3) div 4" by (intro div_le_mono) simp
  ultimately show ?thesis using assms(5) b(4) by linarith
qed

lemma evaluate_access:
  assumes "evaluate_transaction_operation_params address len r = Some (offset, n, m) \<or>
           evaluate_exp_bar_operation_params address len r = Some (offset, n, m)"
    "tlp_inv r" "4 dvd unat address" "i < unat n"
  shows "unat offset + i * 4 + 3 < length m \<and> i < (unat len + 3) div 4"
  using assms(1)
proof
  assume "evaluate_transaction_operation_params address len r = Some (offset, n, m)"
  then have "region_params (get_func_bar0_base r + transaction_start_address)
      (hc_transaction_region_size (cur_cxt r)) address len = Some (offset, n)"
    "hc_transaction_region_memory (cur_cxt r) = Some m"
    by (auto simp: evaluate_transaction_operation_params_def Some_bind_iff split: option.splits if_splits)
  moreover have "4 dvd unat (get_func_bar0_base r + transaction_start_address)"
    by (rule dvd4_add [OF get_func_bar0_base_aligned]) simp
  ultimately show ?thesis
    using region_access tlp_inv_regions [OF assms(2)] assms(3,4) by (metis regions_ok_def)
next
  assume "evaluate_exp_bar_operation_params address len r = Some (offset, n, m)"
  then have "region_params (ucast (ch_expansion_rom_base_address (cur_header r) AND 0xFFFFF800))
      (ucast (hc_exp_bar_size (cur_cxt r))) address len = Some (offset, n)"
    "hc_exp_bar_memory (cur_cxt r) = Some m"
    by (auto simp: evaluate_exp_bar_operation_params_def Some_bind_iff split: option.splits if_splits)
  moreover have "unat (ucast (hc_exp_bar_size (cur_cxt r)) :: u64) = unat (hc_exp_bar_size (cur_cxt r))"
    using unsigned_less [where ?'a = nat, of "hc_exp_bar_size (cur_cxt r)"] by (simp add: unsigned_ucast_eq take_bit_eq_mod)
  ultimately show ?thesis
    using region_access [OF _ _ assms(3) bar_base_aligned(2) assms(4)] tlp_inv_regions [OF assms(2)]
    by (metis regions_ok_def)
qed

lemma get_memory_read_data_returns:
  assumes "tlp_inv r" "4 dvd unat address"
  shows "returns (get_memory_read_data address len fbe lbe r) (\<lambda>(arr, r'). keeps r r' \<and> rs_cur_func r' = rs_cur_func r \<and>
     unat (hc_cmpl_length (cur_cxt r')) \<le> length arr)"
proof -
  let ?p = "case evaluate_transaction_operation_params address len r of
              Some x \<Rightarrow> Some x | None \<Rightarrow> evaluate_exp_bar_operation_params address len r"
  let ?n = "unat (if len div 4 > 5 then 5 else len div 4)"
  have five: "?n \<le> 5" by (simp add: word_less_nat_alt)
  then have n5: "clear_dwords ?n (replicate 5 0) = Some (replicate 5 0)"
    by (simp add: clear_dwords_def replicate_add [symmetric] del: replicate.simps)
  have "\<exists>a. read_dwords m (unat offset) be [0..<min (unat n) ?n] (replicate 5 0) = Some a \<and> length a = 5"
    if "?p = Some (offset, n, m)" for offset n m be
  proof -
    have "evaluate_transaction_operation_params address len r = Some (offset, n, m) \<or>
          evaluate_exp_bar_operation_params address len r = Some (offset, n, m)"
      using that by (auto split: option.splits)
    from evaluate_access [OF this assms] have "\<forall>i \<in> set [0..<min (unat n) ?n]. unat offset + i * 4 + 3 < length m \<and> i < length (replicate 5 (0 :: u32))"
      using five by simp
    from read_dwords_in [OF this] show ?thesis by auto
  qed
  note rd = this
  have k: "keeps r (set_cmpl a b c r)" for a b c by (rule keeps_set_cmpl) simp
  have l: "unat (hc_cmpl_length (cur_cxt (set_cmpl a (of_nat ?n) c r))) \<le> 5" for a c
  proof -
    have "hc_cmpl_length (cur_cxt (set_cmpl a x c r)) = x" for x by (simp add: set_cmpl_def)
    then show ?thesis using five by (simp only: unsigned_of_nat) (simp add: take_bit_eq_mod)
  qed
  show ?thesis
  proof (cases ?p)
    case None
    obtain a where "dummy_dwords [0..<?n] (replicate 5 0) = Some a" "length a = 5"
      using dummy_dwords_in [of "[0..<?n]" "replicate 5 0"] five by auto
    with None l show ?thesis unfolding get_memory_read_data_def Let_def None n5 by (auto simp: returns_def k)
  next
    case (Some p)
    then obtain offset n m where p: "?p = Some (offset, n, m)" by (cases p) auto
    from rd [OF p, of "\<lambda>dw_idx. get_dword_byte_enable_mask dw_idx ?n fbe lbe"]
    obtain a where "read_dwords m (unat offset) (\<lambda>dw_idx. get_dword_byte_enable_mask dw_idx ?n fbe lbe)
        [0..<min (unat n) ?n] (replicate 5 0) = Some a" "length a = 5" by blast
    with l show ?thesis unfolding get_memory_read_data_def Let_def p n5 by (auto simp: returns_def k)
  qed
qed

lemma set_memory_write_data_returns:
  assumes "tlp_inv r" "4 dvd unat address" "unat len \<le> 4 * length data"
  shows "returns (set_memory_write_data address len data fbe lbe r) (\<lambda>r'. keeps r r' \<and> rs_cur_func r' = rs_cur_func r)"
proof (cases "evaluate_transaction_operation_params address len r")
  case None
  then show ?thesis by (simp add: set_memory_write_data_def returns_def)
next
  case (Some p)
  then obtain offset n m where e: "evaluate_transaction_operation_params address len r = Some (offset, n, m)"
    by (cases p) auto
  have "\<forall>i \<in> set [0..<unat n]. unat offset + i * 4 + 3 < length m \<and> i < length data"
  proof
    fix i assume "i \<in> set [0..<unat n]"
    then have "unat offset + i * 4 + 3 < length m \<and> i < (unat len + 3) div 4"
      using evaluate_access [OF disjI1 [OF e] assms(1,2)] by simp
    moreover have "(unat len + 3) div 4 \<le> length data" using assms(3) by linarith
    ultimately show "unat offset + i * 4 + 3 < length m \<and> i < length data" by linarith
  qed
  from write_dwords_in [OF this] obtain m' where
    w: "write_dwords data (unat offset) (\<lambda>dw_idx. get_dword_byte_enable_mask dw_idx (unat n) fbe lbe) [0..<unat n] m = Some m'"
      "length m' = length m" by blast
  have "hc_transaction_region_memory (cur_cxt r) = Some m"
    using e by (auto simp: evaluate_transaction_operation_params_def Some_bind_iff split: option.splits if_splits)
  with w(2) have "keeps r (set_cmpl 0 0 0 (cxt_upd (\<lambda>c. c\<lparr>hc_transaction_region_memory := Some m'\<rparr>) r))"
    by (intro keeps_set_cmpl keeps_cxt_upd) (simp_all add: cxt_sizes_def)
  with e w(1) show ?thesis by (simp add: set_memory_write_data_def returns_def)
qed

text \<open>The documented behaviour of the bit-field macros.\<close>

definition bitfield_documented :: "tlp_env \<Rightarrow> bool" where
  "bitfield_documented env \<longleftrightarrow>
     (\<forall>h l w. l \<le> h \<longrightarrow> h < 32 \<longrightarrow> be32_get env h l w = take_bit (h - l + 1) (drop_bit l w)) \<and>
     (\<forall>h l v w. l \<le> h \<longrightarrow> h < 32 \<longrightarrow>
        (\<forall>n < 32. bit (be32_set env h l v w) n = (if l \<le> n \<and> n \<le> h then bit v (n - l) else bit w n)))"

text \<open>A complete request: the whole header is there, with the data a write carries, at most 16 double words.\<close>

definition wide_address :: "u32 \<Rightarrow> bool" where
  "wide_address fmt \<longleftrightarrow> (ucast fmt :: u8) = 1 \<or> (ucast fmt :: u8) = 3"

definition complete_req :: "tlp_env \<Rightarrow> tlp_req \<Rightarrow> bool" where
  "complete_req env q \<longleftrightarrow> 12 \<le> length (tq_header q) \<and>
     (case (get_tlp_req_type env q, GET_TLP_REQ_FMT env q, GET_TLP_REQ_LENGTH env q) of
        (Some ty, Some fmt, Some len) \<Rightarrow>
          let off = (if wide_address fmt then 4 else 3) in
          (ty = TLP_REQ_TYPE_MEMORY_READ \<longrightarrow> 4 * off \<le> length (tq_header q)) \<and>
          (ty = TLP_REQ_TYPE_MEMORY_WRITE \<longrightarrow> len \<le> 16 \<and> 4 * (off + unat len) \<le> length (tq_header q)) \<and>
          (ty = TLP_REQ_TYPE_CONFIG_WRITE_TYPE_0 \<longrightarrow> 4 \<le> length (tq_data q))
      | _ \<Rightarrow> False)"

lemma hdr_in:
  assumes "12 \<le> length (tq_header q)"
  shows "\<exists>w. GET_TLP_REQ_FMT env q = Some w" "\<exists>w. GET_TLP_REQ_TYPE env q = Some w"
    "\<exists>w. GET_TLP_REQ_TAG9 env q = Some w" "\<exists>w. GET_TLP_REQ_TAG8 env q = Some w"
    "\<exists>w. GET_TLP_REQ_LENGTH env q = Some w" "\<exists>w. GET_TLP_REQ_REQ_ID env q = Some w"
    "\<exists>w. GET_TLP_REQ_TAG env q = Some w" "\<exists>w. GET_TLP_REQ_LAST_DW_BE env q = Some w"
    "\<exists>w. GET_TLP_REQ_FIRST_DW_BE env q = Some w" "\<exists>w. GET_TLP_REQ_BUS env q = Some w"
    "\<exists>w. GET_TLP_REQ_DEVICE env q = Some w" "\<exists>w. GET_TLP_REQ_FUNCTION env q = Some w"
    "\<exists>w. GET_TLP_REQ_EXT_REG_NUM env q = Some w"
  using assms by (simp_all add: hdr_defs hdr_field_def rd_simps)

lemma get_tlp_req_type_in:
  assumes "12 \<le> length (tq_header q)"
  shows "\<exists>ty. get_tlp_req_type env q = Some ty"
  using hdr_in(1,2) [OF assms, of env] by (auto simp: get_tlp_req_type_def Let_def)

lemma parse_address_in:
  "12 \<le> length (tq_header q) \<Longrightarrow> \<exists>a. parse_32bit_address q = Some a"
  "16 \<le> length (tq_header q) \<Longrightarrow> \<exists>a. parse_64bit_address q = Some a"
  by (simp_all add: parse_32bit_address_def parse_64bit_address_def rd_simps)

lemma first_dw_be_small:
  assumes "bitfield_documented env" "GET_TLP_REQ_FIRST_DW_BE env q = Some be"
  shows "\<exists>m. map_first_dw_be_to_mask be = Some m"
proof -
  from assms obtain w where "be = take_bit 4 w"
    by (auto simp: GET_TLP_REQ_FIRST_DW_BE_def hdr_field_def Some_bind_iff bitfield_documented_def)
  then have "unat be < 16" by (simp only: unsigned_take_bit_eq) (simp add: take_bit_eq_mod)
  then show ?thesis by (simp add: map_first_dw_be_to_mask_def Let_def word_less_nat_alt)
qed

lemma reg_read_state: "snd (snd (snd (snd (config_space_read x r)))) = set_cmpl TLP_FMT_CPL_W_DATA 1 TLP_CPL_STATUS_SC r \<or>
    snd (snd (snd (snd (config_space_read x r)))) = r"
  by (simp add: config_space_read_def handle_config_space_header_read_def handle_config_space_caps_read_def
      handle_config_space_ext_caps_read_def Let_def prod.case_distrib [of snd] case_prod_beta)

lemma keeps_config_read:
  assumes "config_space_read x r = (d, c, v, p, r')"
  shows "keeps r r' \<and> rs_cur_func r' = rs_cur_func r"
  using reg_read_state [of x r] assms by (auto intro: keeps_set_cmpl)

lemma keeps_config_write:
  assumes "config_space_write x d m r = (c, v, p, r')"
  shows "keeps r r' \<and> rs_cur_func r' = rs_cur_func r"
proof -
  have "r' = reg_written x d m r" by (simp add: reg_written_def assms)
  then show ?thesis by (simp add: keeps_reg_written)
qed

lemma memory_read_returns:
  assumes "tlp_inv r" "complete_req env q" "get_tlp_req_type env q = Some TLP_REQ_TYPE_MEMORY_READ"
  shows "returns (handle_tlp_req_memory_read env q r) (\<lambda>(c, r'). keeps r r' \<and> rs_cur_func r' = rs_cur_func r)"
proof -
  have l: "12 \<le> length (tq_header q)" using assms(2) by (simp add: complete_req_def)
  obtain len fbe lbe fmt where h: "GET_TLP_REQ_LENGTH env q = Some len" "GET_TLP_REQ_FIRST_DW_BE env q = Some fbe"
    "GET_TLP_REQ_LAST_DW_BE env q = Some lbe" "GET_TLP_REQ_FMT env q = Some fmt"
    using hdr_in(1,5,8,9) [OF l, of env] by blast
  obtain a where a: "(if (ucast fmt :: u8) = 0x1 then parse_64bit_address q else parse_32bit_address q) = Some a" "4 dvd unat a"
  proof (cases "(ucast fmt :: u8) = 1")
    case True
    with assms(2,3) h have "16 \<le> length (tq_header q)" by (simp add: complete_req_def wide_address_def)
    with True that show ?thesis using parse_address_in(2) parsed_address_aligned by fastforce
  next
    case False
    with that l show ?thesis using parse_address_in(1) parsed_address_aligned by fastforce
  qed
  from get_memory_read_data_returns [OF assms(1) a(2), of "len * 4" fbe lbe]
  show ?thesis unfolding handle_tlp_req_memory_read_def h Option.bind_lunit a(1)
    by (auto simp: returns_def Let_def)
qed

lemma memory_write_returns:
  assumes "tlp_inv r" "complete_req env q" "get_tlp_req_type env q = Some TLP_REQ_TYPE_MEMORY_WRITE"
  shows "returns (handle_tlp_req_memory_write env q r) (\<lambda>r'. keeps r r' \<and> rs_cur_func r' = rs_cur_func r)"
proof -
  have l: "12 \<le> length (tq_header q)" using assms(2) by (simp add: complete_req_def)
  obtain len fbe lbe fmt where h: "GET_TLP_REQ_LENGTH env q = Some len" "GET_TLP_REQ_FIRST_DW_BE env q = Some fbe"
    "GET_TLP_REQ_LAST_DW_BE env q = Some lbe" "GET_TLP_REQ_FMT env q = Some fmt"
    using hdr_in(1,5,8,9) [OF l, of env] by blast
  let ?p = "if (ucast fmt :: u8) = 0x3 then do { a \<leftarrow> parse_64bit_address q; Some (a, 4) }
            else do { a \<leftarrow> parse_32bit_address q; Some (a, 3) }"
  have len: "len \<le> 16" using assms(2,3) h by (simp add: complete_req_def Let_def)
  obtain a off where a: "?p = Some (a, off)" "4 dvd unat a" "4 * (off + unat len) \<le> length (tq_header q)"
  proof (cases "(ucast fmt :: u8) = 3")
    case True
    with assms(2,3) h have "4 * (4 + unat len) \<le> length (tq_header q)" by (simp add: complete_req_def wide_address_def)
    moreover obtain a where "parse_64bit_address q = Some a" using parse_address_in(2) [of q] calculation by auto
    ultimately show ?thesis using that True parsed_address_aligned by simp
  next
    case False
    with assms(2,3) h have "4 * (3 + unat len) \<le> length (tq_header q)"
      by (auto simp: complete_req_def wide_address_def Let_def split: if_splits)
    moreover obtain a where "parse_32bit_address q = Some a" using parse_address_in(1) [of q] l by auto
    ultimately show ?thesis using that False parsed_address_aligned by simp
  qed
  have u: "unat len \<le> 16" using len by (simp add: word_le_nat_alt)
  then have "\<forall>i \<in> set [0..<min (unat len) 16]. 4 * (off + i) + 4 \<le> length (tq_header q) \<and> i < length (replicate 16 (0 :: u32))"
    using a(3) by auto
  from copy_payload_in [OF this] obtain arr where
    arr: "copy_payload (tq_header q) off [0..<min (unat len) 16] (replicate 16 0) = Some arr" "length arr = 16"
    by (metis length_replicate)
  have "unat (len * 4) \<le> 4 * length arr" using u arr(2) by (simp add: unat_word_ariths)
  from set_memory_write_data_returns [OF assms(1) a(2) this, of fbe lbe]
  show ?thesis unfolding handle_tlp_req_memory_write_def h Option.bind_lunit a(1) by (simp add: arr(1))
qed

lemma handle_tlp_req_returns:
  assumes "tlp_inv r" "complete_req env q" "bitfield_documented env"
  shows "returns (handle_tlp_req env q r) (\<lambda>(c, r'). keeps r r')"
proof -
  have l: "12 \<le> length (tq_header q)" using assms(2) by (simp add: complete_req_def)
  obtain x req_id tag9 tag8 tag where h: "GET_TLP_REQ_EXT_REG_NUM env q = Some x" "GET_TLP_REQ_REQ_ID env q = Some req_id"
    "GET_TLP_REQ_TAG9 env q = Some tag9" "GET_TLP_REQ_TAG8 env q = Some tag8" "GET_TLP_REQ_TAG env q = Some tag"
    using hdr_in(3,4,6,7,13) [OF l, of env] by blast
  obtain ty where ty: "get_tlp_req_type env q = Some ty" using get_tlp_req_type_in [OF l] by blast
  define r1 where "r1 = cxt_upd (\<lambda>c. c\<lparr>hc_requester_id := ucast req_id, hc_tag9 := ucast tag9,
    hc_tag8 := ucast tag8, hc_tag := ucast tag\<rparr>) r"
  have k: "keeps r r1" unfolding r1_def by (rule keeps_cxt_upd) (simp_all add: cxt_sizes_def)
  have inv: "tlp_inv r1" by (rule keeps_inv [OF k assms(1)])
  have np: "is_non_posted_tlp_req env q = Some (ty \<noteq> TLP_REQ_TYPE_INVALID \<and> ty \<noteq> TLP_REQ_TYPE_MEMORY_WRITE)"
    by (simp add: is_non_posted_tlp_req_def ty)
  have cfg_write: "returns (handle_tlp_req_write_type_0 env q r1 x) (\<lambda>(c, i, v, p, r'). keeps r1 r')"
    if "ty = TLP_REQ_TYPE_CONFIG_WRITE_TYPE_0"
  proof -
    obtain be m where "GET_TLP_REQ_FIRST_DW_BE env q = Some be" "map_first_dw_be_to_mask be = Some m"
      using hdr_in(9) [OF l, of env] first_dw_be_small [OF assms(3)] by blast
    moreover have "4 \<le> length (tq_data q)" using assms(2) that ty
      by (auto simp: complete_req_def Let_def split: option.splits)
    ultimately show ?thesis
      by (auto simp: handle_tlp_req_write_type_0_def rd32le_in returns_def Let_def dest: keeps_config_write split: prod.splits)
  qed
  have d: "keeps r1 (snd (handle_tlp_req_default env r1))"
    by (simp add: handle_tlp_req_default_def Let_def keeps_set_cmpl)
  show ?thesis
    unfolding handle_tlp_req_def h ty np Option.bind_lunit Let_def [of "cxt_upd _ _"] r1_def [symmetric]
    using cfg_write memory_read_returns [OF inv assms(2)] memory_write_returns [OF inv assms(2)] ty d
    by (auto simp: handle_tlp_req_read_type_0_def returns_def dest!: keeps_config_read
        intro!: keeps_trans [OF k] split: prod.splits)
qed


text \<open>The functions that can be addressed: the physical function and the enabled virtual functions.\<close>

definition routable :: "devemu_tlp_resources \<Rightarrow> func_ref \<Rightarrow> bool" where
  "routable r f = (case f of Pf \<Rightarrow> True | Vf i \<Rightarrow> i < unat (rs_total_vfs r) \<and> is_vf_enabled r (of_nat i))"

lemma vf_ref_in:
  assumes "i < ucast (n :: u16)" "n \<le> 7"
  shows "vf_ref i = Some (Vf (unat i))" "unat i < unat n" "unat i < 7"
proof -
  have u: "unat (ucast n :: u32) = unat n"
    using unsigned_less [where ?'a = nat, of n] by (simp add: unsigned_ucast_eq take_bit_eq_mod)
  then show "unat i < unat n" using assms(1) by (simp add: word_less_nat_alt)
  then show "unat i < 7" using assms(2) by (simp add: word_le_nat_alt)
  then show "vf_ref i = Some (Vf (unat i))" by (simp add: vf_ref_def word_less_nat_alt)
qed

lemma route_config_tlp_returns:
  assumes "tlp_inv r" "12 \<le> length (tq_header q)"
  shows "returns (route_config_tlp env q r) (\<lambda>(found, r'). keeps r r' \<and> (found \<longrightarrow> routable r (rs_cur_func r')))"
proof -
  obtain bus device func where h: "GET_TLP_REQ_BUS env q = Some bus" "GET_TLP_REQ_DEVICE env q = Some device"
    "GET_TLP_REQ_FUNCTION env q = Some func"
    using hdr_in(10,11,12) [OF assms(2), of env] by blast
  have vfs: "rs_total_vfs r \<le> 7" using assms(1) by (simp add: tlp_inv_def)
  have k: "keeps r (s\<lparr>rs_pf := (rs_pf s)\<lparr>fn_cxt := (fn_cxt (rs_pf s))\<lparr>hc_bus := b\<rparr>\<rparr>\<rparr>)" if "keeps r s" for s b
    using keeps_func_upd [OF that, of Pf "\<lambda>p. p\<lparr>fn_cxt := (fn_cxt p)\<lparr>hc_bus := b\<rparr>\<rparr>"]
    by (simp add: func_keeps_def cxt_sizes_def)
  have k2: "keeps r (cxt_upd (\<lambda>c. c\<lparr>hc_bus := b, hc_device := d, hc_function := f, hc_bdf := x, hc_completer_id := y\<rparr>)
      (r\<lparr>rs_cur_func := g\<rparr>))" for b d f x y g
    by (rule keeps_cxt_upd) (simp_all add: cxt_sizes_def)
  have vf: "vf_ref i = Some (Vf (unat i)) \<and> routable r (Vf (unat i))"
    if "\<not> ucast (rs_total_vfs r) \<le> i" "is_vf_enabled r i" for i
    using that vf_ref_in [OF _ vfs, of i] by (simp add: routable_def not_le)
  show ?thesis
    unfolding route_config_tlp_def h Option.bind_lunit Let_def
    using vf by (auto simp: returns_def k k2 routable_def)
qed

text \<open>Offsets into the window of the virtual functions.\<close>

lemma ucast_vfs: "unat (ucast (n :: u16) :: u64) = unat n"
  using unsigned_less [where ?'a = nat, of n] by (simp add: unsigned_ucast_eq take_bit_eq_mod)

lemma vf_window_size:
  assumes "(n :: u16) \<le> 7"
  shows "unat (ucast n * push_bit 14 1 :: u64) = unat n * 2 ^ 14"
proof -
  have "unat n \<le> 7" using assms by (simp add: word_le_nat_alt)
  then show ?thesis by (simp add: unat_word_ariths ucast_vfs push_bit_eq_mult)
qed

lemma vf_window_index:
  assumes "base \<le> address" "address < base + ucast n * (push_bit 14 1 :: u64)" "(n :: u16) \<le> 7"
  shows "unat address = unat base + unat (address - base)" "unat (address - base) < unat n * 2 ^ 14"
    "unat (ucast ((address - base) div push_bit 14 1) :: u32) = unat (address - base) div 2 ^ 14"
    "(ucast ((address - base) div push_bit 14 1) :: u32) < ucast n"
proof -
  show a: "unat address = unat base + unat (address - base)" using assms(1) by (simp add: unat_sub word_le_nat_alt)
  have "unat address < unat (base + ucast n * push_bit 14 1)" using assms(2) by (simp add: word_less_nat_alt)
  also have "\<dots> \<le> unat base + unat n * 2 ^ 14"
    using vf_window_size [OF assms(3)] by (simp add: unat_word_ariths)
  finally show lt: "unat (address - base) < unat n * 2 ^ 14" using a by simp
  have "unat ((address - base) div push_bit 14 1) = unat (address - base) div 2 ^ 14"
    by (simp add: unat_div push_bit_eq_mult)
  moreover have "unat (address - base) div 2 ^ 14 < unat n" using lt by (simp add: less_mult_imp_div_less)
  moreover have "unat n \<le> 7" using assms(3) by (simp add: word_le_nat_alt)
  ultimately show u: "unat (ucast ((address - base) div push_bit 14 1) :: u32) = unat (address - base) div 2 ^ 14"
    by (simp add: unsigned_ucast_eq take_bit_eq_mod)
  have "unat (ucast n :: u32) = unat n"
    using unsigned_less [where ?'a = nat, of n] by (simp add: unsigned_ucast_eq take_bit_eq_mod)
  then show "(ucast ((address - base) div push_bit 14 1) :: u32) < ucast n"
    using u \<open>unat (address - base) div 2 ^ 14 < unat n\<close> by (simp add: word_less_nat_alt)
qed

lemma route_mmio_tlp_returns:
  assumes "tlp_inv r"
  shows "returns (route_mmio_tlp r address) (\<lambda>(target, r'). keeps r r' \<and> (\<forall>f. target = Some f \<longrightarrow> routable r f))"
proof -
  have vfs: "rs_total_vfs r \<le> 7" using assms by (simp add: tlp_inv_def)
  have vf: "vf_ref i = Some (Vf (unat i)) \<and> (is_vf_enabled r i \<longrightarrow> routable r (Vf (unat i)))"
    if "i = ucast ((address - vf_bar_base r) div push_bit 14 1)" "vf_bar_base r \<le> address"
       "address < vf_bar_base r + ucast (rs_total_vfs r) * push_bit 14 1" for i
    using vf_ref_in [OF _ vfs, of i] vf_window_index(4) [OF that(2,3) vfs] that(1) by (simp add: routable_def)
  have k: "keeps r (func_upd a (\<lambda>f. f\<lparr>fn_cxt := (fn_cxt f)\<lparr>hc_completer_id := y\<rparr>\<rparr>) r)" for a y
    by (rule keeps_func_upd) (simp_all add: func_keeps_def cxt_sizes_def)
  show ?thesis
    unfolding route_mmio_tlp_def Let_def
    using vf by (auto simp: returns_def routable_def k simp del: func_upd.simps)
qed

lemma get_mmio_address_in:
  assumes "complete_req env q"
    "get_tlp_req_type env q = Some ty" "ty = TLP_REQ_TYPE_MEMORY_READ \<or> ty = TLP_REQ_TYPE_MEMORY_WRITE"
  shows "\<exists>a. get_mmio_address env q = Some a"
proof -
  have l: "12 \<le> length (tq_header q)" using assms(1) by (simp add: complete_req_def)
  obtain fmt where f: "GET_TLP_REQ_FMT env q = Some fmt" using hdr_in(1) [OF l] by blast
  moreover have "16 \<le> length (tq_header q)" if "wide_address fmt"
    using assms that f by (auto simp: complete_req_def Let_def split: option.splits)
  ultimately show ?thesis
    using parse_address_in(1) [OF l] parse_address_in(2) [of q]
    by (auto simp: get_mmio_address_def wide_address_def)
qed

lemma complete_unsupported_keeps: "keeps r (snd (complete_unsupported env np r))"
  by (simp add: complete_unsupported_def handle_tlp_req_default_def Let_def keeps_set_cmpl)

text \<open>The paths of the request callback.\<close>

abbreviation done_tlp :: "tlp_completion \<times> devemu_tlp_resources \<Rightarrow> (tlp_completion option \<times> devemu_tlp_resources) option" where
  "done_tlp \<equiv> \<lambda>(c, r). Some (Some c, r)"

abbreviation handle_routed ::
  "tlp_env \<Rightarrow> tlp_req \<Rightarrow> devemu_tlp_resources \<Rightarrow> (tlp_completion option \<times> devemu_tlp_resources) option" where
  "handle_routed env q r \<equiv> do { x \<leftarrow> handle_tlp_req env q (set_cmpl 0 0 0 r); done_tlp x }"

abbreviation config_path ::
  "tlp_env \<Rightarrow> tlp_req \<Rightarrow> devemu_tlp_resources \<Rightarrow> (tlp_completion option \<times> devemu_tlp_resources) option" where
  "config_path env q r \<equiv> do {
     (found, r) \<leftarrow> route_config_tlp env q r;
     if \<not> found then done_tlp (complete_unsupported env True r) else handle_routed env q r }"

abbreviation completed :: "devemu_tlp_resources \<Rightarrow> tlp_completion option \<times> devemu_tlp_resources \<Rightarrow> bool" where
  "completed r \<equiv> \<lambda>(c, r'). keeps r r' \<and> c \<noteq> None"

lemma handle_routed_returns:
  assumes "keeps r s" "tlp_inv r" "complete_req env q" "bitfield_documented env"
  shows "returns (handle_routed env q s) (completed r)"
proof -
  have k: "keeps r (set_cmpl 0 0 0 s)" using assms(1) by (rule keeps_set_cmpl)
  from handle_tlp_req_returns [OF keeps_inv [OF k assms(2)] assms(3,4)]
  show ?thesis by (auto simp: returns_def intro: keeps_trans [OF k])
qed

lemma unsupported_returns: "keeps r s \<Longrightarrow> returns (done_tlp (complete_unsupported env np s)) (completed r)"
  using keeps_trans [OF _ complete_unsupported_keeps [of s env np], of r] by (auto simp: returns_def split: prod.splits)

lemma config_path_returns:
  assumes "keeps r s" "tlp_inv r" "complete_req env q" "bitfield_documented env"
  shows "returns (config_path env q s) (completed r)"
proof -
  have "12 \<le> length (tq_header q)" using assms(3) by (simp add: complete_req_def)
  from route_config_tlp_returns [OF keeps_inv [OF assms(1,2)] this, of env]
  obtain found s' where c: "route_config_tlp env q s = Some (found, s')" "keeps r s'"
    using keeps_trans [OF assms(1)] by (auto simp: returns_def)
  show ?thesis using c handle_routed_returns [OF c(2) assms(2-4)] unsupported_returns [OF c(2)] by simp
qed

lemma memory_path_returns:
  assumes "keeps r s" "tlp_inv r" "complete_req env q" "bitfield_documented env"
    "get_tlp_req_type env q = Some ty" "ty = TLP_REQ_TYPE_MEMORY_READ \<or> ty = TLP_REQ_TYPE_MEMORY_WRITE"
  shows "returns (do {
     address \<leftarrow> get_mmio_address env q;
     (target, s) \<leftarrow> route_mmio_tlp s address;
     case target of
       None \<Rightarrow> do { np \<leftarrow> is_non_posted_tlp_req env q; done_tlp (complete_unsupported env np s) }
     | Some f \<Rightarrow> handle_routed env q (s\<lparr>rs_cur_func := f\<rparr>) }) (completed r)"
proof -
  obtain a where a: "get_mmio_address env q = Some a" using get_mmio_address_in [OF assms(3,5,6)] by blast
  obtain t s' where t: "route_mmio_tlp s a = Some (t, s')" "keeps r s'"
    using route_mmio_tlp_returns [OF keeps_inv [OF assms(1,2)], of a] keeps_trans [OF assms(1)] by (auto simp: returns_def)
  have "returns (handle_routed env q (s'\<lparr>rs_cur_func := f\<rparr>)) (completed r)" for f
    using t(2) assms(2-4) by (intro handle_routed_returns) simp_all
  then show ?thesis unfolding a t(1) Option.bind_lunit prod.case
    using unsupported_returns [OF t(2)] assms(5) by (cases t) (simp_all add: is_non_posted_tlp_req_def)
qed

lemma tlp_req_handler_cb_returns:
  assumes "tlp_inv r" "tq_opcode q = REQ_OPCODE_TLP \<Longrightarrow> complete_req env q" "bitfield_documented env"
  shows "returns (tlp_req_handler_cb env user_data q r)
     (\<lambda>(c, r'). keeps r r' \<and> (user_data = DOCA_SUCCESS \<longrightarrow> c \<noteq> None))"
proof (cases "user_data = DOCA_SUCCESS \<and> tq_opcode q = REQ_OPCODE_TLP")
  case False
  then show ?thesis by (cases "tq_opcode q") (auto simp: tlp_req_handler_cb_def returns_def)
next
  case True
  then have q: "complete_req env q" using assms(2) by simp
  then obtain ty where ty: "get_tlp_req_type env q = Some ty" using get_tlp_req_type_in by (auto simp: complete_req_def)
  define s where "s = r\<lparr>rs_cur_func := Pf\<rparr>"
  have k: "keeps r s" using assms(1) by (simp add: s_def)
  have "keeps r (cxt_upd (\<lambda>c. c\<lparr>hc_completer_id := y\<rparr>) s)" for y
    by (rule keeps_cxt_upd [OF k]) (simp add: cxt_sizes_def)
  note un = unsupported_returns [OF this]
  show ?thesis
    unfolding tlp_req_handler_cb_def ty Option.bind_lunit Let_def s_def [symmetric]
    using True un config_path_returns [OF k assms(1) q assms(3)] memory_path_returns [OF k assms(1) q assms(3) ty]
      handle_routed_returns [OF k assms(1) q assms(3)]
    by (simp del: split_paired_Ex)
qed

section \<open>Sequences of requests\<close>

text \<open>The channel delivers requests one after the other; the completions in the order of the requests.\<close>

fun run_requests :: "tlp_env \<Rightarrow> tlp_req list \<Rightarrow> devemu_tlp_resources \<Rightarrow>
    (tlp_completion option list \<times> devemu_tlp_resources) option" where
  "run_requests env [] r = Some ([], r)"
| "run_requests env (q # qs) r = do {
     (c, r) \<leftarrow> tlp_req_handler_cb env DOCA_SUCCESS q r;
     (cs, r) \<leftarrow> run_requests env qs r;
     Some (c # cs, r) }"

abbreviation acceptable :: "tlp_env \<Rightarrow> tlp_req \<Rightarrow> bool" where
  "acceptable env q \<equiv> tq_opcode q = REQ_OPCODE_TLP \<longrightarrow> complete_req env q"

lemma run_requests_returns:
  assumes "bitfield_documented env" "\<forall>q \<in> set qs. acceptable env q" "tlp_inv r"
  shows "returns (run_requests env qs r) (\<lambda>(cs, r'). keeps r r' \<and> length cs = length qs \<and> None \<notin> set cs)"
  using assms(2,3)
proof (induction qs arbitrary: r)
  case Nil
  then show ?case by (simp add: returns_def)
next
  case (Cons q qs)
  obtain c r1 where c: "tlp_req_handler_cb env DOCA_SUCCESS q r = Some (c, r1)" "keeps r r1" "c \<noteq> None"
    using tlp_req_handler_cb_returns [OF Cons.prems(2) _ assms(1), of q DOCA_SUCCESS] Cons.prems(1)
    by (auto simp: returns_def)
  from Cons.IH [OF _ keeps_inv [OF c(2) Cons.prems(2)]] Cons.prems(1) c keeps_trans [OF c(2)]
  show ?case by (auto simp: returns_def)
qed

section \<open>Setup\<close>

lemma sizes_small [simp]: "regions_ok (init_tlp_handler_cxt c) = region_ok (hc_exp_bar_memory c) 0"
  by (simp add: regions_ok_def region_ok_def init_tlp_handler_cxt_def)

definition vfs_ready :: "nat \<Rightarrow> devemu_tlp_resources \<Rightarrow> bool" where
  "vfs_ready n r \<longleftrightarrow> (\<forall>i < n. fn_func_type (rs_vf r i) = DOCA_PCI_FUNC_TYPE_VF \<and> fn_vf_index (rs_vf r i) = of_nat i \<and>
     hc_transaction_region_memory (fn_cxt (rs_vf r i)) = Some (replicate 4096 0xAA) \<and>
     hc_transaction_region_size (fn_cxt (rs_vf r i)) = 4096 \<and>
     (\<exists>cs. fn_pci_config_space (rs_vf r i) = header_upd (\<lambda>h. h\<lparr>ch_reg0 := set_hi16 0x10f1 (ch_reg0 h),
           ch_bar := (\<lambda>j. if j < 6 then 0 else ch_bar h j), ch_expansion_rom_base_address := 0\<rparr>)
         (init_pci_config_space 0 cs)))"

definition cxts_ready :: "devemu_tlp_resources \<Rightarrow> bool" where
  "cxts_ready r \<longleftrightarrow> (\<forall>f. regions_ok (fn_cxt (func_at r f))) \<and> (\<forall>i. hc_exp_bar_memory (fn_cxt (rs_vf r i)) = None)"

lemma init_vfs_loop_returns:
  assumes "rs_total_vfs r \<le> 7" "vfs_ready n r" "cxts_ready r" "n \<le> unat (rs_total_vfs r)"
  shows "returns (init_vfs_loop reps n r) (\<lambda>(res, k, r').
     res = DOCA_SUCCESS \<longrightarrow> vfs_ready k r' \<and> cxts_ready r' \<and> rs_pf r' = rs_pf r \<and> rs_total_vfs r' = rs_total_vfs r \<and>
       k \<le> unat (rs_total_vfs r))"
  using assms
proof (induction reps n r rule: init_vfs_loop.induct)
  case (1 n r)
  then show ?case by (simp add: returns_def)
next
  case (2 rep reps n r)
  let ?r1 = "func_upd (Vf n) (\<lambda>f. f\<lparr>fn_func_type := DOCA_PCI_FUNC_TYPE_VF, fn_vf_index := of_nat n\<rparr>) r"
  obtain res f where t: "tlp_init_transaction_region (rp_mem rep) transaction_size (init_vf n (rs_vf ?r1 n)) = (res, f)"
    by (cases "tlp_init_transaction_region (rp_mem rep) transaction_size (init_vf n (rs_vf ?r1 n))")
  let ?r2 = "func_upd (Vf n) (\<lambda>_. f) ?r1"
  show ?case
  proof (cases "n < unat (rs_total_vfs r) \<and> rp_func_type rep = Some DOCA_PCI_FUNC_TYPE_VF \<and> rp_open rep = DOCA_SUCCESS \<and>
      rp_tlp_dev rep = DOCA_SUCCESS \<and> res = DOCA_SUCCESS")
    case False
    have "unat (rs_total_vfs r) \<le> 7" using "2.prems"(1) by (simp add: word_le_nat_alt)
    with False 2 t show ?thesis by (auto simp: returns_def Let_def)
  next
    case True
    have seven: "n < 7" using True "2.prems"(1) by (simp add: word_le_nat_alt)
    have f: "f = (init_vf n (rs_vf ?r1 n))\<lparr>fn_cxt := (init_tlp_handler_cxt (fn_cxt (rs_vf r n)))\<lparr>
        hc_transaction_region_memory := Some (replicate 4096 0xAA), hc_transaction_region_size := 4096\<rparr>\<rparr>"
      using t True by (auto simp: tlp_init_transaction_region_def init_vf_def split: if_splits)
    have "regions_ok (fn_cxt f)"
      using "2.prems"(3) by (simp add: f cxts_ready_def regions_ok_def region_ok_def init_tlp_handler_cxt_def)
    moreover have "hc_exp_bar_memory (fn_cxt f) = None"
      using "2.prems"(3) by (simp add: f cxts_ready_def init_tlp_handler_cxt_def)
    moreover have "regions_ok (fn_cxt (func_at ?r2 g))" if "regions_ok (fn_cxt f)" for g
      using "2.prems"(3) that by (simp add: cxts_ready_def del: func_upd.simps)
    ultimately have c: "cxts_ready ?r2" using "2.prems"(3) by (simp add: cxts_ready_def)
    have "vfs_ready (Suc n) ?r2"
      using "2.prems"(2) by (auto simp: vfs_ready_def f init_vf_def less_Suc_eq)
    with c True "2.IH" (2) [of ?r1 "(res, f)" res f ?r2] t seven "2.prems"
    show ?thesis by (simp add: Let_def)
  qed
qed

text \<open>The state a successful setup leaves.\<close>

definition set_up :: "u16 \<Rightarrow> devemu_tlp_resources \<Rightarrow> bool" where
  "set_up tv r \<longleftrightarrow> tlp_inv r \<and> rs_total_vfs r = tv \<and> vfs_ready (unat tv) r \<and>
     (\<exists>cs. fn_pci_config_space (rs_pf r) = init_pci_config_space tv cs) \<and>
     hc_transaction_region_memory (fn_cxt (rs_pf r)) = Some (replicate 4096 0xAA) \<and>
     hc_transaction_region_size (fn_cxt (rs_pf r)) = 4096 \<and>
     hc_exp_bar_memory (fn_cxt (rs_pf r)) = Some (replicate 0x10000 0xBB) \<and> hc_exp_bar_size (fn_cxt (rs_pf r)) = 0x10000 \<and>
     hc_bar_region_size (fn_cxt (rs_pf r)) = 2 ^ 14"

definition vf_rep_ok :: "vf_rep \<Rightarrow> bool" where
  "vf_rep_ok rep \<longleftrightarrow> rp_open rep = DOCA_SUCCESS \<and> rp_tlp_dev rep = DOCA_SUCCESS \<and> rp_mem rep"

abbreviation vf_reps :: "vf_rep list \<Rightarrow> vf_rep list" where
  "vf_reps \<equiv> filter (\<lambda>rep. rp_func_type rep = Some DOCA_PCI_FUNC_TYPE_VF)"

definition setup_ok :: "setup_env \<Rightarrow> u16 \<Rightarrow> bool" where
  "setup_ok su tv \<longleftrightarrow> su_tlp_dev su = DOCA_SUCCESS \<and> su_mem su \<and> su_exp_mem su \<and>
     (tv \<noteq> 0 \<longrightarrow> su_rep_list su = DOCA_SUCCESS \<and> (\<forall>rep \<in> set (vf_reps (su_reps su)). vf_rep_ok rep) \<and>
        unat tv \<le> length (vf_reps (su_reps su)))"

lemma init_vfs_loop_counts:
  assumes "\<forall>rep \<in> set (vf_reps reps). vf_rep_ok rep" "n \<le> unat (rs_total_vfs r)" "rs_total_vfs r \<le> 7"
  shows "returns (init_vfs_loop reps n r) (\<lambda>(res, k, r').
     res = DOCA_SUCCESS \<and> k = min (unat (rs_total_vfs r)) (n + length (vf_reps reps)))"
  using assms
proof (induction reps n r rule: init_vfs_loop.induct)
  case (1 n r)
  then show ?case by (simp add: returns_def)
next
  case (2 rep reps n r)
  let ?r1 = "func_upd (Vf n) (\<lambda>f. f\<lparr>fn_func_type := DOCA_PCI_FUNC_TYPE_VF, fn_vf_index := of_nat n\<rparr>) r"
  obtain res f where t: "tlp_init_transaction_region (rp_mem rep) transaction_size (init_vf n (rs_vf ?r1 n)) = (res, f)"
    by (cases "tlp_init_transaction_region (rp_mem rep) transaction_size (init_vf n (rs_vf ?r1 n))")
  let ?r2 = "func_upd (Vf n) (\<lambda>_. f) ?r1"
  have seven: "unat (rs_total_vfs r) \<le> 7" using "2.prems"(3) by (simp add: word_le_nat_alt)
  show ?case
  proof (cases "n < unat (rs_total_vfs r) \<and> rp_func_type rep = Some DOCA_PCI_FUNC_TYPE_VF")
    case False
    then show ?thesis using 2 by (auto simp: returns_def)
  next
    case True
    then have "vf_rep_ok rep" "res = DOCA_SUCCESS" using "2.prems"(1) t
      by (auto simp: vf_rep_ok_def tlp_init_transaction_region_def)
    with True "2.IH"(2) [of ?r1 "(res, f)" res f ?r2] t seven "2.prems"
    show ?thesis by (auto simp: Let_def vf_rep_ok_def)
  qed
qed

lemma setup_returns:
  assumes "tv \<le> 7"
  shows "returns (tlp_devices_setup su (resources0 tv d))
     (\<lambda>(res, r). (res = DOCA_SUCCESS \<longrightarrow> set_up tv r) \<and> (setup_ok su tv \<longrightarrow> res = DOCA_SUCCESS))"
proof (cases "su_tlp_dev su = DOCA_SUCCESS \<and> su_mem su \<and> su_exp_mem su")
  case False
  then show ?thesis
    by (auto simp: tlp_devices_setup_def setup_ok_def returns_def Let_def tlp_init_transaction_region_def tlp_init_exp_bar_def)
next
  case True
  define c where "c = (init_tlp_handler_cxt cxt0)\<lparr>hc_transaction_region_memory := Some (replicate 4096 0xAA),
    hc_transaction_region_size := 4096, hc_exp_bar_memory := Some (replicate 0x10000 0xBB), hc_exp_bar_size := 0x10000\<rparr>"
  define r where "r = (resources0 tv d)\<lparr>rs_pf := \<lparr>fn_func_type = DOCA_PCI_FUNC_TYPE_PF, fn_vf_index = 0,
    fn_pci_config_space = init_pci_config_space tv config_space0, fn_cxt = c\<rparr>\<rparr>"
  have e: "tlp_devices_setup su (resources0 tv d) =
      (if tv = 0 then Some (DOCA_SUCCESS, r) else init_vfs (su_rep_list su) (su_reps su) r)"
    using True by (simp add: tlp_devices_setup_def Let_def tlp_init_transaction_region_def tlp_init_exp_bar_def r_def c_def
        resources0_def func0_def init_tlp_handler_cxt_def cxt0_def word_gt_0)
  have c: "regions_ok c" "hc_transaction_region_memory c = Some (replicate 4096 0xAA)" "hc_transaction_region_size c = 4096"
    "hc_exp_bar_memory c = Some (replicate 0x10000 0xBB)" "hc_exp_bar_size c = 0x10000" "hc_bar_region_size c = 2 ^ 14"
    by (simp_all add: c_def regions_ok_def region_ok_def init_tlp_handler_cxt_def)
  have tv: "rs_total_vfs r = tv" "vfs_ready 0 r" by (simp_all add: r_def resources0_def vfs_ready_def)
  have "regions_ok (fn_cxt (func_at r f))" for f
    using c by (cases f) (simp_all add: r_def resources0_def func0_def cxt0_def regions_ok_def region_ok_def)
  then have ready: "cxts_ready r" by (simp add: cxts_ready_def r_def resources0_def func0_def cxt0_def)
  have su: "set_up tv s" if "vfs_ready (unat tv) s" "cxts_ready s" "rs_pf s = rs_pf r" "rs_total_vfs s = tv" for s
    using that assms c by (auto simp: set_up_def tlp_inv_def cxts_ready_def vfs_ready_def r_def)
  show ?thesis
  proof (cases "tv = 0")
    case True
    with e su [of r] tv ready show ?thesis by (simp add: returns_def)
  next
    case False
    obtain res k r' where l: "init_vfs_loop (su_reps su) 0 r = Some (res, k, r')"
      "res = DOCA_SUCCESS \<longrightarrow> vfs_ready k r' \<and> cxts_ready r' \<and> rs_pf r' = rs_pf r \<and> rs_total_vfs r' = tv"
      using init_vfs_loop_returns [of r 0 "su_reps su"] assms tv ready by (auto simp: returns_def)
    have k: "res = DOCA_SUCCESS \<and> k = unat tv" if "setup_ok su tv"
      using init_vfs_loop_counts [of "su_reps su" 0 r] that assms tv l(1) False by (auto simp: returns_def setup_ok_def)
    show ?thesis using False e l su [of r'] k
      by (auto simp: init_vfs_def returns_def setup_ok_def)
  qed
qed

section \<open>The register file of the functions\<close>

text \<open>The registers of a function as a host reads them.\<close>

definition reg_file :: "devemu_tlp_resources \<Rightarrow> func_ref \<Rightarrow> u32 \<Rightarrow> u32" where
  "reg_file r f x = fst (config_space_read x (r\<lparr>rs_cur_func := f\<rparr>))"

lemma reg_file_eq: "reg_file r f x = cs_value (fn_func_type (func_at r f)) (cs_at r f) x"
  using reg_value_eq [of x "r\<lparr>rs_cur_func := f\<rparr>"] by (simp add: reg_file_def reg_value_def)

definition cs_same :: "devemu_tlp_resources \<Rightarrow> devemu_tlp_resources \<Rightarrow> bool" where
  "cs_same r r' \<longleftrightarrow> rs_total_vfs r' = rs_total_vfs r \<and>
     (\<forall>f. fn_func_type (func_at r' f) = fn_func_type (func_at r f) \<and> cs_at r' f = cs_at r f)"

lemma cs_same_refl [simp]: "cs_same r r"
  by (simp add: cs_same_def)

lemma cs_same_trans: "cs_same r s \<Longrightarrow> cs_same s t \<Longrightarrow> cs_same r t"
  by (simp add: cs_same_def)

lemma cs_same_upd [simp]:
  "cs_same s (cxt_upd g r) = cs_same s r" "cs_same s (set_cmpl a b c r) = cs_same s r"
  "cs_same s (r\<lparr>rs_cur_func := f\<rparr>) = cs_same s r"
  by (simp_all add: cs_same_def)

lemma cs_same_reg_file: "cs_same r r' \<Longrightarrow> reg_file r' = reg_file r"
  by (intro ext) (simp add: reg_file_eq cs_same_def)

text \<open>The type of a function is known from its place.  The size fields of its context do not change at run time.\<close>

definition ref_type :: "func_ref \<Rightarrow> doca_pci_func_type" where
  "ref_type f = (case f of Pf \<Rightarrow> DOCA_PCI_FUNC_TYPE_PF | Vf _ \<Rightarrow> DOCA_PCI_FUNC_TYPE_VF)"

definition sizes_of :: "devemu_tlp_resources \<Rightarrow> func_ref \<Rightarrow> u64 \<times> u32" where
  "sizes_of r f = cxt_sizing (fn_cxt (func_at r f))"

text \<open>A register after a write: each bit by the access rule of the register.\<close>

definition write_reg :: "doca_pci_func_type \<Rightarrow> u64 \<times> u32 \<Rightarrow> bool \<Rightarrow> u32 \<Rightarrow> u32 \<Rightarrow> u32 \<Rightarrow> u32 \<Rightarrow> u32" where
  "write_reg ty sizes enabled x d m old = horner_sum of_bool 2 (map (access_rule ty sizes enabled x d m old) [0..<32])"

text \<open>The abstract machine: a register file, and the function a configuration request addresses, decided by the
  number of functions, the VF Enable bit and \<open>NumVFs\<close> as the registers of the physical function show them.\<close>

type_synonym reg_files = "func_ref \<Rightarrow> u32 \<Rightarrow> u32"

definition addressed :: "u16 \<Rightarrow> reg_files \<Rightarrow> u8 \<Rightarrow> u8 \<Rightarrow> func_ref option" where
  "addressed total_vfs regs device func_num =
     (if device \<noteq> 0 then None
      else if func_num = 0 then Some Pf
      else let i = unat func_num - 1 in
           if i < unat total_vfs \<and> bit (regs Pf 84) 0 \<and> i < unat (lo16 (regs Pf 86)) then Some (Vf i) else None)"

definition config_target :: "tlp_env \<Rightarrow> tlp_req \<Rightarrow> u8 \<Rightarrow> u16 \<Rightarrow> reg_files \<Rightarrow> func_ref option" where
  "config_target env q dsp total_vfs regs =
     (if tq_opcode q \<noteq> REQ_OPCODE_TLP \<or> (dsp \<noteq> 0 \<and> tq_dsp_id q \<noteq> 0 \<and> tq_dsp_id q < dsp_id_implicit env) then None
      else do {
        device \<leftarrow> GET_TLP_REQ_DEVICE env q;
        func_num \<leftarrow> GET_TLP_REQ_FUNCTION env q;
        addressed total_vfs regs (ucast device) (ucast func_num) })"

text \<open>The register, data and byte mask of a configuration write.\<close>

definition config_write :: "tlp_env \<Rightarrow> tlp_req \<Rightarrow> (u32 \<times> u32 \<times> u32) option" where
  "config_write env q = do {
     x \<leftarrow> GET_TLP_REQ_EXT_REG_NUM env q;
     be \<leftarrow> GET_TLP_REQ_FIRST_DW_BE env q;
     m \<leftarrow> map_first_dw_be_to_mask be;
     d \<leftarrow> rd32le (tq_data q) 0;
     Some (x, d, m) }"

fun file_write :: "(func_ref \<Rightarrow> u64 \<times> u32) \<Rightarrow> func_ref \<Rightarrow> u32 \<times> u32 \<times> u32 \<Rightarrow> reg_files \<Rightarrow> reg_files" where
  "file_write sizes f (x, d, m) regs =
     regs(f := (regs f)(x := write_reg (ref_type f) (sizes f) (bit (regs Pf 84) 0) x d m (regs f x)))"

definition file_after ::
  "tlp_env \<Rightarrow> tlp_req \<Rightarrow> u8 \<Rightarrow> u16 \<Rightarrow> (func_ref \<Rightarrow> u64 \<times> u32) \<Rightarrow> reg_files \<Rightarrow> reg_files" where
  "file_after env q dsp total_vfs sizes regs =
     (if get_tlp_req_type env q \<noteq> Some TLP_REQ_TYPE_CONFIG_WRITE_TYPE_0 then regs
      else case (config_target env q dsp total_vfs regs, config_write env q) of
             (Some f, Some w) \<Rightarrow> file_write sizes f w regs
           | _ \<Rightarrow> regs)"

lemma bit_write_reg: "n < 32 \<Longrightarrow> bit (write_reg ty sizes e x d m old) n = access_rule ty sizes e x d m old n"
  by (simp add: write_reg_def bit_horner_sum_bit_iff)

lemma reg_file_cur: "reg_file r (rs_cur_func r) x = reg_value x r"
  by (simp add: reg_file_eq reg_value_eq)

lemma sizes_of_upd [simp]:
  "(\<And>c. cxt_sizing (g c) = cxt_sizing c) \<Longrightarrow> sizes_of (cxt_upd g r) = sizes_of r"
  "sizes_of (r\<lparr>rs_cur_func := f\<rparr>) = sizes_of r"
  by (auto simp: sizes_of_def fun_eq_iff)

lemma sizes_of_set_cmpl [simp]: "sizes_of (set_cmpl a b c r) = sizes_of r"
  by (simp add: set_cmpl_def cxt_sizing_def)

text \<open>The state the handler of a routed request starts in.\<close>

definition typed :: "devemu_tlp_resources \<Rightarrow> bool" where
  "typed r \<longleftrightarrow> fn_func_type (cur_func r) = ref_type (rs_cur_func r)"

lemma reg_written_file:
  assumes "map_first_dw_be_to_mask be = Some m" and "typed r"
  shows "reg_file (reg_written x d m r) = file_write (sizes_of r) (rs_cur_func r) (x, d, m) (reg_file r)"
proof (intro ext)
  fix g y
  let ?f = "rs_cur_func r"
  have c: "reg_file (reg_written x d m r) ?f y = reg_value y (reg_written x d m r)" for y
    using reg_file_cur [of "reg_written x d m r" y] by simp
  show "reg_file (reg_written x d m r) g y = file_write (sizes_of r) ?f (x, d, m) (reg_file r) g y"
  proof (cases "(g, y) = (?f, x)")
    case False
    have "reg_file (reg_written x d m r) g y = reg_file r g y"
    proof (cases "g = ?f")
      case True
      with False c reg_written_other [of y x d m r] show ?thesis by (simp add: reg_file_cur)
    next
      case False
      then show ?thesis using reg_written_same [of r x d m] by (simp add: reg_file_eq same_but_cs_def)
    qed
    with False show ?thesis by auto
  next
    case True
    have "access_rule (ref_type ?f) (sizes_of r ?f) (vf_enable r) x d m (reg_value x r) =
        access_rule (ref_type ?f) (sizes_of r ?f) (bit (reg_file r Pf 84) 0) x d m (reg_value x r)"
    proof (cases ?f)
      case Pf
      then show ?thesis using reg_file_cur [of r 84] by simp
    next
      case (Vf i)
      then have "ref_type ?f = DOCA_PCI_FUNC_TYPE_VF" by (simp add: ref_type_def)
      then show ?thesis using access_rule_vf [of "sizes_of r ?f" "vf_enable r" "bit (reg_file r Pf 84) 0"] by simp
    qed
    then have "bit (reg_value x (reg_written x d m r)) n =
        bit (write_reg (ref_type ?f) (sizes_of r ?f) (bit (reg_file r Pf 84) 0) x d m (reg_value x r)) n" if "n < 32" for n
      using reg_written_rule [OF assms(1), of x d r n] assms(2) that by (simp add: bit_write_reg typed_def sizes_of_def)
    then have "reg_value x (reg_written x d m r) =
        write_reg (ref_type ?f) (sizes_of r ?f) (bit (reg_file r Pf 84) 0) x d m (reg_value x r)"
      by (intro bit_word_eqI) simp
    then show ?thesis using True c by (simp add: reg_file_cur)
  qed
qed

lemma config_read_cs_same: "config_space_read x r = (d, c, v, p, r') \<Longrightarrow> cs_same r r'"
  using reg_read_state [of x r] by auto

lemma memory_read_cs_same: "ensures (handle_tlp_req_memory_read env q r) (\<lambda>(c, r'). cs_same r r')"
  unfolding handle_tlp_req_memory_read_def get_memory_read_data_def
  by (intro ensuresI) (auto simp: Some_bind_iff Let_def split: if_splits)

lemma memory_write_cs_same: "ensures (handle_tlp_req_memory_write env q r) (cs_same r)"
  unfolding handle_tlp_req_memory_write_def set_memory_write_data_def
  by (intro ensuresI) (auto simp: Some_bind_iff Let_def split: option.splits)

text \<open>What the handler of a request routed to \<open>f\<close> does to the register file, and the completion of a read.\<close>

definition handled ::
  "tlp_env \<Rightarrow> tlp_req \<Rightarrow> (func_ref \<Rightarrow> u64 \<times> u32) \<Rightarrow> func_ref \<Rightarrow> reg_files \<Rightarrow> tlp_completion \<Rightarrow> reg_files \<Rightarrow> bool" where
  "handled env q sizes f regs c regs' \<longleftrightarrow>
     (if get_tlp_req_type env q = Some TLP_REQ_TYPE_CONFIG_WRITE_TYPE_0
      then \<exists>w. config_write env q = Some w \<and> regs' = file_write sizes f w regs else regs' = regs) \<and>
     (get_tlp_req_type env q = Some TLP_REQ_TYPE_CONFIG_READ_TYPE_0 \<longrightarrow>
        (\<exists>x cpl v i p. GET_TLP_REQ_EXT_REG_NUM env q = Some x \<and> c = Complete_config_read f cpl v i p \<and>
           cp_data cpl = dw_bytes (regs f x)))"

lemma config_write_handled:
  assumes "GET_TLP_REQ_EXT_REG_NUM env q = Some x" "typed r"
    "handle_tlp_req_write_type_0 env q r x = Some (cpl, i, v, p, r')"
  shows "\<exists>w. config_write env q = Some w \<and> reg_file r' = file_write (sizes_of r) (rs_cur_func r) w (reg_file r)"
proof -
  obtain be m d where h: "GET_TLP_REQ_FIRST_DW_BE env q = Some be" "map_first_dw_be_to_mask be = Some m"
    "rd32le (tq_data q) 0 = Some d"
    using assms(3) by (auto simp: handle_tlp_req_write_type_0_def Some_bind_iff)
  have "r' = reg_written x d m r"
    using assms(3) by (simp add: handle_tlp_req_write_type_0_def h reg_written_def split: prod.splits)
  then show ?thesis
    using reg_written_file [OF h(2) assms(2), of x d] assms(1) h by (simp add: config_write_def)
qed

lemma config_read_handled:
  assumes "handle_tlp_req_read_type_0 env r x = (cpl, i, v, p, r')"
  shows "cp_data cpl = dw_bytes (reg_file r (rs_cur_func r) x)" "cs_same r r'" "rs_cur_func r' = rs_cur_func r"
proof -
  obtain d r1 where d: "config_space_read x r = (d, i, v, p, r1)" "cp_data cpl = dw_bytes d" "r' = r1"
    using assms by (auto simp: handle_tlp_req_read_type_0_def split: prod.splits)
  then show "cp_data cpl = dw_bytes (reg_file r (rs_cur_func r) x)" by (simp add: reg_file_cur reg_value_def)
  show "cs_same r r'" using config_read_cs_same d(1,3) by blast
  show "rs_cur_func r' = rs_cur_func r" using reg_read_state [of x r] d(1,3) by auto
qed

lemma handle_tlp_req_handled:
  assumes "get_tlp_req_type env q = Some TLP_REQ_TYPE_CONFIG_WRITE_TYPE_0 \<Longrightarrow> typed r"
  shows "ensures (handle_tlp_req env q r) (\<lambda>(c, r'). handled env q (sizes_of r) (rs_cur_func r) (reg_file r) c (reg_file r'))"
proof (rule ensuresI)
  fix y assume y: "handle_tlp_req env q r = Some y"
  then obtain x req_id tag9 tag8 tag ty where h: "GET_TLP_REQ_EXT_REG_NUM env q = Some x"
    "GET_TLP_REQ_REQ_ID env q = Some req_id" "GET_TLP_REQ_TAG9 env q = Some tag9" "GET_TLP_REQ_TAG8 env q = Some tag8"
    "GET_TLP_REQ_TAG env q = Some tag" "get_tlp_req_type env q = Some ty"
    by (auto simp: handle_tlp_req_def Some_bind_iff Let_def simp del: split_paired_Ex)
  have np: "is_non_posted_tlp_req env q = Some (ty \<noteq> TLP_REQ_TYPE_INVALID \<and> ty \<noteq> TLP_REQ_TYPE_MEMORY_WRITE)"
    by (simp add: is_non_posted_tlp_req_def h)
  define s where "s = cxt_upd (\<lambda>c. c\<lparr>hc_requester_id := ucast req_id, hc_tag9 := ucast tag9,
    hc_tag8 := ucast tag8, hc_tag := ucast tag\<rparr>) r"
  have s: "cs_same r s" "rs_cur_func s = rs_cur_func r" "sizes_of s = sizes_of r" "typed s = typed r"
    by (simp_all add: s_def cxt_sizing_def typed_def)
  then have rf: "reg_file s = reg_file r" by (simp add: cs_same_reg_file)
  note y = y [unfolded handle_tlp_req_def h np Option.bind_lunit Let_def [of "cxt_upd _ _"] s_def [symmetric]]
  consider "ty = TLP_REQ_TYPE_CONFIG_WRITE_TYPE_0" | "ty = TLP_REQ_TYPE_CONFIG_READ_TYPE_0"
    | "ty \<noteq> TLP_REQ_TYPE_CONFIG_WRITE_TYPE_0" "ty \<noteq> TLP_REQ_TYPE_CONFIG_READ_TYPE_0" by blast
  then show "case y of (c, r') \<Rightarrow> handled env q (sizes_of r) (rs_cur_func r) (reg_file r) c (reg_file r')"
  proof cases
    case 1
    then have "typed s" using assms h(6) s(4) by simp
    from config_write_handled [OF h(1) this] 1 show ?thesis using y h(6) s rf
      by (fastforce simp: handled_def Some_bind_iff)
  next
    case 2
    obtain cpl i v p r' where c: "handle_tlp_req_read_type_0 env s x = (cpl, i, v, p, r')" by (metis prod_cases5)
    note rd = config_read_handled [OF c]
    show ?thesis using y 2 c rd s rf cs_same_reg_file [OF rd(2)] h(1,6) by (auto simp: handled_def)
  next
    case 3
    have "cs_same s (snd y)"
      using 3 y ensuresD [OF memory_read_cs_same] ensuresD [OF memory_write_cs_same]
      by (fastforce simp: Some_bind_iff handle_tlp_req_default_def Let_def split: if_splits prod.splits)
    then show ?thesis using 3 h(6) rf cs_same_reg_file by (cases y) (auto simp: handled_def)
  qed
qed

text \<open>The route of a configuration request is the function the abstract machine addresses.\<close>

lemma is_vf_enabled_file:
  assumes "fn_func_type (rs_pf r) = DOCA_PCI_FUNC_TYPE_PF"
  shows "is_vf_enabled r i \<longleftrightarrow> bit (reg_file r Pf 84) 0 \<and> unat i < unat (lo16 (reg_file r Pf 86))"
proof -
  have "unat (ucast (n :: u16) :: u32) = unat n" for n
    using unsigned_less [where ?'a = nat, of n] by (simp add: unsigned_ucast_eq take_bit_eq_mod)
  then show ?thesis
    using assms and_exp_eq_0 [of "lo16 (sr_reg2 (sriov_of r))" 0]
    by (simp add: is_vf_enabled_def word_less_nat_alt reg_file_eq cs_value_def sriov_of_def bit_lo16)
qed

lemma func_index:
  assumes "(func_num :: u8) \<noteq> 0"
  shows "unat (ucast func_num - 1 :: u32) = unat func_num - 1"
proof -
  have u: "unat (ucast func_num :: u32) = unat func_num"
    using unsigned_less [where ?'a = nat, of func_num] by (simp add: unsigned_ucast_eq take_bit_eq_mod)
  have "func_num > 0" using assms word_gt_0 by blast
  then have "0 < unat func_num" by (simp add: word_less_nat_alt)
  then have "(1 :: u32) \<le> ucast func_num" using u by (simp add: word_le_nat_alt)
  then show ?thesis using u by (simp add: unat_sub)
qed

lemma route_config_addressed:
  assumes "tlp_inv r"
  shows "ensures (route_config_tlp env q r) (\<lambda>(found, r'). cs_same r r' \<and> sizes_of r' = sizes_of r \<and>
     (\<exists>device func_num. GET_TLP_REQ_DEVICE env q = Some device \<and> GET_TLP_REQ_FUNCTION env q = Some func_num \<and>
        addressed (rs_total_vfs r) (reg_file r) (ucast device) (ucast func_num) = (if found then Some (rs_cur_func r') else None)))"
proof (rule ensuresI)
  fix y assume y: "route_config_tlp env q r = Some y"
  have inv: "rs_total_vfs r \<le> 7" "fn_func_type (rs_pf r) = DOCA_PCI_FUNC_TYPE_PF" using assms by (simp_all add: tlp_inv_def)
  obtain bus device func_num where h: "GET_TLP_REQ_BUS env q = Some bus" "GET_TLP_REQ_DEVICE env q = Some device"
    "GET_TLP_REQ_FUNCTION env q = Some func_num"
    using y by (auto simp: route_config_tlp_def Some_bind_iff)
  let ?d = "ucast device :: u8" and ?n = "ucast func_num :: u8"
  let ?i = "ucast ?n - 1 :: u32"
  define go where "go f = (let bdf = push_bit 8 (ucast (ucast bus :: u8)) OR push_bit 3 (ucast ?d) OR ucast ?n;
      s = cxt_upd (\<lambda>c. c\<lparr>hc_bus := ucast bus, hc_device := ?d, hc_function := ?n, hc_bdf := bdf, hc_completer_id := bdf\<rparr>)
            (r\<lparr>rs_cur_func := f\<rparr>)
    in s\<lparr>rs_pf := (rs_pf s)\<lparr>fn_cxt := (fn_cxt (rs_pf s))\<lparr>hc_bus := ucast bus\<rparr>\<rparr>\<rparr>)" for f
  have pf: "cs_same r (s\<lparr>rs_pf := (rs_pf s)\<lparr>fn_cxt := (fn_cxt (rs_pf s))\<lparr>hc_bus := b\<rparr>\<rparr>\<rparr>)"
    "sizes_of (s\<lparr>rs_pf := (rs_pf s)\<lparr>fn_cxt := (fn_cxt (rs_pf s))\<lparr>hc_bus := b\<rparr>\<rparr>\<rparr>) = sizes_of s" if "cs_same r s" for s b
  proof -
    let ?t = "s\<lparr>rs_pf := (rs_pf s)\<lparr>fn_cxt := (fn_cxt (rs_pf s))\<lparr>hc_bus := b\<rparr>\<rparr>\<rparr>"
    have "fn_func_type (func_at ?t f) = fn_func_type (func_at s f) \<and> cs_at ?t f = cs_at s f \<and>
        cxt_sizing (fn_cxt (func_at ?t f)) = cxt_sizing (fn_cxt (func_at s f))" for f
      by (cases f) (simp_all add: cxt_sizing_def)
    then show "cs_same r ?t" "sizes_of ?t = sizes_of s" using that by (auto simp: cs_same_def sizes_of_def)
  qed
  have go: "cs_same r (go f)" "sizes_of (go f) = sizes_of r" "rs_cur_func (go f) = f" for f
    by (simp_all add: go_def Let_def pf cxt_sizing_def)
  have target: "addressed (rs_total_vfs r) (reg_file r) ?d ?n =
     (if ?d \<noteq> 0 then None else if ?n = 0 then Some Pf
      else if rs_total_vfs r = 0 \<or> ?n < 1 \<or> ?i \<ge> ucast (rs_total_vfs r) \<or> \<not> is_vf_enabled r ?i then None else vf_ref ?i)"
  proof (cases "?n = 0")
    case False
    have u: "unat (ucast (rs_total_vfs r) :: u32) = unat (rs_total_vfs r)"
      using unsigned_less [where ?'a = nat, of "rs_total_vfs r"] by (simp add: unsigned_ucast_eq take_bit_eq_mod)
    have "?i \<ge> ucast (rs_total_vfs r) \<longleftrightarrow> \<not> unat ?n - 1 < unat (rs_total_vfs r)"
      using func_index [OF False] u by (simp add: word_le_nat_alt not_less)
    moreover have "vf_ref ?i = Some (Vf (unat ?n - 1))" if "\<not> ucast (rs_total_vfs r) \<le> ?i"
      using vf_ref_in(1) [OF _ inv(1), of ?i] that func_index [OF False] by (simp add: not_le)
    moreover have "\<not> ?n < 1" using False by (simp add: word_less_nat_alt unat_eq_zero)
    moreover have "rs_total_vfs r = 0 \<Longrightarrow> unat (rs_total_vfs r) = 0" by simp
    ultimately show ?thesis using False is_vf_enabled_file [OF inv(2), of ?i] func_index [OF False]
      by (auto simp: addressed_def Let_def)
  qed (simp add: addressed_def)
  have "y = (case addressed (rs_total_vfs r) (reg_file r) ?d ?n of None \<Rightarrow> (False, r) | Some f \<Rightarrow> (True, go f))"
    using y unfolding route_config_tlp_def h Option.bind_lunit Let_def target go_def
    by (auto split: if_splits option.splits simp: Some_bind_iff)
  then show "case y of (found, r') \<Rightarrow> cs_same r r' \<and> sizes_of r' = sizes_of r \<and>
     (\<exists>device func_num. GET_TLP_REQ_DEVICE env q = Some device \<and> GET_TLP_REQ_FUNCTION env q = Some func_num \<and>
        addressed (rs_total_vfs r) (reg_file r) (ucast device) (ucast func_num) = (if found then Some (rs_cur_func r') else None))"
    using h go by (auto split: option.splits)
qed

lemma route_mmio_effect: "ensures (route_mmio_tlp r address) (\<lambda>(target, r'). cs_same r r')"
proof -
  have "cs_same r (func_upd a (\<lambda>f. f\<lparr>fn_cxt := g f\<rparr>) r)" for a g
    by (simp add: cs_same_def)
  then show ?thesis
    unfolding route_mmio_tlp_def Let_def
    by (intro ensuresI) (auto simp: Some_bind_iff split: if_splits)
qed

lemma unsupported_cs_same: "cs_same r (snd (complete_unsupported env np r))"
  by (simp add: complete_unsupported_def handle_tlp_req_default_def Let_def)


text \<open>The request callback implements the abstract machine.\<close>

abbreviation target_of :: "tlp_env \<Rightarrow> tlp_req \<Rightarrow> devemu_tlp_resources \<Rightarrow> func_ref option" where
  "target_of env q r \<equiv> config_target env q (rs_is_dsp_bdf_supported r) (rs_total_vfs r) (reg_file r)"

definition refines_file ::
  "tlp_env \<Rightarrow> tlp_req \<Rightarrow> devemu_tlp_resources \<Rightarrow> tlp_completion option \<times> devemu_tlp_resources \<Rightarrow> bool" where
  "refines_file env q r cr \<longleftrightarrow>
     reg_file (snd cr) = file_after env q (rs_is_dsp_bdf_supported r) (rs_total_vfs r) (sizes_of r) (reg_file r) \<and>
     (\<forall>f. get_tlp_req_type env q = Some TLP_REQ_TYPE_CONFIG_READ_TYPE_0 \<longrightarrow> target_of env q r = Some f \<longrightarrow>
        (\<exists>x cpl v i p. GET_TLP_REQ_EXT_REG_NUM env q = Some x \<and> fst cr = Some (Complete_config_read f cpl v i p) \<and>
           cp_data cpl = dw_bytes (reg_file r f x)))"

abbreviation config_type :: "tlp_env \<Rightarrow> tlp_req \<Rightarrow> bool" where
  "config_type env q \<equiv> get_tlp_req_type env q = Some TLP_REQ_TYPE_CONFIG_READ_TYPE_0 \<or>
     get_tlp_req_type env q = Some TLP_REQ_TYPE_CONFIG_WRITE_TYPE_0"

lemma handle_routed_refines:
  assumes "cs_same r s"
    "config_type env q \<Longrightarrow> target_of env q r = Some (rs_cur_func s) \<and> typed s \<and> sizes_of s = sizes_of r"
  shows "ensures (handle_routed env q s) (refines_file env q r)"
proof -
  let ?s = "set_cmpl 0 0 0 s"
  have s: "reg_file ?s = reg_file r" "sizes_of ?s = sizes_of s" "rs_cur_func ?s = rs_cur_func s" "typed ?s = typed s"
    using assms(1) cs_same_reg_file [of r ?s] by (simp_all add: typed_def)
  have "ensures (handle_tlp_req env q ?s) (\<lambda>(c, r'). handled env q (sizes_of ?s) (rs_cur_func ?s) (reg_file ?s) c (reg_file r'))"
    by (rule handle_tlp_req_handled) (use assms(2) s(4) in simp)
  then show ?thesis using assms(2) unfolding s(1-3)
    by (fastforce simp: ensures_def Some_bind_iff handled_def file_after_def refines_file_def)
qed

lemma unsupported_refines:
  assumes "cs_same r s" "config_type env q \<Longrightarrow> target_of env q r = None"
  shows "ensures (done_tlp (complete_unsupported env np s)) (refines_file env q r)"
  using assms(2) cs_same_reg_file [OF cs_same_trans [OF assms(1) unsupported_cs_same [of s env np]]]
  by (auto simp: ensures_def file_after_def refines_file_def split: prod.splits)

lemma addressed_typed:
  assumes "tlp_inv r" "addressed (rs_total_vfs r) regs device func_num = Some f"
  shows "fn_func_type (func_at r f) = ref_type f"
  using assms by (auto simp: addressed_def tlp_inv_def ref_type_def Let_def split: if_splits)

lemma config_path_refines:
  assumes "tlp_inv r" "cs_same r s" "sizes_of s = sizes_of r" "rs_total_vfs s = rs_total_vfs r"
    "tq_opcode q = REQ_OPCODE_TLP"
    "\<not> (rs_is_dsp_bdf_supported r \<noteq> 0 \<and> tq_dsp_id q \<noteq> 0 \<and> tq_dsp_id q < dsp_id_implicit env)" "tlp_inv s"
  shows "ensures (config_path env q s) (refines_file env q r)"
proof (rule ensures_bind, rule ensures_call [OF route_config_addressed [OF assms(7)]], clarify)
  fix found s' device func_num
  assume a: "cs_same s s'" "sizes_of s' = sizes_of s" "GET_TLP_REQ_DEVICE env q = Some device"
    "GET_TLP_REQ_FUNCTION env q = Some func_num"
    "addressed (rs_total_vfs s) (reg_file s) (ucast device) (ucast func_num) = (if found then Some (rs_cur_func s') else None)"
  have c: "cs_same r s'" using cs_same_trans [OF assms(2) a(1)] .
  have t: "target_of env q r = (if found then Some (rs_cur_func s') else None)"
    using a(3-5) assms(4-6) cs_same_reg_file [OF assms(2)] by (auto simp: config_target_def)
  have "typed s'" if found
    using addressed_typed [OF assms(7), of "reg_file s" "ucast device" "ucast func_num" "rs_cur_func s'"] a(1,5) that
    by (simp add: typed_def cs_same_def)
  then show "ensures (if \<not> found then done_tlp (complete_unsupported env True s') else handle_routed env q s') (refines_file env q r)"
    using unsupported_refines [OF c, of env q True] handle_routed_refines [OF c, of env q] a(2) assms(3) t by simp
qed

lemma memory_path_refines:
  assumes "cs_same r s" and ty: "\<not> config_type env q"
  shows "ensures (do {
     address \<leftarrow> get_mmio_address env q;
     (target, s) \<leftarrow> route_mmio_tlp s address;
     case target of
       None \<Rightarrow> do { np \<leftarrow> is_non_posted_tlp_req env q; done_tlp (complete_unsupported env np s) }
     | Some f \<Rightarrow> handle_routed env q (s\<lparr>rs_cur_func := f\<rparr>) }) (refines_file env q r)"
proof (rule ensures_bind, rule ensuresI, rule ensures_bind, rule ensures_call [OF route_mmio_effect], clarify)
  fix target s' assume "cs_same s s'"
  then have s: "cs_same r s'" by (rule cs_same_trans [OF assms(1)])
  show "ensures (case target of None \<Rightarrow> do { np \<leftarrow> is_non_posted_tlp_req env q; done_tlp (complete_unsupported env np s') }
    | Some f \<Rightarrow> handle_routed env q (s'\<lparr>rs_cur_func := f\<rparr>)) (refines_file env q r)"
  proof (cases target)
    case None
    have "ensures (done_tlp (complete_unsupported env np s')) (refines_file env q r)" for np
      by (rule unsupported_refines [OF s]) (use ty in blast)
    then show ?thesis unfolding None option.case by (intro ensures_bind) (rule ensuresI)
  next
    case (Some f)
    have "ensures (handle_routed env q (s'\<lparr>rs_cur_func := f\<rparr>)) (refines_file env q r)"
      by (rule handle_routed_refines) (use s ty in simp_all)
    then show ?thesis using Some by simp
  qed
qed

lemma tlp_req_handler_cb_refines:
  assumes "tlp_inv r"
  shows "ensures (tlp_req_handler_cb env DOCA_SUCCESS q r) (refines_file env q r)"
proof (cases "tq_opcode q")
  case REQ_OPCODE_PCI_EVENT
  then show ?thesis by (auto simp: tlp_req_handler_cb_def file_after_def config_target_def refines_file_def intro!: ensures_Some)
next
  case REQ_OPCODE_TLP
  show ?thesis
  proof (cases "get_tlp_req_type env q")
    case None
    then show ?thesis using REQ_OPCODE_TLP by (simp add: tlp_req_handler_cb_def ensures_None)
  next
    case (Some ty)
    define s where "s = r\<lparr>rs_cur_func := Pf\<rparr>"
    have s: "cs_same r s" "sizes_of s = sizes_of r" "rs_total_vfs s = rs_total_vfs r" "tlp_inv s"
      using assms by (simp_all add: s_def)
    let ?refused = "rs_is_dsp_bdf_supported r \<noteq> 0 \<and> tq_dsp_id q \<noteq> 0 \<and> tq_dsp_id q < dsp_id_implicit env"
    have "ensures (done_tlp (complete_unsupported env True (cxt_upd g s))) (refines_file env q r)" if ?refused for g
      by (rule unsupported_refines) (use s that in \<open>simp_all add: config_target_def\<close>)
    moreover have "ensures (handle_routed env q s) (refines_file env q r)" if "\<not> config_type env q"
      by (rule handle_routed_refines [OF s(1)]) (use that in blast)
    moreover have "rs_is_dsp_bdf_supported s = rs_is_dsp_bdf_supported r" by (simp add: s_def)
    ultimately show ?thesis
      unfolding tlp_req_handler_cb_def Some Option.bind_lunit Let_def s_def [symmetric]
      using Some REQ_OPCODE_TLP config_path_refines [OF assms s(1-3) REQ_OPCODE_TLP _ s(4)] memory_path_refines [OF s(1), of env q]
      by simp
  qed
qed

section \<open>Completion headers\<close>

fun completion_header :: "tlp_completion \<Rightarrow> u32 list" where
  "completion_header (Complete_config_read f c v i p) = cp_header c"
| "completion_header (Complete_config_write f c v i p) = cp_header c"
| "completion_header (Complete_tlp np f c) = cp_header c"
| "completion_header Complete_pci_event = []"

definition cxt_ids :: "tlp_handler_cxt \<Rightarrow> u16 \<times> 1 word \<times> 1 word \<times> u8 \<times> u16" where
  "cxt_ids c = (hc_requester_id c, hc_tag9 c, hc_tag8 c, hc_tag c, hc_completer_id c)"

text \<open>The identification of the request in the header of a completion.\<close>

definition header_ids :: "u16 \<times> 1 word \<times> 1 word \<times> u8 \<times> u16 \<Rightarrow> u32 list \<Rightarrow> bool" where
  "header_ids ids hdr = (case ids of (requester_id, tag9, tag8, tag, completer_id) \<Rightarrow>
     length hdr = 3 \<and>
     (\<forall>n < 32. bit (hdr ! 2) n = (if 16 \<le> n then bit requester_id (n - 16) else 8 \<le> n \<and> bit tag (n - 8))) \<and>
     (\<forall>n < 32. 16 \<le> n \<longrightarrow> bit (hdr ! 1) n = bit completer_id (n - 16)) \<and>
     bit (hdr ! 0) 23 = bit tag9 0 \<and> bit (hdr ! 0) 19 = bit tag8 0)"

lemma completion_header_ids:
  assumes "bitfield_documented env"
  shows "header_ids (cxt_ids (cur_cxt r)) (set_tlp_req_completion_header env r byte_count)"
proof -
  have set: "bit (be32_set env h l v w) n = (if l \<le> n \<and> n \<le> h then bit v (n - l) else bit w n)"
    if "l \<le> h" "h < 32" "n < 32" for h l v w n
    using assms that by (simp add: bitfield_documented_def)
  show ?thesis
    unfolding header_ids_def cxt_ids_def set_tlp_req_completion_header_def Let_def prod.case
    by (auto simp: set bit_ucast_iff)
qed

lemma write_ids:
  "cxt_ids (fn_cxt (func_at (config_space_header_write_reg1 d m r) f)) = cxt_ids (fn_cxt (func_at r f))"
  "cxt_ids (fn_cxt (func_at (config_space_header_write_reg3 d m r) f)) = cxt_ids (fn_cxt (func_at r f))"
  "cxt_ids (fn_cxt (func_at (config_space_header_write_bar x d m r) f)) = cxt_ids (fn_cxt (func_at r f))"
  "cxt_ids (fn_cxt (func_at (config_space_header_write_reg12 d m r) f)) = cxt_ids (fn_cxt (func_at r f))"
  "cxt_ids (fn_cxt (func_at (config_space_cap_pm_write x d m r) f)) = cxt_ids (fn_cxt (func_at r f))"
  "cxt_ids (fn_cxt (func_at (config_space_ext_cap_sriov_write x d m r) f)) = cxt_ids (fn_cxt (func_at r f))"
  "cxt_ids (fn_cxt (func_at (set_cmpl a b c r) f)) = cxt_ids (fn_cxt (func_at r f))"
  by (simp_all add: config_space_header_write_reg1_def config_space_header_write_reg3_def
      config_space_header_write_bar_def config_space_header_write_reg12_def config_space_cap_pm_write_def
      config_space_ext_cap_sriov_write_def set_cmpl_def Let_def cxt_ids_def)

lemma reg_written_ids: "cxt_ids (cur_cxt (reg_written x d m r)) = cxt_ids (cur_cxt r)"
  by (simp, simp add: reg_written_def config_space_write_def handle_config_space_header_write_def
      handle_config_space_caps_write_def handle_config_space_ext_caps_write_def Let_def write_ids)

lemma config_write_ids: "config_space_write x d m r = (i, v, p, r') \<Longrightarrow> cxt_ids (cur_cxt r') = cxt_ids (cur_cxt r)"
  using reg_written_ids [of x d m r] by (simp add: reg_written_def)

lemma config_read_ids: "config_space_read x r = (d, i, v, p, r') \<Longrightarrow> cxt_ids (cur_cxt r') = cxt_ids (cur_cxt r)"
  using reg_read_state [of x r] by (auto simp: write_ids)

text \<open>Every handler that writes a header identifies the request whose fields the context holds.\<close>

lemma header_from:
  "bitfield_documented env \<Longrightarrow> cxt_ids (cur_cxt r') = ids \<Longrightarrow> header_ids ids (set_tlp_req_completion_header env r' n)"
  using completion_header_ids by blast

lemma read_type_0_header:
  assumes "bitfield_documented env" "handle_tlp_req_read_type_0 env r x = (c, i, v, p, r')"
  shows "header_ids (cxt_ids (cur_cxt r)) (cp_header c)"
proof -
  obtain d i' v' p' s where s: "config_space_read x r = (d, i', v', p', s)" by (metis prod_cases5)
  with assms(2) have "cp_header c = set_tlp_req_completion_header env s 4"
    by (auto simp: handle_tlp_req_read_type_0_def)
  with header_from [OF assms(1) config_read_ids [OF s]] show ?thesis by simp
qed

lemma write_type_0_header:
  assumes "bitfield_documented env" "handle_tlp_req_write_type_0 env q r x = Some (c, i, v, p, r')"
  shows "header_ids (cxt_ids (cur_cxt r)) (cp_header c)"
proof -
  obtain be m d where h: "GET_TLP_REQ_FIRST_DW_BE env q = Some be" "map_first_dw_be_to_mask be = Some m"
    "rd32le (tq_data q) 0 = Some d"
    using assms(2) by (auto simp: handle_tlp_req_write_type_0_def Some_bind_iff)
  obtain i' v' p' s where w: "config_space_write x d m r = (i', v', p', s)" by (metis prod_cases4)
  with assms(2) h have "cp_header c = set_tlp_req_completion_header env s 4"
    by (auto simp: handle_tlp_req_write_type_0_def)
  with header_from [OF assms(1) config_write_ids [OF w]] show ?thesis by simp
qed

lemma memory_read_header:
  assumes "bitfield_documented env"
  shows "ensures (handle_tlp_req_memory_read env q r) (\<lambda>(c, r'). header_ids (cxt_ids (cur_cxt r)) (cp_header c))"
proof (rule ensuresI)
  fix y assume "handle_tlp_req_memory_read env q r = Some y"
  then obtain a b c where "cp_header (fst y) = set_tlp_req_completion_header env (set_cmpl a b c r) 4"
    by (auto simp: handle_tlp_req_memory_read_def get_memory_read_data_def Some_bind_iff Let_def split: if_splits)
  with completion_header_ids [OF assms, of "set_cmpl a b c r" 4]
  show "case y of (c, r') \<Rightarrow> header_ids (cxt_ids (cur_cxt r)) (cp_header c)" by (cases y) (simp add: write_ids)
qed

lemma default_header:
  assumes "bitfield_documented env"
  shows "header_ids (cxt_ids (cur_cxt r)) (cp_header (fst (handle_tlp_req_default env r)))"
  using completion_header_ids [OF assms, of "set_cmpl TLP_FMT_CPL_NODATA 0 TLP_CPL_STATUS_UR r" 4]
  by (simp add: handle_tlp_req_default_def Let_def write_ids)


lemma field_bits:
  assumes "bitfield_documented env" "l \<le> h" "h < 32"
  shows "bit (be32_get env h l w) n \<longleftrightarrow> n \<le> h - l \<and> bit w (n + l)"
  using assms by (auto simp: bitfield_documented_def bit_take_bit_iff bit_drop_bit_eq add.commute)

text \<open>The identification a request carries.\<close>

lemma handle_tlp_req_header:
  assumes "bitfield_documented env" "handle_tlp_req env q r = Some (c, r')" "completion_header c \<noteq> []"
  shows "\<exists>req_id tag9 tag8 tag. GET_TLP_REQ_REQ_ID env q = Some req_id \<and> GET_TLP_REQ_TAG9 env q = Some tag9 \<and>
     GET_TLP_REQ_TAG8 env q = Some tag8 \<and> GET_TLP_REQ_TAG env q = Some tag \<and>
     header_ids (ucast req_id, ucast tag9, ucast tag8, ucast tag, hc_completer_id (cur_cxt r)) (completion_header c)"
proof -
  obtain x req_id tag9 tag8 tag ty where h: "GET_TLP_REQ_EXT_REG_NUM env q = Some x"
    "GET_TLP_REQ_REQ_ID env q = Some req_id" "GET_TLP_REQ_TAG9 env q = Some tag9" "GET_TLP_REQ_TAG8 env q = Some tag8"
    "GET_TLP_REQ_TAG env q = Some tag" "get_tlp_req_type env q = Some ty"
    using assms(2) by (auto simp: handle_tlp_req_def Some_bind_iff Let_def simp del: split_paired_Ex)
  have np: "is_non_posted_tlp_req env q = Some (ty \<noteq> TLP_REQ_TYPE_INVALID \<and> ty \<noteq> TLP_REQ_TYPE_MEMORY_WRITE)"
    by (simp add: is_non_posted_tlp_req_def h)
  define s where "s = cxt_upd (\<lambda>c. c\<lparr>hc_requester_id := ucast req_id, hc_tag9 := ucast tag9,
    hc_tag8 := ucast tag8, hc_tag := ucast tag\<rparr>) r"
  have ids: "cxt_ids (cur_cxt s) = (ucast req_id, ucast tag9, ucast tag8, ucast tag, hc_completer_id (cur_cxt r))"
    by (simp add: s_def cxt_ids_def)
  note y = assms(2) [unfolded handle_tlp_req_def h np Option.bind_lunit Let_def [of "cxt_upd _ _"] s_def [symmetric]]
  have "header_ids (cxt_ids (cur_cxt s)) (completion_header c)"
  proof (cases "ty = TLP_REQ_TYPE_CONFIG_WRITE_TYPE_0 \<or> ty = TLP_REQ_TYPE_MEMORY_READ")
    case True
    with y write_type_0_header [OF assms(1)] ensuresD [OF memory_read_header [OF assms(1)]] show ?thesis
      by (auto simp: Some_bind_iff)
  next
    case False
    with y assms(3) read_type_0_header [OF assms(1)] default_header [OF assms(1), of s] show ?thesis
      by (auto simp: Some_bind_iff split: if_splits prod.splits)
  qed
  with h ids show ?thesis by auto
qed

end
