(* ===== verification/Tlp_Device.thy ===== *)
theory Tlp_Device
  imports Tlp_Correct
begin

text \<open>
  The properties of the emulated device: setup, completion of every request, capability lists, the register file, the
  number of virtual functions, completion headers, base addresses, routing of memory requests, and memory contents.
\<close>

unbundle bit_operations_syntax

section \<open>A concrete instance\<close>

definition env0 :: tlp_env where
  "env0 = \<lparr>be32_get = (\<lambda>h l w. take_bit (h - l + 1) (drop_bit l w)),
     be32_set = (\<lambda>h l v w. (w AND NOT (push_bit l (mask (h - l + 1)))) OR push_bit l (take_bit (h - l + 1) v)),
     dsp_id_implicit = 0xFF\<rparr>"

lemma env0_documented: "bitfield_documented env0"
proof -
  have "bit ((w AND NOT (push_bit l (mask (h - l + 1)))) OR push_bit l (take_bit (h - l + 1) v)) n =
      (if l \<le> n \<and> n \<le> h then bit v (n - l) else bit w n)" if "l \<le> h" "n < 32" for h l n and v w :: u32
    using that by (auto simp: bit_or_iff bit_and_iff bit_not_iff bit_push_bit_iff bit_mask_iff bit_take_bit_iff)
  then show ?thesis by (simp add: bitfield_documented_def env0_def)
qed

text \<open>A read of register 0 of function 0, a request to function 5, and a write of 4 bytes to register 1.\<close>

definition read_req :: tlp_req where
  "read_req = \<lparr>tq_opcode = REQ_OPCODE_TLP, tq_header = [0x04, 0, 0, 1, 0x01, 0x02, 0x33, 0x0F, 1, 0, 0, 0],
     tq_data = [], tq_dsp_id = 0, tq_dsp_bdf = 0\<rparr>"

definition absent_req :: tlp_req where
  "absent_req = read_req\<lparr>tq_header := [0x04, 0, 0, 1, 0x01, 0x02, 0x44, 0x0F, 1, 5, 0, 0]\<rparr>"

definition write_req :: tlp_req where
  "write_req = read_req\<lparr>tq_header := [0x44, 0, 0, 1, 0x01, 0x02, 0x33, 0x0F, 1, 0, 0, 4], tq_data := [6, 0, 0, 0]\<rparr>"

text \<open>A memory read of 8 double words, more than a completion holds, and a memory write of 2.\<close>

definition long_read_req :: tlp_req where
  "long_read_req = read_req\<lparr>tq_header := [0x00, 0, 0, 8, 0x01, 0x02, 0x55, 0xFF, 0, 0, 0x30, 0]\<rparr>"

definition mem_write_req :: tlp_req where
  "mem_write_req = read_req\<lparr>tq_header := [0x40, 0, 0, 2, 0x01, 0x02, 0x56, 0xFF, 0, 0, 0x30, 0, 1, 2, 3, 4, 5, 6, 7, 8]\<rparr>"

definition setup0 :: setup_env where
  "setup0 = \<lparr>su_tlp_dev = DOCA_SUCCESS, su_mem = True, su_exp_mem = True, su_rep_list = DOCA_SUCCESS,
     su_reps = replicate 2 \<lparr>rp_func_type = Some DOCA_PCI_FUNC_TYPE_VF, rp_open = DOCA_SUCCESS,
                            rp_tlp_dev = DOCA_SUCCESS, rp_mem = True\<rparr>\<rparr>"

lemma requests0: "complete_req env0 read_req" "complete_req env0 absent_req" "complete_req env0 write_req"
  "complete_req env0 long_read_req" "complete_req env0 mem_write_req"
  by code_simp+

lemma setup0_ok: "setup_ok setup0 2"
  by (simp add: setup_ok_def setup0_def vf_rep_ok_def numeral_2_eq_2)

lemma setup0_returns: "\<exists>r. tlp_devices_setup setup0 (resources0 2 0) = Some (DOCA_SUCCESS, r) \<and> set_up 2 r"
  using setup_returns [of 2 setup0 0] setup0_ok by (auto simp: returns_def)

section \<open>Properties\<close>

text \<open>C14. For every number of virtual functions the command line accepts, the setup of the devices returns without
  an access outside the array of functions.  When it succeeds (\<open>set_up\<close>) the physical function and every virtual
  function have an allocated and filled transaction region of the recorded size, the physical function its expansion
  ROM, all have their initial configuration spaces, and the virtual functions their type and index; it does succeed
  when the calls of the SDK and the allocations do and enough virtual functions are listed.\<close>

theorem setup_establishes_invariant:
  assumes "total_vfs_callback n = (DOCA_SUCCESS, Some tv)"
  shows "\<exists>res r. tlp_devices_setup su (resources0 tv d) = Some (res, r) \<and> (res = DOCA_SUCCESS \<longrightarrow> set_up tv r) \<and>
     (setup_ok su tv \<longrightarrow> res = DOCA_SUCCESS)"
proof -
  have "0 \<le> n" "n \<le> 7" "tv = word_of_int n" using assms by (auto simp: total_vfs_callback_def split: if_splits)
  then have "uint tv \<le> 7" by (simp add: unsigned_of_int take_bit_int_eq_self)
  then have "tv \<le> 7" by (simp add: word_le_def)
  from setup_returns [OF this, of su d] show ?thesis by (auto simp: returns_def)
qed

theorem setup_establishes_invariant_witness:
  "total_vfs_callback 2 = (DOCA_SUCCESS, Some 2) \<and>
   (\<exists>r. tlp_devices_setup setup0 (resources0 2 0) = Some (DOCA_SUCCESS, r) \<and> set_up 2 r)"
proof
  show c: "total_vfs_callback 2 = (DOCA_SUCCESS, Some 2)" by (simp add: total_vfs_callback_def)
  show "\<exists>r. tlp_devices_setup setup0 (resources0 2 0) = Some (DOCA_SUCCESS, r) \<and> set_up 2 r"
    using setup_establishes_invariant [OF c, of setup0 0] setup0_ok by auto
qed

text \<open>C2. Every request is completed.  After a successful setup, any sequence of complete requests (memory writes of
  at most 16 double words) is handled without a read or a write outside the request, the completion array, the payload
  array or a region, and without leaving a request uncompleted, and the invariant of the functions and their memories
  is kept.\<close>

theorem requests_completed:
  assumes "tlp_devices_setup su (resources0 tv d) = Some (DOCA_SUCCESS, r)" and "tv \<le> 7"
    and "bitfield_documented env" and "\<forall>q \<in> set qs. acceptable env q"
  shows "\<exists>cs r'. run_requests env qs r = Some (cs, r') \<and> length cs = length qs \<and> None \<notin> set cs \<and> tlp_inv r'"
proof -
  have "tlp_inv r" using setup_returns [OF assms(2), of su d] assms(1) by (auto simp: returns_def set_up_def)
  from run_requests_returns [OF assms(3,4) this] keeps_inv [OF _ this] show ?thesis by (auto simp: returns_def)
qed

theorem requests_completed_witness:
  "\<exists>r cs r'. tlp_devices_setup setup0 (resources0 2 0) = Some (DOCA_SUCCESS, r) \<and>
     run_requests env0 [read_req, absent_req, write_req, long_read_req, mem_write_req] r = Some (cs, r') \<and>
     length cs = 5 \<and> None \<notin> set cs"
proof -
  obtain r where r: "tlp_devices_setup setup0 (resources0 2 0) = Some (DOCA_SUCCESS, r)" using setup0_returns by blast
  have "\<forall>q \<in> set [read_req, absent_req, write_req, long_read_req, mem_write_req]. acceptable env0 q"
    using requests0 by simp
  from requests_completed [OF r _ env0_documented this] r show ?thesis by auto
qed

text \<open>A write of 3 to the register with \<open>NumVFs\<close>.\<close>

definition num_vfs_req :: tlp_req where
  "num_vfs_req = read_req\<lparr>tq_header := [0x44, 0, 0, 1, 0x01, 0x02, 0x33, 0x0F, 1, 0, 1, 0x58], tq_data := [3, 0, 0, 0]\<rparr>"

lemma keeps_reg_file: "keeps r r' \<Longrightarrow> x \<notin> writable \<Longrightarrow> reg_file r' f x = reg_file r f x"
  by (simp add: keeps_def func_keeps_def reg_file_eq)

lemma set_up_pf_registers:
  assumes "set_up tv r"
  shows "\<exists>cs. \<forall>x. reg_file r Pf x = cs_value DOCA_PCI_FUNC_TYPE_PF (init_pci_config_space tv cs) x"
  using assms by (auto simp: set_up_def tlp_inv_def reg_file_eq)

lemma set_up_vf_registers:
  assumes "set_up tv r" "i < unat tv"
  shows "\<exists>cs. \<forall>x \<in> {13, 24, 18, 39, 16}. reg_file r (Vf i) x = cs_value DOCA_PCI_FUNC_TYPE_VF (init_pci_config_space 0 cs) x"
    "reg_file r (Vf i) 0 = mk16 0x1af4 0x10f1"
proof -
  obtain cs where c: "fn_func_type (rs_vf r i) = DOCA_PCI_FUNC_TYPE_VF"
    "fn_pci_config_space (rs_vf r i) = header_upd (\<lambda>h. h\<lparr>ch_reg0 := set_hi16 0x10f1 (ch_reg0 h),
           ch_bar := (\<lambda>j. if j < 6 then 0 else ch_bar h j), ch_expansion_rom_base_address := 0\<rparr>)
         (init_pci_config_space 0 cs)"
    using assms by (auto simp: set_up_def vfs_ready_def)
  then show "\<exists>cs. \<forall>x \<in> {13, 24, 18, 39, 16}. reg_file r (Vf i) x = cs_value DOCA_PCI_FUNC_TYPE_VF (init_pci_config_space 0 cs) x"
    by (intro exI [of _ cs]) (simp add: reg_file_eq cs_value_def header_upd_def)
  show "reg_file r (Vf i) 0 = mk16 0x1af4 0x10f1"
    using c by (simp add: reg_file_eq cs_value_def header_upd_def init_pci_config_space_def init_pci_config_space_header_def
        set_hi16_def)
qed

text \<open>C26. After a successful setup and any sequence of complete requests, a host that walks the capability list of any
  function finds the Express, VPD, MSI-X and power-management capabilities at their offsets and then the end of the list;
  the physical function also shows the advanced error reporting capability and, with virtual functions, the SR-IOV
  capability, and the functions keep their vendor and device ids.\<close>

theorem capabilities_found:
  assumes "tlp_devices_setup su (resources0 tv d) = Some (DOCA_SUCCESS, r)" and "tv \<le> 7"
    and "bitfield_documented env" and "\<forall>q \<in> set qs. acceptable env q"
    and "run_requests env qs r = Some (cs, r')" and "f = Pf \<or> (\<exists>i < unat tv. f = Vf i)"
  shows "cap_walk 5 (reg_file r' f) (byte0 (reg_file r' f 13)) = Some [(0x10, 0x60), (0x03, 0x48), (0x11, 0x9c), (0x01, 0x40)] \<and>
     ext_cap_walk 2 (reg_file r' Pf) 0x100 = Some (if tv = 0 then [(0x01, 0x100)] else [(0x01, 0x100), (0x10, 0x148)]) \<and>
     reg_file r' f 0 = mk16 0x1af4 (if f = Pf then 0x10f0 else 0x10f1)"
proof -
  have su: "set_up tv r" using setup_returns [OF assms(2), of su d] assms(1) by (auto simp: returns_def)
  then have "tlp_inv r" by (simp add: set_up_def)
  from run_requests_returns [OF assms(3,4) this] assms(5) have k: "keeps r r'" by (auto simp: returns_def)
  have same: "reg_file r' g x = reg_file r g x" if "x \<in> {0, 13, 24, 18, 39, 16, 64, 82}" for g x
    using that by (intro keeps_reg_file [OF k]) auto
  obtain cs where pf: "\<And>x. reg_file r Pf x = cs_value DOCA_PCI_FUNC_TYPE_PF (init_pci_config_space tv cs) x"
    using set_up_pf_registers [OF su] by blast
  have "\<exists>ty tv' cs. \<forall>x \<in> {13, 24, 18, 39, 16}. reg_file r f x = cs_value ty (init_pci_config_space tv' cs) x"
    using assms(6) pf set_up_vf_registers(1) [OF su] by blast
  then obtain ty tv' cs' where v: "\<forall>x \<in> {13, 24, 18, 39, 16}. reg_file r f x = cs_value ty (init_pci_config_space tv' cs') x"
    by blast
  have "reg_file r' f x = cs_value ty (init_pci_config_space tv' cs') x" if "x \<in> {13, 24, 18, 39, 16}" for x
    using bspec [OF v that] same [of x f] that by simp blast
  then have "cap_walk 5 (reg_file r' f) (byte0 (reg_file r' f 13)) = Some [(0x10, 0x60), (0x03, 0x48), (0x11, 0x9c), (0x01, 0x40)]"
    by (rule cap_walk_init)
  moreover have "ext_cap_walk 2 (reg_file r' Pf) 0x100 = Some (if tv = 0 then [(0x01, 0x100)] else [(0x01, 0x100), (0x10, 0x148)])"
    by (rule ext_cap_walk_init) (use same pf in auto)
  moreover have "reg_file r' f 0 = mk16 0x1af4 (if f = Pf then 0x10f0 else 0x10f1)"
    using assms(6) same [of 0 f] set_up_vf_registers(2) [OF su]
    by (auto simp: pf cs_value_def init_pci_config_space_def init_pci_config_space_header_def)
  ultimately show ?thesis by blast
qed

theorem capabilities_found_witness:
  "\<exists>r cs r'. tlp_devices_setup setup0 (resources0 2 0) = Some (DOCA_SUCCESS, r) \<and>
     run_requests env0 [read_req, absent_req, write_req] r = Some (cs, r') \<and>
     cap_walk 5 (reg_file r' (Vf 1)) (byte0 (reg_file r' (Vf 1) 13)) = Some [(0x10, 0x60), (0x03, 0x48), (0x11, 0x9c), (0x01, 0x40)]"
proof -
  obtain r where r: "tlp_devices_setup setup0 (resources0 2 0) = Some (DOCA_SUCCESS, r)" "tlp_inv r"
    using setup0_returns by (auto simp: set_up_def)
  have q: "\<forall>q \<in> set [read_req, absent_req, write_req]. acceptable env0 q" using requests0 by simp
  obtain cs r' where c: "run_requests env0 [read_req, absent_req, write_req] r = Some (cs, r')"
    using run_requests_returns [OF env0_documented q r(2)] by (auto simp: returns_def)
  from capabilities_found [OF r(1) _ env0_documented q c, of "Vf 1"] c r(1) show ?thesis by auto
qed

text \<open>C6. The request callback implements a register file.  The registers after any request are exactly those of the
  abstract machine \<open>file_after\<close>: a configuration write that addresses the physical function or an enabled virtual
  function (as \<open>VF Enable\<close> and \<open>NumVFs\<close> in the registers say) and is not refused for its port writes the register it
  names by the access rule of that register, and no request changes anything else.  A configuration read of an
  addressed function completes with the value of the register it names.\<close>

theorem request_refines_register_file:
  assumes "tlp_inv r" and "tlp_req_handler_cb env DOCA_SUCCESS q r = Some (c, r')"
  shows "reg_file r' = file_after env q (rs_is_dsp_bdf_supported r) (rs_total_vfs r) (sizes_of r) (reg_file r) \<and>
     (\<forall>f. get_tlp_req_type env q = Some TLP_REQ_TYPE_CONFIG_READ_TYPE_0 \<longrightarrow>
        config_target env q (rs_is_dsp_bdf_supported r) (rs_total_vfs r) (reg_file r) = Some f \<longrightarrow>
        (\<exists>x cpl v i p. GET_TLP_REQ_EXT_REG_NUM env q = Some x \<and> c = Some (Complete_config_read f cpl v i p) \<and>
           cp_data cpl = dw_bytes (reg_file r f x)))"
  using ensuresD [OF tlp_req_handler_cb_refines [OF assms(1)] assms(2)] by (simp add: refines_file_def)

lemma pf_target:
  assumes "q = read_req \<or> q = write_req"
  shows "config_target env0 q 0 tv regs = Some Pf"
proof -
  have "tq_opcode q = REQ_OPCODE_TLP" "GET_TLP_REQ_DEVICE env0 q = Some 0" "GET_TLP_REQ_FUNCTION env0 q = Some 0"
    using assms by (elim disjE; hypsubst; code_simp)+
  then show ?thesis by (simp add: config_target_def addressed_def)
qed

theorem request_refines_register_file_witness:
  "(\<exists>r c r'. tlp_req_handler_cb env0 DOCA_SUCCESS write_req (r\<lparr>rs_is_dsp_bdf_supported := 0\<rparr>) = Some (c, r') \<and>
      bit (reg_file r' Pf 1) 1 \<and> bit (reg_file r' Pf 1) 2) \<and>
   (\<exists>r c r' cpl v i p. tlp_req_handler_cb env0 DOCA_SUCCESS read_req (r\<lparr>rs_is_dsp_bdf_supported := 0\<rparr>) = Some (c, r') \<and>
      c = Some (Complete_config_read Pf cpl v i p) \<and> cp_data cpl = dw_bytes (reg_file (r\<lparr>rs_is_dsp_bdf_supported := 0\<rparr>) Pf 0))"
proof
  have inv: "tlp_inv (r\<lparr>rs_is_dsp_bdf_supported := 0\<rparr>)" if "tlp_inv r" for r
  proof -
    have "func_at (r\<lparr>rs_is_dsp_bdf_supported := 0\<rparr>) f = func_at r f" for f by (cases f) simp_all
    then show ?thesis using that by (simp add: tlp_inv_def)
  qed
  obtain r where r: "tlp_inv r" using setup0_returns by (auto simp: set_up_def)
  let ?r = "r\<lparr>rs_is_dsp_bdf_supported := 0\<rparr>"
  obtain c r' where c: "tlp_req_handler_cb env0 DOCA_SUCCESS write_req ?r = Some (c, r')"
    using tlp_req_handler_cb_returns [OF inv [OF r] _ env0_documented, of write_req DOCA_SUCCESS] requests0(3)
    by (auto simp: returns_def)
  have w: "get_tlp_req_type env0 write_req = Some TLP_REQ_TYPE_CONFIG_WRITE_TYPE_0"
    "config_write env0 write_req = Some (1, 6, 0xFFFFFFFF)" by code_simp+
  have "reg_file r' Pf 1 = write_reg DOCA_PCI_FUNC_TYPE_PF (sizes_of ?r Pf) (bit (reg_file ?r Pf 84) 0) 1 6 0xFFFFFFFF (reg_file ?r Pf 1)"
    using request_refines_register_file [OF inv [OF r] c, THEN conjunct1] w pf_target [of write_req]
    by (simp add: file_after_def ref_type_def)
  moreover have "bit (6 :: u32) 1" "bit (6 :: u32) 2" by simp_all
  ultimately have "bit (reg_file r' Pf 1) 1 \<and> bit (reg_file r' Pf 1) 2"
    by (simp add: bit_write_reg access_rule_def base_register_def rw_bits_def)
  with c show "\<exists>r c r'. tlp_req_handler_cb env0 DOCA_SUCCESS write_req (r\<lparr>rs_is_dsp_bdf_supported := 0\<rparr>) = Some (c, r') \<and>
      bit (reg_file r' Pf 1) 1 \<and> bit (reg_file r' Pf 1) 2" by blast
  obtain c r' where c: "tlp_req_handler_cb env0 DOCA_SUCCESS read_req ?r = Some (c, r')"
    using tlp_req_handler_cb_returns [OF inv [OF r] _ env0_documented, of read_req DOCA_SUCCESS] requests0(1)
    by (auto simp: returns_def)
  have "get_tlp_req_type env0 read_req = Some TLP_REQ_TYPE_CONFIG_READ_TYPE_0"
    "GET_TLP_REQ_EXT_REG_NUM env0 read_req = Some 0" by code_simp+
  then show "\<exists>r c r' cpl v i p. tlp_req_handler_cb env0 DOCA_SUCCESS read_req (r\<lparr>rs_is_dsp_bdf_supported := 0\<rparr>) = Some (c, r') \<and>
      c = Some (Complete_config_read Pf cpl v i p) \<and> cp_data cpl = dw_bytes (reg_file (r\<lparr>rs_is_dsp_bdf_supported := 0\<rparr>) Pf 0)"
    using request_refines_register_file [OF inv [OF r] c, THEN conjunct2, rule_format, of Pf] c pf_target [of read_req]
    by fastforce
qed

text \<open>While VF Enable is set, no request changes the number of virtual functions: the register with \<open>NumVFs\<close>
  keeps its value.\<close>

theorem num_vfs_locked:
  assumes "tlp_req_handler_cb env DOCA_SUCCESS q r = Some (c, r')" and "tlp_inv r" and "bit (reg_file r Pf 84) 0"
  shows "reg_file r' Pf 86 = reg_file r Pf 86"
proof -
  have e: "reg_file r' = file_after env q (rs_is_dsp_bdf_supported r) (rs_total_vfs r) (sizes_of r) (reg_file r)"
    using ensuresD [OF tlp_req_handler_cb_refines [OF assms(2)] assms(1)] by (simp add: refines_file_def)
  have "write_reg DOCA_PCI_FUNC_TYPE_PF sz True 86 d m old = old" for sz d m old
    by (intro bit_word_eqI) (simp add: bit_write_reg access_rule_def base_register_def rw_bits_def w1c_bits_def)
  then have "file_write (sizes_of r) f w (reg_file r) Pf 86 = reg_file r Pf 86" for f w
    using assms(3) by (cases w) (auto simp: ref_type_def)
  then show ?thesis by (simp add: e file_after_def split: option.splits)
qed


theorem num_vfs_locked_witness:
  "\<exists>c r'. tlp_req_handler_cb env0 DOCA_SUCCESS num_vfs_req (reg_written 84 1 0xFF (resources0 0 0)) = Some (c, r') \<and>
     reg_file r' Pf 86 = reg_file (reg_written 84 1 0xFF (resources0 0 0)) Pf 86"
proof -
  let ?r = "reg_written 84 1 0xFF (resources0 0 0)"
  have i: "tlp_inv (resources0 0 0)"
  proof -
    have "regions_ok (fn_cxt (func_at (resources0 0 0) f))" for f
      by (cases f) (simp_all add: resources0_def func0_def cxt0_def regions_ok_def region_ok_def)
    then show ?thesis by (simp add: tlp_inv_def) (simp add: resources0_def func0_def)
  qed
  have inv: "tlp_inv ?r" by (rule keeps_inv [OF keeps_reg_written [OF keeps_refl] i])
  have "map_first_dw_be_to_mask 1 = Some 0xFF" by (simp add: map_first_dw_be_to_mask_def)
  from reg_written_bits [OF this, of 84 1 "resources0 0 0" 0] have "bit (reg_value 84 ?r) 0"
    by (simp add: rw_bits_def resources0_def func0_def)
  then have e: "bit (reg_file ?r Pf 84) 0" using reg_file_cur [of ?r 84] by (simp add: resources0_def)
  have "complete_req env0 num_vfs_req" by code_simp
  then obtain c r' where c: "tlp_req_handler_cb env0 DOCA_SUCCESS num_vfs_req ?r = Some (c, r')"
    using tlp_req_handler_cb_returns [OF inv _ env0_documented, of num_vfs_req DOCA_SUCCESS] by (auto simp: returns_def)
  from num_vfs_locked [OF c inv e] c show ?thesis by blast
qed

lemma request_ids:
  assumes "bitfield_documented env" "rd32be (tq_header q) 0 = Some w0" "rd32be (tq_header q) 4 = Some w1"
    "GET_TLP_REQ_REQ_ID env q = Some req_id" "GET_TLP_REQ_TAG9 env q = Some tag9"
    "GET_TLP_REQ_TAG8 env q = Some tag8" "GET_TLP_REQ_TAG env q = Some tag"
  shows "bit (ucast req_id :: u16) n \<longleftrightarrow> n < 16 \<and> bit w1 (n + 16)" "bit (ucast tag :: u8) n \<longleftrightarrow> n < 8 \<and> bit w1 (n + 8)"
    "bit (ucast tag9 :: 1 word) 0 \<longleftrightarrow> bit w0 23" "bit (ucast tag8 :: 1 word) 0 \<longleftrightarrow> bit w0 19"
  using assms by (auto simp: hdr_defs hdr_field_def field_bits bit_ucast_iff)

text \<open>The completion of a routed request identifies the request: its requester id, and its tag with the two
  high tag bits, are those of the request header, and it carries the completer id of the function that was
  addressed.\<close>

theorem completion_identifies_request:
  assumes "bitfield_documented env" and "handle_tlp_req env q r = Some (c, r')" and "completion_header c \<noteq> []"
    and "rd32be (tq_header q) 0 = Some w0" and "rd32be (tq_header q) 4 = Some w1"
  shows "length (completion_header c) = 3 \<and> drop_bit 8 (completion_header c ! 2) = drop_bit 8 w1 \<and>
     drop_bit 16 (completion_header c ! 1) = ucast (hc_completer_id (cur_cxt r)) \<and>
     bit (completion_header c ! 0) 23 = bit w0 23 \<and> bit (completion_header c ! 0) 19 = bit w0 19"
proof -
  obtain req_id tag9 tag8 tag where h: "GET_TLP_REQ_REQ_ID env q = Some req_id" "GET_TLP_REQ_TAG9 env q = Some tag9"
    "GET_TLP_REQ_TAG8 env q = Some tag8" "GET_TLP_REQ_TAG env q = Some tag"
    "header_ids (ucast req_id, ucast tag9, ucast tag8, ucast tag, hc_completer_id (cur_cxt r)) (completion_header c)"
    using handle_tlp_req_header [OF assms(1-3)] by blast
  note ids = request_ids [OF assms(1,4,5) h(1-4)]
  have le: "bit w n \<Longrightarrow> n < 32" for w :: u32 and n using bit_imp_le_length [of w n] by simp
  from h(5) have hdr: "length (completion_header c) = 3"
    "\<And>n. n < 32 \<Longrightarrow> bit (completion_header c ! 2) n = (if 16 \<le> n then bit (ucast req_id :: u16) (n - 16) else 8 \<le> n \<and> bit (ucast tag :: u8) (n - 8))"
    "\<And>n. n < 32 \<Longrightarrow> 16 \<le> n \<Longrightarrow> bit (completion_header c ! 1) n = bit (hc_completer_id (cur_cxt r)) (n - 16)"
    "bit (completion_header c ! 0) 23 = bit w0 23" "bit (completion_header c ! 0) 19 = bit w0 19"
    using ids by (auto simp: header_ids_def)
  have "bit (drop_bit 8 (completion_header c ! 2)) n = bit (drop_bit 8 w1) n" for n
    by (cases "n < 24") (auto simp: bit_drop_bit_eq hdr(2) ids add.commute dest: le)
  moreover have "bit (drop_bit 16 (completion_header c ! 1)) n = bit (ucast (hc_completer_id (cur_cxt r)) :: u32) n" for n
    using bit_imp_le_length [of "hc_completer_id (cur_cxt r)" n] hdr(3) [of "16 + n"]
    by (cases "n < 16") (auto simp: bit_drop_bit_eq bit_ucast_iff dest: le)
  ultimately show ?thesis using hdr(1,4,5) by (auto intro: bit_word_eqI)
qed

theorem completion_identifies_request_witness:
  "\<exists>c r'. handle_tlp_req env0 read_req (resources0 2 0) = Some (c, r') \<and>
     drop_bit 8 (completion_header c ! 2) = drop_bit 8 0x0102330F"
proof -
  have h: "get_tlp_req_type env0 read_req = Some TLP_REQ_TYPE_CONFIG_READ_TYPE_0"
    "is_non_posted_tlp_req env0 read_req = Some True" "GET_TLP_REQ_EXT_REG_NUM env0 read_req = Some 0"
    "GET_TLP_REQ_REQ_ID env0 read_req = Some 0x0102" "GET_TLP_REQ_TAG9 env0 read_req = Some 0"
    "GET_TLP_REQ_TAG8 env0 read_req = Some 0" "GET_TLP_REQ_TAG env0 read_req = Some 0x33"
    by code_simp+
  have w: "rd32be (tq_header read_req) 0 = Some 0x04000001" "rd32be (tq_header read_req) 4 = Some 0x0102330F"
    by code_simp+
  obtain cpl i v p s where s: "handle_tlp_req_read_type_0 env0 (cxt_upd (\<lambda>c. c\<lparr>hc_requester_id := 258,
      hc_tag9 := 0, hc_tag8 := 0, hc_tag := 51\<rparr>) (resources0 2 0)) 0 = (cpl, i, v, p, s)" by (metis prod_cases5)
  have "cp_header cpl \<noteq> []" using read_type_0_header [OF env0_documented s] by (auto simp: header_ids_def)
  then obtain c r' where c: "handle_tlp_req env0 read_req (resources0 2 0) = Some (c, r')" "completion_header c \<noteq> []"
    by (auto simp: handle_tlp_req_def h s)
  from completion_identifies_request [OF env0_documented c w] c(1) show ?thesis by blast
qed

text \<open>C33. The completion of a configuration request for a function that does not exist does not identify the
  request: its requester id and tag are those the physical function has stored, from the last request it
  serviced, whatever the request header says.\<close>

theorem unrouted_completion_stale:
  assumes "bitfield_documented env" and "tq_opcode q = REQ_OPCODE_TLP" and "rs_is_dsp_bdf_supported r = 0"
    and "get_tlp_req_type env q = Some TLP_REQ_TYPE_CONFIG_READ_TYPE_0 \<or>
         get_tlp_req_type env q = Some TLP_REQ_TYPE_CONFIG_WRITE_TYPE_0"
    and "route_config_tlp env q (r\<lparr>rs_cur_func := Pf\<rparr>) = Some (False, r\<lparr>rs_cur_func := Pf\<rparr>)"
  shows "\<exists>c r'. tlp_req_handler_cb env DOCA_SUCCESS q r = Some (Some c, r') \<and>
     header_ids (cxt_ids (fn_cxt (rs_pf r))) (completion_header c)"
proof -
  obtain cpl s where s: "handle_tlp_req_default env (r\<lparr>rs_cur_func := Pf\<rparr>) = (cpl, s)" by fastforce
  then have "tlp_req_handler_cb env DOCA_SUCCESS q r = Some (Some (Complete_tlp True Pf cpl), s)"
    using assms(2-5) by (auto simp: tlp_req_handler_cb_def complete_unsupported_def Let_def)
  moreover have "header_ids (cxt_ids (fn_cxt (rs_pf r))) (cp_header cpl)"
    using default_header [OF assms(1), of "r\<lparr>rs_cur_func := Pf\<rparr>"] s by simp
  ultimately show ?thesis by auto
qed

theorem unrouted_completion_stale_witness:
  "rd32be (tq_header absent_req) 4 = Some 0x0102440F \<and> bit (0x0102440F :: u32) 10 \<and>
   (\<exists>c r'. tlp_req_handler_cb env0 DOCA_SUCCESS absent_req (resources0 2 0) = Some (Some c, r') \<and>
      \<not> bit (completion_header c ! 2) 10)"
proof -
  have w: "rd32be (tq_header absent_req) 4 = Some 0x0102440F" "tq_opcode absent_req = REQ_OPCODE_TLP"
    "get_tlp_req_type env0 absent_req = Some TLP_REQ_TYPE_CONFIG_READ_TYPE_0"
    "GET_TLP_REQ_BUS env0 absent_req = Some 1" "GET_TLP_REQ_DEVICE env0 absent_req = Some 0"
    "GET_TLP_REQ_FUNCTION env0 absent_req = Some 5"
    by code_simp+
  let ?r = "resources0 2 0"
  have "route_config_tlp env0 absent_req (?r\<lparr>rs_cur_func := Pf\<rparr>) = Some (False, ?r\<lparr>rs_cur_func := Pf\<rparr>)"
    by (simp add: route_config_tlp_def w resources0_def)
  from unrouted_completion_stale [OF env0_documented w(2) _ disjI1 [OF w(3)] this]
  show ?thesis using w(1) by (auto simp: resources0_def header_ids_def cxt_ids_def func0_def cxt0_def)
qed

section \<open>Base addresses\<close>

text \<open>A host writes both halves of a base address with all bytes enabled.\<close>

definition write_bar_pair :: "u64 \<Rightarrow> devemu_tlp_resources \<Rightarrow> devemu_tlp_resources" where
  "write_bar_pair v r = reg_written 5 (ucast (drop_bit 32 v)) 0xFFFFFFFF (reg_written 4 (ucast v) 0xFFFFFFFF r)"

definition read_bar_pair :: "devemu_tlp_resources \<Rightarrow> u64" where
  "read_bar_pair r = push_bit 32 (ucast (reg_value 5 r)) OR ucast (reg_value 4 r AND 0xFFFFFFF0)"

lemma read_bar_pair_pf:
  "fn_func_type (cur_func r) = DOCA_PCI_FUNC_TYPE_PF \<Longrightarrow> get_func_bar0_base r = read_bar_pair r"
  by (simp add: get_func_bar0_base_def read_bar_pair_def reg_value_eq cs_value_def)

lemma bar_write_values:
  assumes "fn_func_type (cur_func r) = DOCA_PCI_FUNC_TYPE_PF"
  shows "reg_value 4 (reg_written 4 d m r) = (bar_value False (hc_bar_region_size (cur_cxt r)) d m AND 0xFFFFFFF0) OR BAR_FLAGS"
    "reg_value 5 (reg_written 5 d m r) = bar_value True (hc_bar_region_size (cur_cxt r)) d m"
  using assms
  by (simp_all add: reg_value_eq reg_written_cs config_space_header_write_bar_def cs_value_updates)

lemma bar_written:
  assumes "fn_func_type (cur_func r) = DOCA_PCI_FUNC_TYPE_PF"
  shows "read_bar_pair (write_bar_pair v r) =
      push_bit 32 (ucast (bar_value True (hc_bar_region_size (cur_cxt r)) (ucast (drop_bit 32 v)) 0xFFFFFFFF)) OR
      ucast (bar_value False (hc_bar_region_size (cur_cxt r)) (ucast v) 0xFFFFFFFF AND 0xFFFFFFF0)"
proof -
  have s: "hc_bar_region_size (cur_cxt (reg_written x d m r)) = hc_bar_region_size (cur_cxt r)" for x d m
    using reg_written_sizes [of x d m r "rs_cur_func r"] by (simp add: cxt_sizes_def)
  have t: "fn_func_type (cur_func (reg_written x d m r)) = DOCA_PCI_FUNC_TYPE_PF" for x d m
    using assms by simp
  have f: "(w AND 0xFFFFFFF0 OR BAR_FLAGS) AND 0xFFFFFFF0 = w AND 0xFFFFFFF0" for w :: u32
  proof -
    have "(w AND 0xFFFFFFF0 OR BAR_FLAGS) AND 0xFFFFFFF0 = (w AND (0xFFFFFFF0 AND 0xFFFFFFF0)) OR (BAR_FLAGS AND 0xFFFFFFF0)"
      by (simp only: bit.conj_disj_distrib2 and.assoc)
    then show ?thesis by simp
  qed
  show ?thesis
    unfolding read_bar_pair_def write_bar_pair_def bar_write_values(2) [OF t] s
      reg_written_other [of 4 5, simplified] bar_write_values(1) [OF assms] f
    by simp
qed

lemma size_mask:
  "bar_value True (2 ^ 14) 0xFFFFFFFF 0xFFFFFFFF = 0xFFFFFFFF"
  "bar_value False (2 ^ 14) 0xFFFFFFFF 0xFFFFFFFF = 0xFFFFC000"
  by (simp_all add: bar_value_def)

text \<open>C28. A host finds and programs the base address of the physical function.  After it writes all ones to both
  halves of the pair, the negation of the base it reads back is the size of the region; after it writes an address
  aligned to that size, below the top 4 GiB, it reads the address back and the handler decodes accesses from it.\<close>

theorem bar_sizing_and_programming:
  assumes "fn_func_type (cur_func r) = DOCA_PCI_FUNC_TYPE_PF" and "hc_bar_region_size (cur_cxt r) = 2 ^ 14"
    and "base AND mask 14 = 0" and "base < 0xFFFFFFFF00000000"
  shows "- read_bar_pair (write_bar_pair 0xFFFFFFFFFFFFFFFF r) = 2 ^ 14 \<and>
     read_bar_pair (write_bar_pair base r) = base \<and> get_func_bar0_base (write_bar_pair base r) = base"
proof -
  have le: "bit w n \<Longrightarrow> n < 32" for w :: u32 and n using bit_imp_le_length [of w n] by simp
  have low: "\<not> bit base n" if "n < 14" for n
    using assms(3) that bit_and_iff [of base "mask 14" n] by (simp add: bit_mask_iff)
  then have high: "bit base n \<Longrightarrow> 14 \<le> n" for n by (meson not_le)
  have "\<not> bit (ucast base :: u32) 0" using low [of 0] by (simp add: bit_ucast_iff)
  moreover have "bit (0xFFFFFFFF :: u32) 0" by simp
  ultimately have lo: "(ucast base :: u32) \<noteq> 0xFFFFFFFF" by auto
  have hi: "(ucast (drop_bit 32 base) :: u32) \<noteq> 0xFFFFFFFF"
  proof
    assume a: "(ucast (drop_bit 32 base) :: u32) = 0xFFFFFFFF"
    have "unat base < 0xFFFFFFFF00000000" using assms(4) by (simp add: word_less_nat_alt)
    then have "unat base div 2 ^ 32 < 0xFFFFFFFF" by simp
    moreover have "unat (ucast (drop_bit 32 base) :: u32) = unat base div 2 ^ 32 mod 2 ^ 32"
      by (simp add: unsigned_ucast_eq take_bit_eq_mod unsigned_drop_bit_eq drop_bit_eq_div unat_div)
    ultimately show False using a by simp
  qed
  have "(0xFFFFFFF0 :: u32) = NOT (mask 4)" by (simp add: mask_eq_exp_minus_1)
  then have "read_bar_pair (write_bar_pair base r) =
      push_bit 32 (ucast (ucast (drop_bit 32 base) :: u32)) OR ucast ((ucast base :: u32) AND NOT (mask 4))"
    using bar_written [OF assms(1), of base] lo hi by (simp add: bar_value_def)
  also have "\<dots> = base"
    by (rule bit_word_eqI) (auto simp: bit_simps dest: high)
  finally have b: "read_bar_pair (write_bar_pair base r) = base" .
  have t: "fn_func_type (cur_func (write_bar_pair base r)) = DOCA_PCI_FUNC_TYPE_PF"
    using assms(1) by (simp add: write_bar_pair_def)
  have u: "(ucast (0xFFFFFFFFFFFFFFFF :: u64) :: u32) = 0xFFFFFFFF"
    "(ucast (drop_bit 32 (0xFFFFFFFFFFFFFFFF :: u64)) :: u32) = 0xFFFFFFFF" by simp_all
  have "read_bar_pair (write_bar_pair 0xFFFFFFFFFFFFFFFF r) = 0xFFFFFFFFFFFFC000"
    using bar_written [OF assms(1), of "0xFFFFFFFFFFFFFFFF"] unfolding u assms(2) size_mask by simp
  then show ?thesis using b read_bar_pair_pf [OF t] by simp
qed

theorem bar_sizing_and_programming_witness:
  "\<exists>r. tlp_devices_setup setup0 (resources0 2 0) = Some (DOCA_SUCCESS, r) \<and>
     - read_bar_pair (write_bar_pair 0xFFFFFFFFFFFFFFFF (r\<lparr>rs_cur_func := Pf\<rparr>)) = 2 ^ 14 \<and>
     read_bar_pair (write_bar_pair 0x1FE0004000 (r\<lparr>rs_cur_func := Pf\<rparr>)) = 0x1FE0004000"
proof -
  obtain r where r: "tlp_devices_setup setup0 (resources0 2 0) = Some (DOCA_SUCCESS, r)" "set_up 2 r"
    using setup0_returns by blast
  have "fn_func_type (cur_func (r\<lparr>rs_cur_func := Pf\<rparr>)) = DOCA_PCI_FUNC_TYPE_PF"
    "hc_bar_region_size (cur_cxt (r\<lparr>rs_cur_func := Pf\<rparr>)) = 2 ^ 14"
    using r(2) by (simp_all add: set_up_def tlp_inv_def)
  from bar_sizing_and_programming [OF this, of "0x1FE0004000"] r(1) show ?thesis
    by (simp add: mask_eq_exp_minus_1)
qed

lemma vf_window:
  assumes "tlp_inv r" "i < unat (rs_total_vfs r)" "unat (vf_bar_base r) + unat (rs_total_vfs r) * 2 ^ 14 < 2 ^ 64"
  shows "unat (get_func_bar0_base (r\<lparr>rs_cur_func := Vf i\<rparr>)) = unat (vf_bar_base r) + i * 2 ^ 14"
proof -
  have f: "fn_func_type (rs_vf r i) = DOCA_PCI_FUNC_TYPE_VF" "fn_vf_index (rs_vf r i) = of_nat i"
    "rs_total_vfs r \<le> 7" using assms(1,2) by (simp_all add: tlp_inv_def)
  have i: "i \<le> 6" using assms(2) f(3) by (simp add: word_le_nat_alt)
  have v: "vf_bar_base (r\<lparr>rs_cur_func := Vf i\<rparr>) = vf_bar_base r" by (simp add: vf_bar_base_def sriov_of_def)
  have "unat (of_nat i :: u16) = i" using i by (simp add: unsigned_of_nat take_bit_eq_mod)
  then have "unat (ucast (of_nat i :: u16) * push_bit 14 1 :: u64) = i * 2 ^ 14"
    using i by (simp add: unat_word_ariths ucast_vfs push_bit_eq_mult)
  moreover have "unat (vf_bar_base r) + i * 2 ^ 14 < 2 ^ 64"
    using assms(2,3) by (meson add_left_mono less_imp_le_nat mult_le_mono1 order_le_less_trans)
  ultimately show ?thesis
    unfolding get_func_bar0_base_def v using f by (simp add: unat_word_ariths)
qed

lemma route_mmio_eq:
  assumes "rs_total_vfs r \<noteq> 0" "vf_bar_base r \<noteq> 0" "tlp_inv r"
  shows "(\<exists>r'. route_mmio_tlp r address = Some (Some (Vf i), r')) \<longleftrightarrow>
     vf_bar_base r \<le> address \<and> address < vf_bar_base r + ucast (rs_total_vfs r) * push_bit 14 1 \<and>
     i = unat (address - vf_bar_base r) div 2 ^ 14 \<and> lo16 (sr_reg2 (sriov_of r)) AND 8 \<noteq> 0 \<and> is_vf_enabled r (of_nat i)"
    (is "_ \<longleftrightarrow> ?in1 \<and> ?in2 \<and> _")
proof (cases "?in1 \<and> ?in2")
  case True
  have vfs: "rs_total_vfs r \<le> 7" using assms(3) by (simp add: tlp_inv_def)
  let ?v = "ucast ((address - vf_bar_base r) div push_bit 14 1) :: u32"
  note w = vf_window_index [OF _ _ vfs, of "vf_bar_base r" address]
  have v: "vf_ref ?v = Some (Vf (unat ?v))" using vf_ref_in(1) [OF w(4) vfs] True by simp
  have u: "unat ?v = unat (address - vf_bar_base r) div 2 ^ 14" using w(3) True by simp
  have o: "of_nat (unat (address - vf_bar_base r) div 2 ^ 14) = ?v" by (simp only: u [symmetric] of_nat_unat ucast_id)
  show ?thesis
    using True assms(1,2) unfolding route_mmio_tlp_def Let_def v
    by (auto simp: u [simplified] o [simplified] simp del: func_upd.simps)
next
  case False
  then show ?thesis using assms by (auto simp: route_mmio_tlp_def Let_def)
qed


text \<open>C15. Memory requests reach the function that owns the address.  With the base of the virtual functions
  programmed and their windows inside the address space, a request is routed to virtual function \<open>i\<close> exactly when that function is
  enabled, its memory space is enabled, and the address is in the 16 KiB from the base the handler of that function
  decodes from; so the windows of two functions never overlap.\<close>

theorem mmio_routing:
  assumes "tlp_inv r" and "rs_total_vfs r \<noteq> 0" and "vf_bar_base r \<noteq> 0"
    and "unat (vf_bar_base r) + unat (rs_total_vfs r) * 2 ^ 14 < 2 ^ 64"
  shows "(\<exists>r'. route_mmio_tlp r address = Some (Some (Vf i), r')) \<longleftrightarrow>
     routable r (Vf i) \<and> lo16 (sr_reg2 (sriov_of r)) AND 8 \<noteq> 0 \<and>
     unat (get_func_bar0_base (r\<lparr>rs_cur_func := Vf i\<rparr>)) \<le> unat address \<and>
     unat address < unat (get_func_bar0_base (r\<lparr>rs_cur_func := Vf i\<rparr>)) + 2 ^ 14"
proof -
  let ?b = "vf_bar_base r" and ?n = "rs_total_vfs r"
  have vfs: "?n \<le> 7" using assms(1) by (simp add: tlp_inv_def)
  have e: "unat (?b + ucast ?n * push_bit 14 1) = unat ?b + unat ?n * 2 ^ 14"
    using assms(4) vf_window_size [OF vfs] by (simp only: unat_word_ariths) simp
  have d: "unat (address - ?b) = unat address - unat ?b" if "?b \<le> address" using that by (rule unat_sub)
  show ?thesis
  proof (cases "i < unat ?n")
    case True
    have "i * 2 ^ 14 + 2 ^ 14 \<le> unat ?n * 2 ^ 14" using True by (metis Suc_leI mult_Suc add.commute mult_le_mono1)
    then have "?b \<le> address \<and> address < ?b + ucast ?n * push_bit 14 1 \<and> i = unat (address - ?b) div 2 ^ 14 \<longleftrightarrow>
        unat ?b + i * 2 ^ 14 \<le> unat address \<and> unat address < unat ?b + i * 2 ^ 14 + 2 ^ 14"
      unfolding word_le_nat_alt word_less_nat_alt e using d [unfolded word_le_nat_alt] by auto
    then show ?thesis
      unfolding route_mmio_eq [OF assms(2,3,1)] vf_window [OF assms(1) True assms(4)] using True
      by (auto simp: routable_def)
  next
    case False
    have "unat (address - ?b) div 2 ^ 14 < unat ?n" if "?b \<le> address" "address < ?b + ucast ?n * push_bit 14 1"
      using vf_window_index(2) [OF that vfs] by (simp add: less_mult_imp_div_less)
    then show ?thesis
      unfolding route_mmio_eq [OF assms(2,3,1)] using False by (auto simp: routable_def)
  qed
qed


text \<open>Two virtual functions enabled, their base address programmed.\<close>

definition vfs_on :: "devemu_tlp_resources \<Rightarrow> devemu_tlp_resources" where
  "vfs_on r = cs_upd (sriov_upd (\<lambda>s. s\<lparr>sr_reg2 := 9, sr_reg4 := 2, sr_vf_bar := (\<lambda>_. 0)(0 := 0x80000000)\<rparr>))
     (r\<lparr>rs_cur_func := Pf\<rparr>)"

lemma vfs_on_simps: "rs_total_vfs (vfs_on r) = rs_total_vfs r" "fn_cxt (func_at (vfs_on r) f) = fn_cxt (func_at r f)"
  "fn_func_type (rs_pf (vfs_on r)) = fn_func_type (rs_pf r)" "rs_vf (vfs_on r) = rs_vf r"
  "sriov_of (vfs_on r) = (sriov_of r)\<lparr>sr_reg2 := 9, sr_reg4 := 2, sr_vf_bar := (\<lambda>_. 0)(0 := 0x80000000)\<rparr>"
  by (cases f; simp add: vfs_on_def sriov_of_def cs_upd_def sriov_upd_def)+

theorem mmio_routing_witness:
  "\<exists>r r'. tlp_devices_setup setup0 (resources0 2 0) = Some (DOCA_SUCCESS, r) \<and>
     route_mmio_tlp (vfs_on r) 0x80004010 = Some (Some (Vf 1), r')"
proof -
  obtain r where r: "tlp_devices_setup setup0 (resources0 2 0) = Some (DOCA_SUCCESS, r)" "set_up 2 r"
    using setup0_returns by blast
  have b: "vf_bar_base (vfs_on r) = 0x80000000" by (simp add: vf_bar_base_def vfs_on_simps)
  have t: "rs_total_vfs (vfs_on r) = 2" and inv: "tlp_inv (vfs_on r)" using r(2) by (simp_all add: set_up_def vfs_on_simps tlp_inv_def)
  have w: "unat (get_func_bar0_base ((vfs_on r)\<lparr>rs_cur_func := Vf 1\<rparr>)) = 0x80004000"
    using vf_window [OF inv, of 1] by (simp add: t b)
  have "routable (vfs_on r) (Vf 1)"
    using t by (simp add: routable_def is_vf_enabled_def vfs_on_simps lo16_def)
  moreover have "lo16 (sr_reg2 (sriov_of (vfs_on r))) AND 8 \<noteq> 0" by (simp add: vfs_on_simps lo16_def)
  ultimately show ?thesis
    using mmio_routing [OF inv, of "0x80004010" 1] r(1) w by (auto simp: t b)
qed

section \<open>Memory contents\<close>

lemma mk8_dw_bytes: "mk8 (dw_byte w 0) (dw_byte w 1) (dw_byte w 2) (dw_byte w 3) = w"
proof (rule bit_word_eqI)
  fix n assume n: "n < LENGTH(32)"
  consider "n < 8" | "8 \<le> n" "n < 16" | "16 \<le> n" "n < 24" | "24 \<le> n" "n < 32" using n by force
  then show "bit (mk8 (dw_byte w 0) (dw_byte w 1) (dw_byte w 2) (dw_byte w 3)) n = bit w n"
    by cases (auto simp: mk8_def dw_byte_def bit_simps dest: bit_imp_le_length)
qed

lemma write_dword_full:
  assumes "p + 3 < length m"
  shows "\<exists>m'. write_dword m p 0xF w = Some m' \<and> length m' = length m \<and>
     (\<forall>j. m' ! j = (if p \<le> j \<and> j < p + 4 then dw_byte w (j - p) else m ! j))"
proof -
  have "j < p + 4 \<Longrightarrow> p \<le> j \<Longrightarrow> j = p \<or> j = p + 1 \<or> j = p + 2 \<or> j = p + 3" for j by arith
  then show ?thesis using assms
    by (auto simp: write_dword_def wr8_def nth_list_update)
qed

lemma write_dwords_append:
  "write_dwords data p be (xs @ ys) m = do { m \<leftarrow> write_dwords data p be xs m; write_dwords data p be ys m }"
  by (induction xs arbitrary: m) (auto simp: bind_assoc split: bind_split)

lemma write_dwords_full:
  assumes "p + 4 * n \<le> length m" "n \<le> length data" "\<forall>i < n. be i = 0xF"
  shows "\<exists>m'. write_dwords data p be [0..<n] m = Some m' \<and> length m' = length m \<and>
     (\<forall>j. m' ! j = (if p \<le> j \<and> j < p + 4 * n then dw_byte (data ! ((j - p) div 4)) ((j - p) mod 4) else m ! j))"
  using assms
proof (induction n)
  case 0
  then show ?case by auto
next
  case (Suc n)
  then obtain m1 where m1: "write_dwords data p be [0..<n] m = Some m1" "length m1 = length m"
    "\<And>j. m1 ! j = (if p \<le> j \<and> j < p + 4 * n then dw_byte (data ! ((j - p) div 4)) ((j - p) mod 4) else m ! j)"
    by auto
  have "p + n * 4 + 3 < length m1" using Suc.prems(1) m1(2) by simp
  from write_dword_full [OF this, of "data ! n"] obtain m2 where
    m2: "write_dword m1 (p + n * 4) 0xF (data ! n) = Some m2" "length m2 = length m1"
    "\<And>j. m2 ! j = (if p + n * 4 \<le> j \<and> j < p + n * 4 + 4 then dw_byte (data ! n) (j - (p + n * 4)) else m1 ! j)"
    by auto
  have "m2 ! j = (if p \<le> j \<and> j < p + 4 * Suc n then dw_byte (data ! ((j - p) div 4)) ((j - p) mod 4) else m ! j)" for j
  proof (cases "p + n * 4 \<le> j \<and> j < p + n * 4 + 4")
    case True
    then obtain k where k: "j = p + n * 4 + k" "k < 4" by (metis add_less_cancel_left le_iff_add)
    then show ?thesis by (simp add: m2(3))
  next
    case False
    then show ?thesis by (auto simp: m2(3) m1(3))
  qed
  with m1 m2 Suc.prems show ?case by (simp add: write_dwords_append)
qed

lemma read_dwords_append:
  "read_dwords m p be (xs @ ys) a = do { a \<leftarrow> read_dwords m p be xs a; read_dwords m p be ys a }"
  by (induction xs arbitrary: a) (auto simp: bind_assoc split: bind_split)

lemma read_dwords_full:
  assumes "p + 4 * n \<le> length m" "n \<le> length a" "n \<le> length data" "\<forall>i < n. be i = 0xF"
    "\<forall>i < n. \<forall>k < 4. m ! (p + i * 4 + k) = dw_byte (data ! i) k"
  shows "read_dwords m p be [0..<n] a = Some (take n data @ drop n a)"
  using assms
proof (induction n)
  case 0
  then show ?case by simp
next
  case (Suc n)
  have "read_dword m (p + n * 4) 0xF = Some (mk8 (m ! (p + n * 4)) (m ! (p + n * 4 + 1)) (m ! (p + n * 4 + 2)) (m ! (p + n * 4 + 3)))"
    using Suc.prems(1) by (simp add: read_dword_def)
  also have "\<dots> = Some (data ! n)"
    using Suc.prems(5) [rule_format, of n 0] Suc.prems(5) [rule_format, of n 1]
      Suc.prems(5) [rule_format, of n 2] Suc.prems(5) [rule_format, of n 3] mk8_dw_bytes [of "data ! n"] by simp
  finally have "read_dword m (p + n * 4) 0xF = Some (data ! n)" .
  moreover have "(take n data @ drop n a)[n := data ! n] = take (Suc n) data @ drop (Suc n) a"
    using Suc.prems(2,3) by (simp add: list_update_append take_Suc_conv_app_nth) (metis Cons_nth_drop_Suc Suc_le_lessD list_update_code(2))
  ultimately show ?case using Suc by (simp add: read_dwords_append min_absorb1 min_absorb2)
qed

lemma sriov_of_at: "sriov_of r = ce_sriov_ext_cap (cs_ext_caps (cs_at r Pf))"
  by (simp add: sriov_of_def)

lemma bar0_base_cxt [simp]:
  "get_func_bar0_base (cxt_upd g r) = get_func_bar0_base r" "get_func_bar0_base (set_cmpl a b c r) = get_func_bar0_base r"
  unfolding get_func_bar0_base_def vf_bar_base_def sriov_of_at by (simp_all del: func_at.simps)

lemma evaluate_after_write:
  assumes "evaluate_transaction_operation_params address len r = Some (offset, n, m)"
  shows "evaluate_transaction_operation_params address len
      (set_cmpl 0 0 0 (cxt_upd (\<lambda>c. c\<lparr>hc_transaction_region_memory := Some m'\<rparr>) r)) = Some (offset, n, m')"
  using assms
  by (auto simp: evaluate_transaction_operation_params_def Some_bind_iff set_cmpl_def bar0_base_cxt(1) split: option.splits if_splits)

lemma evaluate_offset:
  assumes "tlp_inv r" "evaluate_transaction_operation_params address len r = Some (offset, n, m)"
  shows "unat offset < length m"
proof -
  have "region_params (get_func_bar0_base r + transaction_start_address)
      (hc_transaction_region_size (cur_cxt r)) address len = Some (offset, n)"
    "hc_transaction_region_memory (cur_cxt r) = Some m"
    using assms(2) by (auto simp: evaluate_transaction_operation_params_def Some_bind_iff split: option.splits if_splits)
  with region_params_bounds(2) tlp_inv_regions [OF assms(1)] show ?thesis
    by (auto simp: regions_ok_def region_ok_def)
qed

lemma full_enables: "get_dword_byte_enable_mask i n 0xF 0xF = 0xF"
  by (simp add: get_dword_byte_enable_mask_def)

text \<open>C27. A memory write of up to 5 double words with all bytes enabled, inside the transaction region of the function,
  is read back: a memory read of the same address and length returns the data.\<close>

theorem memory_round_trip:
  assumes "tlp_inv r" and "4 dvd unat address" and "n \<le> 5" and "n \<le> length data"
    and "evaluate_transaction_operation_params address (of_nat (4 * n)) r = Some (offset, dws, m)" and "unat dws = n"
  shows "\<exists>r' r''. set_memory_write_data address (of_nat (4 * n)) data 0xF 0xF r = Some r' \<and>
     get_memory_read_data address (of_nat (4 * n)) 0xF 0xF r' = Some (take n data @ replicate (5 - n) 0, r'')"
proof -
  have "unat offset + 4 * n \<le> length m"
  proof (cases n)
    case 0
    with assms(5,6) show ?thesis
      using evaluate_offset [OF assms(1,5)] by simp
  next
    case (Suc k)
    then show ?thesis using evaluate_access [OF disjI1 [OF assms(5)] assms(1,2), of k] assms(6) by simp
  qed
  note len = this
  let ?be = "\<lambda>k i. get_dword_byte_enable_mask i k 0xF 0xF"
  obtain m' where m': "write_dwords data (unat offset) (?be n) [0..<n] m = Some m'" "length m' = length m"
    "\<And>j. m' ! j = (if unat offset \<le> j \<and> j < unat offset + 4 * n then dw_byte (data ! ((j - unat offset) div 4)) ((j - unat offset) mod 4) else m ! j)"
    using write_dwords_full [OF len assms(4), of "?be n"] by (auto simp: full_enables)
  define r' where "r' = set_cmpl 0 0 0 (cxt_upd (\<lambda>c. c\<lparr>hc_transaction_region_memory := Some m'\<rparr>) r)"
  have w: "set_memory_write_data address (of_nat (4 * n)) data 0xF 0xF r = Some r'"
    unfolding set_memory_write_data_def assms(5) option.case prod.case assms(6) m'(1) by (simp add: r'_def)
  have e: "evaluate_transaction_operation_params address (of_nat (4 * n)) r' = Some (offset, dws, m')"
    unfolding r'_def by (rule evaluate_after_write [OF assms(5)])
  have nd: "unat ((of_nat (4 * n) :: u32) div 4) = n" using assms(3) by (simp add: unat_div unsigned_of_nat take_bit_eq_mod del: of_nat_mult)
  then have nd': "unat (if (of_nat (4 * n) :: u32) div 4 > 5 then 5 else (of_nat (4 * n) :: u32) div 4) = n"
    using assms(3) by (simp add: word_less_nat_alt del: of_nat_mult)
  have "m' ! (unat offset + i * 4 + k) = dw_byte (data ! i) k" if "i < n" "k < 4" for i k
    using that by (simp add: m'(3))
  then have "read_dwords m' (unat offset) (?be n) [0..<n] (replicate 5 0) = Some (take n data @ drop n (replicate 5 0))"
    using len m'(2) assms(3,4) by (intro read_dwords_full) (simp_all add: full_enables)
  moreover have "clear_dwords n (replicate 5 0) = Some (replicate 5 0)"
    using assms(3) by (simp add: clear_dwords_def replicate_add [symmetric] del: replicate.simps)
  ultimately have "\<exists>r''. get_memory_read_data address (of_nat (4 * n)) 0xF 0xF r' = Some (take n data @ replicate (5 - n) 0, r'')"
    unfolding get_memory_read_data_def Let_def e nd' option.case prod.case assms(6) by (simp del: replicate.simps)
  with w show ?thesis by blast
qed


lemma set_up_transaction:
  assumes "set_up tv r"
  shows "\<exists>m. evaluate_transaction_operation_params 0x3000 len (r\<lparr>rs_cur_func := Pf\<rparr>) =
     do { (offset, n) \<leftarrow> region_params 0x3000 4096 0x3000 len; Some (offset, n, m) }"
proof -
  have "get_func_bar0_base (r\<lparr>rs_cur_func := Pf\<rparr>) = 0" using assms
    by (auto simp: set_up_def tlp_inv_def get_func_bar0_base_def init_pci_config_space_def init_pci_config_space_header_def)
  moreover obtain m where "hc_transaction_region_memory (fn_cxt (rs_pf r)) = Some m"
    "hc_transaction_region_size (fn_cxt (rs_pf r)) = 4096" using assms by (auto simp: set_up_def)
  ultimately show ?thesis by (intro exI [of _ m]) (simp add: evaluate_transaction_operation_params_def)
qed

theorem memory_round_trip_witness:
  "\<exists>r r' r''. tlp_devices_setup setup0 (resources0 2 0) = Some (DOCA_SUCCESS, r) \<and>
     set_memory_write_data 0x3000 8 [0x11223344, 0x55667788] 0xF 0xF (r\<lparr>rs_cur_func := Pf\<rparr>) = Some r' \<and>
     get_memory_read_data 0x3000 8 0xF 0xF r' = Some ([0x11223344, 0x55667788, 0, 0, 0], r'')"
proof -
  obtain r where r: "tlp_devices_setup setup0 (resources0 2 0) = Some (DOCA_SUCCESS, r)" "set_up 2 r"
    using setup0_returns by blast
  obtain m where m: "evaluate_transaction_operation_params 0x3000 (of_nat (4 * 2)) (r\<lparr>rs_cur_func := Pf\<rparr>) = Some (0, 2, m)"
    using set_up_transaction [OF r(2), of 8] by (auto simp: region_params_def)
  have "tlp_inv (r\<lparr>rs_cur_func := Pf\<rparr>)" using r(2) by (simp add: set_up_def)
  from memory_round_trip [OF this _ _ _ m, of "[0x11223344, 0x55667788]"] r(1)
  show ?thesis by (auto simp: numeral_3_eq_3)
qed

lemma write_dwords_past_array: "\<exists>i \<in> set js. length data \<le> i \<Longrightarrow> write_dwords data p be js m = None"
  by (induction js arbitrary: m) (auto simp: not_less split: bind_split)

text \<open>A memory write of more than 16 double words, the size of the array the payload is copied to, reads past the
  end of that array when it is inside the transaction region.\<close>

theorem long_write_reads_past_array:
  assumes "length data_array = 16"
    and "evaluate_transaction_operation_params address len r = Some (offset, dws, m)" and "16 < unat dws"
  shows "set_memory_write_data address len data_array first_dw_be last_dw_be r = None"
proof -
  have "16 \<in> set [0..<unat dws] \<and> length data_array \<le> 16" using assms(1,3) by simp
  then have "\<exists>i \<in> set [0..<unat dws]. length data_array \<le> i" by blast
  with assms(2) show ?thesis by (simp add: set_memory_write_data_def write_dwords_past_array)
qed

theorem long_write_reads_past_array_witness:
  "\<exists>r. tlp_devices_setup setup0 (resources0 2 0) = Some (DOCA_SUCCESS, r) \<and>
     set_memory_write_data 0x3000 68 (replicate 16 0) 0xF 0xF (r\<lparr>rs_cur_func := Pf\<rparr>) = None"
proof -
  obtain r where r: "tlp_devices_setup setup0 (resources0 2 0) = Some (DOCA_SUCCESS, r)" "set_up 2 r"
    using setup0_returns by blast
  obtain m where m: "evaluate_transaction_operation_params 0x3000 68 (r\<lparr>rs_cur_func := Pf\<rparr>) = Some (0, 17, m)"
    using set_up_transaction [OF r(2), of 68] by (auto simp: region_params_def)
  have "length (replicate 16 0 :: u32 list) = 16" by simp
  from long_write_reads_past_array [OF this m, of "0xF" "0xF"] r(1) show ?thesis by auto
qed

end
