(* ===== verification/Storage_Buffer.thy ===== *)
theory Storage_Buffer
  imports Pack
begin

text \<open>
  Model of \<open>applications/storage/storage_common/buffer_utils.hpp\<close> and \<open>buffer_utils.cpp\<close>: the
  serialisation primitives \<open>to_buffer\<close> and \<open>from_buffer\<close>, which write and read one value at a
  moving pointer, and the two helpers \<open>bytes_to_hex_str\<close> and \<open>aligned_size\<close>.  As in the theory
  of \<open>pack.c\<close> a pointer into a buffer is the pair of the buffer and an offset, and an access
  outside the buffer is \<open>None\<close>.  A \<open>std::string\<close> and a \<open>std::vector<uint8_t>\<close> are byte lists.

  The locale \<open>stream_codec\<close> is what the message layer relies on: a value occupies exactly the
  bytes of its image, and reading a buffer that holds the image gives the value back whatever
  surrounds it.  It is interpreted for every overload of the pair.
\<close>

section \<open>The code\<close>

text \<open>The object representation of \<open>htobe\<close>\<open>N\<close>\<open>(value)\<close>, most significant byte first, and \<open>be\<close>\<open>N\<close>\<open>toh\<close> of
  the bytes read.\<close>

definition be_bytes :: "nat \<Rightarrow> 'a::len word \<Rightarrow> bytes" where
  "be_bytes n value = map (get_byte value) (rev [0..<n])"

definition be_value :: "bytes \<Rightarrow> 'a::len word" where
  "be_value bs = foldl (\<lambda>acc b. push_bit 8 acc OR ucast b) 0 bs"

text \<open>\<open>std::copy\<close> of the bytes to, or of \<open>n\<close> bytes from, the position of the pointer.\<close>

fun copy_to :: "wbuf \<Rightarrow> bytes \<Rightarrow> wbuf option" where
  "copy_to (m, h) bs =
     (if h + length bs \<le> length m
      then Some (take h m @ bs @ drop (h + length bs) m, h + length bs) else None)"

fun copy_from :: "wbuf \<Rightarrow> nat \<Rightarrow> (bytes \<times> wbuf) option" where
  "copy_from (m, h) n =
     (if h + n \<le> length m then Some (take n (drop h m), (m, h + n)) else None)"

definition to_buffer_u8 :: "wbuf \<Rightarrow> u8 \<Rightarrow> wbuf option" where
  "to_buffer_u8 buffer value = copy_to buffer [value]"

definition to_buffer_u16 :: "wbuf \<Rightarrow> u16 \<Rightarrow> wbuf option" where
  "to_buffer_u16 buffer value = copy_to buffer (be_bytes 2 value)"

definition to_buffer_u32 :: "wbuf \<Rightarrow> u32 \<Rightarrow> wbuf option" where
  "to_buffer_u32 buffer value = copy_to buffer (be_bytes 4 value)"

definition to_buffer_u64 :: "wbuf \<Rightarrow> u64 \<Rightarrow> wbuf option" where
  "to_buffer_u64 buffer value = copy_to buffer (be_bytes 8 value)"

definition to_buffer_string :: "wbuf \<Rightarrow> bytes \<Rightarrow> wbuf option" where
  "to_buffer_string buffer value = do {
     buffer \<leftarrow> to_buffer_u32 buffer (of_nat (length value));
     copy_to buffer value }"

definition to_buffer_vector :: "wbuf \<Rightarrow> bytes \<Rightarrow> wbuf option" where
  "to_buffer_vector buffer value = do {
     buffer \<leftarrow> to_buffer_u32 buffer (of_nat (length value));
     copy_to buffer value }"

definition from_buffer_u8 :: "wbuf \<Rightarrow> (u8 \<times> wbuf) option" where
  "from_buffer_u8 buffer = do { (bs, buffer) \<leftarrow> copy_from buffer 1; Some (hd bs, buffer) }"

definition from_buffer_u16 :: "wbuf \<Rightarrow> (u16 \<times> wbuf) option" where
  "from_buffer_u16 buffer = do { (bs, buffer) \<leftarrow> copy_from buffer 2; Some (be_value bs, buffer) }"

definition from_buffer_u32 :: "wbuf \<Rightarrow> (u32 \<times> wbuf) option" where
  "from_buffer_u32 buffer = do { (bs, buffer) \<leftarrow> copy_from buffer 4; Some (be_value bs, buffer) }"

definition from_buffer_u64 :: "wbuf \<Rightarrow> (u64 \<times> wbuf) option" where
  "from_buffer_u64 buffer = do { (bs, buffer) \<leftarrow> copy_from buffer 8; Some (be_value bs, buffer) }"

definition from_buffer_string :: "wbuf \<Rightarrow> (bytes \<times> wbuf) option" where
  "from_buffer_string buffer = do {
     (byte_count, buffer) \<leftarrow> from_buffer_u32 buffer;
     copy_from buffer (unat byte_count) }"

definition from_buffer_vector :: "wbuf \<Rightarrow> (bytes \<times> wbuf) option" where
  "from_buffer_vector buffer = do {
     (byte_count, buffer) \<leftarrow> from_buffer_u32 buffer;
     copy_from buffer (unat byte_count) }"

text \<open>A string literal of the source as bytes.\<close>

definition str :: "string \<Rightarrow> bytes" where
  "str s = map of_char s"

definition char_table :: bytes where
  "char_table = str ''0123456789ABCDEF''"

definition bytes_to_hex_str :: "bytes \<Rightarrow> bytes" where
  "bytes_to_hex_str bs =
     concat (map (\<lambda>b. [char_table ! unat (drop_bit 4 b), char_table ! unat (b AND 0xf)]) bs)"

definition aligned_size :: "u64 \<Rightarrow> u64 \<Rightarrow> u64" where
  "aligned_size alignment sz =
     (if alignment = 0 then sz
      else let remainder = sz mod alignment in
        alignment * (sz div alignment + (if remainder = 0 then 0 else 1)))"

section \<open>Big-endian images\<close>

lemma length_be_bytes [simp]: "length (be_bytes n v) = n"
  by (simp add: be_bytes_def)

lemma be_bytes_simps:
  "be_bytes 2 v = [get_byte v 1, get_byte v 0]"
  "be_bytes 4 v = [get_byte v 3, get_byte v 2, get_byte v 1, get_byte v 0]"
  "be_bytes 8 v = [get_byte v 7, get_byte v 6, get_byte v 5, get_byte v 4,
                   get_byte v 3, get_byte v 2, get_byte v 1, get_byte v 0]"
  by (simp_all add: be_bytes_def upt_rec numeral_eq_Suc)

lemma be_value_append:
  "be_value (bs @ [b]) = push_bit 8 (be_value bs) OR ucast b"
  by (simp add: be_value_def)

text \<open>The value of the bytes of \<open>v\<close> above position \<open>k\<close> is \<open>v\<close> shifted down by \<open>k\<close> bytes.\<close>

lemma be_value_be_bytes:
  fixes v :: "'a::len word"
  assumes "LENGTH('a) = 8 * n" and "k \<le> n"
  shows "be_value (map (get_byte v) (rev [k..<n])) = drop_bit (8 * k) v"
  using assms(2)
proof (induction "n - k" arbitrary: k)
  case 0
  then have "k = n" by simp
  moreover have "drop_bit (8 * n) v = 0"
    by (rule bit_word_eqI) (use assms in \<open>auto simp: bit_simps dest: bit_imp_le_length\<close>)
  ultimately show ?case by (simp add: be_value_def)
next
  case (Suc d)
  then have k: "k < n" by simp
  then have "rev [k..<n] = rev [Suc k..<n] @ [k]" by (simp add: upt_rec)
  moreover have "be_value (map (get_byte v) (rev [Suc k..<n])) = drop_bit (8 * Suc k) v"
    using Suc k by auto
  moreover have "push_bit 8 (drop_bit (8 * Suc k) v) OR ucast (get_byte v k) = drop_bit (8 * k) v"
  proof (rule bit_word_eqI)
    fix i assume "i < LENGTH('a)"
    then show "bit (push_bit 8 (drop_bit (8 * Suc k) v) OR ucast (get_byte v k)) i =
               bit (drop_bit (8 * k) v) i"
      by (cases "i < 8") (auto simp: bit_simps bit_get_byte ac_simps)
  qed
  ultimately show ?case by (simp add: be_value_append)
qed

lemma be_round_trip [simp]:
  "be_value (be_bytes 2 (v2 :: u16)) = v2"
  "be_value (be_bytes 4 (v4 :: u32)) = v4"
  "be_value (be_bytes 8 (v8 :: u64)) = v8"
  using be_value_be_bytes [where 'a = 16, of 2 0] be_value_be_bytes [where 'a = 32, of 4 0]
    be_value_be_bytes [where 'a = 64, of 8 0]
  by (simp_all add: be_bytes_def)

section \<open>The codec contract\<close>

text \<open>
  \<open>writes k f bs\<close>: at any position with room for \<open>bs\<close>, \<open>f\<close> writes these bytes there, changes nothing
  else and returns (through \<open>k\<close>) the position behind them.  \<open>reads k f bs\<close>: at any position that
  holds \<open>bs\<close>, \<open>f\<close> consumes these bytes.  Both compose along the sequencing of the code.
\<close>

definition writes :: "(wbuf \<Rightarrow> 'r) \<Rightarrow> (wbuf \<Rightarrow> 'r option) \<Rightarrow> bytes \<Rightarrow> bool" where
  "writes k f bs \<longleftrightarrow> (\<forall>pre gap. length bs \<le> length gap \<longrightarrow>
     f (pre @ gap, length pre) =
       Some (k (pre @ bs @ drop (length bs) gap, length pre + length bs)))"

definition reads :: "(wbuf \<Rightarrow> 'r) \<Rightarrow> (wbuf \<Rightarrow> 'r option) \<Rightarrow> bytes \<Rightarrow> bool" where
  "reads k f bs \<longleftrightarrow> (\<forall>pre post.
     f (pre @ bs @ post, length pre) = Some (k (pre @ bs @ post, length pre + length bs)))"

lemma writesD:
  "writes k f bs \<Longrightarrow> length bs \<le> length gap \<Longrightarrow>
   f (pre @ gap, length pre) = Some (k (pre @ bs @ drop (length bs) gap, length pre + length bs))"
  by (simp add: writes_def)

lemma readsD:
  "reads k f bs \<Longrightarrow> f (pre @ bs @ post, length pre) = Some (k (pre @ bs @ post, length pre + length bs))"
  by (simp add: reads_def)

lemma writes_return: "writes k (\<lambda>w. Some (k w)) []"
  by (simp add: writes_def)

lemma writes_bind:
  assumes "writes id f bs" and "writes k g cs"
  shows "writes k (\<lambda>w. f w \<bind> g) (bs @ cs)"
  unfolding writes_def
proof (intro allI impI)
  fix pre gap :: bytes
  assume len: "length (bs @ cs) \<le> length gap"
  have "f (pre @ gap, length pre) = Some ((pre @ bs) @ drop (length bs) gap, length (pre @ bs))"
    using writesD [OF assms(1), of gap pre] len by simp
  then show "f (pre @ gap, length pre) \<bind> g =
      Some (k (pre @ (bs @ cs) @ drop (length (bs @ cs)) gap, length pre + length (bs @ cs)))"
    using writesD [OF assms(2), of "drop (length bs) gap" "pre @ bs"] len
    by (simp add: add.assoc add.commute [of "length cs"])
qed

lemma writes_last: "writes id f bs \<Longrightarrow> writes k (\<lambda>w. f w \<bind> (\<lambda>w. Some (k w))) bs"
  using writes_bind [of f bs k "\<lambda>w. Some (k w)" "[]"] writes_return [of k] by simp

lemma reads_return: "reads k (\<lambda>w. Some (k w)) []"
  by (simp add: reads_def)

lemma reads_bind:
  assumes "reads (Pair v) f bs" and "reads k (g v) cs"
  shows "reads k (\<lambda>w. f w \<bind> (\<lambda>(x, w). g x w)) (bs @ cs)"
  unfolding reads_def
proof (intro allI)
  fix pre post :: bytes
  show "f (pre @ (bs @ cs) @ post, length pre) \<bind> (\<lambda>(x, w). g x w) =
      Some (k (pre @ (bs @ cs) @ post, length pre + length (bs @ cs)))"
    using readsD [OF assms(1), of pre "cs @ post"] readsD [OF assms(2), of "pre @ bs" post]
    by (simp add: add.assoc)
qed

lemma reads_last:
  "reads (Pair v) f bs \<Longrightarrow> reads k (\<lambda>w. f w \<bind> (\<lambda>(x, w). Some (k' x w))) bs" if "k' v = k"
  using reads_bind [of v f bs k "\<lambda>x w. Some (k' x w)" "[]"] reads_return [of k] that by simp

locale stream_codec =
  fixes enc :: "wbuf \<Rightarrow> 'v \<Rightarrow> wbuf option"
    and dec :: "wbuf \<Rightarrow> ('v \<times> wbuf) option"
    and image :: "'v \<Rightarrow> bytes"
    and fits :: "'v \<Rightarrow> bool"
  assumes enc_image: "fits v \<Longrightarrow> length (image v) \<le> length gap \<Longrightarrow>
            enc (pre @ gap, length pre) v =
              Some (pre @ image v @ drop (length (image v)) gap, length pre + length (image v))"
    and enc_overrun: "fits v \<Longrightarrow> length gap < length (image v) \<Longrightarrow> enc (pre @ gap, length pre) v = None"
    and dec_image: "fits v \<Longrightarrow>
            dec (pre @ image v @ post, length pre) =
              Some (v, (pre @ image v @ post, length pre + length (image v)))"
begin

lemma dec_enc:
  assumes "fits v" "enc (pre @ gap, length pre) v = Some (m, h)"
  shows "dec (m, length pre) = Some (v, (m, h))"
  using assms enc_image [of v gap pre] enc_overrun [of v gap pre] dec_image [of v pre]
  by (cases "length (image v) \<le> length gap") auto

lemma image_inj: "fits v \<Longrightarrow> fits w \<Longrightarrow> image v = image w \<Longrightarrow> v = w"
  using dec_image [of v "[]" "[]"] dec_image [of w "[]" "[]"] by simp

lemma writes_enc: "fits v \<Longrightarrow> writes id (\<lambda>w. enc w v) (image v)"
  using enc_image by (simp add: writes_def)

lemma reads_dec: "fits v \<Longrightarrow> reads (Pair v) dec (image v)"
  using dec_image by (simp add: reads_def)

end

interpretation b8: stream_codec to_buffer_u8 from_buffer_u8 "\<lambda>v. [v]" "\<lambda>_. True"
  by unfold_locales (simp_all add: to_buffer_u8_def from_buffer_u8_def)

interpretation b16: stream_codec to_buffer_u16 from_buffer_u16 "be_bytes 2" "\<lambda>_. True"
  by unfold_locales (simp_all add: to_buffer_u16_def from_buffer_u16_def)

interpretation b32: stream_codec to_buffer_u32 from_buffer_u32 "be_bytes 4" "\<lambda>_. True"
  by unfold_locales (simp_all add: to_buffer_u32_def from_buffer_u32_def)

interpretation b64: stream_codec to_buffer_u64 from_buffer_u64 "be_bytes 8" "\<lambda>_. True"
  by unfold_locales (simp_all add: to_buffer_u64_def from_buffer_u64_def)

text \<open>A length-prefixed byte sequence.  Its length has to fit the prefix.\<close>

definition sized_bytes :: "bytes \<Rightarrow> bytes" where
  "sized_bytes bs = be_bytes 4 (of_nat (length bs) :: u32) @ bs"

lemma length_sized_bytes [simp]: "length (sized_bytes bs) = 4 + length bs"
  by (simp add: sized_bytes_def)

lemma to_buffer_sized:
  "to_buffer_string (pre @ gap, length pre) bs =
     (if 4 + length bs \<le> length gap
      then Some (pre @ sized_bytes bs @ drop (4 + length bs) gap, length pre + (4 + length bs))
      else None)"
proof (cases "4 \<le> length gap")
  case True
  then have "to_buffer_u32 (pre @ gap, length pre) (of_nat (length bs)) =
      Some ((pre @ be_bytes 4 (of_nat (length bs) :: u32)) @ drop 4 gap, length pre + 4)"
    using b32.enc_image by simp
  then show ?thesis
    using True by (auto simp: to_buffer_string_def sized_bytes_def add.commute)
next
  case False
  then show ?thesis
    using b32.enc_overrun [of gap "of_nat (length bs)" pre]
    by (simp add: to_buffer_string_def)
qed

lemma from_buffer_sized:
  assumes "length bs < 2 ^ 32"
  shows "from_buffer_string (pre @ sized_bytes bs @ post, length pre) =
           Some (bs, (pre @ sized_bytes bs @ post, length pre + (4 + length bs)))"
proof -
  have "from_buffer_u32 (pre @ sized_bytes bs @ post, length pre) =
      Some (of_nat (length bs), (pre @ sized_bytes bs @ post, length pre + 4))"
    using b32.dec_image [of pre "of_nat (length bs)" "bs @ post"] by (simp add: sized_bytes_def)
  then show ?thesis
    using assms by (simp add: from_buffer_string_def unat_of_nat sized_bytes_def)
qed

lemma vector_is_string:
  "to_buffer_vector = to_buffer_string" "from_buffer_vector = from_buffer_string"
  by (simp_all add: fun_eq_iff to_buffer_vector_def to_buffer_string_def
        from_buffer_vector_def from_buffer_string_def)

interpretation bstr: stream_codec to_buffer_string from_buffer_string sized_bytes "\<lambda>bs. length bs < 2 ^ 32"
  by unfold_locales (simp_all add: to_buffer_sized from_buffer_sized)

interpretation bvec: stream_codec to_buffer_vector from_buffer_vector sized_bytes "\<lambda>bs. length bs < 2 ^ 32"
  by unfold_locales (simp_all add: to_buffer_sized from_buffer_sized vector_is_string)

section \<open>The helpers\<close>

text \<open>When the rounded size fits 64 bits, \<open>aligned_size\<close> is the least multiple of the alignment that is
  not below the requested size.\<close>

lemma unat_aligned_size:
  assumes "alignment \<noteq> 0" and "unat sz + unat alignment \<le> 2 ^ 64"
  shows "unat (aligned_size alignment sz) =
           unat alignment * ((unat sz + unat alignment - 1) div unat alignment)"
proof -
  let ?a = "unat alignment" and ?s = "unat sz"
  have a: "0 < ?a" using assms(1) by (simp add: unat_gt_0)
  define q where "q = ?s div ?a + (if ?s mod ?a = 0 then 0 else 1)"
  have q: "(?s + ?a - 1) div ?a = q"
  proof (cases "?s mod ?a = 0")
    case True
    then obtain k where "?s = ?a * k" by blast
    then have e: "?s + ?a - 1 = (?a - 1) + ?a * k" and k: "q = k" using a True by (simp_all add: q_def)
    have "((?a - 1) + ?a * k) div ?a = k + (?a - 1) div ?a"
      by (rule div_mult_self2) (use a in simp)
    also have "\<dots> = k" using a by simp
    finally have "((?a - 1) + ?a * k) div ?a = k" .
    then show ?thesis unfolding e k .
  next
    case False
    have "?s = ?a * (?s div ?a) + ?s mod ?a" by simp
    then have e: "?s + ?a - 1 = (?s mod ?a - 1) + ?a * (?s div ?a + 1)"
      using False a unfolding distrib_left mult_1_right by linarith
    have "((?s mod ?a - 1) + ?a * (?s div ?a + 1)) div ?a = (?s div ?a + 1) + (?s mod ?a - 1) div ?a"
      by (rule div_mult_self2) (use a in simp)
    also have "\<dots> = q" using a False by (simp add: q_def less_imp_diff_less)
    finally show ?thesis unfolding e .
  qed
  have "?a * q \<le> ?s + ?a - 1" unfolding q [symmetric] by (rule times_div_less_eq_dividend)
  then have le: "?a * q < 2 ^ 64" using a assms(2) by linarith
  moreover have "q \<le> ?a * q" using a by simp
  moreover have "q < 2 ^ 64" using calculation by linarith
  ultimately have "unat (alignment * of_nat q) = ?a * q"
    by (simp add: unat_word_ariths unat_of_nat)
  moreover have "aligned_size alignment sz = alignment * of_nat q"
  proof -
    have "sz mod alignment = 0 \<longleftrightarrow> ?s mod ?a = 0" by (simp add: unat_eq_zero flip: unat_mod)
    moreover have "sz div alignment = of_nat (?s div ?a)" by (simp flip: unat_div)
    ultimately show ?thesis using assms(1) by (simp add: aligned_size_def q_def)
  qed
  ultimately show ?thesis using q by simp
qed

lemma length_hex_str: "length (bytes_to_hex_str bs) = 2 * length bs"
  by (induction bs) (simp_all add: bytes_to_hex_str_def)

end
