(* ===== verification/Storage_Message.thy ===== *)
theory Storage_Message
  imports Storage_Buffer
begin

text \<open>
  Model of \<open>applications/storage/storage_common/control_message.hpp\<close> and \<open>control_message.cpp\<close>: the
  control messages the storage applications exchange, their size on the wire, the encoder, the
  decoder and the printer.

  The payload pointer of a message is an option, its dynamic type the constructor of \<open>payload\<close>.
  An exception is the left injection of a sum, so a function that may throw and may also leave
  its buffer has the type \<open>(doca_error_t + 'a) option\<close>.  The decoder fills a message object that
  already exists; the fields it leaves alone keep their old values, the payload pointer of a
  message type without payload in particular.  An enumeration value on the wire is any 32-bit
  number, so \<open>message_type\<close> has a constructor for the numbers the enumeration does not name; the
  error code and the role of a payload are kept as numbers.
\<close>

section \<open>The messages\<close>

datatype message_type =
    error_response
  | query_storage_request
  | query_storage_response
  | init_storage_request
  | init_storage_response
  | create_rdma_connection_request
  | create_rdma_connection_response
  | start_storage_request
  | start_storage_response
  | stop_storage_request
  | stop_storage_response
  | shutdown_request
  | shutdown_response
  | unhandled_type u32

definition rdma_connection_role_io_data :: u32 where "rdma_connection_role_io_data = 0"
definition rdma_connection_role_io_control :: u32 where "rdma_connection_role_io_control = 1"

datatype payload =
    error_response_payload (error_code: u32) (err_message: bytes)
  | storage_details_payload (total_size: u64) (block_size: u32)
  | init_storage_payload (transaction_count: u32) (core_count: u32) (mmap_export_blob: bytes)
  | rdma_connection_details_payload (context_idx: u32) (role: u32) (connection_details: bytes)

record message =
  msg_type :: message_type
  message_id :: u32
  correlation_id :: u32
  msg_payload :: "payload option"

text \<open>The casts between the enumeration and its underlying type.\<close>

definition handled_types :: "message_type list" where
  "handled_types =
     [error_response, query_storage_request, query_storage_response, init_storage_request,
      init_storage_response, create_rdma_connection_request, create_rdma_connection_response,
      start_storage_request, start_storage_response, stop_storage_request, stop_storage_response,
      shutdown_request, shutdown_response]"

definition message_type_of :: "u32 \<Rightarrow> message_type" where
  "message_type_of v = (if unat v < 13 then handled_types ! unat v else unhandled_type v)"

fun message_type_value :: "message_type \<Rightarrow> u32" where
  "message_type_value error_response = 0"
| "message_type_value query_storage_request = 1"
| "message_type_value query_storage_response = 2"
| "message_type_value init_storage_request = 3"
| "message_type_value init_storage_response = 4"
| "message_type_value create_rdma_connection_request = 5"
| "message_type_value create_rdma_connection_response = 6"
| "message_type_value start_storage_request = 7"
| "message_type_value start_storage_response = 8"
| "message_type_value stop_storage_request = 9"
| "message_type_value stop_storage_response = 10"
| "message_type_value shutdown_request = 11"
| "message_type_value shutdown_response = 12"
| "message_type_value (unhandled_type v) = v"

section \<open>Wire size\<close>

definition wire_size_header :: u32 where
  "wire_size_header = 4"

definition wire_size :: "message \<Rightarrow> doca_error_t + u32" where
  "wire_size msg = (let sz = 4 + 4 + 4 in
     case msg_type msg of
       error_response \<Rightarrow>
         (case msg_payload msg of
            Some (error_response_payload code msg_text) \<Rightarrow> Inr (sz + 4 + 4 + of_nat (length msg_text))
          | _ \<Rightarrow> Inl DOCA_ERROR_INVALID_VALUE)
     | query_storage_response \<Rightarrow> Inr (sz + 8 + 4)
     | init_storage_request \<Rightarrow>
         (case msg_payload msg of
            Some (init_storage_payload tc cc blob) \<Rightarrow> Inr (sz + 4 + 4 + 4 + of_nat (length blob))
          | _ \<Rightarrow> Inl DOCA_ERROR_INVALID_VALUE)
     | create_rdma_connection_request \<Rightarrow>
         (case msg_payload msg of
            Some (rdma_connection_details_payload idx rl details) \<Rightarrow>
              Inr (sz + 4 + 4 + 4 + of_nat (length details))
          | _ \<Rightarrow> Inl DOCA_ERROR_INVALID_VALUE)
     | create_rdma_connection_response \<Rightarrow>
         (case msg_payload msg of
            Some (rdma_connection_details_payload idx rl details) \<Rightarrow>
              Inr (sz + 4 + 4 + 4 + of_nat (length details))
          | _ \<Rightarrow> Inl DOCA_ERROR_INVALID_VALUE)
     | unhandled_type v \<Rightarrow> Inl DOCA_ERROR_INVALID_VALUE
     | _ \<Rightarrow> Inr sz)"

section \<open>Encoding\<close>

definition encode_header :: "wbuf \<Rightarrow> u32 \<Rightarrow> wbuf option" where
  "encode_header buffer hdr_wire_size = to_buffer_u32 buffer hdr_wire_size"

definition encode_error_response :: "wbuf \<Rightarrow> payload option \<Rightarrow> (doca_error_t + wbuf) option" where
  "encode_error_response buffer pl = (case pl of
     Some (error_response_payload code msg_text) \<Rightarrow> do {
       buffer \<leftarrow> to_buffer_u32 buffer code;
       buffer \<leftarrow> to_buffer_string buffer msg_text;
       Some (Inr buffer) }
   | _ \<Rightarrow> Some (Inl DOCA_ERROR_INVALID_VALUE))"

definition encode_storage_details :: "wbuf \<Rightarrow> payload option \<Rightarrow> (doca_error_t + wbuf) option" where
  "encode_storage_details buffer pl = (case pl of
     Some (storage_details_payload tot block) \<Rightarrow> do {
       buffer \<leftarrow> to_buffer_u64 buffer tot;
       buffer \<leftarrow> to_buffer_u32 buffer block;
       Some (Inr buffer) }
   | _ \<Rightarrow> Some (Inl DOCA_ERROR_INVALID_VALUE))"

definition encode_init_storage :: "wbuf \<Rightarrow> payload option \<Rightarrow> (doca_error_t + wbuf) option" where
  "encode_init_storage buffer pl = (case pl of
     Some (init_storage_payload tc cc blob) \<Rightarrow> do {
       buffer \<leftarrow> to_buffer_u32 buffer tc;
       buffer \<leftarrow> to_buffer_u32 buffer cc;
       buffer \<leftarrow> to_buffer_vector buffer blob;
       Some (Inr buffer) }
   | _ \<Rightarrow> Some (Inl DOCA_ERROR_INVALID_VALUE))"

definition encode_rdma_details :: "wbuf \<Rightarrow> payload option \<Rightarrow> (doca_error_t + wbuf) option" where
  "encode_rdma_details buffer pl = (case pl of
     Some (rdma_connection_details_payload idx rl details) \<Rightarrow> do {
       buffer \<leftarrow> to_buffer_u32 buffer idx;
       buffer \<leftarrow> to_buffer_u32 buffer rl;
       buffer \<leftarrow> to_buffer_vector buffer details;
       Some (Inr buffer) }
   | _ \<Rightarrow> Some (Inl DOCA_ERROR_INVALID_VALUE))"

definition encode :: "wbuf \<Rightarrow> message \<Rightarrow> (doca_error_t + wbuf) option" where
  "encode buffer msg = do {
     buffer \<leftarrow> to_buffer_u32 buffer (message_type_value (msg_type msg));
     buffer \<leftarrow> to_buffer_u32 buffer (message_id msg);
     buffer \<leftarrow> to_buffer_u32 buffer (correlation_id msg);
     (case msg_type msg of
        error_response \<Rightarrow> encode_error_response buffer (msg_payload msg)
      | query_storage_response \<Rightarrow> encode_storage_details buffer (msg_payload msg)
      | init_storage_request \<Rightarrow> encode_init_storage buffer (msg_payload msg)
      | create_rdma_connection_request \<Rightarrow> encode_rdma_details buffer (msg_payload msg)
      | create_rdma_connection_response \<Rightarrow> encode_rdma_details buffer (msg_payload msg)
      | unhandled_type v \<Rightarrow> Some (Inl DOCA_ERROR_INVALID_VALUE)
      | _ \<Rightarrow> Some (Inr buffer)) }"

section \<open>Decoding\<close>

definition decode_header :: "wbuf \<Rightarrow> (u32 \<times> wbuf) option" where
  "decode_header buffer = from_buffer_u32 buffer"

definition decode_error_response :: "wbuf \<Rightarrow> (payload \<times> wbuf) option" where
  "decode_error_response buffer = do {
     (code, buffer) \<leftarrow> from_buffer_u32 buffer;
     (msg_text, buffer) \<leftarrow> from_buffer_string buffer;
     Some (error_response_payload code msg_text, buffer) }"

definition decode_storage_details :: "wbuf \<Rightarrow> (payload \<times> wbuf) option" where
  "decode_storage_details buffer = do {
     (tot, buffer) \<leftarrow> from_buffer_u64 buffer;
     (block, buffer) \<leftarrow> from_buffer_u32 buffer;
     Some (storage_details_payload tot block, buffer) }"

definition decode_init_storage :: "wbuf \<Rightarrow> (payload \<times> wbuf) option" where
  "decode_init_storage buffer = do {
     (tc, buffer) \<leftarrow> from_buffer_u32 buffer;
     (cc, buffer) \<leftarrow> from_buffer_u32 buffer;
     (blob, buffer) \<leftarrow> from_buffer_vector buffer;
     Some (init_storage_payload tc cc blob, buffer) }"

definition decode_rdma_details :: "wbuf \<Rightarrow> (payload \<times> wbuf) option" where
  "decode_rdma_details buffer = do {
     (idx, buffer) \<leftarrow> from_buffer_u32 buffer;
     (rl, buffer) \<leftarrow> from_buffer_u32 buffer;
     (details, buffer) \<leftarrow> from_buffer_vector buffer;
     Some (rdma_connection_details_payload idx rl details, buffer) }"

text \<open>\<open>msg.payload = std::move(details)\<close> after the payload has been read.\<close>

definition store_payload ::
  "message \<Rightarrow> (payload \<times> wbuf) option \<Rightarrow> ((doca_error_t + wbuf) \<times> message) option" where
  "store_payload msg m = do {
     (details, buffer) \<leftarrow> m;
     Some (Inr buffer, msg\<lparr>msg_payload := Some details\<rparr>) }"

definition decode :: "wbuf \<Rightarrow> message \<Rightarrow> ((doca_error_t + wbuf) \<times> message) option" where
  "decode buffer msg = do {
     (ty, buffer) \<leftarrow> from_buffer_u32 buffer;
     (mid, buffer) \<leftarrow> from_buffer_u32 buffer;
     (cid, buffer) \<leftarrow> from_buffer_u32 buffer;
     let msg = msg\<lparr>msg_type := message_type_of ty, message_id := mid, correlation_id := cid\<rparr>;
     (case msg_type msg of
        error_response \<Rightarrow> store_payload msg (decode_error_response buffer)
      | query_storage_response \<Rightarrow> store_payload msg (decode_storage_details buffer)
      | init_storage_request \<Rightarrow> store_payload msg (decode_init_storage buffer)
      | create_rdma_connection_request \<Rightarrow> store_payload msg (decode_rdma_details buffer)
      | create_rdma_connection_response \<Rightarrow> store_payload msg (decode_rdma_details buffer)
      | unhandled_type v \<Rightarrow> Some (Inl DOCA_ERROR_INVALID_VALUE, msg)
      | _ \<Rightarrow> Some (Inr buffer, msg)) }"

section \<open>Printing\<close>

fun std_to_string :: "nat \<Rightarrow> bytes" where
  "std_to_string n =
     (if n < 10 then [of_nat (48 + n)] else std_to_string (n div 10) @ [of_nat (48 + n mod 10)])"

declare std_to_string.simps [simp del]

fun type_to_string :: "message_type \<Rightarrow> bytes" where
  "type_to_string error_response = str ''error_response''"
| "type_to_string query_storage_request = str ''query_storage_request''"
| "type_to_string query_storage_response = str ''query_storage_response''"
| "type_to_string init_storage_request = str ''init_storage_request''"
| "type_to_string init_storage_response = str ''init_storage_response''"
| "type_to_string create_rdma_connection_request = str ''create_rdma_connection_request''"
| "type_to_string create_rdma_connection_response = str ''create_rdma_connection_response''"
| "type_to_string start_storage_request = str ''start_storage_request''"
| "type_to_string start_storage_response = str ''start_storage_response''"
| "type_to_string stop_storage_request = str ''stop_storage_request''"
| "type_to_string stop_storage_response = str ''stop_storage_response''"
| "type_to_string shutdown_request = str ''shutdown_request''"
| "type_to_string shutdown_response = str ''shutdown_response''"
| "type_to_string (unhandled_type v) = str ''UNKNOWN('' @ std_to_string (unat v) @ str '')''"

definition role_to_string :: "u32 \<Rightarrow> bytes" where
  "role_to_string rl =
     (if rl = rdma_connection_role_io_control then str ''io_control''
      else if rl = rdma_connection_role_io_data then str ''io_data''
      else str ''UNKNOWN('' @ std_to_string (unat rl) @ str '')'')"

definition rdma_details_to_string :: "payload option \<Rightarrow> doca_error_t + bytes" where
  "rdma_details_to_string pl = (case pl of
     Some (rdma_connection_details_payload idx rl details) \<Rightarrow>
       Inr (str ''context_idx: '' @ std_to_string (unat idx) @ str '', role: '' @
            role_to_string rl @ str '', connection_details: ['' @ bytes_to_hex_str details @ str '']'')
   | _ \<Rightarrow> Inl DOCA_ERROR_INVALID_VALUE)"

text \<open>\<open>error_name\<close> stands for the SDK's \<open>doca_error_get_name\<close>.\<close>

definition payload_to_string :: "(u32 \<Rightarrow> bytes) \<Rightarrow> message \<Rightarrow> doca_error_t + bytes" where
  "payload_to_string error_name msg = (case msg_type msg of
     error_response \<Rightarrow>
       (case msg_payload msg of
          Some (error_response_payload code msg_text) \<Rightarrow>
            Inr (str ''error_code: '' @ error_name code @ str '', message: '' @ [0x22] @ msg_text @ [0x22])
        | _ \<Rightarrow> Inl DOCA_ERROR_INVALID_VALUE)
   | query_storage_response \<Rightarrow>
       (case msg_payload msg of
          Some (storage_details_payload tot block) \<Rightarrow>
            Inr (str ''total_size: '' @ std_to_string (unat tot) @ str '', block_size: '' @
                 std_to_string (unat block))
        | _ \<Rightarrow> Inl DOCA_ERROR_INVALID_VALUE)
   | init_storage_request \<Rightarrow>
       (case msg_payload msg of
          Some (init_storage_payload tc cc blob) \<Rightarrow>
            Inr (str ''transaction_count: '' @ std_to_string (unat tc) @ str '', core_count: '' @
                 std_to_string (unat cc) @ str '', mmap_export_blob: ['' @ bytes_to_hex_str blob @ str '']'')
        | _ \<Rightarrow> Inl DOCA_ERROR_INVALID_VALUE)
   | create_rdma_connection_request \<Rightarrow> rdma_details_to_string (msg_payload msg)
   | create_rdma_connection_response \<Rightarrow> rdma_details_to_string (msg_payload msg)
   | unhandled_type v \<Rightarrow> Inr (str ''UNKNOWN('' @ std_to_string (unat v) @ str ''): {}'')
   | _ \<Rightarrow> Inr [])"

definition to_string :: "(u32 \<Rightarrow> bytes) \<Rightarrow> message \<Rightarrow> doca_error_t + bytes" where
  "to_string error_name msg = (case payload_to_string error_name msg of
     Inl e \<Rightarrow> Inl e
   | Inr s \<Rightarrow> Inr (str ''control_message: { cid: '' @ std_to_string (unat (correlation_id msg)) @
                   str '', mid: '' @ std_to_string (unat (message_id msg)) @ str '', '' @
                   type_to_string (msg_type msg) @ str '': {'' @ s @ str ''}}''))"

section \<open>Typed messages and their images\<close>

fun carries_payload :: "message_type \<Rightarrow> bool" where
  "carries_payload error_response = True"
| "carries_payload query_storage_response = True"
| "carries_payload init_storage_request = True"
| "carries_payload create_rdma_connection_request = True"
| "carries_payload create_rdma_connection_response = True"
| "carries_payload _ = False"

fun is_handled :: "message_type \<Rightarrow> bool" where
  "is_handled (unhandled_type v) = False"
| "is_handled _ = True"

text \<open>The dynamic type that the payload of a message type has to have.\<close>

fun payload_of_type :: "message_type \<Rightarrow> payload \<Rightarrow> bool" where
  "payload_of_type error_response (error_response_payload _ _) = True"
| "payload_of_type query_storage_response (storage_details_payload _ _) = True"
| "payload_of_type init_storage_request (init_storage_payload _ _ _) = True"
| "payload_of_type create_rdma_connection_request (rdma_connection_details_payload _ _ _) = True"
| "payload_of_type create_rdma_connection_response (rdma_connection_details_payload _ _ _) = True"
| "payload_of_type _ _ = False"

definition well_typed :: "message \<Rightarrow> bool" where
  "well_typed msg \<longleftrightarrow> is_handled (msg_type msg) \<and>
     (carries_payload (msg_type msg) \<longrightarrow>
        (case msg_payload msg of Some p \<Rightarrow> payload_of_type (msg_type msg) p | None \<Rightarrow> False))"

fun payload_image :: "payload \<Rightarrow> bytes" where
  "payload_image (error_response_payload code msg_text) = be_bytes 4 code @ sized_bytes msg_text"
| "payload_image (storage_details_payload tot block) = be_bytes 8 tot @ be_bytes 4 block"
| "payload_image (init_storage_payload tc cc blob) = be_bytes 4 tc @ be_bytes 4 cc @ sized_bytes blob"
| "payload_image (rdma_connection_details_payload idx rl details) =
     be_bytes 4 idx @ be_bytes 4 rl @ sized_bytes details"

definition ids_image :: "message \<Rightarrow> bytes" where
  "ids_image msg = be_bytes 4 (message_type_value (msg_type msg)) @ be_bytes 4 (message_id msg) @
                   be_bytes 4 (correlation_id msg)"

definition body :: "message \<Rightarrow> bytes" where
  "body msg = ids_image msg @
     (if carries_payload (msg_type msg) then payload_image (the (msg_payload msg)) else [])"

text \<open>The message object \<open>old\<close> after \<open>new\<close> has been decoded into it.\<close>

definition received_as :: "message \<Rightarrow> message \<Rightarrow> message" where
  "received_as old new =
     old\<lparr>msg_type := msg_type new, message_id := message_id new, correlation_id := correlation_id new,
         msg_payload := (if carries_payload (msg_type new) then msg_payload new else msg_payload old)\<rparr>"

text \<open>A message that the sender may hand to the channel: of a known type, with the payload of that type, and
  small enough for its framed size to fit 32 bits.\<close>

definition encodable :: "message \<Rightarrow> bool" where
  "encodable msg \<longleftrightarrow> well_typed msg \<and> 4 + length (body msg) < 2 ^ 32"

lemma length_ids_image [simp]: "length (ids_image msg) = 12"
  by (simp add: ids_image_def)

lemma message_type_cast [simp]: "is_handled t \<Longrightarrow> message_type_of (message_type_value t) = t"
  by (cases t) (simp_all add: message_type_of_def handled_types_def)

lemma well_typed_cases:
  assumes "well_typed msg"
  obtains (err) code msg_text where "msg_type msg = error_response"
      "msg_payload msg = Some (error_response_payload code msg_text)"
  | (details) tot block where "msg_type msg = query_storage_response"
      "msg_payload msg = Some (storage_details_payload tot block)"
  | (init) tc cc blob where "msg_type msg = init_storage_request"
      "msg_payload msg = Some (init_storage_payload tc cc blob)"
  | (rdma) idx rl details where
      "msg_type msg \<in> {create_rdma_connection_request, create_rdma_connection_response}"
      "msg_payload msg = Some (rdma_connection_details_payload idx rl details)"
  | (bare) "\<not> carries_payload (msg_type msg)" "is_handled (msg_type msg)"
  using assms unfolding well_typed_def
  by (cases "msg_type msg"; cases "msg_payload msg"; cases "the (msg_payload msg)") simp_all

section \<open>The payload codecs\<close>

text \<open>The length-prefixed parts of a payload have to fit their prefix.\<close>

definition payload_fits :: "payload \<Rightarrow> bool" where
  "payload_fits p \<longleftrightarrow> length (payload_image p) < 2 ^ 32"

lemma encode_payload:
  assumes "payload_fits p"
  shows "payload_of_type error_response p \<Longrightarrow>
           writes Inr (\<lambda>w. encode_error_response w (Some p)) (payload_image p)"
    and "payload_of_type query_storage_response p \<Longrightarrow>
           writes Inr (\<lambda>w. encode_storage_details w (Some p)) (payload_image p)"
    and "payload_of_type init_storage_request p \<Longrightarrow>
           writes Inr (\<lambda>w. encode_init_storage w (Some p)) (payload_image p)"
    and "payload_of_type create_rdma_connection_request p \<Longrightarrow>
           writes Inr (\<lambda>w. encode_rdma_details w (Some p)) (payload_image p)"
  using assms
  by (cases p; auto simp: encode_error_response_def encode_storage_details_def encode_init_storage_def
        encode_rdma_details_def payload_fits_def
      intro!: writes_bind writes_last b32.writes_enc b64.writes_enc bstr.writes_enc bvec.writes_enc)+

lemma decode_payload:
  assumes "payload_fits p"
  shows "payload_of_type error_response p \<Longrightarrow> reads (Pair p) decode_error_response (payload_image p)"
    and "payload_of_type query_storage_response p \<Longrightarrow> reads (Pair p) decode_storage_details (payload_image p)"
    and "payload_of_type init_storage_request p \<Longrightarrow> reads (Pair p) decode_init_storage (payload_image p)"
    and "payload_of_type create_rdma_connection_request p \<Longrightarrow>
           reads (Pair p) decode_rdma_details (payload_image p)"
  using assms
  by (cases p; auto simp: decode_error_response_def [abs_def] decode_storage_details_def [abs_def]
        decode_init_storage_def [abs_def] decode_rdma_details_def [abs_def] payload_fits_def
      intro!: reads_bind reads_last b32.reads_dec b64.reads_dec bstr.reads_dec bvec.reads_dec)+

section \<open>The message codec\<close>

lemma encodable_payload_fits:
  assumes "encodable msg" "carries_payload (msg_type msg)"
  shows "\<exists>p. msg_payload msg = Some p \<and> payload_of_type (msg_type msg) p \<and> payload_fits p"
  using assms by (auto simp: encodable_def well_typed_def body_def payload_fits_def split: option.splits)

lemma payload_of_rdma_response [simp]:
  "payload_of_type create_rdma_connection_response p = payload_of_type create_rdma_connection_request p"
  by (cases p) simp_all

lemma encode_writes:
  assumes "encodable msg"
  shows "writes Inr (\<lambda>w. encode w msg) (body msg)"
proof -
  have rest: "writes Inr (\<lambda>buffer. case msg_type msg of
        error_response \<Rightarrow> encode_error_response buffer (msg_payload msg)
      | query_storage_response \<Rightarrow> encode_storage_details buffer (msg_payload msg)
      | init_storage_request \<Rightarrow> encode_init_storage buffer (msg_payload msg)
      | create_rdma_connection_request \<Rightarrow> encode_rdma_details buffer (msg_payload msg)
      | create_rdma_connection_response \<Rightarrow> encode_rdma_details buffer (msg_payload msg)
      | unhandled_type v \<Rightarrow> Some (Inl DOCA_ERROR_INVALID_VALUE)
      | _ \<Rightarrow> Some (Inr buffer))
    (if carries_payload (msg_type msg) then payload_image (the (msg_payload msg)) else [])"
  proof (cases "carries_payload (msg_type msg)")
    case True
    then show ?thesis
      using encodable_payload_fits [OF assms True] by (cases "msg_type msg") (auto intro: encode_payload)
  next
    case False
    moreover have "is_handled (msg_type msg)" using assms by (simp add: encodable_def well_typed_def)
    ultimately show ?thesis by (cases "msg_type msg") (simp_all add: writes_return)
  qed
  show ?thesis
    unfolding encode_def body_def ids_image_def append.assoc
    by (intro writes_bind b32.writes_enc rest TrueI)
qed

lemma decode_reads:
  assumes "encodable msg"
  shows "reads (\<lambda>w. (Inr w, received_as old msg)) (\<lambda>w. decode w old) (body msg)"
proof -
  let ?new = "old\<lparr>msg_type := msg_type msg, message_id := message_id msg, correlation_id := correlation_id msg\<rparr>"
  have h: "is_handled (msg_type msg)" using assms by (simp add: encodable_def well_typed_def)
  have store: "reads (\<lambda>w. (Inr w, new\<lparr>msg_payload := Some p\<rparr>)) (\<lambda>w. store_payload new (f w)) bs"
    if "reads (Pair p) f bs" for new p f bs
    unfolding store_payload_def by (rule reads_last [OF _ that]) simp
  have rest: "reads (\<lambda>w. (Inr w, received_as old msg)) (\<lambda>buffer. case msg_type msg of
        error_response \<Rightarrow> store_payload ?new (decode_error_response buffer)
      | query_storage_response \<Rightarrow> store_payload ?new (decode_storage_details buffer)
      | init_storage_request \<Rightarrow> store_payload ?new (decode_init_storage buffer)
      | create_rdma_connection_request \<Rightarrow> store_payload ?new (decode_rdma_details buffer)
      | create_rdma_connection_response \<Rightarrow> store_payload ?new (decode_rdma_details buffer)
      | unhandled_type v \<Rightarrow> Some (Inl DOCA_ERROR_INVALID_VALUE, ?new)
      | _ \<Rightarrow> Some (Inr buffer, ?new))
    (if carries_payload (msg_type msg) then payload_image (the (msg_payload msg)) else [])"
  proof (cases "carries_payload (msg_type msg)")
    case True
    then obtain p where p: "msg_payload msg = Some p" "payload_of_type (msg_type msg) p" "payload_fits p"
      using encodable_payload_fits [OF assms] by blast
    have "received_as old msg = ?new\<lparr>msg_payload := Some p\<rparr>" using True p by (simp add: received_as_def)
    then show ?thesis
      using True p by (cases "msg_type msg") (auto intro: store decode_payload)
  next
    case False
    then have "received_as old msg = ?new" by (simp add: received_as_def)
    then show ?thesis using False h by (cases "msg_type msg") (simp_all add: reads_return)
  qed
  have "reads (\<lambda>w. (Inr w, received_as old msg)) (\<lambda>w. decode w old)
      (be_bytes 4 (message_type_value (msg_type msg)) @ be_bytes 4 (message_id msg) @
       be_bytes 4 (correlation_id msg) @
       (if carries_payload (msg_type msg) then payload_image (the (msg_payload msg)) else []))"
    unfolding decode_def Let_def
    by (rule reads_bind [OF b32.reads_dec [OF TrueI]])+
       (use rest in \<open>unfold message_type_cast [OF h], simp\<close>)
  then show ?thesis by (simp add: body_def ids_image_def)
qed

text \<open>The size computed beforehand is the size of what the encoder writes.\<close>

lemma wire_size_body:
  assumes "encodable msg"
  shows "wire_size msg = Inr (of_nat (length (body msg)))"
proof -
  have "well_typed msg" using assms by (simp add: encodable_def)
  then show ?thesis
  proof (cases rule: well_typed_cases)
    case bare
    then show ?thesis by (cases "msg_type msg") (simp_all add: wire_size_def body_def)
  qed (auto simp: wire_size_def body_def Let_def algebra_simps)
qed

lemma decode_payload_type:
  "decode_error_response w = Some (p, w') \<Longrightarrow> payload_of_type error_response p"
  "decode_storage_details w = Some (p, w') \<Longrightarrow> payload_of_type query_storage_response p"
  "decode_init_storage w = Some (p, w') \<Longrightarrow> payload_of_type init_storage_request p"
  "decode_rdma_details w = Some (p, w') \<Longrightarrow> payload_of_type create_rdma_connection_request p"
  by (auto simp: decode_error_response_def decode_storage_details_def decode_init_storage_def
        decode_rdma_details_def Some_bind_iff)

lemma decode_typed:
  assumes "decode w old = Some (r, msg)"
  shows "case r of Inl e \<Rightarrow> \<not> is_handled (msg_type msg) | Inr w' \<Rightarrow> well_typed msg"
proof -
  obtain ty w1 mid w2 cid w3 where w:
    "from_buffer_u32 w = Some (ty, w1)" "from_buffer_u32 w1 = Some (mid, w2)"
    "from_buffer_u32 w2 = Some (cid, w3)"
    using assms by (auto simp: decode_def Some_bind_iff)
  show ?thesis
    using assms unfolding decode_def
    by (cases "message_type_of ty")
       (auto simp: w store_payload_def Some_bind_iff well_typed_def dest: decode_payload_type)
qed

lemma decode_error:
  assumes "decode w old = Some (Inl e, msg)"
  shows "e = DOCA_ERROR_INVALID_VALUE \<and> msg_payload msg = msg_payload old"
proof -
  obtain ty w1 mid w2 cid w3 where w:
    "from_buffer_u32 w = Some (ty, w1)" "from_buffer_u32 w1 = Some (mid, w2)"
    "from_buffer_u32 w2 = Some (cid, w3)"
    using assms by (auto simp: decode_def Some_bind_iff)
  show ?thesis using assms unfolding decode_def
    by (cases "message_type_of ty") (auto simp: w store_payload_def Some_bind_iff)
qed

lemma decode_bare:
  assumes "decode w old = Some (Inr w', msg)" "\<not> carries_payload (msg_type msg)"
  shows "msg_payload msg = msg_payload old"
proof -
  obtain ty w1 mid w2 cid w3 where w:
    "from_buffer_u32 w = Some (ty, w1)" "from_buffer_u32 w1 = Some (mid, w2)"
    "from_buffer_u32 w2 = Some (cid, w3)"
    using assms by (auto simp: decode_def Some_bind_iff)
  show ?thesis using assms unfolding decode_def
    by (cases "message_type_of ty") (auto simp: w store_payload_def Some_bind_iff)
qed

lemma typed_no_throw:
  assumes "well_typed msg"
  shows "\<exists>n. wire_size msg = Inr n" and "\<exists>s. to_string error_name msg = Inr s"
    and "encode w msg \<noteq> Some (Inl e)"
  using assms
  by (cases rule: well_typed_cases;
      cases "msg_type msg";
      auto simp: wire_size_def Let_def to_string_def payload_to_string_def rdma_details_to_string_def
        encode_def encode_error_response_def encode_storage_details_def encode_init_storage_def
        encode_rdma_details_def Some_bind_iff)+

text \<open>
  C12.  A control message survives the wire.  For a message of a known type that carries the payload of
  that type, \<open>wire_size\<close> announces exactly the number of bytes that \<open>encode\<close> writes; the encoder
  succeeds in a buffer with that much room and changes no other byte; and \<open>decode\<close> at the same
  position consumes exactly these bytes and gives the type, the two ids and the payload back.  A
  message type without payload leaves the payload pointer of the receiving object as it was.
\<close>

theorem control_message_round_trip:
  assumes "encodable msg" and "wire_size msg = Inr n" and "h + unat n \<le> length buf"
  shows "\<exists>buf'. encode (buf, h) msg = Some (Inr (buf', h + unat n)) \<and>
           decode (buf', h) old = Some (Inr (buf', h + unat n), received_as old msg) \<and>
           length buf' = length buf \<and> take h buf' = take h buf \<and>
           drop (h + unat n) buf' = drop (h + unat n) buf"
proof -
  have n: "unat n = length (body msg)"
    using assms(2) wire_size_body [OF assms(1)] assms(1)
    by (auto simp: encodable_def unsigned_of_nat take_bit_eq_mod)
  define pre gap where "pre = take h buf" and "gap = drop h buf"
  have b: "buf = pre @ gap" "length pre = h" "length (body msg) \<le> length gap"
    using assms(3) n by (simp_all add: pre_def gap_def)
  define buf' where "buf' = pre @ body msg @ drop (length (body msg)) gap"
  have "encode (buf, h) msg = Some (Inr (buf', h + unat n))"
    using writesD [OF encode_writes [OF assms(1)] b(3), of pre] b n by (simp add: buf'_def)
  moreover have "decode (buf', h) old = Some (Inr (buf', h + unat n), received_as old msg)"
    using readsD [OF decode_reads [OF assms(1)], of pre] b(2) n by (simp add: buf'_def)
  moreover have "length buf' = length buf \<and> take h buf' = take h buf \<and>
      drop (h + unat n) buf' = drop (h + unat n) buf"
    using b n by (auto simp: buf'_def add.commute)
  ultimately show ?thesis by blast
qed

definition sample_error :: message where
  "sample_error = \<lparr>msg_type = error_response, message_id = 7, correlation_id = 9,
     msg_payload = Some (error_response_payload 6 (str ''no''))\<rparr>"

theorem control_message_round_trip_witness:
  "encodable sample_error \<and> wire_size sample_error = Inr 22 \<and>
   (\<exists>buf'. encode (replicate 30 0, 3) sample_error = Some (Inr (buf', 25)) \<and>
      decode (buf', 3) sample_error = Some (Inr (buf', 25), sample_error))"
proof -
  have e: "encodable sample_error"
    by (simp add: encodable_def well_typed_def body_def sample_error_def str_def)
  have w: "wire_size sample_error = Inr 22"
    by (simp add: wire_size_def sample_error_def str_def)
  have r: "received_as sample_error sample_error = sample_error"
    by (simp add: received_as_def sample_error_def)
  show ?thesis
    using control_message_round_trip [OF e w, of 3 "replicate 30 0" sample_error] e w r by auto
qed



end
