(* ===== verification/Storage_Channel.thy ===== *)
theory Storage_Channel
  imports Storage_Message
begin

text \<open>
  Model of the buffered control channel of
  \<open>applications/storage/storage_common/control_channel.cpp\<close>: \<open>basic_control_channel\<close>, which frames
  a message with its size on the way out and cuts the received byte stream into messages on the
  way in, and the two transports built on it.  The socket and the progress engine are inputs: the
  number of bytes \<open>write\<close> accepted, the bytes one \<open>read\<close> returned, the buffers that the receive
  callback was handed during one \<open>doca_pe_progress\<close>.

  The abstract view of a channel is a queue of messages.  \<open>pending\<close> relates a receiver and the
  bytes still under way to the messages that are queued, and the lemmas about one poll carry
  this relation through any way of cutting the stream into reads.
\<close>

section \<open>The code\<close>

record control_channel =
  m_tx_buffer :: bytes
  m_rx_buffer :: bytes
  m_rx_message :: message
  m_error_message :: bytes

definition set_error :: "bytes \<Rightarrow> control_channel \<Rightarrow> control_channel" where
  "set_error msg ch = ch\<lparr>m_error_message := msg\<rparr>"

text \<open>\<open>std::vector::resize\<close>.\<close>

definition vector_resize :: "nat \<Rightarrow> bytes \<Rightarrow> bytes" where
  "vector_resize n xs = take n xs @ replicate (n - length xs) 0"

definition encode_message_to_tx_buffer ::
  "message \<Rightarrow> control_channel \<Rightarrow> (doca_error_t option \<times> control_channel) option" where
  "encode_message_to_tx_buffer msg ch = (case wire_size msg of
     Inl e \<Rightarrow> Some (Some e, ch)
   | Inr hdr_wire_size \<Rightarrow> do {
       let tx = vector_resize (unat (wire_size_header + hdr_wire_size)) (m_tx_buffer ch);
       w \<leftarrow> encode_header (tx, 0) hdr_wire_size;
       r \<leftarrow> encode w msg;
       (case r of
          Inl e \<Rightarrow> Some (Some e, ch\<lparr>m_tx_buffer := fst w\<rparr>)
        | Inr w \<Rightarrow> Some (None, ch\<lparr>m_tx_buffer := fst w\<rparr>)) })"

definition append_rx_bytes :: "bytes \<Rightarrow> control_channel \<Rightarrow> control_channel" where
  "append_rx_bytes bs ch = ch\<lparr>m_rx_buffer := m_rx_buffer ch @ bs\<rparr>"

text \<open>The result is the exception of \<open>decode\<close>, or whether a message was extracted.\<close>

definition extract_message_from_rx_buffer ::
  "control_channel \<Rightarrow> ((doca_error_t + bool) \<times> control_channel) option" where
  "extract_message_from_rx_buffer ch =
     (if length (m_rx_buffer ch) < 4 then Some (Inr False, ch)
      else do {
        (hdr_wire_size, read_ptr) \<leftarrow> decode_header (m_rx_buffer ch, 0);
        if length (m_rx_buffer ch) < 4 + unat hdr_wire_size then Some (Inr False, ch)
        else do {
          (r, msg) \<leftarrow> decode read_ptr (m_rx_message ch);
          (case r of
             Inl e \<Rightarrow> Some (Inl e, ch\<lparr>m_rx_message := msg\<rparr>)
           | Inr _ \<Rightarrow> Some (Inr True, ch\<lparr>m_rx_message := msg,
                 m_rx_buffer := drop (4 + unat hdr_wire_size) (m_rx_buffer ch)\<rparr>)) } })"

text \<open>The TCP transport.  \<open>write_to_tcp_socket\<close> returns the exception; \<open>nb_written\<close> is the result of
  \<open>socket.write\<close> on the filled buffer.  \<open>poll_tcp_socket\<close> returns the exception, or a copy of the message
  it points to.\<close>

definition write_to_tcp_socket ::
  "(bytes \<Rightarrow> nat) \<Rightarrow> message \<Rightarrow> control_channel \<Rightarrow> (doca_error_t option \<times> control_channel) option" where
  "write_to_tcp_socket nb_written msg ch = do {
     (e, ch) \<leftarrow> encode_message_to_tx_buffer msg ch;
     (case e of
        Some e \<Rightarrow> Some (Some e, ch)
      | None \<Rightarrow> if nb_written (m_tx_buffer ch) \<noteq> length (m_tx_buffer ch)
                then Some (Some DOCA_ERROR_IO_FAILED, ch) else Some (None, ch)) }"

definition extracted ::
  "((doca_error_t + bool) \<times> control_channel) option \<Rightarrow>
   ((doca_error_t + message option) \<times> control_channel) option" where
  "extracted m = do {
     (r, ch) \<leftarrow> m;
     (case r of
        Inl e \<Rightarrow> Some (Inl e, ch)
      | Inr True \<Rightarrow> Some (Inr (Some (m_rx_message ch)), ch)
      | Inr False \<Rightarrow> Some (Inr None, ch)) }"

definition poll_tcp_socket ::
  "bytes \<Rightarrow> control_channel \<Rightarrow> ((doca_error_t + message option) \<times> control_channel) option" where
  "poll_tcp_socket rd ch = (let ch = (if length rd \<noteq> 0 then append_rx_bytes rd ch else ch) in
     extracted (extract_message_from_rx_buffer ch))"

text \<open>The comch transport: the receive callback appends, one poll progresses the engine and extracts at most
  one message.\<close>

definition event_msg_recv_cb :: "bytes \<Rightarrow> control_channel \<Rightarrow> control_channel" where
  "event_msg_recv_cb recv_buffer ch = append_rx_bytes recv_buffer ch"

definition task_send_error_cb :: "control_channel \<Rightarrow> control_channel" where
  "task_send_error_cb ch = set_error (str ''Failed to complete doca_comch_task_send'') ch"

definition comch_poll ::
  "bytes list \<Rightarrow> control_channel \<Rightarrow> ((doca_error_t + message option) \<times> control_channel) option" where
  "comch_poll recvs ch = extracted (extract_message_from_rx_buffer (fold event_msg_recv_cb recvs ch))"

text \<open>The way both transports use the channel: a sequence of sends, whose buffers go on the wire one behind
  the other, and a sequence of polls.\<close>

fun send_all :: "message list \<Rightarrow> control_channel \<Rightarrow> (bytes \<times> control_channel) option" where
  "send_all [] ch = Some ([], ch)"
| "send_all (msg # msgs) ch = do {
     (e, ch) \<leftarrow> write_to_tcp_socket length msg ch;
     if e \<noteq> None then None
     else do {
       (wire, ch') \<leftarrow> send_all msgs ch;
       Some (m_tx_buffer ch @ wire, ch') } }"

fun poll_all ::
  "('r \<Rightarrow> control_channel \<Rightarrow> ((doca_error_t + message option) \<times> control_channel) option) \<Rightarrow>
   'r list \<Rightarrow> control_channel \<Rightarrow> (message list \<times> control_channel) option" where
  "poll_all poll [] ch = Some ([], ch)"
| "poll_all poll (rd # rds) ch = do {
     (r, ch) \<leftarrow> poll rd ch;
     (case r of
        Inl e \<Rightarrow> None
      | Inr m \<Rightarrow> do {
          (msgs, ch) \<leftarrow> poll_all poll rds ch;
          Some ((case m of None \<Rightarrow> msgs | Some msg \<Rightarrow> msg # msgs), ch) }) }"

section \<open>Framing\<close>

definition frame :: "message \<Rightarrow> bytes" where
  "frame msg = be_bytes 4 (of_nat (length (body msg)) :: u32) @ body msg"

lemma length_frame [simp]: "length (frame msg) = 4 + length (body msg)"
  by (simp add: frame_def)

lemma length_vector_resize [simp]: "length (vector_resize n xs) = n"
  by (simp add: vector_resize_def)

lemma encode_tx:
  assumes "encodable msg"
  shows "encode_message_to_tx_buffer msg ch = Some (None, ch\<lparr>m_tx_buffer := frame msg\<rparr>)"
proof -
  let ?n = "length (body msg)"
  have n: "4 + ?n < 2 ^ 32" using assms by (simp add: encodable_def)
  have "unat (wire_size_header + of_nat ?n) = 4 + ?n"
    using n by (simp add: wire_size_header_def unat_word_ariths unat_of_nat)
  moreover define tx where "tx = vector_resize (4 + ?n) (m_tx_buffer ch)"
  moreover have "encode_header (tx, 0) (of_nat ?n) =
      Some (be_bytes 4 (of_nat ?n :: u32) @ drop 4 tx, 4)"
    using b32.enc_image [where gap = tx and v = "of_nat ?n" and pre = "[]"] by (simp add: encode_header_def tx_def)
  moreover have "encode (be_bytes 4 (of_nat ?n :: u32) @ drop 4 tx, 4) msg = Some (Inr (frame msg, 4 + ?n))"
    using writesD [OF encode_writes [OF assms], of "drop 4 tx" "be_bytes 4 (of_nat ?n :: u32)"]
    by (simp add: tx_def frame_def)
  ultimately show ?thesis
    by (simp add: encode_message_to_tx_buffer_def wire_size_body [OF assms])
qed

lemma send_frame:
  "encodable msg \<Longrightarrow> nb_written (frame msg) = length (frame msg) \<Longrightarrow>
   write_to_tcp_socket nb_written msg ch = Some (None, ch\<lparr>m_tx_buffer := frame msg\<rparr>)"
  by (simp add: write_to_tcp_socket_def encode_tx)

lemma send_all_frames:
  "list_all encodable msgs \<Longrightarrow> \<exists>ch'. send_all msgs ch = Some (concat (map frame msgs), ch')"
proof (induction msgs arbitrary: ch)
  case (Cons msg msgs)
  then obtain ch' where "send_all msgs (ch\<lparr>m_tx_buffer := frame msg\<rparr>) = Some (concat (map frame msgs), ch')"
    by auto
  then show ?case using Cons.prems by (simp add: send_frame)
qed simp

text \<open>One extraction, as a function of the bytes that have arrived.\<close>

lemma extract_partial:
  assumes "encodable msg" "m_rx_buffer ch @ rest = frame msg @ behind" "length (m_rx_buffer ch) < length (frame msg)"
  shows "extract_message_from_rx_buffer ch = Some (Inr False, ch)"
proof (cases "length (m_rx_buffer ch) < 4")
  case True
  then show ?thesis by (simp add: extract_message_from_rx_buffer_def)
next
  case False
  let ?rx = "m_rx_buffer ch" and ?hd = "be_bytes 4 (of_nat (length (body msg)) :: u32)"
  have n: "length (body msg) < 2 ^ 32" using assms(1) by (simp add: encodable_def)
  have "take 4 ?rx = take 4 (?rx @ rest)" using False by simp
  also have "\<dots> = ?hd" unfolding assms(2) by (simp add: frame_def)
  finally have "?rx = ?hd @ drop 4 ?rx" by (metis append_take_drop_id)
  then have "decode_header (?rx, 0) = Some (of_nat (length (body msg)), (?rx, 4))"
    using b32.dec_image [of "[]" "of_nat (length (body msg))" "drop 4 ?rx"]
    by (simp add: decode_header_def)
  then show ?thesis
    using False assms(3) n by (simp add: extract_message_from_rx_buffer_def unat_of_nat)
qed

lemma extract_complete:
  assumes "encodable msg" "m_rx_buffer ch = frame msg @ behind"
  shows "extract_message_from_rx_buffer ch =
           Some (Inr True, ch\<lparr>m_rx_message := received_as (m_rx_message ch) msg, m_rx_buffer := behind\<rparr>)"
proof -
  let ?rx = "m_rx_buffer ch" and ?hd = "be_bytes 4 (of_nat (length (body msg)) :: u32)"
  have n: "length (body msg) < 2 ^ 32" using assms(1) by (simp add: encodable_def)
  have rx: "?rx = ?hd @ body msg @ behind" using assms(2) by (simp add: frame_def)
  have "decode_header (?rx, 0) = Some (of_nat (length (body msg)), (?rx, 4))"
    using b32.dec_image [of "[]" "of_nat (length (body msg))" "body msg @ behind"]
    by (simp add: decode_header_def rx)
  moreover have "decode (?rx, 4) (m_rx_message ch) =
      Some (Inr (?rx, 4 + length (body msg)), received_as (m_rx_message ch) msg)"
    using readsD [OF decode_reads [OF assms(1)], of ?hd behind] by (simp add: rx)
  ultimately show ?thesis
    using n by (simp add: extract_message_from_rx_buffer_def unat_of_nat assms(2))
qed

section \<open>The queue contract\<close>

text \<open>What the receiver of a message sees of it.\<close>

definition same_message :: "message \<Rightarrow> message \<Rightarrow> bool" where
  "same_message sent got \<longleftrightarrow> msg_type got = msg_type sent \<and> message_id got = message_id sent \<and>
     correlation_id got = correlation_id sent \<and>
     (carries_payload (msg_type sent) \<longrightarrow> msg_payload got = msg_payload sent)"

lemma same_message_received [simp]: "same_message msg (received_as old msg)"
  by (simp add: same_message_def received_as_def)

definition queued :: "control_channel \<Rightarrow> bytes \<Rightarrow> message list \<Rightarrow> bool" where
  "queued ch rest msgs \<longleftrightarrow> list_all encodable msgs \<and> m_rx_buffer ch @ rest = concat (map frame msgs)"

lemma queued_Nil: "queued ch rest [] \<longleftrightarrow> m_rx_buffer ch = [] \<and> rest = []"
  by (auto simp: queued_def)

lemma queued_all_arrived: "queued ch [] (msg # msgs) \<Longrightarrow> length (frame msg) \<le> length (m_rx_buffer ch)"
  by (simp add: queued_def)

text \<open>One extraction takes the first queued message if it is there in full.\<close>

lemma extract_queued:
  assumes "queued ch rest msgs"
  shows "\<exists>r ch'. extract_message_from_rx_buffer ch = Some (Inr r, ch') \<and>
    (if r then msgs \<noteq> [] \<and> same_message (hd msgs) (m_rx_message ch') \<and> queued ch' rest (tl msgs)
     else ch' = ch \<and> (msgs = [] \<or> length (m_rx_buffer ch) < length (frame (hd msgs))))"
proof (cases msgs)
  case Nil
  then show ?thesis
    using assms by (auto simp: queued_Nil extract_message_from_rx_buffer_def)
next
  case (Cons msg behind)
  then have e: "encodable msg" and rx: "m_rx_buffer ch @ rest = frame msg @ concat (map frame behind)"
    and behind: "list_all encodable behind"
    using assms by (simp_all add: queued_def)
  show ?thesis
  proof (cases "length (m_rx_buffer ch) < length (frame msg)")
    case True
    then show ?thesis using extract_partial [OF e rx] Cons by auto
  next
    case False
    then have split: "m_rx_buffer ch = frame msg @ drop (length (frame msg)) (m_rx_buffer ch)"
      using rx by (metis append_eq_append_conv_if append_take_drop_id leI)
    then have "drop (length (frame msg)) (m_rx_buffer ch) @ rest = concat (map frame behind)"
      using rx by (metis append.assoc same_append_eq)
    then show ?thesis
      using extract_complete [OF e split] Cons behind by (intro exI [of _ True]) (simp add: queued_def)
  qed
qed

locale message_transport =
  fixes poll :: "'r \<Rightarrow> control_channel \<Rightarrow> ((doca_error_t + message option) \<times> control_channel) option"
    and arrived :: "'r \<Rightarrow> bytes"
    and nothing :: 'r
  assumes poll_appends: "poll rd ch =
            extracted (extract_message_from_rx_buffer (ch\<lparr>m_rx_buffer := m_rx_buffer ch @ arrived rd\<rparr>))"
    and arrived_nothing: "arrived nothing = []"
begin

lemma poll_queued:
  assumes "queued ch (arrived rd @ rest) msgs"
  shows "\<exists>r ch'. poll rd ch = Some (Inr r, ch') \<and>
    (case r of
       Some m \<Rightarrow> msgs \<noteq> [] \<and> same_message (hd msgs) m \<and> queued ch' rest (tl msgs)
     | None \<Rightarrow> queued ch' rest msgs \<and> (msgs = [] \<or> length (m_rx_buffer ch') < length (frame (hd msgs))))"
proof -
  have "queued (ch\<lparr>m_rx_buffer := m_rx_buffer ch @ arrived rd\<rparr>) rest msgs"
    using assms by (simp add: queued_def)
  from extract_queued [OF this] this show ?thesis
    by (force simp: poll_appends extracted_def split: if_splits)
qed

text \<open>Any sequence of reads delivers a prefix of the queue, in order, and keeps the remainder queued.\<close>

lemma poll_all_queued:
  assumes "queued ch (concat (map arrived rds) @ rest) msgs"
  shows "\<exists>got ch'. poll_all poll rds ch = Some (got, ch') \<and> length got \<le> length msgs \<and>
           list_all2 same_message (take (length got) msgs) got \<and> queued ch' rest (drop (length got) msgs)"
  using assms
proof (induction rds arbitrary: ch msgs)
  case Nil
  then show ?case by simp
next
  case (Cons rd rds)
  then have "queued ch (arrived rd @ (concat (map arrived rds) @ rest)) msgs" by simp
  from poll_queued [OF this] obtain r ch1 where p: "poll rd ch = Some (Inr r, ch1)" and
    r: "case r of
       Some m \<Rightarrow> msgs \<noteq> [] \<and> same_message (hd msgs) m \<and> queued ch1 (concat (map arrived rds) @ rest) (tl msgs)
     | None \<Rightarrow> queued ch1 (concat (map arrived rds) @ rest) msgs \<and>
         (msgs = [] \<or> length (m_rx_buffer ch1) < length (frame (hd msgs)))" by blast
  show ?case
  proof (cases r)
    case None
    then show ?thesis using Cons.IH [of ch1 msgs] r p by auto
  next
    case (Some m)
    then obtain x xs where x: "msgs = x # xs" "same_message x m"
      and q: "queued ch1 (concat (map arrived rds) @ rest) xs"
      using r by (cases msgs) auto
    show ?thesis using Cons.IH [OF q] p Some x by auto
  qed
qed

text \<open>Once every byte has arrived, each further poll delivers one message.\<close>

lemma drain:
  assumes "queued ch [] msgs" "length msgs \<le> n"
  shows "\<exists>got ch'. poll_all poll (replicate n nothing) ch = Some (got, ch') \<and>
           list_all2 same_message msgs got \<and> m_rx_buffer ch' = []"
  using assms
proof (induction n arbitrary: ch msgs)
  case 0
  then show ?case by (simp add: queued_Nil)
next
  case (Suc n)
  have "queued ch (arrived nothing @ []) msgs" using Suc.prems(1) by (simp add: arrived_nothing)
  from poll_queued [OF this] obtain r ch1 where p: "poll nothing ch = Some (Inr r, ch1)" and
    r: "case r of
       Some m \<Rightarrow> msgs \<noteq> [] \<and> same_message (hd msgs) m \<and> queued ch1 [] (tl msgs)
     | None \<Rightarrow> queued ch1 [] msgs \<and> (msgs = [] \<or> length (m_rx_buffer ch1) < length (frame (hd msgs)))"
    by blast
  show ?case
  proof (cases r)
    case None
    then have "msgs = []" using r queued_all_arrived [of ch1 "hd msgs" "tl msgs"] by (cases msgs) auto
    then show ?thesis using Suc.IH [of ch1 msgs] r p None by auto
  next
    case (Some m)
    then obtain x xs where "msgs = x # xs" "same_message x m" "queued ch1 [] xs"
      using r by (cases msgs) auto
    then show ?thesis using Suc.IH [of ch1 xs] Suc.prems(2) p Some by auto
  qed
qed

lemma poll_all_append:
  "poll_all poll xs ch = Some (a, ch1) \<Longrightarrow> poll_all poll ys ch1 = Some (b, ch2) \<Longrightarrow>
   poll_all poll (xs @ ys) ch = Some (a @ b, ch2)"
proof (induction xs arbitrary: ch a)
  case (Cons x xs)
  obtain r ch' where r: "poll x ch = Some (r, ch')" using Cons.prems(1) by (auto simp: Some_bind_iff)
  then obtain m where m: "r = Inr m" using Cons.prems(1) by (cases r) auto
  then obtain a' where "poll_all poll xs ch' = Some (a', ch1)"
    "a = (case m of None \<Rightarrow> a' | Some msg \<Rightarrow> msg # a')"
    using Cons.prems(1) r by (auto simp: Some_bind_iff)
  then show ?case using Cons.IH Cons.prems(2) r m by (simp split: option.splits)
qed simp

lemma delivers_all:
  assumes "queued ch (concat (map arrived rds)) msgs" "length msgs \<le> n"
  shows "\<exists>got ch'. poll_all poll (rds @ replicate n nothing) ch = Some (got, ch') \<and>
           list_all2 same_message msgs got \<and> m_rx_buffer ch' = []"
proof -
  obtain got1 ch1 where 1: "poll_all poll rds ch = Some (got1, ch1)" "length got1 \<le> length msgs"
      "list_all2 same_message (take (length got1) msgs) got1" "queued ch1 [] (drop (length got1) msgs)"
    using poll_all_queued [of ch rds "[]" msgs] assms(1) by auto
  obtain got2 ch2 where 2: "poll_all poll (replicate n nothing) ch1 = Some (got2, ch2)"
      "list_all2 same_message (drop (length got1) msgs) got2" "m_rx_buffer ch2 = []"
    using drain [OF 1(4), of n] assms(2) diff_le_self [of "length msgs" "length got1"] le_trans by fastforce
  have "list_all2 same_message (take (length got1) msgs @ drop (length got1) msgs) (got1 @ got2)"
    using 1(3) 2(2) by (rule list_all2_appendI)
  then show ?thesis using poll_all_append [OF 1(1) 2(1)] 2(3) by simp
qed

end

interpretation tcp: message_transport poll_tcp_socket id "[]"
  by unfold_locales (simp_all add: poll_tcp_socket_def append_rx_bytes_def)

lemma fold_recv_cb: "fold event_msg_recv_cb recvs ch = ch\<lparr>m_rx_buffer := m_rx_buffer ch @ concat recvs\<rparr>"
  by (induction recvs arbitrary: ch) (simp_all add: event_msg_recv_cb_def append_rx_bytes_def)

interpretation comch: message_transport comch_poll concat "[]"
  by unfold_locales (simp_all add: comch_poll_def fold_recv_cb)

section \<open>Properties\<close>

lemma concat_map_concat: "concat (map concat xss) = concat (concat xss)"
  by (induction xss) simp_all

lemma queued_start:
  "list_all encodable msgs \<Longrightarrow> m_rx_buffer ch = [] \<Longrightarrow> wire = concat (map frame msgs) \<Longrightarrow>
   wire = bs @ rest \<Longrightarrow> queued ch (bs @ rest) msgs"
  by (simp add: queued_def)

text \<open>
  C4.  A control channel is a lossless queue of messages.  The bytes that a sequence of sends puts on the
  wire reach the receiver cut into reads in any way, a message spread over several reads or several
  messages in one.  After any part of the stream has been polled in, the messages delivered so far
  are the first messages sent, in order; once the whole stream has been read, as many further polls
  as there are messages deliver all of them and leave the receive buffer empty.  This holds for the
  TCP transport and for the comch transport, whose engine may deliver several buffers in one poll.
\<close>

theorem control_channel_delivers:
  assumes "list_all encodable msgs" and "send_all msgs tx = Some (wire, tx')" and "m_rx_buffer rx = []"
  shows "(wire = concat rds @ rest \<longrightarrow>
      (\<exists>got rx'. poll_all poll_tcp_socket rds rx = Some (got, rx') \<and>
        list_all2 same_message (take (length got) msgs) got)) \<and>
    (wire = concat rds \<and> length msgs \<le> n \<longrightarrow>
      (\<exists>got rx'. poll_all poll_tcp_socket (rds @ replicate n []) rx = Some (got, rx') \<and>
        list_all2 same_message msgs got \<and> m_rx_buffer rx' = [])) \<and>
    (wire = concat (concat recvs) \<and> length msgs \<le> n \<longrightarrow>
      (\<exists>got rx'. poll_all comch_poll (recvs @ replicate n []) rx = Some (got, rx') \<and>
        list_all2 same_message msgs got \<and> m_rx_buffer rx' = []))"
proof -
  have w: "wire = concat (map frame msgs)" using send_all_frames [OF assms(1), of tx] assms(2) by auto
  note q = queued_start [OF assms(1,3) w]
  show ?thesis
  proof (intro conjI impI)
    assume "wire = concat rds @ rest"
    then show "\<exists>got rx'. poll_all poll_tcp_socket rds rx = Some (got, rx') \<and>
        list_all2 same_message (take (length got) msgs) got"
      using tcp.poll_all_queued [of rx rds rest msgs] q by auto
  next
    assume "wire = concat rds \<and> length msgs \<le> n"
    then show "\<exists>got rx'. poll_all poll_tcp_socket (rds @ replicate n []) rx = Some (got, rx') \<and>
        list_all2 same_message msgs got \<and> m_rx_buffer rx' = []"
      using tcp.delivers_all [of rx rds msgs n] q [of wire "[]"] by auto
  next
    assume "wire = concat (concat recvs) \<and> length msgs \<le> n"
    then show "\<exists>got rx'. poll_all comch_poll (recvs @ replicate n []) rx = Some (got, rx') \<and>
        list_all2 same_message msgs got \<and> m_rx_buffer rx' = []"
      using comch.delivers_all [of rx recvs msgs n] q [of wire "[]"] by (auto simp: concat_map_concat)
  qed
qed

definition idle_channel :: control_channel where
  "idle_channel = \<lparr>m_tx_buffer = [], m_rx_buffer = [], m_rx_message = sample_error, m_error_message = []\<rparr>"

theorem control_channel_delivers_witness:
  "\<exists>wire tx' got rx'. send_all [sample_error, sample_error] idle_channel = Some (wire, tx') \<and>
     poll_all poll_tcp_socket ([take 40 wire, drop 40 wire] @ replicate 2 []) idle_channel = Some (got, rx') \<and>
     list_all2 same_message [sample_error, sample_error] got"
proof -
  have e: "list_all encodable [sample_error, sample_error]"
    by (simp add: encodable_def well_typed_def body_def sample_error_def str_def)
  obtain wire tx' where s: "send_all [sample_error, sample_error] idle_channel = Some (wire, tx')"
    using send_all_frames [OF e] by blast
  have rx: "m_rx_buffer idle_channel = []" by (simp add: idle_channel_def)
  show ?thesis
    using control_channel_delivers [OF e s rx, of "[take 40 wire, drop 40 wire]" "[]" 2 "[]"] s by auto
qed

text \<open>A frame: announced size, type, ids, and whatever follows.\<close>

definition raw_frame :: "u32 \<Rightarrow> u32 \<Rightarrow> u32 \<Rightarrow> u32 \<Rightarrow> bytes \<Rightarrow> bytes" where
  "raw_frame sz ty mid cid behind = be_bytes 4 sz @ be_bytes 4 ty @ be_bytes 4 mid @ be_bytes 4 cid @ behind"

lemma reads_u32_chain:
  "from_buffer_u32 (pre @ be_bytes 4 v @ post, length pre) =
     Some (v, (pre @ be_bytes 4 v @ post, length pre + 4))"
  using b32.dec_image [of pre v post] by simp

lemma raw_frame_ids:
  assumes "rx = raw_frame sz ty mid cid behind"
  shows "decode_header (rx, 0) = Some (sz, (rx, 4))" "from_buffer_u32 (rx, 4) = Some (ty, (rx, 8))"
    "from_buffer_u32 (rx, 8) = Some (mid, (rx, 12))" "from_buffer_u32 (rx, 12) = Some (cid, (rx, 16))"
  using assms reads_u32_chain [of "[]" sz] reads_u32_chain [of "be_bytes 4 sz" ty]
    reads_u32_chain [of "be_bytes 4 sz @ be_bytes 4 ty" mid]
    reads_u32_chain [of "be_bytes 4 sz @ be_bytes 4 ty @ be_bytes 4 mid" cid]
  by (simp_all add: raw_frame_def decode_header_def)

text \<open>
  C38.  \<open>extract_message_from_rx_buffer\<close> compares the announced frame size with the bytes received, but the
  decoder never compares what it reads with that size.  An error response whose frame is complete
  and whose text announces \<open>n\<close> bytes, of which \<open>k\<close> are in the buffer, is read outside the receive
  buffer exactly when \<open>k < n\<close>.
\<close>

theorem text_length_unchecked:
  fixes code n :: u32
  assumes "m_rx_buffer ch = raw_frame sz 0 mid cid (be_bytes 4 code @ be_bytes 4 n @ msg_text)"
    and "unat sz \<le> 20 + length msg_text"
  shows "extract_message_from_rx_buffer ch = None \<longleftrightarrow> length msg_text < unat n"
proof -
  let ?rx = "m_rx_buffer ch" and ?ids = "raw_frame sz 0 mid cid []"
  have rx: "?rx = ?ids @ be_bytes 4 code @ be_bytes 4 n @ msg_text" using assms(1) by (simp add: raw_frame_def)
  have ids: "length ?ids = 16" by (simp add: raw_frame_def)
  note f = raw_frame_ids [OF assms(1)]
  have c: "from_buffer_u32 (?rx, 16) = Some (code, (?rx, 20))"
    using reads_u32_chain [of ?ids code "be_bytes 4 n @ msg_text"] ids by (simp add: rx)
  have l: "from_buffer_u32 (?rx, 20) = Some (n, (?rx, 24))"
    using reads_u32_chain [of "?ids @ be_bytes 4 code" n msg_text] ids by (simp add: rx)
  have len: "length ?rx = 24 + length msg_text" using ids by (simp add: rx)
  have t: "from_buffer_string (?rx, 20) = (if unat n \<le> length msg_text then Some (take (unat n) msg_text, (?rx, 24 + unat n)) else None)"
    using l ids by (auto simp: from_buffer_string_def rx)
  have "message_type_of 0 = error_response" by (simp add: message_type_of_def handled_types_def)
  then show ?thesis
    using assms(2) f c t len
    by (auto simp: extract_message_from_rx_buffer_def decode_def store_payload_def decode_error_response_def)
qed

theorem text_length_unchecked_witness:
  "extract_message_from_rx_buffer
     (idle_channel\<lparr>m_rx_buffer := raw_frame 20 0 1 1 (be_bytes 4 (6 :: u32) @ be_bytes 4 (1000 :: u32) @ [])\<rparr>) = None"
  using text_length_unchecked
    [of "idle_channel\<lparr>m_rx_buffer := raw_frame 20 0 1 1 (be_bytes 4 (6 :: u32) @ be_bytes 4 (1000 :: u32) @ [])\<rparr>" 20 1 1 6 1000 "[]"]
  by simp

text \<open>
  C39.  A frame of an unknown message type blocks its channel.  The decoder throws before the frame is
  removed from the receive buffer, so whatever arrives behind it, every later poll throws the same
  error again and no further message is delivered.
\<close>

theorem unknown_type_blocks_channel:
  assumes "m_rx_buffer ch = raw_frame sz ty mid cid behind"
    and "13 \<le> unat ty" and "unat sz \<le> 12 + length behind"
  shows "\<exists>ch'. poll_tcp_socket rd ch = Some (Inl DOCA_ERROR_INVALID_VALUE, ch') \<and>
           m_rx_buffer ch' = raw_frame sz ty mid cid (behind @ rd)"
proof -
  define ch0 where "ch0 = ch\<lparr>m_rx_buffer := m_rx_buffer ch @ rd\<rparr>"
  have rx: "m_rx_buffer ch0 = raw_frame sz ty mid cid (behind @ rd)"
    using assms(1) by (simp add: ch0_def raw_frame_def)
  have "poll_tcp_socket rd ch = extracted (extract_message_from_rx_buffer ch0)"
    by (simp add: tcp.poll_appends ch0_def)
  moreover have "length (m_rx_buffer ch0) = 16 + length behind + length rd" by (simp add: rx raw_frame_def)
  ultimately show ?thesis
    using assms(2,3) raw_frame_ids [OF rx] rx
    by (simp add: extract_message_from_rx_buffer_def decode_def message_type_of_def extracted_def)
qed

theorem unknown_type_blocks_channel_witness:
  "\<exists>ch'. poll_tcp_socket [1, 2, 3] (idle_channel\<lparr>m_rx_buffer := raw_frame 12 13 0 0 []\<rparr>) =
       Some (Inl DOCA_ERROR_INVALID_VALUE, ch') \<and> m_rx_buffer ch' = raw_frame 12 13 0 0 [1, 2, 3]"
  using unknown_type_blocks_channel
    [of "idle_channel\<lparr>m_rx_buffer := raw_frame 12 13 0 0 []\<rparr>" 12 13 0 0 "[]" "[1, 2, 3]"]
  by simp

end
