(* ===== verification/Storage_Io.thy ===== *)
theory Storage_Io
  imports Storage_Message
begin

text \<open>
  Model of three further parts of \<open>applications/storage/storage_common\<close>: the accessors of an I/O
  message (\<open>io_message.hpp\<close>, \<open>io_message.cpp\<close>), which read and write single fields of a 64-byte
  message in place; the storage binary content files (\<open>binary_content.cpp\<close>); and the parser of an
  address with a port (\<open>ip_address.cpp\<close>).

  The locale \<open>message_field\<close> is the contract of one pair of accessors.  Its interpretations for the
  six fields reduce every statement about the accessors to the layout of the message.
\<close>

section \<open>The I/O message accessors\<close>

datatype io_message_type = io_result | io_read | io_write | io_unknown u32

fun io_message_type_of :: "u32 \<Rightarrow> io_message_type" where
  "io_message_type_of v =
     (if v = 0 then io_result else if v = 1 then io_read else if v = 2 then io_write else io_unknown v)"

fun io_message_type_value :: "io_message_type \<Rightarrow> u32" where
  "io_message_type_value io_result = 0"
| "io_message_type_value io_read = 1"
| "io_message_type_value io_write = 2"
| "io_message_type_value (io_unknown v) = v"

definition size_of_io_message :: nat where
  "size_of_io_message = 64"

text \<open>\<open>offsetof\<close> in \<open>struct layout\<close>: a 4-byte type, an 8-byte aligned user data word, the 4-byte result and
  size, two 8-byte offsets.\<close>

definition layout_user_data :: nat where "layout_user_data = 8"
definition layout_result :: nat where "layout_result = 16"
definition layout_io_size :: nat where "layout_io_size = 20"
definition layout_requester_offset :: nat where "layout_requester_offset = 24"
definition layout_storage_offset :: nat where "layout_storage_offset = 32"

definition get_type :: "bytes \<Rightarrow> io_message_type option" where
  "get_type buf = do { (v, _) \<leftarrow> from_buffer_u32 (buf, 0); Some (io_message_type_of v) }"

definition set_type :: "io_message_type \<Rightarrow> bytes \<Rightarrow> bytes option" where
  "set_type ty buf = do { (buf, _) \<leftarrow> to_buffer_u32 (buf, 0) (io_message_type_value ty); Some buf }"

definition get_user_data :: "bytes \<Rightarrow> u64 option" where
  "get_user_data buf = do { (v, _) \<leftarrow> from_buffer_u64 (buf, layout_user_data); Some v }"

definition set_user_data :: "u64 \<Rightarrow> bytes \<Rightarrow> bytes option" where
  "set_user_data v buf = do { (buf, _) \<leftarrow> to_buffer_u64 (buf, layout_user_data) v; Some buf }"

definition get_result :: "bytes \<Rightarrow> u32 option" where
  "get_result buf = do { (v, _) \<leftarrow> from_buffer_u32 (buf, layout_result); Some v }"

definition set_result :: "u32 \<Rightarrow> bytes \<Rightarrow> bytes option" where
  "set_result v buf = do { (buf, _) \<leftarrow> to_buffer_u32 (buf, layout_result) v; Some buf }"

definition get_storage_offset :: "bytes \<Rightarrow> u64 option" where
  "get_storage_offset buf = do { (v, _) \<leftarrow> from_buffer_u64 (buf, layout_storage_offset); Some v }"

definition set_storage_offset :: "u64 \<Rightarrow> bytes \<Rightarrow> bytes option" where
  "set_storage_offset v buf = do { (buf, _) \<leftarrow> to_buffer_u64 (buf, layout_storage_offset) v; Some buf }"

definition get_io_size :: "bytes \<Rightarrow> u32 option" where
  "get_io_size buf = do { (v, _) \<leftarrow> from_buffer_u32 (buf, layout_io_size); Some v }"

definition set_io_size :: "u32 \<Rightarrow> bytes \<Rightarrow> bytes option" where
  "set_io_size v buf = do { (buf, _) \<leftarrow> to_buffer_u32 (buf, layout_io_size) v; Some buf }"

definition get_requester_offset :: "bytes \<Rightarrow> u64 option" where
  "get_requester_offset buf = do { (v, _) \<leftarrow> from_buffer_u64 (buf, layout_requester_offset); Some v }"

definition set_requester_offset :: "u64 \<Rightarrow> bytes \<Rightarrow> bytes option" where
  "set_requester_offset v buf = do { (buf, _) \<leftarrow> to_buffer_u64 (buf, layout_requester_offset) v; Some buf }"

definition int_to_string :: "int \<Rightarrow> bytes" where
  "int_to_string i = (if i < 0 then str ''-'' @ std_to_string (nat (- i)) else std_to_string (nat i))"

fun io_type_to_string :: "io_message_type \<Rightarrow> bytes" where
  "io_type_to_string io_result = str ''result''"
| "io_type_to_string io_read = str ''read''"
| "io_type_to_string io_write = str ''write''"
| "io_type_to_string (io_unknown v) = str ''unknown('' @ int_to_string (sint v) @ str '')''"

text \<open>\<open>error_name\<close> stands for the SDK's \<open>doca_error_get_name\<close>.\<close>

definition io_message_to_string :: "(u32 \<Rightarrow> bytes) \<Rightarrow> bytes \<Rightarrow> bytes option" where
  "io_message_to_string error_name buf = do {
     ty \<leftarrow> get_type buf;
     user_data \<leftarrow> get_user_data buf;
     let s = str ''type: '' @ io_type_to_string ty @ str '', user_data: '' @ std_to_string (unat user_data);
     (case ty of
        io_result \<Rightarrow> do {
          result \<leftarrow> get_result buf;
          Some (s @ str '', result: '' @ error_name result) }
      | io_unknown v \<Rightarrow> Some s
      | _ \<Rightarrow> do {
          so \<leftarrow> get_storage_offset buf;
          ro \<leftarrow> get_requester_offset buf;
          sz \<leftarrow> get_io_size buf;
          Some (s @ str '', storage_offset: '' @ std_to_string (unat so) @
                str '', requester_offset: '' @ std_to_string (unat ro) @
                str '', length: '' @ std_to_string (unat sz)) }) }"

section \<open>Binary content files\<close>

record binary_content =
  bc_block_size :: u32
  bc_block_count :: u32
  bc_content :: bytes

definition sbc_magic_value :: u64 where
  "sbc_magic_value = 0xDEADF00D1337FADE"

definition max_sbc_content_size :: nat where
  "max_sbc_content_size = 2 * 1024 * 1024 * 1024"

text \<open>A file opened for reading is the list of its remaining bytes, \<open>None\<close> a file that cannot be opened.\<close>

definition fread :: "nat \<Rightarrow> bytes \<Rightarrow> bytes \<times> bytes" where
  "fread n fh = (take n fh, drop n fh)"

definition file_has_binary_content_header :: "bytes option \<Rightarrow> doca_error_t + bool" where
  "file_has_binary_content_header file = (case file of
     None \<Rightarrow> Inl DOCA_ERROR_NOT_FOUND
   | Some fh \<Rightarrow>
       let (magic, fh) = fread 8 fh in
       if length magic \<noteq> 8 then Inr False else Inr (be_value magic = sbc_magic_value))"

definition load_binary_content_from_file :: "bytes option \<Rightarrow> doca_error_t + binary_content" where
  "load_binary_content_from_file file = (case file of
     None \<Rightarrow> Inl DOCA_ERROR_NOT_FOUND
   | Some fh \<Rightarrow>
       let (magic, fh) = fread 8 fh in
       if length magic \<noteq> 8 then Inl DOCA_ERROR_IO_FAILED
       else if be_value magic \<noteq> sbc_magic_value then Inl DOCA_ERROR_INVALID_VALUE
       else let (bs, fh) = fread 4 fh in
       if length bs \<noteq> 4 then Inl DOCA_ERROR_IO_FAILED
       else let (bc, fh) = fread 4 fh in
       if length bc \<noteq> 4 then Inl DOCA_ERROR_IO_FAILED
       else
         let block_size = be_value bs; block_count = be_value bc;
             content_size = unat (block_size :: u32) * unat (block_count :: u32) in
         if content_size > max_sbc_content_size then Inl DOCA_ERROR_INVALID_VALUE
         else let (content, fh) = fread content_size fh in
         if length content \<noteq> content_size then Inl DOCA_ERROR_IO_FAILED
         else Inr \<lparr>bc_block_size = block_size, bc_block_count = block_count, bc_content = content\<rparr>)"

text \<open>A file opened for writing starts empty and takes at most \<open>space\<close> bytes; \<open>fwrite\<close> returns the number of
  bytes it wrote.\<close>

definition fwrite :: "nat \<Rightarrow> bytes \<Rightarrow> bytes \<Rightarrow> nat \<times> bytes" where
  "fwrite space bs fh = (let n = min (length bs) (space - length fh) in (n, fh @ take n bs))"

definition write_binary_content_to_file ::
  "nat option \<Rightarrow> binary_content \<Rightarrow> doca_error_t option \<times> bytes option" where
  "write_binary_content_to_file file sbc = (case file of
     None \<Rightarrow> (Some DOCA_ERROR_NOT_FOUND, None)
   | Some space \<Rightarrow>
       let sbc_size = unat (bc_block_count sbc) * unat (bc_block_size sbc) in
       if sbc_size > max_sbc_content_size then (Some DOCA_ERROR_INVALID_VALUE, Some [])
       else let (n, fh) = fwrite space (be_bytes 8 sbc_magic_value) [] in
       if n \<noteq> 8 then (Some DOCA_ERROR_IO_FAILED, Some fh)
       else let (n, fh) = fwrite space (be_bytes 4 (bc_block_size sbc)) fh in
       if n \<noteq> 4 then (Some DOCA_ERROR_IO_FAILED, Some fh)
       else let (n, fh) = fwrite space (be_bytes 4 (bc_block_count sbc)) fh in
       if n \<noteq> 4 then (Some DOCA_ERROR_IO_FAILED, Some fh)
       else let (n, fh) = fwrite space (bc_content sbc) fh in
       if n \<noteq> length (bc_content sbc) then (Some DOCA_ERROR_IO_FAILED, Some fh)
       else (None, Some fh))"

section \<open>Addresses\<close>

datatype ip_error = Spaces_not_permitted | Expected_four_octets | Port_exceeds | Invalid_address

definition isspace :: "u8 \<Rightarrow> bool" where
  "isspace c \<longleftrightarrow> c = 32 \<or> 9 \<le> c \<and> c \<le> 13"

definition isdigit :: "u8 \<Rightarrow> bool" where
  "isdigit c \<longleftrightarrow> 48 \<le> c \<and> c \<le> 57"

definition decimal_value :: "bytes \<Rightarrow> nat" where
  "decimal_value ds = foldl (\<lambda>n d. 10 * n + unat (d - 48)) 0 ds"

text \<open>\<open>strtoul(s, NULL, 10)\<close> with a 64-bit \<open>unsigned long\<close>: white space, an optional sign, digits; the
  largest value when the digits do not fit.\<close>

definition strtoul :: "bytes \<Rightarrow> u64" where
  "strtoul s =
     (let s = dropWhile isspace s;
          neg = (s \<noteq> [] \<and> hd s = 45);
          s = (if s \<noteq> [] \<and> (hd s = 45 \<or> hd s = 43) then tl s else s);
          n = decimal_value (takeWhile isdigit s)
      in if 2 ^ 64 \<le> n then - 1 else if neg then - of_nat n else of_nat n)"

text \<open>The loop of \<open>parse_ip_v4_address\<close>: \<open>k\<close> characters are left before \<open>end\<close>, \<open>iter\<close> is the position.\<close>

fun parse_ip_loop :: "bytes \<Rightarrow> nat \<Rightarrow> nat \<Rightarrow> u8 \<Rightarrow> ip_error + bytes \<times> u16" where
  "parse_ip_loop v iter 0 dots = Inl Invalid_address"
| "parse_ip_loop v iter (Suc k) dots =
     (let c = v ! iter in
      if isspace c then Inl Spaces_not_permitted
      else if c = 46 then parse_ip_loop v (iter + 1) k (dots + 1)
      else if c = 58 then
        if dots \<noteq> 3 then Inl Expected_four_octets
        else let addr = take iter v; port = ucast (strtoul (drop (iter + 1) v)) :: u32 in
          if port > 0xFFFF then Inl Port_exceeds else Inr (addr, ucast port)
      else parse_ip_loop v (iter + 1) k dots)"

definition parse_ip_v4_address :: "bytes \<Rightarrow> ip_error + bytes \<times> u16" where
  "parse_ip_v4_address v = parse_ip_loop v 0 (min 22 (length v)) 0"

section \<open>Fields of a message in place\<close>

definition overwrite :: "nat \<Rightarrow> bytes \<Rightarrow> bytes \<Rightarrow> bytes" where
  "overwrite off bs buf = take off buf @ bs @ drop (off + length bs) buf"

definition window :: "nat \<Rightarrow> nat \<Rightarrow> bytes \<Rightarrow> bytes" where
  "window off w buf = take w (drop off buf)"

lemma length_overwrite [simp]: "off + length bs \<le> length buf \<Longrightarrow> length (overwrite off bs buf) = length buf"
  by (simp add: overwrite_def)

lemma window_overwrite_same:
  "off + length bs \<le> length buf \<Longrightarrow> window off (length bs) (overwrite off bs buf) = bs"
  by (simp add: overwrite_def window_def)

lemma window_overwrite_other:
  assumes "off + length bs \<le> length buf" "off' + w \<le> off \<or> off + length bs \<le> off'" "off' + w \<le> length buf"
  shows "window off' w (overwrite off bs buf) = window off' w buf"
proof (rule nth_equalityI)
  show "length (window off' w (overwrite off bs buf)) = length (window off' w buf)"
    using assms by (simp add: window_def)
next
  fix i assume "i < length (window off' w (overwrite off bs buf))"
  then have "i < w" by (simp add: window_def)
  then show "window off' w (overwrite off bs buf) ! i = window off' w buf ! i"
    using assms by (auto simp: window_def overwrite_def nth_append)
qed

locale message_field =
  fixes getf :: "bytes \<Rightarrow> 'v option" and setf :: "'v \<Rightarrow> bytes \<Rightarrow> bytes option"
    and off w :: nat and image :: "'v \<Rightarrow> bytes" and val :: "bytes \<Rightarrow> 'v" and ok :: "'v \<Rightarrow> bool"
  assumes getf_window: "off + w \<le> length buf \<Longrightarrow> getf buf = Some (val (window off w buf))"
    and setf_overwrite: "off + w \<le> length buf \<Longrightarrow> setf v buf = Some (overwrite off (image v) buf)"
    and length_image: "length (image v) = w"
    and val_image: "ok v \<Longrightarrow> val (image v) = v"
begin

lemma get_set:
  "ok v \<Longrightarrow> off + w \<le> length buf \<Longrightarrow>
   \<exists>buf'. setf v buf = Some buf' \<and> length buf' = length buf \<and> getf buf' = Some v"
  using window_overwrite_same [of off "image v" buf]
  by (simp add: setf_overwrite getf_window length_image val_image)

lemma set_set:
  "off + w \<le> length buf \<Longrightarrow> setf v buf = Some buf' \<Longrightarrow> setf u buf' = setf u buf"
  by (auto simp: setf_overwrite length_image) (simp add: overwrite_def length_image)

end

lemma u32_field:
  assumes "off + 4 \<le> length buf"
  shows "from_buffer_u32 (buf, off) = Some (be_value (window off 4 buf), (buf, off + 4))"
    and "to_buffer_u32 (buf, off) v = Some (overwrite off (be_bytes 4 v) buf, off + 4)"
  using assms by (simp_all add: from_buffer_u32_def to_buffer_u32_def window_def overwrite_def)

lemma u64_field:
  assumes "off + 8 \<le> length buf"
  shows "from_buffer_u64 (buf, off) = Some (be_value (window off 8 buf), (buf, off + 8))"
    and "to_buffer_u64 (buf, off) v = Some (overwrite off (be_bytes 8 v) buf, off + 8)"
  using assms by (simp_all add: from_buffer_u64_def to_buffer_u64_def window_def overwrite_def)

definition io_type_ok :: "io_message_type \<Rightarrow> bool" where
  "io_type_ok ty \<longleftrightarrow> io_message_type_of (io_message_type_value ty) = ty"

interpretation f_type: message_field get_type set_type 0 4 "\<lambda>ty. be_bytes 4 (io_message_type_value ty)"
    "\<lambda>bs. io_message_type_of (be_value bs)" io_type_ok
  by unfold_locales (simp_all add: get_type_def set_type_def u32_field io_type_ok_def del: io_message_type_of.simps)

interpretation f_user_data: message_field get_user_data set_user_data 8 8 "be_bytes 8" be_value "\<lambda>_. True"
  by unfold_locales (simp_all add: get_user_data_def set_user_data_def layout_user_data_def u64_field)

interpretation f_result: message_field get_result set_result 16 4 "be_bytes 4" be_value "\<lambda>_. True"
  by unfold_locales (simp_all add: get_result_def set_result_def layout_result_def u32_field)

interpretation f_io_size: message_field get_io_size set_io_size 20 4 "be_bytes 4" be_value "\<lambda>_. True"
  by unfold_locales (simp_all add: get_io_size_def set_io_size_def layout_io_size_def u32_field)

interpretation f_requester: message_field get_requester_offset set_requester_offset 24 8 "be_bytes 8" be_value "\<lambda>_. True"
  by unfold_locales
     (simp_all add: get_requester_offset_def set_requester_offset_def layout_requester_offset_def u64_field)

interpretation f_storage: message_field get_storage_offset set_storage_offset 32 8 "be_bytes 8" be_value "\<lambda>_. True"
  by unfold_locales
     (simp_all add: get_storage_offset_def set_storage_offset_def layout_storage_offset_def u64_field)

text \<open>The abstract view of an I/O message: the six values its getters return.\<close>

record io_view =
  v_type :: io_message_type
  v_user_data :: u64
  v_result :: u32
  v_io_size :: u32
  v_requester_offset :: u64
  v_storage_offset :: u64

definition io_view_of :: "bytes \<Rightarrow> io_view option" where
  "io_view_of buf = do {
     ty \<leftarrow> get_type buf; ud \<leftarrow> get_user_data buf; rs \<leftarrow> get_result buf;
     sz \<leftarrow> get_io_size buf; ro \<leftarrow> get_requester_offset buf; so \<leftarrow> get_storage_offset buf;
     Some \<lparr>v_type = ty, v_user_data = ud, v_result = rs, v_io_size = sz,
           v_requester_offset = ro, v_storage_offset = so\<rparr> }"

lemmas field_gets = f_type.getf_window f_user_data.getf_window f_result.getf_window f_io_size.getf_window
  f_requester.getf_window f_storage.getf_window

lemmas field_sets = f_type.setf_overwrite f_user_data.setf_overwrite f_result.setf_overwrite
  f_io_size.setf_overwrite f_requester.setf_overwrite f_storage.setf_overwrite

lemma io_view_windows:
  assumes "size_of_io_message \<le> length buf"
  shows "io_view_of buf = Some \<lparr>
     v_type = io_message_type_of (be_value (window 0 4 buf)), v_user_data = be_value (window 8 8 buf),
     v_result = be_value (window 16 4 buf), v_io_size = be_value (window 20 4 buf),
     v_requester_offset = be_value (window 24 8 buf), v_storage_offset = be_value (window 32 8 buf)\<rparr>"
  using assms by (simp add: io_view_of_def field_gets size_of_io_message_def del: io_message_type_of.simps)

lemma window_overwrite_be:
  assumes "size_of_io_message \<le> length buf" "off + n \<le> size_of_io_message"
  shows "window off n (overwrite off (be_bytes n v) buf) = be_bytes n v"
    and "off' + w \<le> off \<or> off + n \<le> off' \<Longrightarrow> off' + w \<le> size_of_io_message \<Longrightarrow>
         window off' w (overwrite off (be_bytes n v) buf) = window off' w buf"
  using assms window_overwrite_same [of off "be_bytes n v" buf]
    window_overwrite_other [of off "be_bytes n v" buf off' w] by auto

text \<open>
  C22.  The six fields of an I/O message are independent.  In a buffer of at least 64 bytes every setter
  succeeds, keeps the length of the buffer, makes its own getter return the value written and
  leaves what the other five getters return unchanged: on the view of the message the setters are
  the field updates of a record.
\<close>

theorem io_message_fields_independent:
  assumes "size_of_io_message \<le> length buf" and "io_view_of buf = Some v" and "io_type_ok ty"
  shows "\<exists>b1 b2 b3 b4 b5 b6.
     set_type ty buf = Some b1 \<and> io_view_of b1 = Some (v\<lparr>v_type := ty\<rparr>) \<and>
     set_user_data ud buf = Some b2 \<and> io_view_of b2 = Some (v\<lparr>v_user_data := ud\<rparr>) \<and>
     set_result rs buf = Some b3 \<and> io_view_of b3 = Some (v\<lparr>v_result := rs\<rparr>) \<and>
     set_io_size sz buf = Some b4 \<and> io_view_of b4 = Some (v\<lparr>v_io_size := sz\<rparr>) \<and>
     set_requester_offset ro buf = Some b5 \<and> io_view_of b5 = Some (v\<lparr>v_requester_offset := ro\<rparr>) \<and>
     set_storage_offset so buf = Some b6 \<and> io_view_of b6 = Some (v\<lparr>v_storage_offset := so\<rparr>) \<and>
     (\<forall>b \<in> {b1, b2, b3, b4, b5, b6}. length b = length buf)"
proof -
  have len: "64 \<le> length buf" using assms(1) by (simp add: size_of_io_message_def)
  have view: "v = \<lparr>
     v_type = io_message_type_of (be_value (window 0 4 buf)), v_user_data = be_value (window 8 8 buf),
     v_result = be_value (window 16 4 buf), v_io_size = be_value (window 20 4 buf),
     v_requester_offset = be_value (window 24 8 buf), v_storage_offset = be_value (window 32 8 buf)\<rparr>"
    using assms(2) io_view_windows [OF assms(1)] by simp
  note ov = window_overwrite_be [OF assms(1), unfolded size_of_io_message_def]
  have ty: "io_message_type_of (io_message_type_value ty) = ty" using assms(3) by (simp add: io_type_ok_def)
  note simps = io_view_windows size_of_io_message_def ov view ty
  show ?thesis
  proof (intro exI conjI)
    show "set_type ty buf = Some (overwrite 0 (be_bytes 4 (io_message_type_value ty)) buf)"
      "set_user_data ud buf = Some (overwrite 8 (be_bytes 8 ud) buf)"
      "set_result rs buf = Some (overwrite 16 (be_bytes 4 rs) buf)"
      "set_io_size sz buf = Some (overwrite 20 (be_bytes 4 sz) buf)"
      "set_requester_offset ro buf = Some (overwrite 24 (be_bytes 8 ro) buf)"
      "set_storage_offset so buf = Some (overwrite 32 (be_bytes 8 so) buf)"
      using len by (simp_all add: field_sets)
  qed (use len in \<open>simp_all add: simps del: io_message_type_of.simps\<close>)
qed

theorem io_message_fields_independent_witness:
  "\<exists>v b. io_view_of (replicate 64 0) = Some v \<and> set_io_size 512 (replicate 64 0) = Some b \<and>
     io_view_of b = Some (v\<lparr>v_io_size := 512\<rparr>)"
proof -
  have l: "size_of_io_message \<le> length (replicate 64 (0 :: u8))" by (simp add: size_of_io_message_def)
  obtain v where v: "io_view_of (replicate 64 0) = Some v" using io_view_windows [OF l] by blast
  have "io_type_ok io_read" by (simp add: io_type_ok_def)
  from io_message_fields_independent [OF l v this, where sz = 512] v show ?thesis by blast
qed

section \<open>Binary content round trip\<close>

lemma be_value_take:
  "be_value (take 8 (be_bytes 8 (v8 :: u64) @ x)) = v8" "be_value (take 4 (be_bytes 4 (v4 :: u32) @ x)) = v4"
  by simp_all

lemma write_success:
  assumes "write_binary_content_to_file file sbc = (None, result)"
  shows "result = Some (be_bytes 8 sbc_magic_value @ be_bytes 4 (bc_block_size sbc) @
            be_bytes 4 (bc_block_count sbc) @ bc_content sbc)"
    and "unat (bc_block_count sbc) * unat (bc_block_size sbc) \<le> max_sbc_content_size"
  using assms
  by (auto simp: write_binary_content_to_file_def fwrite_def Let_def min_def not_less
      split: option.splits if_splits)

lemma write_succeeds:
  assumes "unat (bc_block_count sbc) * unat (bc_block_size sbc) \<le> max_sbc_content_size"
    and "16 + length (bc_content sbc) \<le> space"
  shows "fst (write_binary_content_to_file (Some space) sbc) = None"
  using assms by (simp add: write_binary_content_to_file_def fwrite_def Let_def)

text \<open>
  C30.  A binary content file is read back as it was written.  With the announced size
  \<open>block_count * block_size\<close> within the limit and room for the file, writing succeeds.  A file
  whose writing succeeded is recognised by its header, and loading it gives back the block size,
  the block count and the first \<open>block_count * block_size\<close> bytes of the content: the content itself
  when it has the announced size.  A shorter content, which the writer does not refuse, is refused
  by the loader.
\<close>

theorem binary_content_round_trip:
  defines "announced \<equiv> \<lambda>sbc. unat (bc_block_count sbc) * unat (bc_block_size sbc)"
  shows "(announced sbc \<le> max_sbc_content_size \<and> 16 + length (bc_content sbc) \<le> space \<longrightarrow>
      fst (write_binary_content_to_file (Some space) sbc) = None) \<and>
    (write_binary_content_to_file file sbc = (None, result) \<longrightarrow>
      file_has_binary_content_header result = Inr True \<and>
      load_binary_content_from_file result =
        (if announced sbc \<le> length (bc_content sbc)
         then Inr (sbc\<lparr>bc_content := take (announced sbc) (bc_content sbc)\<rparr>)
         else Inl DOCA_ERROR_IO_FAILED))"
proof (intro conjI impI)
  assume "announced sbc \<le> max_sbc_content_size \<and> 16 + length (bc_content sbc) \<le> space"
  then show "fst (write_binary_content_to_file (Some space) sbc) = None"
    using write_succeeds by (simp add: announced_def)
next
  assume w: "write_binary_content_to_file file sbc = (None, result)"
  show "file_has_binary_content_header result = Inr True"
    by (simp add: write_success(1) [OF w] file_has_binary_content_header_def fread_def be_value_take)
  show "load_binary_content_from_file result =
        (if announced sbc \<le> length (bc_content sbc)
         then Inr (sbc\<lparr>bc_content := take (announced sbc) (bc_content sbc)\<rparr>)
         else Inl DOCA_ERROR_IO_FAILED)"
    using write_success(2) [OF w]
    by (cases sbc) (simp add: write_success(1) [OF w] load_binary_content_from_file_def fread_def
        Let_def announced_def mult.commute min_def)
qed

theorem binary_content_round_trip_witness:
  "let sbc = \<lparr>bc_block_size = 2, bc_block_count = 3, bc_content = [1, 2, 3, 4, 5, 6]\<rparr> in
   load_binary_content_from_file (snd (write_binary_content_to_file (Some 100) sbc)) = Inr sbc"
proof -
  let ?s = "\<lparr>bc_block_size = 2, bc_block_count = 3, bc_content = [1, 2, 3, 4, 5, 6]\<rparr>"
  obtain result where w: "write_binary_content_to_file (Some 100) ?s = (None, result)"
    using binary_content_round_trip [of ?s 100]
    by (cases "write_binary_content_to_file (Some 100) ?s") (auto simp: max_sbc_content_size_def)
  then show ?thesis using binary_content_round_trip [of ?s 100 "Some 100" result] by simp
qed

section \<open>Address parsing\<close>

lemma parse_ip_prefix:
  assumes "v = pre @ addr @ rest" "list_all (\<lambda>c. \<not> isspace c \<and> c \<noteq> 58) addr"
  shows "parse_ip_loop v (length pre) (length addr + k) dots =
           parse_ip_loop v (length pre + length addr) k (dots + of_nat (length (filter ((=) 46) addr)))"
  using assms
proof (induction addr arbitrary: pre dots)
  case (Cons c addr)
  have v: "v = (pre @ [c]) @ addr @ rest" and c: "v ! length pre = c" "\<not> isspace c" "c \<noteq> 58"
    using Cons.prems by simp_all
  show ?case
    using Cons.IH [OF v, of "dots + 1"] Cons.IH [OF v, of dots] Cons.prems(2) c
    by (simp add: Let_def eq_commute [of 46] algebra_simps)
qed simp

lemma decimal_value_snoc: "decimal_value (ds @ [d]) = 10 * decimal_value ds + unat (d - 48)"
  by (simp add: decimal_value_def)

lemma digit_of_nat:
  assumes "n < 10"
  shows "unat ((of_nat (48 + n) :: u8) - 48) = n" "isdigit (of_nat (48 + n))" "\<not> isspace (of_nat (48 + n))"
    "(of_nat (48 + n) :: u8) \<noteq> 45" "(of_nat (48 + n) :: u8) \<noteq> 43"
proof -
  have u: "unat (of_nat (48 + n) :: u8) = 48 + n"
    using assms by (simp add: unsigned_of_nat take_bit_eq_mod del: of_nat_add)
  show "isdigit (of_nat (48 + n))" "\<not> isspace (of_nat (48 + n))"
    "(of_nat (48 + n) :: u8) \<noteq> 45" "(of_nat (48 + n) :: u8) \<noteq> 43"
    using assms u by (auto simp: isdigit_def isspace_def word_le_nat_alt word_unat_eq_iff simp del: of_nat_add)
  have "unat ((of_nat (48 + n) :: u8) - 48) = unat (of_nat n :: u8)" by simp
  also have "\<dots> = n" using assms by (simp add: unat_of_nat)
  finally show "unat ((of_nat (48 + n) :: u8) - 48) = n" .
qed

lemma std_to_string_decimal:
  "decimal_value (std_to_string n) = n \<and> list_all isdigit (std_to_string n) \<and>
   (\<exists>m ds. m < 10 \<and> std_to_string n = of_nat (48 + m) # ds)"
proof (induction n rule: std_to_string.induct)
  case (1 n)
  show ?case
  proof (cases "n < 10")
    case True
    then show ?thesis
      using digit_of_nat [OF True] by (auto simp: std_to_string.simps [of n] decimal_value_def simp del: of_nat_add)
  next
    case False
    have d: "n mod 10 < 10" by simp
    show ?thesis
      using 1 [OF False] False digit_of_nat [OF d]
      by (auto simp: std_to_string.simps [of n] decimal_value_snoc simp del: of_nat_add)
  qed
qed

lemma strtoul_to_string: "n < 2 ^ 64 \<Longrightarrow> strtoul (std_to_string n) = of_nat n"
proof -
  assume n: "n < 2 ^ 64"
  obtain m ds where m: "m < 10" "std_to_string n = of_nat (48 + m) # ds"
    and d: "decimal_value (std_to_string n) = n" "list_all isdigit (std_to_string n)"
    using std_to_string_decimal by blast
  have t: "takeWhile isdigit (std_to_string n) = std_to_string n"
    using d(2) by (simp add: takeWhile_eq_all_conv list_all_iff)
  have "dropWhile isspace (std_to_string n) = std_to_string n"
    using m digit_of_nat(3) [OF m(1)] by (simp del: of_nat_add)
  moreover have "std_to_string n \<noteq> [] \<and> hd (std_to_string n) \<noteq> 45 \<and> hd (std_to_string n) \<noteq> 43"
    using m(2) digit_of_nat(4,5) [OF m(1)] by (simp del: of_nat_add)
  ultimately show ?thesis
    using n d(1) by (simp add: strtoul_def Let_def t)
qed

text \<open>
  C31.  An address string \<open>a.b.c.d:port\<close> is split at its first colon.  Any text of fewer than 22
  characters with three dots and without spaces is accepted as address; with a port printed in
  decimal the result is this text and the port number when the port is below 65536.  The range
  check is made after the 64-bit result of \<open>strtoul\<close> has been cut to 32 bits, so every port number
  that exceeds a valid one by a multiple of \<open>2 ^ 32\<close> is accepted as the valid one.
\<close>

theorem parse_ip_v4_address_port:
  assumes "list_all (\<lambda>c. \<not> isspace c \<and> c \<noteq> 58) addr" and "length addr < 22" and "port < 2 ^ 64"
  shows "parse_ip_v4_address (addr @ [58] @ std_to_string port) =
    (if length (filter ((=) 46) addr) \<noteq> 3 then Inl Expected_four_octets
     else if port mod 2 ^ 32 \<le> 65535 then Inr (addr, of_nat (port mod 2 ^ 32))
     else Inl Port_exceeds)"
proof -
  let ?v = "addr @ [58] @ std_to_string port" and ?k = "length (filter ((=) 46) addr)"
  have "length addr < min 22 (length ?v)" using assms(2) by simp
  then obtain j where j: "min 22 (length ?v) = length addr + Suc j" by (auto dest: less_imp_Suc_add)
  have "?k < 22" using assms(2) length_filter_le [of "(=) 46" addr] by linarith
  then have dots: "(of_nat ?k :: u8) = 3 \<longleftrightarrow> ?k = 3"
    by (simp add: word_unat_eq_iff unat_of_nat)
  have p: "ucast (of_nat port :: u64) = (of_nat (port mod 2 ^ 32) :: u32)"
    using assms(3) by (simp add: word_unat_eq_iff unsigned_ucast_eq unsigned_of_nat take_bit_eq_mod)
  have gt: "(of_nat (port mod 2 ^ 32) :: u32) > 0xFFFF \<longleftrightarrow> 65535 < port mod 2 ^ 32"
    by (simp add: word_less_nat_alt unat_of_nat)
  have cut: "port mod 2 ^ 32 \<le> 65535 \<Longrightarrow>
      ucast (of_nat (port mod 2 ^ 32) :: u32) = (of_nat (port mod 2 ^ 32) :: u16)"
    by (simp add: word_unat_eq_iff unsigned_ucast_eq unat_of_nat unsigned_of_nat take_bit_eq_mod)
  have "parse_ip_v4_address ?v = parse_ip_loop ?v (length addr) (Suc j) (of_nat ?k)"
    using parse_ip_prefix [of ?v "[]" addr "[58] @ std_to_string port" "Suc j" 0] assms(1) j
    by (simp add: parse_ip_v4_address_def)
  also have "\<dots> = (if ?k \<noteq> 3 then Inl Expected_four_octets
     else if port mod 2 ^ 32 \<le> 65535 then Inr (addr, of_nat (port mod 2 ^ 32)) else Inl Port_exceeds)"
    using dots gt cut
    by (simp add: isspace_def strtoul_to_string [OF assms(3)] p Let_def)
  finally show ?thesis .
qed

theorem parse_ip_v4_address_port_witness:
  "parse_ip_v4_address (str ''10.0.0.1'' @ [58] @ std_to_string 4294967376) = Inr (str ''10.0.0.1'', 80)"
  using parse_ip_v4_address_port [of "str ''10.0.0.1''" 4294967376]
  by (simp add: str_def isspace_def)

end
