(* ===== verification/Simple_Fwd_Pkt.thy ===== *)
theory Simple_Fwd_Pkt
  imports Packet_Parser
begin

text \<open>
  Model of \<open>applications/simple_fwd_vnf/simple_fwd_pkt.c\<close>: the packet parser of the simple forward
  application and the accessors of its result.  Pointers into the packet are offsets from its
  start; a read behind the last byte is \<open>None\<close>.  The length of an IPv4 header is computed by
  DPDK's \<open>rte_ipv4_hdr_len\<close>, the parameter the theory of the common packet parser uses as well.
  The union of the tunnel fields is a record: a packet has one tunnel type, and only the fields of
  that type are read.
\<close>

section \<open>The parse result\<close>

abbreviation (input) PROTO_GRE :: u8 where "PROTO_GRE \<equiv> 47"
abbreviation (input) IPPROTO_ICMP :: u8 where "IPPROTO_ICMP \<equiv> 1"
abbreviation (input) SIZEOF_GRE_HDR :: nat where "SIZEOF_GRE_HDR \<equiv> 4"
abbreviation (input) SIZEOF_VXLAN_GPE_HDR :: nat where "SIZEOF_VXLAN_GPE_HDR \<equiv> 8"
abbreviation (input) VXLAN_PORT :: u16 where "VXLAN_PORT \<equiv> 4789"

definition IPV4 :: u8 where "IPV4 = 4"
definition IPV6 :: u8 where "IPV6 = 6"

datatype doca_flow_tun_type = TUN_NONE | TUN_VXLAN | TUN_GTPU | TUN_GRE

record simple_fwd_pkt_format =
  f_l2 :: "nat option"
  f_l3 :: "nat option"
  f_l4 :: "nat option"
  f_l3_type :: u8
  f_l4_type :: u8
  f_l7 :: "nat option"

record simple_fwd_pkt_tun_format =
  t_l2 :: bool
  t_vni :: u32
  t_gre_key :: u32
  t_proto :: u16
  t_gtp_msg_type :: u8
  t_gtp_flags :: u8
  t_teid :: u32

record simple_fwd_pkt_info =
  pi_orig_port_id :: u16
  pi_pipe_queue :: u16
  pi_rss_hash :: u32
  pi_outer :: simple_fwd_pkt_format
  pi_tun_type :: doca_flow_tun_type
  pi_tun :: simple_fwd_pkt_tun_format
  pi_inner :: simple_fwd_pkt_format
  pi_len :: int

text \<open>The zeroed structure that the caller passes.\<close>

definition format0 :: simple_fwd_pkt_format where
  "format0 = \<lparr>f_l2 = None, f_l3 = None, f_l4 = None, f_l3_type = 0, f_l4_type = 0, f_l7 = None\<rparr>"

definition pinfo0 :: simple_fwd_pkt_info where
  "pinfo0 = \<lparr>pi_orig_port_id = 0, pi_pipe_queue = 0, pi_rss_hash = 0, pi_outer = format0,
     pi_tun_type = TUN_NONE, pi_tun = \<lparr>t_l2 = False, t_vni = 0, t_gre_key = 0, t_proto = 0,
       t_gtp_msg_type = 0, t_gtp_flags = 0, t_teid = 0\<rparr>, pi_inner = format0, pi_len = 0\<rparr>"

section \<open>The parser\<close>

text \<open>The part of \<open>simple_fwd_parse_pkt_format\<close> behind the link layer: \<open>data + l3_off\<close> is the IPv4 header.\<close>

definition parse_ipv4 ::
  "dpdk \<Rightarrow> bytes \<Rightarrow> nat \<Rightarrow> int \<Rightarrow> nat \<Rightarrow> simple_fwd_pkt_format \<Rightarrow> (int \<times> simple_fwd_pkt_format) option" where
  "parse_ipv4 d b data len l3_off fmt = do {
     version_ihl \<leftarrow> rd8 b (data + l3_off);
     if drop_bit 4 version_ihl \<noteq> 4 then Some (- 1, fmt)
     else do {
       src_addr \<leftarrow> rd32be b (data + l3_off + 12);
       if src_addr = 0 then Some (- 1, fmt)
       else do {
         dst_addr \<leftarrow> rd32be b (data + l3_off + 16);
         if dst_addr = 0 then Some (- 1, fmt)
         else do {
           hdr \<leftarrow> rd_bytes b (data + l3_off) SIZEOF_IPV4_HDR;
           let fmt = fmt\<lparr>f_l3 := Some (data + l3_off), f_l3_type := IPV4\<rparr>;
           let l4_off = l3_off + unat (rte_ipv4_hdr_len d hdr);
           let fmt = fmt\<lparr>f_l4 := Some (data + l4_off)\<rparr>;
           next_proto_id \<leftarrow> rd8 b (data + l3_off + 9);
           (if next_proto_id = PROTO_TCP then do {
              data_off \<leftarrow> rd8 b (data + l4_off + 12);
              let l7_off = l4_off + unat (drop_bit 2 (data_off AND 0xf0));
              if int l7_off > len then Some (- 1, fmt)
              else Some (0, fmt\<lparr>f_l4_type := PROTO_TCP, f_l7 := Some (data + l7_off)\<rparr>) }
            else if next_proto_id = PROTO_UDP then
              let l7_off = l4_off + SIZEOF_UDP_HDR; fmt = fmt\<lparr>f_l4_type := PROTO_UDP\<rparr> in
              if int l7_off > len then Some (- 1, fmt)
              else Some (0, fmt\<lparr>f_l7 := Some (data + l7_off)\<rparr>)
            else if next_proto_id = PROTO_GRE then Some (0, fmt\<lparr>f_l4_type := PROTO_GRE\<rparr>)
            else if next_proto_id = IPPROTO_ICMP then Some (0, fmt\<lparr>f_l4_type := IPPROTO_ICMP\<rparr>)
            else Some (- 1, fmt)) } } } }"

definition simple_fwd_parse_pkt_format ::
  "dpdk \<Rightarrow> bytes \<Rightarrow> nat \<Rightarrow> int \<Rightarrow> bool \<Rightarrow> simple_fwd_pkt_format \<Rightarrow> (int \<times> simple_fwd_pkt_format) option" where
  "simple_fwd_parse_pkt_format d b data len l2 fmt =
     (let fmt = fmt\<lparr>f_l2 := Some data\<rparr> in
      if l2 then do {
        ether_type \<leftarrow> rd16be b (data + 12);
        if ether_type = ETHER_TYPE_IPV4 then parse_ipv4 d b data len SIZEOF_ETHER_HDR fmt
        else if ether_type = ETHER_TYPE_IPV6 then Some (- 1, fmt\<lparr>f_l3_type := IPV6\<rparr>)
        else Some (- 1, fmt) }
      else parse_ipv4 d b data len 0 fmt)"

text \<open>The three bits of the first GRE byte that are looked at.\<close>

definition gre_c :: "u8 \<Rightarrow> bool" where "gre_c x \<longleftrightarrow> bit x 7"
definition gre_k :: "u8 \<Rightarrow> bool" where "gre_k x \<longleftrightarrow> bit x 5"
definition gre_s :: "u8 \<Rightarrow> bool" where "gre_s x \<longleftrightarrow> bit x 4"

definition GTP_ESPN_FLAGS_ON :: "u8 \<Rightarrow> bool" where
  "GTP_ESPN_FLAGS_ON p \<longleftrightarrow> p AND 0x7 \<noteq> 0"

definition parse_gre :: "bytes \<Rightarrow> nat \<Rightarrow> simple_fwd_pkt_info \<Rightarrow> (int \<times> simple_fwd_pkt_info) option" where
  "parse_gre b l4 pinfo = do {
     x \<leftarrow> rd8 b l4;
     if gre_c x then Some (- 1, pinfo)
     else do {
       (optional_off, pinfo) \<leftarrow>
         (if gre_k x then do {
            key \<leftarrow> rd32be b (l4 + SIZEOF_GRE_HDR);
            Some (4, pinfo\<lparr>pi_tun := (pi_tun pinfo)\<lparr>t_gre_key := key, t_l2 := True\<rparr>\<rparr>) }
          else Some (0, pinfo));
       let optional_off = (if gre_s x then optional_off + 4 else optional_off);
       proto \<leftarrow> rd16be b (l4 + 2);
       Some (4 + optional_off, pinfo\<lparr>pi_tun_type := TUN_GRE, pi_tun := (pi_tun pinfo)\<lparr>t_proto := proto\<rparr>\<rparr>) } }"

definition parse_vxlan :: "bytes \<Rightarrow> nat \<Rightarrow> simple_fwd_pkt_info \<Rightarrow> (int \<times> simple_fwd_pkt_info) option" where
  "parse_vxlan b udp_data pinfo = do {
     vx_flags \<leftarrow> rd8 b udp_data;
     if vx_flags AND 0x08 \<noteq> 0 then do {
       vni \<leftarrow> rd32be b (udp_data + 4);
       Some (16, pinfo\<lparr>pi_tun_type := TUN_VXLAN, pi_tun := (pi_tun pinfo)\<lparr>t_vni := vni, t_l2 := True\<rparr>\<rparr>) }
     else Some (16, pinfo) }"

definition parse_gtpu :: "bytes \<Rightarrow> nat \<Rightarrow> simple_fwd_pkt_info \<Rightarrow> (int \<times> simple_fwd_pkt_info) option" where
  "parse_gtpu b udp_data pinfo = do {
     teid \<leftarrow> rd32be b (udp_data + 4);
     msg_type \<leftarrow> rd8 b (udp_data + 1);
     info \<leftarrow> rd8 b udp_data;
     let pinfo = pinfo\<lparr>pi_tun_type := TUN_GTPU, pi_tun := (pi_tun pinfo)\<lparr>t_teid := teid,
       t_gtp_msg_type := msg_type, t_gtp_flags := info, t_l2 := False\<rparr>\<rparr>;
     Some (if GTP_ESPN_FLAGS_ON info then 20 else 16, pinfo) }"

definition simple_fwd_parse_is_tun ::
  "bytes \<Rightarrow> simple_fwd_pkt_info \<Rightarrow> (int \<times> simple_fwd_pkt_info) option" where
  "simple_fwd_parse_is_tun b pinfo =
     (if f_l3_type (pi_outer pinfo) \<noteq> IPV4 then Some (0, pinfo)
      else if f_l4_type (pi_outer pinfo) = PROTO_GRE then do {
        l4 \<leftarrow> f_l4 (pi_outer pinfo);
        parse_gre b l4 pinfo }
      else if f_l4_type (pi_outer pinfo) = PROTO_UDP then do {
        l4 \<leftarrow> f_l4 (pi_outer pinfo);
        dst_port \<leftarrow> rd16be b (l4 + 2);
        if dst_port = VXLAN_PORT then parse_vxlan b (l4 + SIZEOF_UDP_HDR) pinfo
        else if dst_port = GTPU_PORT then parse_gtpu b (l4 + SIZEOF_UDP_HDR) pinfo
        else Some (0, pinfo) }
      else Some (0, pinfo))"

text \<open>The inner packet starts \<open>off\<close> bytes behind the outer layer 4 header.\<close>

definition parse_inner ::
  "dpdk \<Rightarrow> bytes \<Rightarrow> int \<Rightarrow> int \<Rightarrow> bool \<Rightarrow> simple_fwd_pkt_info \<Rightarrow> (int \<times> simple_fwd_pkt_info) option" where
  "parse_inner d b len off l2 pinfo = do {
     l4 \<leftarrow> f_l4 (pi_outer pinfo);
     let inner_off = l4 + nat off;
     (ret, inner) \<leftarrow> simple_fwd_parse_pkt_format d b inner_off (len - int inner_off) l2 (pi_inner pinfo);
     Some (if ret \<noteq> 0 then - 1 else 0, pinfo\<lparr>pi_inner := inner\<rparr>) }"

definition simple_fwd_parse_packet ::
  "dpdk \<Rightarrow> bytes \<Rightarrow> int \<Rightarrow> simple_fwd_pkt_info \<Rightarrow> (int \<times> simple_fwd_pkt_info) option" where
  "simple_fwd_parse_packet d b len pinfo = do {
     let pinfo = pinfo\<lparr>pi_len := len\<rparr>;
     (ret, outer) \<leftarrow> simple_fwd_parse_pkt_format d b 0 len True (pi_outer pinfo);
     let pinfo = pinfo\<lparr>pi_outer := outer\<rparr>;
     if ret \<noteq> 0 then Some (- 1, pinfo)
     else do {
       (off, pinfo) \<leftarrow> simple_fwd_parse_is_tun b pinfo;
       if pi_tun_type pinfo = TUN_NONE \<or> off < 0 then Some (0, pinfo)
       else (case pi_tun_type pinfo of
           TUN_GRE \<Rightarrow> parse_inner d b len off False pinfo
         | TUN_VXLAN \<Rightarrow> parse_inner d b len off (t_l2 (pi_tun pinfo)) pinfo
         | TUN_GTPU \<Rightarrow> parse_inner d b len off (t_l2 (pi_tun pinfo)) pinfo
         | TUN_NONE \<Rightarrow> Some (0, pinfo)) } }"

definition simple_fwd_pinfo_decap :: "simple_fwd_pkt_info \<Rightarrow> simple_fwd_pkt_info" where
  "simple_fwd_pinfo_decap pinfo = (case pi_tun_type pinfo of
     TUN_VXLAN \<Rightarrow> pinfo\<lparr>pi_outer := (pi_outer pinfo)\<lparr>f_l2 := f_l2 (pi_inner pinfo),
         f_l3 := f_l3 (pi_inner pinfo), f_l4 := f_l4 (pi_inner pinfo), f_l7 := f_l7 (pi_inner pinfo)\<rparr>,
         pi_tun_type := TUN_NONE\<rparr>
   | _ \<Rightarrow> pinfo)"

section \<open>The accessors\<close>

definition simple_fwd_pinfo_outer_mac_dst :: "bytes \<Rightarrow> simple_fwd_pkt_info \<Rightarrow> bytes option" where
  "simple_fwd_pinfo_outer_mac_dst b pinfo = do { l2 \<leftarrow> f_l2 (pi_outer pinfo); rd_bytes b l2 6 }"

definition simple_fwd_pinfo_outer_mac_src :: "bytes \<Rightarrow> simple_fwd_pkt_info \<Rightarrow> bytes option" where
  "simple_fwd_pinfo_outer_mac_src b pinfo = do { l2 \<leftarrow> f_l2 (pi_outer pinfo); rd_bytes b (l2 + 6) 6 }"

definition simple_fwd_pinfo_outer_ipv4_dst :: "bytes \<Rightarrow> simple_fwd_pkt_info \<Rightarrow> u32 option" where
  "simple_fwd_pinfo_outer_ipv4_dst b pinfo = do { l3 \<leftarrow> f_l3 (pi_outer pinfo); rd32be b (l3 + 16) }"

definition simple_fwd_pinfo_outer_ipv4_src :: "bytes \<Rightarrow> simple_fwd_pkt_info \<Rightarrow> u32 option" where
  "simple_fwd_pinfo_outer_ipv4_src b pinfo = do { l3 \<leftarrow> f_l3 (pi_outer pinfo); rd32be b (l3 + 12) }"

definition simple_fwd_pinfo_inner_ipv4_dst :: "bytes \<Rightarrow> simple_fwd_pkt_info \<Rightarrow> u32 option" where
  "simple_fwd_pinfo_inner_ipv4_dst b pinfo = do { l3 \<leftarrow> f_l3 (pi_inner pinfo); rd32be b (l3 + 16) }"

definition simple_fwd_pinfo_inner_ipv4_src :: "bytes \<Rightarrow> simple_fwd_pkt_info \<Rightarrow> u32 option" where
  "simple_fwd_pinfo_inner_ipv4_src b pinfo = do { l3 \<leftarrow> f_l3 (pi_inner pinfo); rd32be b (l3 + 12) }"

definition simple_fwd_pinfo_src_port :: "bytes \<Rightarrow> simple_fwd_pkt_format \<Rightarrow> u16 option" where
  "simple_fwd_pinfo_src_port b fmt =
     (if f_l4_type fmt = PROTO_TCP \<or> f_l4_type fmt = PROTO_UDP
      then do { l4 \<leftarrow> f_l4 fmt; rd16be b l4 } else Some 0)"

definition simple_fwd_pinfo_dst_port :: "bytes \<Rightarrow> simple_fwd_pkt_format \<Rightarrow> u16 option" where
  "simple_fwd_pinfo_dst_port b fmt =
     (if f_l4_type fmt = PROTO_TCP \<or> f_l4_type fmt = PROTO_UDP
      then do { l4 \<leftarrow> f_l4 fmt; rd16be b (l4 + 2) } else Some 0)"

definition simple_fwd_pinfo_inner_src_port :: "bytes \<Rightarrow> simple_fwd_pkt_info \<Rightarrow> u16 option" where
  "simple_fwd_pinfo_inner_src_port b pinfo = simple_fwd_pinfo_src_port b (pi_inner pinfo)"

definition simple_fwd_pinfo_inner_dst_port :: "bytes \<Rightarrow> simple_fwd_pkt_info \<Rightarrow> u16 option" where
  "simple_fwd_pinfo_inner_dst_port b pinfo = simple_fwd_pinfo_dst_port b (pi_inner pinfo)"

definition simple_fwd_pinfo_outer_src_port :: "bytes \<Rightarrow> simple_fwd_pkt_info \<Rightarrow> u16 option" where
  "simple_fwd_pinfo_outer_src_port b pinfo = simple_fwd_pinfo_src_port b (pi_outer pinfo)"

definition simple_fwd_pinfo_outer_dst_port :: "bytes \<Rightarrow> simple_fwd_pkt_info \<Rightarrow> u16 option" where
  "simple_fwd_pinfo_outer_dst_port b pinfo = simple_fwd_pinfo_dst_port b (pi_outer pinfo)"

section \<open>Where the parser reads\<close>

text \<open>Documented behaviour of \<open>rte_ipv4_hdr_len\<close>: the header length field in units of four bytes.\<close>

definition ipv4_hdr_len_ok :: "dpdk \<Rightarrow> bool" where
  "ipv4_hdr_len_ok d \<longleftrightarrow> (\<forall>h. length h = 20 \<longrightarrow> rte_ipv4_hdr_len d h = (h ! 0 AND 0x0f) * 4)"

lemma hdr_len_value:
  assumes "ipv4_hdr_len_ok d" "length h = 20"
  shows "unat (rte_ipv4_hdr_len d h) = unat (h ! 0 AND 0x0f) * 4"
proof -
  have "unat (h ! 0 AND 0x0f) \<le> 15" using word8_and_le [of "h ! 0" "0x0f"] by simp
  then show ?thesis using assms by (simp add: ipv4_hdr_len_ok_def unat_word_ariths)
qed

lemma hdr_len_le: "ipv4_hdr_len_ok d \<Longrightarrow> length h = 20 \<Longrightarrow> unat (rte_ipv4_hdr_len d h) \<le> 60"
  using word8_and_le [of "h ! 0" "0x0f"] by (simp add: hdr_len_value)

lemma parse_ipv4_returns:
  assumes "ipv4_hdr_len_ok d" "data + l3_off + 73 \<le> length b"
  shows "returns (parse_ipv4 d b data len l3_off fmt) (\<lambda>(ret, fmt').
    ret = 0 \<longrightarrow> (\<exists>l4. f_l4 fmt' = Some l4 \<and> l4 \<le> data + l3_off + 60) \<and>
      f_l3 fmt' = Some (data + l3_off) \<and> f_l3_type fmt' = IPV4)"
proof -
  define hdr where "hdr = take 20 (drop (data + l3_off) b)"
  have h: "length hdr = 20" using assms(2) by (simp add: hdr_def)
  note le = hdr_len_le [OF assms(1) h]
  show ?thesis
    using assms(2) le
    by (auto simp: parse_ipv4_def returns_def rd_simps rd32be_in rd_bytes_in Let_def simp flip: hdr_def)
qed

lemma parse_pkt_format_returns:
  assumes "ipv4_hdr_len_ok d" "data + (if l2 then 87 else 73) \<le> length b"
  shows "returns (simple_fwd_parse_pkt_format d b data len l2 fmt) (\<lambda>(ret, fmt').
    ret = 0 \<longrightarrow> (\<exists>l4. f_l4 fmt' = Some l4 \<and> l4 \<le> data + (if l2 then 74 else 60)) \<and>
      f_l3 fmt' = Some (data + (if l2 then 14 else 0)) \<and> f_l3_type fmt' = IPV4)"
  using parse_ipv4_returns [OF assms(1), of data 14 b len "fmt\<lparr>f_l2 := Some data\<rparr>"]
    parse_ipv4_returns [OF assms(1), of data 0 b len "fmt\<lparr>f_l2 := Some data\<rparr>"] assms(2)
  by (auto simp: simple_fwd_parse_pkt_format_def returns_def rd_simps Let_def split: if_splits)

lemma parse_is_tun_returns:
  assumes "f_l4 (pi_outer pinfo) = Some l4" "l4 + 20 \<le> length b"
  shows "returns (simple_fwd_parse_is_tun b pinfo) (\<lambda>(off, pinfo').
    off \<le> 20 \<and> pi_outer pinfo' = pi_outer pinfo \<and>
    (pi_tun_type pinfo = TUN_NONE \<longrightarrow> pi_tun_type pinfo' = TUN_VXLAN \<longrightarrow> off = 16) \<and>
    (pi_tun_type pinfo = TUN_NONE \<longrightarrow> pi_tun_type pinfo' = TUN_GTPU \<longrightarrow> \<not> t_l2 (pi_tun pinfo')))"
  using assms
  by (auto simp: simple_fwd_parse_is_tun_def parse_gre_def parse_vxlan_def parse_gtpu_def returns_def
      rd_simps Let_def)

lemma parse_inner_returns:
  assumes "ipv4_hdr_len_ok d" "f_l4 (pi_outer pinfo) = Some l4" "l4 + nat off + (if l2 then 87 else 73) \<le> length b"
  shows "\<exists>r. parse_inner d b len off l2 pinfo = Some r"
  using parse_pkt_format_returns [OF assms(1,3), of "len - int (l4 + nat off)" "pi_inner pinfo"] assms(2)
  by (auto simp: parse_inner_def returns_def Let_def)

lemma parse_packet_returns:
  assumes "ipv4_hdr_len_ok d" "177 \<le> length b" "pi_tun_type pinfo = TUN_NONE"
  shows "\<exists>r. simple_fwd_parse_packet d b len pinfo = Some r"
proof -
  let ?p = "pinfo\<lparr>pi_len := len\<rparr>"
  obtain ret outer where o: "simple_fwd_parse_pkt_format d b 0 len True (pi_outer pinfo) = Some (ret, outer)"
    and l4: "ret = 0 \<longrightarrow> (\<exists>l4. f_l4 outer = Some l4 \<and> l4 \<le> 74)"
    using parse_pkt_format_returns [OF assms(1), of 0 True b len "pi_outer pinfo"] assms(2)
    by (auto simp: returns_def)
  show ?thesis
  proof (cases "ret = 0")
    case True
    then obtain l4 where l4: "f_l4 outer = Some l4" "l4 \<le> 74" using l4 by blast
    let ?q = "?p\<lparr>pi_outer := outer\<rparr>"
    obtain off q where t: "simple_fwd_parse_is_tun b ?q = Some (off, q)" and
      q: "off \<le> 20" "pi_outer q = outer" "pi_tun_type q = TUN_VXLAN \<longrightarrow> off = 16"
        "pi_tun_type q = TUN_GTPU \<longrightarrow> \<not> t_l2 (pi_tun q)"
      using parse_is_tun_returns [of ?q l4 b] l4 assms by (auto simp: returns_def)
    have "nat off \<le> 20" using q(1) by simp
    then have i: "\<exists>r. parse_inner d b len off False q = Some r"
      and v: "pi_tun_type q = TUN_VXLAN \<longrightarrow> (\<exists>r. parse_inner d b len off l2 q = Some r)" for l2
      using parse_inner_returns [OF assms(1), of q l4 off _ b len] q l4 assms(2) by auto
    show ?thesis
      using i v q(4) o t True by (cases "pi_tun_type q") (auto simp: simple_fwd_parse_packet_def Let_def)
  qed (use o in \<open>simp add: simple_fwd_parse_packet_def Let_def\<close>)
qed

lemma parse_packet_tcp:
  assumes "ipv4_hdr_len_ok d" "34 \<le> length b" "be16 (b ! 12) (b ! 13) = 0x0800" "drop_bit 4 (b ! 14) = 4"
    and "be32 (b ! 26) (b ! 27) (b ! 28) (b ! 29) \<noteq> 0" "be32 (b ! 30) (b ! 31) (b ! 32) (b ! 33) \<noteq> 0"
    and "b ! 23 = 6" "pi_tun_type pinfo = TUN_NONE"
  shows "simple_fwd_parse_packet d b len pinfo = None \<longleftrightarrow> length b \<le> 26 + 4 * unat (b ! 14 AND 0x0f)"
proof -
  define hdr where "hdr = take 20 (drop 14 b)"
  have h: "length hdr = 20" "hdr ! 0 = b ! 14" using assms(2) by (simp_all add: hdr_def)
  have hl: "unat (rte_ipv4_hdr_len d hdr) = unat (b ! 14 AND 0x0f) * 4"
    using hdr_len_value [OF assms(1) h(1)] h(2) by simp
  have rd: "rd8 b (26 + n) = None \<longleftrightarrow> length b \<le> 26 + n" for n by (simp add: rd8_def not_less)
  show ?thesis
    using assms(2-8) hl rd [of "4 * unat (b ! 14 AND 0x0f)"]
    by (cases "rd8 b (26 + unat (b ! 14 AND 0x0f) * 4)")
       (auto simp: simple_fwd_parse_packet_def simple_fwd_parse_pkt_format_def parse_ipv4_def
         simple_fwd_parse_is_tun_def rd16be_in rd32be_in rd_bytes_in Let_def mult.commute simp flip: hdr_def)
qed

section \<open>What a parsed packet guarantees\<close>

text \<open>The headers that the accessors read are inside the packet.\<close>

definition format_ok :: "bytes \<Rightarrow> simple_fwd_pkt_format \<Rightarrow> bool" where
  "format_ok b fmt \<longleftrightarrow> f_l3_type fmt = IPV4 \<and>
     f_l4_type fmt \<in> {PROTO_TCP, PROTO_UDP, PROTO_GRE, IPPROTO_ICMP} \<and>
     (\<exists>l3. f_l3 fmt = Some l3 \<and> l3 + 20 \<le> length b) \<and>
     (\<exists>l4. f_l4 fmt = Some l4 \<and> (f_l4_type fmt \<in> {PROTO_TCP, PROTO_UDP} \<longrightarrow> l4 + 4 \<le> length b))"

definition pinfo_ok :: "bytes \<Rightarrow> simple_fwd_pkt_info \<Rightarrow> bool" where
  "pinfo_ok b pinfo \<longleftrightarrow> format_ok b (pi_outer pinfo) \<and>
     (pi_tun_type pinfo \<noteq> TUN_NONE \<longrightarrow> format_ok b (pi_inner pinfo))"

lemma rd_ensures:
  "ensures (rd8 b i) (\<lambda>_. i < length b)" "ensures (rd16be b i) (\<lambda>_. i + 2 \<le> length b)"
  "ensures (rd32be b i) (\<lambda>_. i + 4 \<le> length b)" "ensures (rd_bytes b i n) (\<lambda>_. i + n \<le> length b)"
  by (auto simp: ensures_def rd8_def rd16be_def rd32be_def rd_bytes_def Some_bind_iff split: if_splits)

lemmas rd_calls = rd_ensures [THEN ensures_call]

lemma parse_ipv4_ok:
  assumes "int data + len \<le> int (length b)"
  shows "ensures (parse_ipv4 d b data len l3_off fmt) (\<lambda>(ret, fmt'). ret = 0 \<longrightarrow> format_ok b fmt')"
  unfolding parse_ipv4_def
  by (intro vc rd_calls) (use assms in \<open>auto simp: format_ok_def simp del: of_nat_unat\<close>)

lemma parse_pkt_format_ok:
  assumes "simple_fwd_parse_pkt_format d b data len l2 fmt = Some (0, fmt')" "int data + len \<le> int (length b)"
  shows "format_ok b fmt'"
  using assms(1) ensuresD [OF parse_ipv4_ok [OF assms(2)]]
  by (fastforce simp: simple_fwd_parse_pkt_format_def Some_bind_iff Let_def split: if_splits)

lemma is_tun_outer:
  "simple_fwd_parse_is_tun b pinfo = Some (off, pinfo') \<Longrightarrow> pi_outer pinfo' = pi_outer pinfo"
  by (auto simp: simple_fwd_parse_is_tun_def parse_gre_def parse_vxlan_def parse_gtpu_def Some_bind_iff Let_def
      split: if_splits)

lemma is_tun_negative:
  "simple_fwd_parse_is_tun b pinfo = Some (off, pinfo') \<Longrightarrow> off < 0 \<Longrightarrow> pinfo' = pinfo"
  by (auto simp: simple_fwd_parse_is_tun_def parse_gre_def parse_vxlan_def parse_gtpu_def Some_bind_iff Let_def
      split: if_splits)

lemma parse_inner_ok:
  assumes "parse_inner d b len off l2 pinfo = Some (0, pinfo')" "len \<le> int (length b)"
  shows "pi_outer pinfo' = pi_outer pinfo \<and> format_ok b (pi_inner pinfo')"
  using assms
  by (auto simp: parse_inner_def Some_bind_iff Let_def split: if_splits intro: parse_pkt_format_ok)

lemma parse_packet_ok:
  assumes "simple_fwd_parse_packet d b len pinfo = Some (0, pinfo')" "len \<le> int (length b)"
    and "pi_tun_type pinfo = TUN_NONE"
  shows "pinfo_ok b pinfo'"
proof -
  obtain ret outer where o: "simple_fwd_parse_pkt_format d b 0 len True (pi_outer pinfo) = Some (ret, outer)"
    using assms(1) by (auto simp: simple_fwd_parse_packet_def Some_bind_iff Let_def)
  have ret: "ret = 0" using assms(1) o by (auto simp: simple_fwd_parse_packet_def Let_def split: if_splits)
  have fo: "format_ok b outer" using parse_pkt_format_ok [OF o [unfolded ret]] assms(2) by simp
  obtain off q where t: "simple_fwd_parse_is_tun b (pinfo\<lparr>pi_len := len, pi_outer := outer\<rparr>) = Some (off, q)"
    using assms(1) o ret by (auto simp: simple_fwd_parse_packet_def Some_bind_iff Let_def)
  have q: "pi_outer q = outer" using is_tun_outer [OF t] by simp
  show ?thesis
  proof (cases "pi_tun_type q = TUN_NONE \<or> off < 0")
    case True
    then have "pinfo' = q" using assms(1) o ret t by (auto simp: simple_fwd_parse_packet_def Let_def)
    moreover have "pi_tun_type q = TUN_NONE" using True is_tun_negative [OF t] assms(3) by auto
    ultimately show ?thesis using fo q by (simp add: pinfo_ok_def)
  next
    case False
    then obtain l2 where "parse_inner d b len off l2 q = Some (0, pinfo')"
      using assms(1) o ret t
      by (cases "pi_tun_type q") (auto simp: simple_fwd_parse_packet_def Let_def)
    then show ?thesis using parse_inner_ok [of d b len off l2 q pinfo'] assms(2) fo q by (simp add: pinfo_ok_def)
  qed
qed

section \<open>Properties\<close>

text \<open>
  C32.  The parser of the simple forward application compares only the end of a TCP or UDP header with the
  length of the packet, so how far it reads depends on the packet.  A packet of at least 177 bytes
  is always parsed within its bytes.  A shorter one is not: a TCP packet is read behind its end
  exactly when the byte with the TCP data offset is missing, which a frame of the minimal
  Ethernet length with IPv4 options can bring about.
\<close>

theorem simple_fwd_parser_reads:
  assumes "ipv4_hdr_len_ok d" and "pi_tun_type pinfo = TUN_NONE"
  shows "(177 \<le> length b \<longrightarrow> (\<exists>r. simple_fwd_parse_packet d b len pinfo = Some r)) \<and>
    (34 \<le> length b \<and> be16 (b ! 12) (b ! 13) = 0x0800 \<and> drop_bit 4 (b ! 14) = 4 \<and> b ! 23 = 6 \<and>
     be32 (b ! 26) (b ! 27) (b ! 28) (b ! 29) \<noteq> 0 \<and> be32 (b ! 30) (b ! 31) (b ! 32) (b ! 33) \<noteq> 0 \<longrightarrow>
       (simple_fwd_parse_packet d b len pinfo = None \<longleftrightarrow> length b \<le> 26 + 4 * unat (b ! 14 AND 0x0f)))"
  using parse_packet_returns [OF assms(1) _ assms(2), of b len] parse_packet_tcp [OF assms(1) _ _ _ _ _ _ assms(2), of b len]
  by blast

text \<open>A 60-byte frame: IPv4 with a 60-byte header that is cut off, protocol TCP.\<close>

definition short_tcp_frame :: bytes where
  "short_tcp_frame = replicate 12 0 @ [8, 0, 0x4f, 0, 0, 46, 0, 0, 0, 0, 64, 6, 0, 0, 10, 0, 0, 1, 10, 0, 0, 2] @
     replicate 26 0"

lemma ref_dpdk_hdr_len: "ipv4_hdr_len_ok ref_dpdk"
  by (simp add: ipv4_hdr_len_ok_def ref_dpdk_def)

theorem simple_fwd_parser_reads_witness:
  "length short_tcp_frame = 60 \<and> simple_fwd_parse_packet ref_dpdk short_tcp_frame 60 pinfo0 = None"
proof -
  have t: "pi_tun_type pinfo0 = TUN_NONE" by (simp add: pinfo0_def)
  have "34 \<le> length short_tcp_frame \<and> be16 (short_tcp_frame ! 12) (short_tcp_frame ! 13) = 0x0800 \<and>
    drop_bit 4 (short_tcp_frame ! 14) = 4 \<and> short_tcp_frame ! 23 = 6 \<and>
    be32 (short_tcp_frame ! 26) (short_tcp_frame ! 27) (short_tcp_frame ! 28) (short_tcp_frame ! 29) \<noteq> 0 \<and>
    be32 (short_tcp_frame ! 30) (short_tcp_frame ! 31) (short_tcp_frame ! 32) (short_tcp_frame ! 33) \<noteq> 0"
    by code_simp
  moreover have "length short_tcp_frame \<le> 26 + 4 * unat (short_tcp_frame ! 14 AND 0x0f)" by code_simp
  moreover have "length short_tcp_frame = 60" by (simp add: short_tcp_frame_def)
  ultimately show ?thesis using simple_fwd_parser_reads [OF ref_dpdk_hdr_len t, of short_tcp_frame 60] by blast
qed

end
