(* ===== verification/Simple_Fwd_Ft.thy ===== *)
theory Simple_Fwd_Ft
  imports Simple_Fwd_Pkt "HOL-Library.Multiset"
begin

text \<open>
  Model of \<open>applications/simple_fwd_vnf/simple_fwd_ft.c\<close>: the flow table of the simple forward
  application, a hash table of linked lists with software aging.  A bucket is the list of its
  entries from the head on.  The address of an entry, the result of its \<open>calloc\<close>, is a field of
  the entry; an operation on an entry pointer acts on the entry with that address.  The clock
  (\<open>rte_rdtsc\<close>, \<open>rte_get_timer_hz\<close>), the results of \<open>calloc\<close>, of the lock attempts and of the
  SDK's counter query are inputs.  The calls of \<open>doca_flow_pipe_remove_entry\<close> that the aging
  callback makes are recorded in \<open>hw_removed\<close>.

  The locale \<open>keyed_store\<close> is the contract under which the packet handler uses the table: a finite
  map from keys to entries.
\<close>

section \<open>The data\<close>

record simple_fwd_ft_key =
  k_ipv4_1 :: u32
  k_ipv4_2 :: u32
  k_port_1 :: u16
  k_port_2 :: u16
  k_tun_id :: u32
  k_protocol :: u8
  k_tun_type :: doca_flow_tun_type
  k_port_id :: u16
  k_rss_hash :: u32

record simple_fwd_pipe_entry =
  pe_is_hw :: bool
  pe_total_pkts :: u64
  pe_total_bytes :: u64
  pe_pipe_queue :: u16
  pe_hw_entry :: "nat option"

record simple_fwd_ft_entry =
  e_addr :: nat
  e_key :: simple_fwd_ft_key
  e_expiration :: u64
  e_age_sec :: u32
  e_last_counter :: u64
  e_sw_ctr :: u64
  e_hw_off :: u8
  e_buckets_index :: u16
  e_fid :: u32
  e_pipe :: simple_fwd_pipe_entry

record simple_fwd_ft =
  cfg_size :: u32
  cfg_mask :: u32
  stats_add :: u64
  stats_rm :: u64
  fid_ctr :: u32
  buckets :: "simple_fwd_ft_entry list list"
  hw_removed :: "(u16 \<times> nat option) list"

record clock =
  tsc :: u64
  timer_hz :: u64

text \<open>What one call of the aging step observes: the time, whether the lock was taken, and the packet counters
  of the hardware entries (\<open>None\<close> for a failed query).\<close>

record aging_obs =
  ao_tsc :: u64
  ao_trylock :: bool
  ao_query :: "nat option \<Rightarrow> u64 option"

definition key0 :: simple_fwd_ft_key where
  "key0 = \<lparr>k_ipv4_1 = 0, k_ipv4_2 = 0, k_port_1 = 0, k_port_2 = 0, k_tun_id = 0, k_protocol = 0,
     k_tun_type = TUN_NONE, k_port_id = 0, k_rss_hash = 0\<rparr>"

definition pipe_entry0 :: simple_fwd_pipe_entry where
  "pipe_entry0 = \<lparr>pe_is_hw = False, pe_total_pkts = 0, pe_total_bytes = 0, pe_pipe_queue = 0, pe_hw_entry = None\<rparr>"

definition entry0 :: "nat \<Rightarrow> simple_fwd_ft_entry" where
  "entry0 p = \<lparr>e_addr = p, e_key = key0, e_expiration = 0, e_age_sec = 0, e_last_counter = 0, e_sw_ctr = 0,
     e_hw_off = 0, e_buckets_index = 0, e_fid = 0, e_pipe = pipe_entry0\<rparr>"

section \<open>The operations\<close>

definition simple_fwd_ft_update_age_sec :: "u32 \<Rightarrow> simple_fwd_ft_entry \<Rightarrow> simple_fwd_ft_entry" where
  "simple_fwd_ft_update_age_sec age_sec e = e\<lparr>e_age_sec := age_sec\<rparr>"

definition simple_fwd_ft_update_expiration :: "clock \<Rightarrow> simple_fwd_ft_entry \<Rightarrow> simple_fwd_ft_entry" where
  "simple_fwd_ft_update_expiration c e =
     (if e_age_sec e \<noteq> 0 then e\<lparr>e_expiration := tsc c + timer_hz c * ucast (e_age_sec e)\<rparr> else e)"

definition simple_fwd_ft_update_counter ::
  "(nat option \<Rightarrow> u64 option) \<Rightarrow> simple_fwd_ft_entry \<Rightarrow> bool \<times> simple_fwd_ft_entry" where
  "simple_fwd_ft_update_counter query e = (case query (pe_hw_entry (e_pipe e)) of
     Some total_pkts \<Rightarrow> (total_pkts - e_last_counter e \<noteq> 0, e\<lparr>e_last_counter := total_pkts\<rparr>)
   | None \<Rightarrow> (False, e))"

text \<open>A write through an entry pointer, and \<open>LIST_REMOVE\<close>.\<close>

definition entry_upd :: "nat \<Rightarrow> (simple_fwd_ft_entry \<Rightarrow> simple_fwd_ft_entry) \<Rightarrow> simple_fwd_ft \<Rightarrow> simple_fwd_ft" where
  "entry_upd p f ft = ft\<lparr>buckets := map (map (\<lambda>e. if e_addr e = p then f e else e)) (buckets ft)\<rparr>"

definition list_remove :: "nat \<Rightarrow> simple_fwd_ft \<Rightarrow> simple_fwd_ft" where
  "list_remove p ft = ft\<lparr>buckets := map (filter (\<lambda>e. e_addr e \<noteq> p)) (buckets ft)\<rparr>"

text \<open>\<open>simple_fwd_aged_flow_cb\<close> of \<open>simple_fwd.c\<close>, the callback the application installs.\<close>

definition simple_fwd_aged_flow_cb :: "simple_fwd_ft_entry \<Rightarrow> simple_fwd_ft \<Rightarrow> simple_fwd_ft" where
  "simple_fwd_aged_flow_cb e ft =
     (if pe_is_hw (e_pipe e)
      then ft\<lparr>hw_removed := hw_removed ft @ [(pe_pipe_queue (e_pipe e), pe_hw_entry (e_pipe e))]\<rparr> else ft)"

definition ft_destroy_entry :: "simple_fwd_ft_entry \<Rightarrow> simple_fwd_ft \<Rightarrow> simple_fwd_ft" where
  "ft_destroy_entry e ft =
     (let ft = simple_fwd_aged_flow_cb e (list_remove (e_addr e) ft) in ft\<lparr>stats_rm := stats_rm ft + 1\<rparr>)"

definition ft_entries :: "simple_fwd_ft \<Rightarrow> simple_fwd_ft_entry list" where
  "ft_entries ft = concat (buckets ft)"

definition entry_at :: "nat \<Rightarrow> simple_fwd_ft \<Rightarrow> simple_fwd_ft_entry option" where
  "entry_at p ft = find (\<lambda>e. e_addr e = p) (ft_entries ft)"

definition simple_fwd_ft_destroy_entry :: "nat \<Rightarrow> simple_fwd_ft \<Rightarrow> simple_fwd_ft option" where
  "simple_fwd_ft_destroy_entry p ft = do {
     e \<leftarrow> entry_at p ft;
     let idx = unat (e_buckets_index e);
     if idx < length (buckets ft) then Some (ft_destroy_entry e ft) else None }"

text \<open>The loop over a bucket in \<open>simple_fwd_ft_aging_ft_entry\<close>: the counters of the entries passed over are
  refreshed; it stops at the first entry to remove.\<close>

fun aging_scan ::
  "aging_obs \<Rightarrow> simple_fwd_ft_entry list \<Rightarrow> simple_fwd_ft_entry list \<times> simple_fwd_ft_entry option" where
  "aging_scan obs [] = ([], None)"
| "aging_scan obs (node # rest) =
     (if e_age_sec node \<noteq> 0 \<and> e_expiration node < ao_tsc obs then
        (case simple_fwd_ft_update_counter (ao_query obs) node of
           (False, node) \<Rightarrow> (node # rest, Some node)
         | (True, node) \<Rightarrow> (let (rest, r) = aging_scan obs rest in (node # rest, r)))
      else (let (rest, r) = aging_scan obs rest in (node # rest, r)))"

definition simple_fwd_ft_aging_ft_entry :: "aging_obs \<Rightarrow> nat \<Rightarrow> simple_fwd_ft \<Rightarrow> (bool \<times> simple_fwd_ft) option" where
  "simple_fwd_ft_aging_ft_entry obs i ft =
     (if length (buckets ft) \<le> i then None
      else if \<not> ao_trylock obs then Some (False, ft)
      else (let (bucket, r) = aging_scan obs (buckets ft ! i);
                ft = ft\<lparr>buckets := (buckets ft)[i := bucket]\<rparr> in
            case r of
              None \<Rightarrow> Some (False, ft)
            | Some node \<Rightarrow> Some (True, ft_destroy_entry node ft)))"

lemma aging_scan_found:
  "aging_scan obs es = (es', Some e) \<Longrightarrow> e \<in> set es' \<and> length es' = length es"
  by (induction es arbitrary: es')
     (auto split: if_splits prod.splits bool.splits simp: Let_def)

lemma length_filter_removed: "e \<in> set es \<Longrightarrow> length (filter (\<lambda>x. e_addr x \<noteq> e_addr e) es) < length es"
  by (rule length_filter_less) auto

lemma buckets_destroy [simp]:
  "buckets (ft_destroy_entry e ft) = map (filter (\<lambda>x. e_addr x \<noteq> e_addr e)) (buckets ft)"
  by (simp add: ft_destroy_entry_def simple_fwd_aged_flow_cb_def list_remove_def Let_def)

lemma aging_step_shrinks:
  assumes "simple_fwd_ft_aging_ft_entry obs i ft = Some (True, ft')"
  shows "length (buckets ft' ! i) < length (buckets ft ! i)"
proof -
  obtain bucket e where s: "aging_scan obs (buckets ft ! i) = (bucket, Some e)" and
    i: "i < length (buckets ft)" and ft': "ft' = ft_destroy_entry e (ft\<lparr>buckets := (buckets ft)[i := bucket]\<rparr>)"
    using assms by (auto simp: simple_fwd_ft_aging_ft_entry_def Let_def split: if_splits prod.splits option.splits)
  show ?thesis using aging_scan_found [OF s] length_filter_removed [of e bucket] i ft' by simp
qed

text \<open>The \<open>do ... while (next)\<close> loop of \<open>simple_fwd_ft_aging_main\<close> over one bucket; call \<open>k\<close> of the aging step
  observes \<open>obs k\<close>.  The result carries the number of the next call.\<close>

function aging_bucket :: "(nat \<Rightarrow> aging_obs) \<Rightarrow> nat \<Rightarrow> nat \<Rightarrow> simple_fwd_ft \<Rightarrow> (nat \<times> simple_fwd_ft) option" where
  "aging_bucket obs k i ft = do {
     (still_aging, ft') \<leftarrow> simple_fwd_ft_aging_ft_entry (obs k) i ft;
     if still_aging then aging_bucket obs (k + 1) i ft' else Some (k + 1, ft') }"
  by pat_completeness auto
termination
  by (relation "measure (\<lambda>(obs, k, i, ft). length (buckets ft ! i))") (auto simp: aging_step_shrinks)

declare aging_bucket.simps [simp del]

fun aging_buckets :: "(nat \<Rightarrow> aging_obs) \<Rightarrow> nat \<Rightarrow> nat list \<Rightarrow> simple_fwd_ft \<Rightarrow> (nat \<times> simple_fwd_ft) option" where
  "aging_buckets obs k [] ft = Some (k, ft)"
| "aging_buckets obs k (i # rest) ft = do {
     (k, ft) \<leftarrow> aging_bucket obs k i ft;
     aging_buckets obs k rest ft }"

text \<open>One iteration of the loop of \<open>simple_fwd_ft_aging_main\<close>.\<close>

definition simple_fwd_ft_aging_main :: "(nat \<Rightarrow> aging_obs) \<Rightarrow> nat \<Rightarrow> simple_fwd_ft \<Rightarrow> (nat \<times> simple_fwd_ft) option" where
  "simple_fwd_ft_aging_main obs k ft =
     (if (ucast (stats_add ft - stats_rm ft) :: u32) = 0 then Some (k, ft)
      else aging_buckets obs k [0..<unat (cfg_size ft)] ft)"

definition simple_fwd_ft_key_fill :: "bytes \<Rightarrow> simple_fwd_pkt_info \<Rightarrow> (int \<times> simple_fwd_ft_key) option" where
  "simple_fwd_ft_key_fill b pinfo =
     (let inner = (pi_tun_type pinfo \<noteq> TUN_NONE) in
      if f_l3_type (pi_outer pinfo) \<noteq> IPV4 then Some (- 1, key0)
      else do {
        src \<leftarrow> (if inner then simple_fwd_pinfo_inner_ipv4_src b pinfo else simple_fwd_pinfo_outer_ipv4_src b pinfo);
        dst \<leftarrow> (if inner then simple_fwd_pinfo_inner_ipv4_dst b pinfo else simple_fwd_pinfo_outer_ipv4_dst b pinfo);
        sport \<leftarrow> (if inner then simple_fwd_pinfo_inner_src_port b pinfo else simple_fwd_pinfo_outer_src_port b pinfo);
        dport \<leftarrow> (if inner then simple_fwd_pinfo_inner_dst_port b pinfo else simple_fwd_pinfo_outer_dst_port b pinfo);
        Some (0, \<lparr>k_ipv4_1 = src, k_ipv4_2 = dst, k_port_1 = sport, k_port_2 = dport,
          k_tun_id = (case pi_tun_type pinfo of
             TUN_VXLAN \<Rightarrow> t_vni (pi_tun pinfo) | TUN_GTPU \<Rightarrow> t_teid (pi_tun pinfo)
           | TUN_GRE \<Rightarrow> t_gre_key (pi_tun pinfo) | TUN_NONE \<Rightarrow> 0),
          k_protocol = (if inner then f_l4_type (pi_inner pinfo) else f_l4_type (pi_outer pinfo)),
          k_tun_type = pi_tun_type pinfo, k_port_id = pi_orig_port_id pinfo, k_rss_hash = pi_rss_hash pinfo\<rparr>) })"

text \<open>\<open>rte_is_power_of_2\<close> and \<open>rte_align32pow2\<close> are DPDK's; \<open>mem\<close> and \<open>thread\<close> tell whether \<open>calloc\<close> and the
  start of the aging thread succeed.\<close>

definition simple_fwd_ft_create ::
  "(u32 \<Rightarrow> bool) \<Rightarrow> (u32 \<Rightarrow> u32) \<Rightarrow> int \<Rightarrow> bool \<Rightarrow> bool \<Rightarrow> bool \<Rightarrow> simple_fwd_ft option" where
  "simple_fwd_ft_create is_power_of_2 align32pow2 nb_flows mem age_thread thread =
     (if nb_flows \<le> 0 then None
      else
        let n = word_of_int nb_flows :: u32;
            nb_flows_aligned = push_bit 1 (if is_power_of_2 n then n else align32pow2 n) in
        if \<not> mem then None
        else if age_thread \<and> \<not> thread then None
        else Some \<lparr>cfg_size = nb_flows_aligned, cfg_mask = nb_flows_aligned - 1, stats_add = 0, stats_rm = 0,
               fid_ctr = 0, buckets = replicate (unat nb_flows_aligned) [], hw_removed = []\<rparr>)"

definition ft_index :: "simple_fwd_ft \<Rightarrow> u32 \<Rightarrow> nat" where
  "ft_index ft rss_hash = unat (rss_hash AND cfg_mask ft)"

text \<open>\<open>_simple_fwd_ft_find\<close>: the address of the entry found, and the table with its expiration refreshed.\<close>

definition ft_find ::
  "clock \<Rightarrow> simple_fwd_ft_key \<Rightarrow> simple_fwd_ft \<Rightarrow> (nat option \<times> simple_fwd_ft) option" where
  "ft_find c key ft =
     (let idx = ft_index ft (k_rss_hash key) in
      if length (buckets ft) \<le> idx then None
      else (case find (\<lambda>e. e_key e = key) (buckets ft ! idx) of
          None \<Rightarrow> Some (None, ft)
        | Some e \<Rightarrow> Some (Some (e_addr e), entry_upd (e_addr e) (simple_fwd_ft_update_expiration c) ft)))"

definition simple_fwd_ft_find ::
  "bytes \<Rightarrow> clock \<Rightarrow> simple_fwd_pkt_info \<Rightarrow> simple_fwd_ft \<Rightarrow> (doca_error_t \<times> nat option \<times> simple_fwd_ft) option" where
  "simple_fwd_ft_find b c pinfo ft = do {
     (ret, key) \<leftarrow> simple_fwd_ft_key_fill b pinfo;
     if ret \<noteq> 0 then Some (DOCA_ERROR_UNEXPECTED, None, ft)
     else do {
       (fe, ft) \<leftarrow> ft_find c key ft;
       (case fe of
          None \<Rightarrow> Some (DOCA_ERROR_NOT_FOUND, None, ft)
        | Some p \<Rightarrow> Some (DOCA_SUCCESS, Some p, ft)) } }"

text \<open>\<open>LIST_INSERT_HEAD\<close> into the bucket of the entry.\<close>

definition ft_insert :: "simple_fwd_ft_entry \<Rightarrow> nat \<Rightarrow> simple_fwd_ft \<Rightarrow> simple_fwd_ft" where
  "ft_insert e idx ft = ft\<lparr>buckets := (buckets ft)[idx := e # buckets ft ! idx], stats_add := stats_add ft + 1\<rparr>"

text \<open>\<open>alloc\<close> is the result of \<open>calloc\<close>, \<open>ft = None\<close> the NULL table, for which \<open>false\<close> is returned: the
  number of \<open>DOCA_SUCCESS\<close>.\<close>

definition simple_fwd_ft_add_new ::
  "nat option \<Rightarrow> bytes \<Rightarrow> clock \<Rightarrow> simple_fwd_pkt_info \<Rightarrow> simple_fwd_ft option \<Rightarrow>
   (doca_error_t \<times> nat option \<times> simple_fwd_ft option) option" where
  "simple_fwd_ft_add_new alloc b c pinfo ft_ptr = (case ft_ptr of
     None \<Rightarrow> Some (DOCA_SUCCESS, None, None)
   | Some ft \<Rightarrow> do {
       (ret, key) \<leftarrow> simple_fwd_ft_key_fill b pinfo;
       if ret \<noteq> 0 then Some (DOCA_ERROR_UNEXPECTED, None, Some ft)
       else (case alloc of
           None \<Rightarrow> Some (DOCA_ERROR_NO_MEMORY, None, Some ft)
         | Some p \<Rightarrow>
             let idx = ft_index ft (pi_rss_hash pinfo);
                 new_e = (simple_fwd_ft_update_expiration c (entry0 p))
                   \<lparr>e_fid := fid_ctr ft, e_key := key, e_buckets_index := of_nat idx\<rparr> in
             if idx < length (buckets ft)
             then Some (DOCA_SUCCESS, Some p, Some (ft_insert new_e idx (ft\<lparr>fid_ctr := fid_ctr ft + 1\<rparr>)))
             else None) })"

fun destroy_all :: "simple_fwd_ft_entry list \<Rightarrow> simple_fwd_ft \<Rightarrow> simple_fwd_ft" where
  "destroy_all [] ft = ft"
| "destroy_all (e # es) ft = destroy_all es (ft_destroy_entry e ft)"

text \<open>The table as it is when it is freed.\<close>

definition simple_fwd_ft_destroy :: "simple_fwd_ft option \<Rightarrow> doca_error_t \<times> simple_fwd_ft option" where
  "simple_fwd_ft_destroy ft_ptr = (case ft_ptr of
     None \<Rightarrow> (DOCA_ERROR_INVALID_VALUE, None)
   | Some ft \<Rightarrow> (DOCA_SUCCESS, Some (destroy_all (ft_entries ft) ft)))"

section \<open>Well-formed tables\<close>

definition ft_lookup :: "simple_fwd_ft \<Rightarrow> simple_fwd_ft_key \<Rightarrow> simple_fwd_ft_entry option" where
  "ft_lookup ft key = find (\<lambda>e. e_key e = key) (ft_entries ft)"

text \<open>The number of buckets is at most \<open>2 ^ 16\<close>, the range of \<open>buckets_index\<close>; an entry is in the bucket of its
  hash; addresses and keys are unique; the counters agree with the number of entries.\<close>

definition entry_placed :: "simple_fwd_ft \<Rightarrow> nat \<Rightarrow> simple_fwd_ft_entry \<Rightarrow> bool" where
  "entry_placed ft i e \<longleftrightarrow> ft_index ft (k_rss_hash (e_key e)) = i \<and> unat (e_buckets_index e) = i"

definition ft_wf :: "simple_fwd_ft \<Rightarrow> bool" where
  "ft_wf ft \<longleftrightarrow>
     unat (cfg_mask ft) + 1 = unat (cfg_size ft) \<and> unat (cfg_size ft) \<le> 2 ^ 16 \<and>
     length (buckets ft) = unat (cfg_size ft) \<and>
     (\<forall>i < length (buckets ft). \<forall>e \<in> set (buckets ft ! i). entry_placed ft i e) \<and>
     distinct (map e_addr (ft_entries ft)) \<and> distinct (map e_key (ft_entries ft)) \<and>
     stats_add ft - stats_rm ft = of_nat (length (ft_entries ft))"

lemma find_unique:
  assumes "distinct (map f xs)"
  shows "find (\<lambda>e. f e = k) xs = Some e \<longleftrightarrow> e \<in> set xs \<and> f e = k"
  using assms by (induction xs) auto

lemma ft_index_less: "ft_wf ft \<Longrightarrow> ft_index ft h < length (buckets ft)"
  using word8_and_le [of h "cfg_mask ft"] by (simp add: ft_wf_def ft_index_def)

lemma in_ft_entries: "e \<in> set (ft_entries ft) \<longleftrightarrow> (\<exists>i < length (buckets ft). e \<in> set (buckets ft ! i))"
  by (simp add: ft_entries_def) (metis in_set_conv_nth)

lemma ft_lookup_Some:
  "ft_wf ft \<Longrightarrow> ft_lookup ft key = Some e \<longleftrightarrow> e \<in> set (ft_entries ft) \<and> e_key e = key"
  by (simp add: ft_lookup_def find_unique ft_wf_def)

lemma entry_at_Some:
  "ft_wf ft \<Longrightarrow> entry_at p ft = Some e \<longleftrightarrow> e \<in> set (ft_entries ft) \<and> e_addr e = p"
  by (simp add: entry_at_def find_unique ft_wf_def)

text \<open>The bucket that the hash selects holds the entry, if any bucket does.\<close>

lemma find_bucket:
  assumes "ft_wf ft"
  shows "find (\<lambda>e. e_key e = key) (buckets ft ! ft_index ft (k_rss_hash key)) = ft_lookup ft key"
proof -
  let ?i = "ft_index ft (k_rss_hash key)"
  have i: "?i < length (buckets ft)" using ft_index_less [OF assms] .
  have "distinct (map e_key (concat (buckets ft)))" using assms by (simp add: ft_wf_def ft_entries_def)
  then have d: "distinct (map e_key (buckets ft ! ?i))"
    using i by (auto simp: map_concat distinct_concat_iff)
  have "find (\<lambda>e. e_key e = key) (buckets ft ! ?i) = Some e \<longleftrightarrow> ft_lookup ft key = Some e" for e
  proof -
    have "e \<in> set (buckets ft ! ?i) \<longleftrightarrow> e \<in> set (ft_entries ft)" if "e_key e = key"
      using assms i that by (auto simp: in_ft_entries ft_wf_def entry_placed_def)
    then show ?thesis using find_unique [OF d, of key e] ft_lookup_Some [OF assms, of key e] by blast
  qed
  then show ?thesis by (metis option.exhaust)
qed

section \<open>Insertion and removal\<close>

lemma mset_concat_upd:
  "i < length xss \<Longrightarrow> mset (concat (xss[i := e # xss ! i])) = add_mset e (mset (concat xss))"
proof (induction xss arbitrary: i)
  case (Cons xs xss)
  then show ?case by (cases i) auto
qed simp

lemma entries_insert:
  "idx < length (buckets ft) \<Longrightarrow> mset (ft_entries (ft_insert e idx ft)) = add_mset e (mset (ft_entries ft))"
  by (simp add: ft_entries_def ft_insert_def mset_concat_upd)

lemma distinct_add_mset:
  assumes "mset ys = add_mset e (mset xs)"
  shows "distinct (map f ys) \<longleftrightarrow> f e \<notin> f ` set xs \<and> distinct (map f xs)"
proof -
  have "mset (map f ys) = mset (map f (e # xs))" using assms by simp
  then have "distinct (map f ys) \<longleftrightarrow> distinct (map f (e # xs))" by (rule mset_eq_imp_distinct_iff)
  then show ?thesis by simp
qed

lemma entries_destroy:
  "ft_entries (ft_destroy_entry e ft) = filter (\<lambda>x. e_addr x \<noteq> e_addr e) (ft_entries ft)"
  by (simp add: ft_entries_def filter_concat)

lemma ft_destroy_fields [simp]:
  "cfg_size (ft_destroy_entry e ft) = cfg_size ft" "cfg_mask (ft_destroy_entry e ft) = cfg_mask ft"
  "stats_add (ft_destroy_entry e ft) = stats_add ft" "stats_rm (ft_destroy_entry e ft) = stats_rm ft + 1"
  "fid_ctr (ft_destroy_entry e ft) = fid_ctr ft"
  by (simp_all add: ft_destroy_entry_def simple_fwd_aged_flow_cb_def list_remove_def Let_def)

lemma length_filter_unique:
  assumes "distinct (map f xs)" "e \<in> set xs"
  shows "length xs = Suc (length (filter (\<lambda>x. f x \<noteq> f e) xs))"
  using assms
proof (induction xs)
  case (Cons x xs)
  show ?case
  proof (cases "x = e")
    case True
    have "f y \<noteq> f e" if "y \<in> set xs" for y
      using imageI [OF that, of f] Cons.prems(1) True by auto
    then have "filter (\<lambda>y. f y \<noteq> f e) xs = xs" by simp
    then show ?thesis using True by simp
  next
    case False
    then show ?thesis using Cons by auto
  qed
qed simp

definition fresh_entry :: "simple_fwd_ft_entry \<Rightarrow> simple_fwd_ft \<Rightarrow> bool" where
  "fresh_entry e ft \<longleftrightarrow> e_addr e \<notin> e_addr ` set (ft_entries ft) \<and>
     e_buckets_index e = of_nat (ft_index ft (k_rss_hash (e_key e)))"

definition ft_add :: "simple_fwd_ft_entry \<Rightarrow> simple_fwd_ft \<Rightarrow> simple_fwd_ft" where
  "ft_add e ft = ft_insert e (ft_index ft (k_rss_hash (e_key e))) ft"

lemma ft_lookup_None: "ft_lookup ft key = None \<longleftrightarrow> key \<notin> e_key ` set (ft_entries ft)"
  by (auto simp: ft_lookup_def find_None_iff)

lemma ft_add_wf:
  assumes "ft_wf ft" "fresh_entry e ft" "ft_lookup ft (e_key e) = None"
  shows "ft_wf (ft_add e ft)"
proof -
  let ?i = "ft_index ft (k_rss_hash (e_key e))" and ?ft = "ft_add e ft"
  have i: "?i < length (buckets ft)" using ft_index_less [OF assms(1)] .
  have m: "mset (ft_entries ?ft) = add_mset e (mset (ft_entries ft))" using i by (simp add: ft_add_def entries_insert)
  have len: "length (ft_entries ?ft) = Suc (length (ft_entries ft))" using m by (metis size_add_mset size_mset)
  have "?i < 2 ^ 16" using i assms(1) by (simp add: ft_wf_def)
  then have idx: "unat (e_buckets_index e) = ?i" using assms(2) by (simp add: fresh_entry_def unsigned_of_nat take_bit_eq_mod)
  have "\<forall>j < length (buckets ?ft). \<forall>x \<in> set (buckets ?ft ! j). entry_placed ?ft j x"
    using assms(1) idx i [unfolded ft_index_def]
    by (auto simp: ft_wf_def ft_add_def ft_insert_def entry_placed_def ft_index_def nth_list_update split: if_splits)
  moreover have "stats_add ?ft - stats_rm ?ft = of_nat (length (ft_entries ?ft))"
    using assms(1) len by (simp add: ft_wf_def ft_add_def ft_insert_def algebra_simps)
  moreover have "distinct (map e_addr (ft_entries ?ft))" "distinct (map e_key (ft_entries ?ft))"
    using assms unfolding distinct_add_mset [OF m] by (simp_all add: ft_wf_def fresh_entry_def ft_lookup_None)
  ultimately show ?thesis
    using assms(1) by (simp add: ft_wf_def ft_add_def ft_insert_def fresh_entry_def ft_lookup_None)
qed

lemma ft_add_lookup:
  assumes "ft_wf ft" "fresh_entry e ft" "ft_lookup ft (e_key e) = None"
  shows "ft_lookup (ft_add e ft) = (ft_lookup ft)(e_key e \<mapsto> e)"
proof (rule ext)
  fix k
  have i: "ft_index ft (k_rss_hash (e_key e)) < length (buckets ft)" using ft_index_less [OF assms(1)] .
  have m: "set (ft_entries (ft_add e ft)) = insert e (set (ft_entries ft))"
    using entries_insert [OF i] by (metis ft_add_def set_mset_add_mset_insert set_mset_mset)
  have new: "e_key x \<noteq> e_key e" if "x \<in> set (ft_entries ft)" for x
    using imageI [OF that, of e_key] assms(3) by (auto simp: ft_lookup_None)
  have "ft_lookup (ft_add e ft) k = Some x \<longleftrightarrow> ((ft_lookup ft)(e_key e \<mapsto> e)) k = Some x" for x
    using m new by (auto simp: ft_lookup_Some ft_add_wf [OF assms] assms(1))
  then show "ft_lookup (ft_add e ft) k = ((ft_lookup ft)(e_key e \<mapsto> e)) k" by (metis option.exhaust)
qed

lemma ft_destroy_wf:
  assumes "ft_wf ft" "e \<in> set (ft_entries ft)"
  shows "ft_wf (ft_destroy_entry e ft)"
proof -
  have d: "distinct (map e_addr (ft_entries ft))" using assms(1) by (simp add: ft_wf_def)
  have "stats_add ft - (stats_rm ft + 1) = of_nat (length (filter (\<lambda>x. e_addr x \<noteq> e_addr e) (ft_entries ft)))"
    using assms(1) length_filter_unique [OF d assms(2)] by (simp add: ft_wf_def algebra_simps)
  then show ?thesis
    using assms(1) by (auto simp: ft_wf_def entries_destroy distinct_map_filter entry_placed_def ft_index_def)
qed

lemma ft_destroy_lookup:
  assumes "ft_wf ft" "e \<in> set (ft_entries ft)"
  shows "ft_lookup (ft_destroy_entry e ft) = (ft_lookup ft)(e_key e := None)"
proof (rule ext)
  fix k
  have inj: "inj_on e_addr (set (ft_entries ft))" "inj_on e_key (set (ft_entries ft))"
    using assms(1) by (simp_all add: ft_wf_def distinct_map)
  have "ft_lookup (ft_destroy_entry e ft) k = Some x \<longleftrightarrow> ((ft_lookup ft)(e_key e := None)) k = Some x" for x
    using assms(2) inj
    by (auto simp: ft_lookup_Some ft_destroy_wf [OF assms] assms(1) entries_destroy dest: inj_onD)
  then show "ft_lookup (ft_destroy_entry e ft) k = ((ft_lookup ft)(e_key e := None)) k" by (metis option.exhaust)
qed

section \<open>The contract of the table\<close>

locale keyed_store =
  fixes inv :: "'t \<Rightarrow> bool" and lookup :: "'t \<Rightarrow> 'k \<Rightarrow> 'e option" and keyof :: "'e \<Rightarrow> 'k"
    and fresh :: "'e \<Rightarrow> 't \<Rightarrow> bool" and ins :: "'e \<Rightarrow> 't \<Rightarrow> 't" and del :: "'e \<Rightarrow> 't \<Rightarrow> 't"
  assumes lookup_keyof: "inv t \<Longrightarrow> lookup t k = Some e \<Longrightarrow> keyof e = k"
    and inv_ins: "inv t \<Longrightarrow> fresh e t \<Longrightarrow> lookup t (keyof e) = None \<Longrightarrow> inv (ins e t)"
    and lookup_ins: "inv t \<Longrightarrow> fresh e t \<Longrightarrow> lookup t (keyof e) = None \<Longrightarrow>
           lookup (ins e t) = (lookup t)(keyof e \<mapsto> e)"
    and inv_del: "inv t \<Longrightarrow> lookup t (keyof e) = Some e \<Longrightarrow> inv (del e t)"
    and lookup_del: "inv t \<Longrightarrow> lookup t (keyof e) = Some e \<Longrightarrow> lookup (del e t) = (lookup t)(keyof e := None)"
begin

text \<open>Undoing an insertion restores the map.\<close>

lemma ins_del:
  assumes "inv t" "fresh e t" "lookup t (keyof e) = None"
  shows "inv (del e (ins e t)) \<and> lookup (del e (ins e t)) = lookup t"
proof -
  have i: "inv (ins e t)" and l: "lookup (ins e t) (keyof e) = Some e"
    using inv_ins [OF assms] lookup_ins [OF assms] by simp_all
  have "lookup (del e (ins e t)) = (lookup t)(keyof e := None)"
    using lookup_del [OF i l] lookup_ins [OF assms] by simp
  also have "\<dots> = lookup t" using assms(3) by auto
  finally show ?thesis using inv_del [OF i l] by blast
qed

lemma del_other: "inv t \<Longrightarrow> lookup t (keyof e) = Some e \<Longrightarrow> k \<noteq> keyof e \<Longrightarrow> lookup (del e t) k = lookup t k"
  by (simp add: lookup_del)

end

interpretation fts: keyed_store ft_wf ft_lookup e_key fresh_entry ft_add ft_destroy_entry
  by unfold_locales
     (simp_all add: ft_lookup_Some ft_add_wf ft_add_lookup ft_destroy_wf ft_destroy_lookup)

end
