(* ===== verification/Simple_Fwd_Aging.thy ===== *)
theory Simple_Fwd_Aging
  imports Simple_Fwd_Ft
begin

text \<open>
  Correctness of the flow table of the simple forward application (theory of
  \<open>simple_fwd_ft.c\<close>): lookup, insertion and removal as operations of a map from keys to entries,
  and the aging thread.  The aging results are exact: \<open>survivors\<close> says which entries of a bucket
  are left when the thread has finished with it.
\<close>

section \<open>Updates that keep the place of an entry\<close>

definition keeps_place :: "(simple_fwd_ft_entry \<Rightarrow> simple_fwd_ft_entry) \<Rightarrow> bool" where
  "keeps_place f \<longleftrightarrow> (\<forall>e. e_addr (f e) = e_addr e \<and> e_key (f e) = e_key e \<and>
     e_buckets_index (f e) = e_buckets_index e)"

lemma keeps_place_expiration [simp]: "keeps_place (simple_fwd_ft_update_expiration c)"
  by (simp add: keeps_place_def simple_fwd_ft_update_expiration_def)

lemma entries_upd: "ft_entries (entry_upd p f ft) = map (\<lambda>e. if e_addr e = p then f e else e) (ft_entries ft)"
  by (simp add: ft_entries_def entry_upd_def map_concat)

lemma entry_upd_fields [simp]:
  "cfg_size (entry_upd p f ft) = cfg_size ft" "cfg_mask (entry_upd p f ft) = cfg_mask ft"
  "stats_add (entry_upd p f ft) = stats_add ft" "stats_rm (entry_upd p f ft) = stats_rm ft"
  "fid_ctr (entry_upd p f ft) = fid_ctr ft" "hw_removed (entry_upd p f ft) = hw_removed ft"
  "length (buckets (entry_upd p f ft)) = length (buckets ft)"
  by (simp_all add: entry_upd_def)

lemma entry_upd_wf:
  assumes "ft_wf ft" "keeps_place f"
  shows "ft_wf (entry_upd p f ft)"
proof -
  let ?g = "\<lambda>e. if e_addr e = p then f e else e"
  have c: "e_addr \<circ> ?g = e_addr" "e_key \<circ> ?g = e_key"
    using assms(2) by (auto simp: keeps_place_def fun_eq_iff)
  show ?thesis
    using assms unfolding ft_wf_def entries_upd
    by (auto simp: c entry_placed_def ft_index_def entry_upd_def keeps_place_def)
qed

lemma entry_upd_lookup:
  assumes "keeps_place f"
  shows "ft_lookup (entry_upd p f ft) k = map_option (\<lambda>e. if e_addr e = p then f e else e) (ft_lookup ft k)"
proof -
  have "find (\<lambda>e. e_key e = k) (map (\<lambda>e. if e_addr e = p then f e else e) es) =
      map_option (\<lambda>e. if e_addr e = p then f e else e) (find (\<lambda>e. e_key e = k) es)" for es
    using assms by (induction es) (auto simp: keeps_place_def)
  then show ?thesis by (simp add: ft_lookup_def entries_upd)
qed

section \<open>The table operations\<close>

lemma ft_find_lookup:
  assumes "ft_wf ft"
  shows "ft_find c key ft = Some (case ft_lookup ft key of
      None \<Rightarrow> (None, ft)
    | Some e \<Rightarrow> (Some (e_addr e), entry_upd (e_addr e) (simple_fwd_ft_update_expiration c) ft))"
  using ft_index_less [OF assms, of "k_rss_hash key"] find_bucket [OF assms, of key]
  by (auto simp: ft_find_def Let_def not_le split: option.splits)

text \<open>Every key of a parsed packet can be built inside the packet.\<close>

lemma format_reads:
  assumes "format_ok b fmt"
  shows "\<exists>l3 s t. f_l3 fmt = Some l3 \<and> rd32be b (l3 + 12) = Some s \<and> rd32be b (l3 + 16) = Some t"
    and "\<exists>x. simple_fwd_pinfo_src_port b fmt = Some x" and "\<exists>x. simple_fwd_pinfo_dst_port b fmt = Some x"
  using assms
  by (auto simp: format_ok_def rd_simps simple_fwd_pinfo_src_port_def simple_fwd_pinfo_dst_port_def)

lemma key_fill_returns:
  assumes "pinfo_ok b pinfo"
  shows "\<exists>key. simple_fwd_ft_key_fill b pinfo = Some (0, key) \<and> k_rss_hash key = pi_rss_hash pinfo \<and>
           k_tun_type key = pi_tun_type pinfo"
proof -
  have o: "format_ok b (pi_outer pinfo)" using assms by (simp add: pinfo_ok_def)
  have l3: "f_l3_type (pi_outer pinfo) = IPV4" using o by (simp add: format_ok_def)
  show ?thesis
  proof (cases "pi_tun_type pinfo = TUN_NONE")
    case True
    then show ?thesis
      using format_reads [OF o] l3
      by (auto simp: simple_fwd_ft_key_fill_def simple_fwd_pinfo_outer_ipv4_src_def
          simple_fwd_pinfo_outer_ipv4_dst_def simple_fwd_pinfo_outer_src_port_def simple_fwd_pinfo_outer_dst_port_def)
  next
    case False
    then have "format_ok b (pi_inner pinfo)" using assms by (simp add: pinfo_ok_def)
    from format_reads [OF this] show ?thesis
      using False l3
      by (auto simp: simple_fwd_ft_key_fill_def simple_fwd_pinfo_inner_ipv4_src_def
          simple_fwd_pinfo_inner_ipv4_dst_def simple_fwd_pinfo_inner_src_port_def simple_fwd_pinfo_inner_dst_port_def)
  qed
qed

lemma key_fill_hash: "simple_fwd_ft_key_fill b pinfo = Some (0, key) \<Longrightarrow> k_rss_hash key = pi_rss_hash pinfo"
  by (auto simp: simple_fwd_ft_key_fill_def Let_def Some_bind_iff split: if_splits)

text \<open>The entry that \<open>simple_fwd_ft_add_new\<close> creates.\<close>

definition new_entry :: "simple_fwd_ft \<Rightarrow> nat \<Rightarrow> simple_fwd_ft_key \<Rightarrow> simple_fwd_ft_entry" where
  "new_entry ft p key = (entry0 p)\<lparr>e_fid := fid_ctr ft, e_key := key,
     e_buckets_index := of_nat (ft_index ft (k_rss_hash key))\<rparr>"

lemma new_entry_fields [simp]:
  "e_addr (new_entry ft p key) = p" "e_key (new_entry ft p key) = key" "e_age_sec (new_entry ft p key) = 0"
  "e_pipe (new_entry ft p key) = pipe_entry0"
  by (simp_all add: new_entry_def entry0_def)

definition next_fid :: "simple_fwd_ft \<Rightarrow> simple_fwd_ft" where
  "next_fid ft = ft\<lparr>fid_ctr := fid_ctr ft + 1\<rparr>"

lemma next_fid_same [simp]:
  "ft_wf (next_fid ft) = ft_wf ft" "ft_lookup (next_fid ft) = ft_lookup ft" "ft_entries (next_fid ft) = ft_entries ft"
  "ft_index (next_fid ft) = ft_index ft" "hw_removed (next_fid ft) = hw_removed ft"
  by (simp_all add: next_fid_def ft_wf_def ft_lookup_def [abs_def] ft_entries_def entry_placed_def ft_index_def [abs_def])

lemma add_new_value:
  assumes "ft_wf ft" "simple_fwd_ft_key_fill b pinfo = Some (0, key)"
  shows "simple_fwd_ft_add_new (Some p) b c pinfo (Some ft) =
           Some (DOCA_SUCCESS, Some p, Some (ft_add (new_entry ft p key) (next_fid ft)))"
proof -
  have h: "pi_rss_hash pinfo = k_rss_hash key" using key_fill_hash [OF assms(2)] by simp
  show ?thesis
    using assms ft_index_less [OF assms(1), of "k_rss_hash key"]
    by (simp add: simple_fwd_ft_add_new_def h Let_def ft_add_def new_entry_def next_fid_def ft_index_def
        simple_fwd_ft_update_expiration_def entry0_def)
qed

lemma new_entry_fresh:
  "p \<notin> e_addr ` set (ft_entries ft) \<Longrightarrow> fresh_entry (new_entry ft p key) (next_fid ft)"
  by (simp add: fresh_entry_def) (simp add: new_entry_def)

lemma destroy_entry_value:
  assumes "ft_wf ft" "e \<in> set (ft_entries ft)"
  shows "simple_fwd_ft_destroy_entry (e_addr e) ft = Some (ft_destroy_entry e ft)"
proof -
  have "entry_at (e_addr e) ft = Some e" using assms by (simp add: entry_at_Some)
  moreover have "unat (e_buckets_index e) < length (buckets ft)"
    using assms by (auto simp: in_ft_entries ft_wf_def entry_placed_def)
  ultimately show ?thesis by (simp add: simple_fwd_ft_destroy_entry_def)
qed

section \<open>One aging step\<close>

definition expired :: "aging_obs \<Rightarrow> simple_fwd_ft_entry \<Rightarrow> bool" where
  "expired obs e \<longleftrightarrow> e_age_sec e \<noteq> 0 \<and> e_expiration e < ao_tsc obs"

definition idle :: "aging_obs \<Rightarrow> simple_fwd_ft_entry \<Rightarrow> bool" where
  "idle obs e \<longleftrightarrow> \<not> fst (simple_fwd_ft_update_counter (ao_query obs) e)"

definition refreshed :: "aging_obs \<Rightarrow> simple_fwd_ft_entry \<Rightarrow> simple_fwd_ft_entry" where
  "refreshed obs e = (if expired obs e then snd (simple_fwd_ft_update_counter (ao_query obs) e) else e)"

lemma refreshed_place [simp]:
  "e_addr (refreshed obs e) = e_addr e" "e_key (refreshed obs e) = e_key e"
  "e_buckets_index (refreshed obs e) = e_buckets_index e" "expired obs' (refreshed obs e) = expired obs' e"
  by (simp_all add: refreshed_def simple_fwd_ft_update_counter_def expired_def split: option.splits)

lemma refreshed_idle: "expired obs e \<Longrightarrow> idle obs (refreshed obs e)"
  by (auto simp: refreshed_def idle_def simple_fwd_ft_update_counter_def split: option.splits)

lemma aging_scan_Cons:
  "aging_scan obs (e # es) =
     (if expired obs e \<and> idle obs e then (refreshed obs e # es, Some (refreshed obs e))
      else (let (rest, r) = aging_scan obs es in (refreshed obs e # rest, r)))"
  by (auto simp: expired_def idle_def refreshed_def split: prod.splits bool.splits)

lemma refreshed_id: "\<not> expired obs e \<Longrightarrow> refreshed obs e = e"
  by (simp add: refreshed_def)

text \<open>The scan refreshes a prefix of the bucket without removing anything from it, and stops at the first
  entry that is expired and idle.\<close>

lemma aging_scan_split:
  "aging_scan obs es =
     (let keep = takeWhile (\<lambda>e. \<not> (expired obs e \<and> idle obs e)) es;
          rest = dropWhile (\<lambda>e. \<not> (expired obs e \<and> idle obs e)) es in
      case rest of
        [] \<Rightarrow> (map (refreshed obs) keep, None)
      | e # es \<Rightarrow> (map (refreshed obs) keep @ refreshed obs e # es, Some (refreshed obs e)))"
  by (induction es) (auto simp: aging_scan_Cons Let_def simp del: aging_scan.simps(2) dropWhile_eq_Nil_conv split: list.splits)

lemma map_concat_upd:
  "i < length xss \<Longrightarrow> map f ys = map f (xss ! i) \<Longrightarrow> map f (concat (xss[i := ys])) = map f (concat xss)"
proof (induction xss arbitrary: i)
  case (Cons xs xss)
  then show ?case by (cases i) auto
qed simp

lemma bucket_replace_wf:
  assumes "ft_wf ft" "i < length (buckets ft)" "map e_addr es = map e_addr (buckets ft ! i)"
    and "map e_key es = map e_key (buckets ft ! i)"
    and "map e_buckets_index es = map e_buckets_index (buckets ft ! i)"
  shows "ft_wf (ft\<lparr>buckets := (buckets ft)[i := es]\<rparr>)"
proof -
  let ?ft = "ft\<lparr>buckets := (buckets ft)[i := es]\<rparr>"
  have e: "map e_addr (ft_entries ?ft) = map e_addr (ft_entries ft)" "map e_key (ft_entries ?ft) = map e_key (ft_entries ft)"
    using map_concat_upd [OF assms(2)] assms(3,4) by (auto simp: ft_entries_def)
  have l: "length (ft_entries ?ft) = length (ft_entries ft)" using e(1) by (metis length_map)
  have "entry_placed ?ft j x" if j: "j < length (buckets ?ft)" and x: "x \<in> set (buckets ?ft ! j)" for j x
  proof (cases "j = i")
    case True
    then obtain n where n: "n < length es" "x = es ! n" using x assms(2) by (auto simp: in_set_conv_nth)
    have len: "length es = length (buckets ft ! i)" using assms(3) by (metis length_map)
    have "e_key x = e_key (buckets ft ! i ! n)" "e_buckets_index x = e_buckets_index (buckets ft ! i ! n)"
      using n len assms(4,5) by (metis nth_map)+
    moreover have "entry_placed ft i (buckets ft ! i ! n)" using assms(1,2) n len by (simp add: ft_wf_def)
    ultimately show ?thesis using True by (simp add: entry_placed_def ft_index_def)
  next
    case False
    then show ?thesis using j x assms(1) by (simp add: ft_wf_def entry_placed_def ft_index_def)
  qed
  then show ?thesis using assms(1) e l by (simp add: ft_wf_def)
qed

text \<open>The step as a function of the bucket it works on.\<close>

definition scanned :: "aging_obs \<Rightarrow> nat \<Rightarrow> simple_fwd_ft \<Rightarrow> simple_fwd_ft" where
  "scanned obs i ft = ft\<lparr>buckets := (buckets ft)[i := fst (aging_scan obs (buckets ft ! i))]\<rparr>"

lemma scan_places:
  "map e_addr (fst (aging_scan obs es)) = map e_addr es" "map e_key (fst (aging_scan obs es)) = map e_key es"
  "map e_buckets_index (fst (aging_scan obs es)) = map e_buckets_index es"
  by (induction es; force simp: simple_fwd_ft_update_counter_def Let_def split: option.splits prod.splits bool.splits)+

lemma scanned_wf: "ft_wf ft \<Longrightarrow> i < length (buckets ft) \<Longrightarrow> ft_wf (scanned obs i ft)"
  unfolding scanned_def by (rule bucket_replace_wf) (simp_all add: scan_places)

lemma aging_step_cases:
  assumes "ft_wf ft" "i < length (buckets ft)"
  shows "simple_fwd_ft_aging_ft_entry obs i ft =
    (if \<not> ao_trylock obs then Some (False, ft)
     else case snd (aging_scan obs (buckets ft ! i)) of
       None \<Rightarrow> Some (False, scanned obs i ft)
     | Some e \<Rightarrow> Some (True, ft_destroy_entry e (scanned obs i ft)))"
  using assms(2)
  by (cases "aging_scan obs (buckets ft ! i)")
     (auto simp: simple_fwd_ft_aging_ft_entry_def scanned_def Let_def split: option.splits)

lemma scan_found_in:
  assumes "i < length (buckets ft)" "snd (aging_scan obs (buckets ft ! i)) = Some e"
  shows "e \<in> set (ft_entries (scanned obs i ft))" "expired obs e"
proof -
  obtain es where s: "aging_scan obs (buckets ft ! i) = (es, Some e)" using assms(2) by (metis prod.collapse)
  have "e \<in> set (buckets (scanned obs i ft) ! i)"
    using assms(1) aging_scan_found [OF s] by (simp add: scanned_def s)
  then show "e \<in> set (ft_entries (scanned obs i ft))" using assms(1) by (auto simp: in_ft_entries scanned_def)
  show "expired obs e"
    using s unfolding aging_scan_split
    by (auto simp: Let_def dropWhile_eq_Cons_conv split: list.splits)
qed

lemma aging_step_wf:
  assumes "ft_wf ft" "i < length (buckets ft)"
  shows "\<exists>r ft'. simple_fwd_ft_aging_ft_entry obs i ft = Some (r, ft') \<and> ft_wf ft' \<and>
           length (buckets ft') = length (buckets ft) \<and> cfg_size ft' = cfg_size ft"
  using assms scan_found_in(1) [OF assms(2), of obs]
  by (auto simp: aging_step_cases scanned_wf ft_destroy_wf split: option.splits) (simp_all add: scanned_def)

lemma scan_keeps: "e \<in> set es \<Longrightarrow> \<not> expired obs e \<Longrightarrow> e \<in> set (fst (aging_scan obs es))"
  by (induction es)
     (auto simp: aging_scan_Cons refreshed_def Let_def simp del: aging_scan.simps(2) split: prod.splits)

lemma aging_step_keeps:
  assumes "ft_wf ft" "i < length (buckets ft)" "simple_fwd_ft_aging_ft_entry obs i ft = Some (r, ft')"
    and "e \<in> set (ft_entries ft)" "\<not> expired obs e"
  shows "e \<in> set (ft_entries ft')"
proof -
  obtain j where j: "j < length (buckets ft)" "e \<in> set (buckets ft ! j)" using assms(4) by (auto simp: in_ft_entries)
  have "e \<in> set (buckets (scanned obs i ft) ! j)"
    using j scan_keeps [of e "buckets ft ! i" obs] assms(5) by (cases "j = i") (simp_all add: scanned_def)
  then have s: "e \<in> set (ft_entries (scanned obs i ft))" using j(1) by (auto simp: in_ft_entries scanned_def)
  show ?thesis
  proof (cases "snd (aging_scan obs (buckets ft ! i))")
    case None
    then show ?thesis using assms(3,4) s by (auto simp: aging_step_cases [OF assms(1,2)] split: if_splits)
  next
    case (Some x)
    have "inj_on e_addr (set (ft_entries (scanned obs i ft)))"
      using scanned_wf [OF assms(1,2), of obs] by (simp add: ft_wf_def distinct_map)
    then have "e_addr e \<noteq> e_addr x"
      using scan_found_in [OF assms(2) Some] s assms(5) by (auto dest: inj_onD)
    then show ?thesis
      using assms(3,4) s Some by (auto simp: aging_step_cases [OF assms(1,2)] entries_destroy split: if_splits)
  qed
qed

section \<open>The aging loops\<close>

lemma aging_bucket_returns:
  assumes "ft_wf ft" "i < length (buckets ft)"
  shows "\<exists>k' ft'. aging_bucket obs k i ft = Some (k', ft') \<and> ft_wf ft' \<and> cfg_size ft' = cfg_size ft \<and>
           length (buckets ft') = length (buckets ft) \<and>
           (\<forall>e \<in> set (ft_entries ft). (\<forall>j. \<not> expired (obs j) e) \<longrightarrow> e \<in> set (ft_entries ft'))"
  using assms
proof (induction obs k i ft rule: aging_bucket.induct)
  case (1 obs k i ft)
  obtain r ft1 where s: "simple_fwd_ft_aging_ft_entry (obs k) i ft = Some (r, ft1)" and
    w: "ft_wf ft1" "length (buckets ft1) = length (buckets ft)" "cfg_size ft1 = cfg_size ft"
    using aging_step_wf [OF 1(2,3), of "obs k"] by blast
  note keep = aging_step_keeps [OF 1(2,3) s]
  show ?case
  proof (cases r)
    case True
    have "i < length (buckets ft1)" using w 1(3) by simp
    from 1(1) [OF s refl True w(1) this] obtain k2 ft2 where
      2: "aging_bucket obs (k + 1) i ft1 = Some (k2, ft2)" "ft_wf ft2" "cfg_size ft2 = cfg_size ft1"
        "length (buckets ft2) = length (buckets ft1)"
        "\<forall>e \<in> set (ft_entries ft1). (\<forall>j. \<not> expired (obs j) e) \<longrightarrow> e \<in> set (ft_entries ft2)" by blast
    have "aging_bucket obs k i ft = Some (k2, ft2)" using s True 2(1) by (simp add: aging_bucket.simps [of obs k])
    then show ?thesis using 2 w keep by auto
  next
    case False
    then have "aging_bucket obs k i ft = Some (k + 1, ft1)" using s by (simp add: aging_bucket.simps [of obs k])
    then show ?thesis using w keep by auto
  qed
qed

lemma aging_buckets_returns:
  assumes "ft_wf ft" "\<forall>i \<in> set is. i < length (buckets ft)"
  shows "\<exists>k' ft'. aging_buckets obs k is ft = Some (k', ft') \<and> ft_wf ft' \<and> cfg_size ft' = cfg_size ft \<and>
           (\<forall>e \<in> set (ft_entries ft). (\<forall>j. \<not> expired (obs j) e) \<longrightarrow> e \<in> set (ft_entries ft'))"
  using assms
proof (induction "is" arbitrary: k ft)
  case (Cons i rest)
  from aging_bucket_returns [OF Cons.prems(1), of i obs k] Cons.prems(2) obtain k1 ft1 where
    1: "aging_bucket obs k i ft = Some (k1, ft1)" "ft_wf ft1" "cfg_size ft1 = cfg_size ft"
       "length (buckets ft1) = length (buckets ft)"
       "\<forall>e \<in> set (ft_entries ft). (\<forall>j. \<not> expired (obs j) e) \<longrightarrow> e \<in> set (ft_entries ft1)" by auto
  then show ?case using Cons.IH [OF 1(2), of k1] Cons.prems(2) by fastforce
qed simp

section \<open>What a pass leaves\<close>

text \<open>From the end of the bucket: an expired entry is removed if it is idle, or if any entry behind it is
  removed.  The second result tells whether an entry is removed.\<close>

fun survivors :: "aging_obs \<Rightarrow> simple_fwd_ft_entry list \<Rightarrow> simple_fwd_ft_entry list \<times> bool" where
  "survivors obs [] = ([], False)"
| "survivors obs (e # es) = (let (left, removed) = survivors obs es in
     if expired obs e then (if idle obs e \<or> removed then (left, True) else (refreshed obs e # left, False))
     else (e # left, removed))"

lemma survivors_removed:
  "snd (survivors obs ys) \<Longrightarrow>
   survivors obs (xs @ ys) = (filter (\<lambda>e. \<not> expired obs e) xs @ fst (survivors obs ys), True)"
  by (induction xs) (auto simp: Let_def prod_eq_iff split: prod.splits)

lemma survivors_refreshed:
  "fst (survivors obs (map (refreshed obs) xs @ ys)) = filter (\<lambda>e. \<not> expired obs e) xs @ fst (survivors obs ys)"
  by (induction xs) (auto simp: Let_def refreshed_idle refreshed_id split: prod.splits)

lemma survivors_none:
  "list_all (\<lambda>e. \<not> (expired obs e \<and> idle obs e)) xs \<Longrightarrow> survivors obs xs = (map (refreshed obs) xs, False)"
  by (induction xs) (auto simp: refreshed_def)

lemma scan_survivors_None:
  assumes "aging_scan obs es = (es', None)"
  shows "es' = fst (survivors obs es)"
proof -
  have "list_all (\<lambda>e. \<not> (expired obs e \<and> idle obs e)) es \<and> es' = map (refreshed obs) es"
    using assms
    by (induction es arbitrary: es')
       (auto simp: aging_scan_Cons Let_def simp del: aging_scan.simps(2) split: if_splits prod.splits)
  then show ?thesis by (simp add: survivors_none)
qed

lemma not_in_image: "f x \<notin> f ` A \<Longrightarrow> y \<in> A \<Longrightarrow> f y \<noteq> f x"
  by (metis imageI)

lemma scan_survivors_Some:
  assumes "aging_scan obs es = (es', Some x)" "distinct (map e_addr es)"
  shows "fst (survivors obs (filter (\<lambda>y. e_addr y \<noteq> e_addr x) es')) = fst (survivors obs es)"
proof -
  let ?P = "\<lambda>e. \<not> (expired obs e \<and> idle obs e)"
  define keep where "keep = takeWhile ?P es"
  obtain e rest where d: "dropWhile ?P es = e # rest"
    using assms(1) by (cases "dropWhile ?P es") (simp_all add: aging_scan_split Let_def del: dropWhile_eq_Nil_conv)
  have es: "es = keep @ e # rest" using d by (metis keep_def takeWhile_dropWhile_id)
  have e: "expired obs e" "idle obs e" using d by (auto simp: dropWhile_eq_Cons_conv)
  have x: "x = refreshed obs e" "es' = map (refreshed obs) keep @ x # rest"
    using assms(1) d by (auto simp: aging_scan_split Let_def keep_def simp del: dropWhile_eq_Nil_conv)
  have "filter (\<lambda>y. e_addr y \<noteq> e_addr x) es' = map (refreshed obs) keep @ rest"
  proof -
    have "e_addr y \<noteq> e_addr e" if "y \<in> set keep \<union> set rest" for y
      using not_in_image [of e_addr e "set keep \<union> set rest" y] that assms(2) by (auto simp: es)
    then show ?thesis by (simp add: x filter_map filter_id_conv)
  qed
  moreover have "snd (survivors obs (e # rest))" "fst (survivors obs (e # rest)) = fst (survivors obs rest)"
    using e by (auto simp: Let_def split: prod.splits)
  ultimately show ?thesis by (simp add: es survivors_refreshed survivors_removed del: survivors.simps(2))
qed

lemma destroy_in_bucket:
  assumes "ft_wf ft" "i < length (buckets ft)" "e \<in> set (buckets ft ! i)"
  shows "buckets (ft_destroy_entry e ft) =
           (buckets ft)[i := filter (\<lambda>x. e_addr x \<noteq> e_addr e) (buckets ft ! i)]"
proof (rule nth_equalityI)
  fix j assume "j < length (buckets (ft_destroy_entry e ft))"
  then have j: "j < length (buckets ft)" by simp
  have "e_addr x \<noteq> e_addr e" if x: "x \<in> set (buckets ft ! j)" and "j \<noteq> i" for x
  proof -
    have "inj_on e_addr (set (ft_entries ft))" using assms(1) by (simp add: ft_wf_def distinct_map)
    moreover have "x \<in> set (ft_entries ft)" "e \<in> set (ft_entries ft)" using x j assms(2,3) by (auto simp: in_ft_entries)
    moreover have "entry_placed ft i e" "entry_placed ft j x" using assms x j by (simp_all add: ft_wf_def)
    then have "x \<noteq> e" using \<open>j \<noteq> i\<close> by (auto simp: entry_placed_def)
    ultimately show ?thesis by (auto dest: inj_onD)
  qed
  then show "buckets (ft_destroy_entry e ft) ! j =
      (buckets ft)[i := filter (\<lambda>x. e_addr x \<noteq> e_addr e) (buckets ft ! i)] ! j"
    using j by (cases "j = i") (simp_all add: filter_id_conv)
qed simp

lemma distinct_bucket:
  assumes "ft_wf ft" "i < length (buckets ft)"
  shows "distinct (map e_addr (buckets ft ! i))"
proof -
  have "distinct (map e_addr (concat (buckets ft)))" using assms(1) by (simp add: ft_wf_def ft_entries_def)
  then show ?thesis using assms(2) by (auto simp: map_concat distinct_concat_iff)
qed

text \<open>With the same observation in every call of a pass, that is when the pass is fast compared with the
  clock and the counters, the loop leaves exactly the survivors.\<close>

lemma aging_bucket_survivors:
  assumes "ft_wf ft" "i < length (buckets ft)" "\<And>j. obs j = ob" "ao_trylock ob"
  shows "\<exists>k' ft'. aging_bucket obs k i ft = Some (k', ft') \<and> ft_wf ft' \<and>
           buckets ft' = (buckets ft)[i := fst (survivors ob (buckets ft ! i))]"
  using assms
proof (induction obs k i ft rule: aging_bucket.induct)
  case (1 obs k i ft)
  note wf = 1(2) and i = 1(3)
  let ?b = "buckets ft ! i"
  obtain es r where s: "aging_scan ob ?b = (es, r)" by fastforce
  have b1: "buckets (scanned ob i ft) = (buckets ft)[i := es]" by (simp add: scanned_def s)
  have w1: "ft_wf (scanned ob i ft)" using scanned_wf [OF wf i] .
  show ?case
  proof (cases r)
    case None
    then have "simple_fwd_ft_aging_ft_entry (obs k) i ft = Some (False, scanned ob i ft)"
      using aging_step_cases [OF wf i, of "obs k"] 1(4,5) s by simp
    then show ?thesis
      using w1 b1 scan_survivors_None [OF s [unfolded None]] by (simp add: aging_bucket.simps [of obs k])
  next
    case (Some e)
    let ?ft = "ft_destroy_entry e (scanned ob i ft)"
    have st: "simple_fwd_ft_aging_ft_entry (obs k) i ft = Some (True, ?ft)"
      using aging_step_cases [OF wf i, of "obs k"] 1(4,5) s Some by simp
    have e: "e \<in> set (buckets (scanned ob i ft) ! i)" using aging_scan_found [OF s [unfolded Some]] b1 i by simp
    have b2: "buckets ?ft = (buckets ft)[i := filter (\<lambda>x. e_addr x \<noteq> e_addr e) es]"
      using destroy_in_bucket [OF w1 _ e] b1 i by simp
    have "e \<in> set (ft_entries (scanned ob i ft))" using e i b1 by (auto simp: in_ft_entries)
    then have w2: "ft_wf ?ft" using ft_destroy_wf [OF w1] by simp
    have "i < length (buckets ?ft)" using i b2 by simp
    from 1(1) [OF st refl TrueI w2 this 1(4,5)] obtain k2 ft2 where
      2: "aging_bucket obs (k + 1) i ?ft = Some (k2, ft2)" "ft_wf ft2"
         "buckets ft2 = (buckets ?ft)[i := fst (survivors ob (buckets ?ft ! i))]" by blast
    have "fst (survivors ob (buckets ?ft ! i)) = fst (survivors ob ?b)"
      using scan_survivors_Some [OF s [unfolded Some] distinct_bucket [OF wf i]] b2 i by simp
    then show ?thesis using 2 st b2 by (simp add: aging_bucket.simps [of obs k])
  qed
qed

text \<open>In closed form: up to the last entry that is expired and idle every expired entry goes.\<close>

lemma survivors_split:
  assumes "pre = [] \<or> expired obs (last pre) \<and> idle obs (last pre)"
    and "\<forall>e \<in> set post. \<not> (expired obs e \<and> idle obs e)"
  shows "fst (survivors obs (pre @ post)) = filter (\<lambda>e. \<not> expired obs e) pre @ map (refreshed obs) post"
proof -
  have post: "survivors obs post = (map (refreshed obs) post, False)"
    by (rule survivors_none) (use assms(2) in \<open>simp add: list_all_iff\<close>)
  show ?thesis
  proof (cases "pre = []")
    case False
    then obtain xs x where pre: "pre = xs @ [x]" by (metis append_butlast_last_id)
    then have x: "expired obs x" "idle obs x" using assms(1) by auto
    have "survivors obs (x # post) = (map (refreshed obs) post, True)" using x by (simp add: post)
    then show ?thesis
      using survivors_removed [of obs "x # post" xs] x by (simp add: pre del: survivors.simps(2))
  qed (simp add: post)
qed

section \<open>Properties\<close>

text \<open>
  C5.  The hash table of flows implements a map from keys to entries.  In a well-formed table
  \<open>_simple_fwd_ft_find\<close> finds exactly the entry the map has for the key and only refreshes its
  expiration; adding a flow that has no entry yet, at an address that is not in use, extends the map by the
  new entry; destroying an entry of the table removes its key.  All three return and keep the table well
  formed: entries in the bucket of their hash, addresses and keys unique, and \<open>add - rm\<close> equal to the
  number of entries.
\<close>

theorem flow_table_is_map:
  assumes "ft_wf ft"
  shows "(\<exists>ft'. ft_find c key ft = Some (map_option e_addr (ft_lookup ft key), ft') \<and> ft_wf ft' \<and>
      (\<forall>k. ft_lookup ft' k = (if k = key then map_option (simple_fwd_ft_update_expiration c) (ft_lookup ft k)
                              else ft_lookup ft k))) \<and>
    (simple_fwd_ft_key_fill b pinfo = Some (0, key) \<and> ft_lookup ft key = None \<and>
     p \<notin> e_addr ` set (ft_entries ft) \<longrightarrow>
      (\<exists>ft' e. simple_fwd_ft_add_new (Some p) b c pinfo (Some ft) = Some (DOCA_SUCCESS, Some p, Some ft') \<and>
         ft_wf ft' \<and> e_addr e = p \<and> e_key e = key \<and> ft_lookup ft' = (ft_lookup ft)(key \<mapsto> e))) \<and>
    (ft_lookup ft key = Some e \<longrightarrow>
      (\<exists>ft'. simple_fwd_ft_destroy_entry (e_addr e) ft = Some ft' \<and> ft_wf ft' \<and>
         ft_lookup ft' = (ft_lookup ft)(key := None)))"
proof (intro conjI impI)
  show "\<exists>ft'. ft_find c key ft = Some (map_option e_addr (ft_lookup ft key), ft') \<and> ft_wf ft' \<and>
      (\<forall>k. ft_lookup ft' k = (if k = key then map_option (simple_fwd_ft_update_expiration c) (ft_lookup ft k)
                              else ft_lookup ft k))"
  proof (cases "ft_lookup ft key")
    case None
    then show ?thesis using assms by (simp add: ft_find_lookup)
  next
    case (Some x)
    have inj: "inj_on e_addr (set (ft_entries ft))" using assms by (simp add: ft_wf_def distinct_map)
    have "map_option (\<lambda>e. if e_addr e = e_addr x then simple_fwd_ft_update_expiration c e else e) (ft_lookup ft k) =
        (if k = key then map_option (simple_fwd_ft_update_expiration c) (ft_lookup ft k) else ft_lookup ft k)" for k
    proof (cases "ft_lookup ft k")
      case (Some a)
      have "k = key \<Longrightarrow> a = x" using Some \<open>ft_lookup ft key = Some x\<close> by simp
      moreover have "e_addr a = e_addr x \<Longrightarrow> k = key"
        using Some \<open>ft_lookup ft key = Some x\<close> inj by (auto simp: ft_lookup_Some [OF assms] dest: inj_onD)
      ultimately have "e_addr a = e_addr x \<longleftrightarrow> k = key" by blast
      then show ?thesis using Some by (cases "k = key") auto
    qed auto
    then show ?thesis
      using Some assms by (simp add: ft_find_lookup entry_upd_wf entry_upd_lookup)
  qed
next
  assume h: "simple_fwd_ft_key_fill b pinfo = Some (0, key) \<and> ft_lookup ft key = None \<and>
     p \<notin> e_addr ` set (ft_entries ft)"
  then have f: "fresh_entry (new_entry ft p key) (next_fid ft)" by (simp add: new_entry_fresh)
  show "\<exists>ft' e. simple_fwd_ft_add_new (Some p) b c pinfo (Some ft) = Some (DOCA_SUCCESS, Some p, Some ft') \<and>
         ft_wf ft' \<and> e_addr e = p \<and> e_key e = key \<and> ft_lookup ft' = (ft_lookup ft)(key \<mapsto> e)"
    using add_new_value [OF assms, of b pinfo key p c] h assms
      fts.inv_ins [OF _ f] fts.lookup_ins [OF _ f]
    by (intro exI [of _ "ft_add (new_entry ft p key) (next_fid ft)"] exI [of _ "new_entry ft p key"]) simp
next
  assume l: "ft_lookup ft key = Some e"
  then have e: "e \<in> set (ft_entries ft)" "e_key e = key" using assms by (simp_all add: ft_lookup_Some)
  show "\<exists>ft'. simple_fwd_ft_destroy_entry (e_addr e) ft = Some ft' \<and> ft_wf ft' \<and>
         ft_lookup ft' = (ft_lookup ft)(key := None)"
    using destroy_entry_value [OF assms e(1)] fts.inv_del [OF assms, of e] fts.lookup_del [OF assms, of e] l e(2)
    by simp
qed

text \<open>
  C13.  A pass of the aging thread returns, whatever the clock, the locks and the hardware counters show
  to its calls.  It keeps the table well formed, and an entry whose time has not come in any of these
  observations is still there, unchanged.
\<close>

theorem aging_pass_keeps_live_flows:
  assumes "ft_wf ft"
  shows "\<exists>k' ft'. simple_fwd_ft_aging_main obs k ft = Some (k', ft') \<and> ft_wf ft' \<and>
    (\<forall>e \<in> set (ft_entries ft). (\<forall>j. \<not> expired (obs j) e) \<longrightarrow> e \<in> set (ft_entries ft'))"
proof (cases "(ucast (stats_add ft - stats_rm ft) :: u32) = 0")
  case True
  then show ?thesis using assms by (simp add: simple_fwd_ft_aging_main_def)
next
  case False
  have "\<forall>i \<in> set [0..<unat (cfg_size ft)]. i < length (buckets ft)" using assms by (simp add: ft_wf_def)
  from aging_buckets_returns [OF assms this, of obs k] show ?thesis
    using False by (auto simp: simple_fwd_ft_aging_main_def)
qed

text \<open>
  C37.  Which entries of a bucket the aging loop removes when its calls see the same clock and counters:
  every expired entry up to the last one that is expired and idle.  The loop starts again at the head
  after each removal, and the counter of an expired flow that carried traffic has been taken over by
  then, so a flow in use that stands before an aged one is removed with it.  Behind the last aged entry
  the counters are only refreshed.
\<close>

theorem aging_removes_active_flows:
  assumes "ft_wf ft" and "i < length (buckets ft)" and "\<And>j. obs j = ob" and "ao_trylock ob"
    and "buckets ft ! i = pre @ post" and "pre = [] \<or> expired ob (last pre) \<and> idle ob (last pre)"
    and "\<forall>e \<in> set post. \<not> (expired ob e \<and> idle ob e)"
  shows "\<exists>k' ft'. aging_bucket obs k i ft = Some (k', ft') \<and> ft_wf ft' \<and>
    buckets ft' = (buckets ft)[i := filter (\<lambda>e. \<not> expired ob e) pre @ map (refreshed ob) post]"
  using aging_bucket_survivors [OF assms(1-4), where k = k] survivors_split [OF assms(6,7)] assms(5) by simp

text \<open>A table of two buckets with an active and an aged flow in the first.\<close>

definition sample_flow :: "nat \<Rightarrow> simple_fwd_ft_entry" where
  "sample_flow p = (entry0 p)\<lparr>e_key := key0\<lparr>k_ipv4_1 := of_nat p\<rparr>, e_expiration := 10, e_age_sec := 5, e_fid := of_nat p,
     e_pipe := pipe_entry0\<lparr>pe_is_hw := True, pe_hw_entry := Some p\<rparr>\<rparr>"

definition sample_ft :: simple_fwd_ft where
  "sample_ft = \<lparr>cfg_size = 2, cfg_mask = 1, stats_add = 2, stats_rm = 0, fid_ctr = 2,
     buckets = [[sample_flow 1, sample_flow 2], []], hw_removed = []\<rparr>"

text \<open>Flow 1 has forwarded seven packets, flow 2 none.\<close>

definition sample_obs :: aging_obs where
  "sample_obs = \<lparr>ao_tsc = 100, ao_trylock = True, ao_query = (\<lambda>h. if h = Some 1 then Some 7 else Some 0)\<rparr>"

lemma sample_ft_wf: "ft_wf sample_ft"
  by (auto simp: ft_wf_def sample_ft_def sample_flow_def entry0_def key0_def ft_entries_def entry_placed_def
      ft_index_def less_Suc_eq)

theorem flow_table_is_map_witness:
  "\<exists>ft'. ft_find \<lparr>tsc = 1, timer_hz = 1\<rparr> (e_key (sample_flow 2)) sample_ft = Some (Some 2, ft') \<and> ft_wf ft'"
proof -
  have "ft_lookup sample_ft (e_key (sample_flow 2)) = Some (sample_flow 2)"
    by (simp add: ft_lookup_Some [OF sample_ft_wf]) (simp add: sample_ft_def ft_entries_def)
  then show ?thesis
    using flow_table_is_map [OF sample_ft_wf, of "\<lparr>tsc = 1, timer_hz = 1\<rparr>" "e_key (sample_flow 2)"]
    by (auto simp: sample_flow_def entry0_def)
qed

theorem aging_pass_keeps_live_flows_witness:
  "\<exists>k' ft'. simple_fwd_ft_aging_main (\<lambda>_. sample_obs\<lparr>ao_tsc := 10\<rparr>) 0 sample_ft = Some (k', ft') \<and>
     {sample_flow 1, sample_flow 2} \<subseteq> set (ft_entries ft')"
proof -
  have "\<not> expired (sample_obs\<lparr>ao_tsc := 10\<rparr>) (sample_flow p)" for p
    by (simp add: expired_def sample_obs_def sample_flow_def)
  then show ?thesis
    using aging_pass_keeps_live_flows [OF sample_ft_wf, of "\<lambda>_. sample_obs\<lparr>ao_tsc := 10\<rparr>" 0]
    by (auto simp: sample_ft_def ft_entries_def)
qed

theorem aging_removes_active_flows_witness:
  "\<not> idle sample_obs (sample_flow 1) \<and>
   (\<exists>k' ft'. aging_bucket (\<lambda>_. sample_obs) 0 0 sample_ft = Some (k', ft') \<and> buckets ft' = [[], []])"
proof -
  have i: "0 < length (buckets sample_ft)" and b: "buckets sample_ft ! 0 = [sample_flow 1, sample_flow 2] @ []"
    by (simp_all add: sample_ft_def)
  have e: "expired sample_obs (sample_flow p)" for p
    by (simp add: expired_def sample_obs_def sample_flow_def)
  have d: "idle sample_obs (sample_flow 2)" "\<not> idle sample_obs (sample_flow 1)"
    by (simp_all add: idle_def simple_fwd_ft_update_counter_def sample_obs_def sample_flow_def entry0_def)
  have "[sample_flow 1, sample_flow 2] = [] \<or>
      expired sample_obs (last [sample_flow 1, sample_flow 2]) \<and> idle sample_obs (last [sample_flow 1, sample_flow 2])"
    using e d by simp
  moreover have "ao_trylock sample_obs" by (simp add: sample_obs_def)
  ultimately obtain k' ft' where "aging_bucket (\<lambda>_. sample_obs) 0 0 sample_ft = Some (k', ft')"
      and "buckets ft' = (buckets sample_ft)[0 := []]"
    using aging_removes_active_flows [OF sample_ft_wf i, of "\<lambda>_. sample_obs" sample_obs, OF refl _ b, of 0] e by auto
  then show ?thesis using d by (simp add: sample_ft_def)
qed

end
