(* ===== verification/Simple_Fwd.thy ===== *)
theory Simple_Fwd
  imports Simple_Fwd_Aging
begin

text \<open>
  Model of the packet path of the simple forward application: the handlers of \<open>simple_fwd.c\<close> that turn
  the first packet of a tunnelled flow into a hardware rule, the completion callback, and the receive
  loop of \<open>simple_fwd_vnf_core.c\<close>.

  The DOCA Flow library is an input: whether a rule was taken and under which handle, and which
  calls of the completion callback \<open>simple_fwd_check_for_valid_entry\<close> were made while entries were
  processed.  Two logs record what was asked of it, the rules added (\<open>hw_added\<close>) and removed
  (\<open>hw_removed\<close> of the flow table).  The status objects of the rules live in a small heap, so
  the use of a freed one is \<open>None\<close>, as is the use of a freed flow entry.
\<close>

section \<open>The data\<close>

datatype doca_flow_entry_op = OP_ADD | OP_DEL | OP_AGED | OP_OTHER

record entries_status =
  es_failure :: bool
  es_nb_processed :: int
  es_ft_entry :: nat
  es_port :: "nat option"

text \<open>A call of the completion callback.\<close>

record entry_event =
  ev_success :: bool
  ev_op :: doca_flow_entry_op
  ev_user_ctx :: "nat option"

record simple_fwd_app =
  app_ft :: simple_fwd_ft
  app_ports :: "nat option list"
  pipe_vxlan :: "nat option list"
  pipe_gre :: "nat option list"
  pipe_gtp :: "nat option list"
  app_nb_queues :: u16
  statuses :: "nat \<rightharpoonup> entries_status"
  hw_added :: "(u16 \<times> nat) list"

datatype l4_type_ext = L4_EXT_NONE | L4_EXT_TCP | L4_EXT_UDP

record match_layer =
  ml_ip4 :: bool
  ml_dst_ip :: u32
  ml_src_ip :: u32
  ml_l4_type_ext :: l4_type_ext
  ml_src_port :: u16
  ml_dst_port :: u16

record doca_flow_match =
  m_dst_mac :: bytes
  m_src_mac :: bytes
  m_outer :: match_layer
  m_tun_type :: doca_flow_tun_type
  m_tun_id :: u32
  m_inner :: match_layer

record doca_flow_actions =
  ac_pkt_meta :: u32
  ac_src_mac :: bytes
  ac_dst_mac :: bytes

record doca_flow_monitor =
  mo_counter :: bool
  mo_aging_sec :: u32

text \<open>What one packet meets: the clock readings, the results of the two \<open>calloc\<close> calls, of \<open>rte_rand\<close>, of
  \<open>doca_flow_pipe_basic_add_entry\<close> and of \<open>doca_flow_entries_process\<close>, with the callbacks made during
  the latter.\<close>

record packet_env =
  en_clock_find :: clock
  en_clock_new :: clock
  en_clock_age :: clock
  en_calloc_entry :: "nat option"
  en_calloc_status :: "nat option"
  en_rand :: u64
  en_add_entry :: "u16 \<Rightarrow> nat \<Rightarrow> doca_flow_match \<Rightarrow> doca_flow_actions \<Rightarrow> doca_flow_monitor \<Rightarrow> nat option"
  en_process :: doca_error_t
  en_events :: "entry_event list"

definition layer0 :: match_layer where
  "layer0 = \<lparr>ml_ip4 = False, ml_dst_ip = 0, ml_src_ip = 0, ml_l4_type_ext = L4_EXT_NONE, ml_src_port = 0,
     ml_dst_port = 0\<rparr>"

definition mac0 :: bytes where "mac0 = replicate 6 0"

definition match0 :: doca_flow_match where
  "match0 = \<lparr>m_dst_mac = mac0, m_src_mac = mac0, m_outer = layer0, m_tun_type = TUN_NONE, m_tun_id = 0,
     m_inner = layer0\<rparr>"

text \<open>An array access.\<close>

definition array_at :: "'a list \<Rightarrow> nat \<Rightarrow> 'a option" where
  "array_at xs i = (if i < length xs then Some (xs ! i) else None)"

text \<open>A write through the pointer to a flow entry that may have been freed.\<close>

definition entry_write ::
  "nat \<Rightarrow> (simple_fwd_ft_entry \<Rightarrow> simple_fwd_ft_entry) \<Rightarrow> simple_fwd_app \<Rightarrow> simple_fwd_app option" where
  "entry_write p f app = do {
     _ \<leftarrow> entry_at p (app_ft app);
     Some (app\<lparr>app_ft := entry_upd p f (app_ft app)\<rparr>) }"

section \<open>The completion callback\<close>

definition simple_fwd_check_for_valid_entry :: "entry_event \<Rightarrow> simple_fwd_app \<Rightarrow> simple_fwd_app option" where
  "simple_fwd_check_for_valid_entry ev app = (case ev_user_ctx ev of
     None \<Rightarrow> Some app
   | Some s \<Rightarrow> do {
       st \<leftarrow> statuses app s;
       let st = (if ev_success ev then st else st\<lparr>es_failure := True\<rparr>);
       (case ev_op ev of
          OP_AGED \<Rightarrow> do {
            ft \<leftarrow> simple_fwd_ft_destroy_entry (es_ft_entry st) (app_ft app);
            Some (app\<lparr>app_ft := ft, statuses := (statuses app)(s \<mapsto> st)\<rparr>) }
        | OP_ADD \<Rightarrow> Some (app\<lparr>statuses := (statuses app)(s \<mapsto> st\<lparr>es_nb_processed := es_nb_processed st + 1\<rparr>)\<rparr>)
        | OP_DEL \<Rightarrow>
            let st = st\<lparr>es_nb_processed := es_nb_processed st - 1\<rparr> in
            Some (app\<lparr>statuses := (if es_nb_processed st = 0 then (statuses app)(s := None)
                                   else (statuses app)(s \<mapsto> st))\<rparr>)
        | OP_OTHER \<Rightarrow> Some (app\<lparr>statuses := (statuses app)(s \<mapsto> st)\<rparr>)) })"

text \<open>The callbacks of one \<open>doca_flow_entries_process\<close>.  The callback for an aged entry processes entries once
  more as its last action; the callbacks made there follow in the list.\<close>

fun entries_process :: "entry_event list \<Rightarrow> simple_fwd_app \<Rightarrow> simple_fwd_app option" where
  "entries_process [] app = Some app"
| "entries_process (ev # evs) app = do {
     app \<leftarrow> simple_fwd_check_for_valid_entry ev app;
     entries_process evs app }"

section \<open>New flows\<close>

text \<open>Fields in network order are numbers here, so the conversion around the shift of the VNI is gone.\<close>

definition simple_fwd_match_set_tun :: "simple_fwd_pkt_info \<Rightarrow> doca_flow_match \<Rightarrow> doca_flow_match" where
  "simple_fwd_match_set_tun pinfo m =
     (if pi_tun_type pinfo = TUN_NONE then m
      else m\<lparr>m_tun_type := pi_tun_type pinfo,
        m_tun_id := (case pi_tun_type pinfo of
            TUN_VXLAN \<Rightarrow> drop_bit 8 (t_vni (pi_tun pinfo))
          | TUN_GRE \<Rightarrow> t_gre_key (pi_tun pinfo)
          | TUN_GTPU \<Rightarrow> t_teid (pi_tun pinfo)
          | TUN_NONE \<Rightarrow> m_tun_id m)\<rparr>)"

definition simple_fwd_l3_type_transfer :: "u8 \<Rightarrow> l4_type_ext" where
  "simple_fwd_l3_type_transfer pkt_l4_type =
     (if pkt_l4_type = PROTO_TCP then L4_EXT_TCP
      else if pkt_l4_type = PROTO_UDP then L4_EXT_UDP
      else L4_EXT_NONE)"

definition SET_L4_PORTS :: "u16 \<Rightarrow> u16 \<Rightarrow> match_layer \<Rightarrow> match_layer" where
  "SET_L4_PORTS src dst l =
     (if ml_l4_type_ext l = L4_EXT_TCP \<or> ml_l4_type_ext l = L4_EXT_UDP
      then l\<lparr>ml_src_port := src, ml_dst_port := dst\<rparr> else l)"

definition simple_fwd_build_entry_actions :: "doca_flow_actions \<Rightarrow> doca_flow_actions" where
  "simple_fwd_build_entry_actions a =
     a\<lparr>ac_src_mac := [0x11, 0x22, 0x33, 0x44, 0x55, 0x66], ac_dst_mac := [0x11, 0x22, 0x33, 0x44, 0x55, 0x66]\<rparr>"

definition simple_fwd_build_entry_match :: "bytes \<Rightarrow> simple_fwd_pkt_info \<Rightarrow> doca_flow_match option" where
  "simple_fwd_build_entry_match b pinfo = do {
     dmac \<leftarrow> simple_fwd_pinfo_outer_mac_dst b pinfo;
     smac \<leftarrow> simple_fwd_pinfo_outer_mac_src b pinfo;
     odst \<leftarrow> simple_fwd_pinfo_outer_ipv4_dst b pinfo;
     osrc \<leftarrow> simple_fwd_pinfo_outer_ipv4_src b pinfo;
     osport \<leftarrow> simple_fwd_pinfo_outer_src_port b pinfo;
     odport \<leftarrow> simple_fwd_pinfo_outer_dst_port b pinfo;
     let outer = SET_L4_PORTS osport odport (layer0\<lparr>ml_ip4 := True, ml_dst_ip := odst, ml_src_ip := osrc,
           ml_l4_type_ext := simple_fwd_l3_type_transfer (f_l4_type (pi_outer pinfo))\<rparr>);
     let m = match0\<lparr>m_dst_mac := dmac, m_src_mac := smac, m_outer := outer\<rparr>;
     if pi_tun_type pinfo = TUN_NONE then Some m
     else do {
       let m = simple_fwd_match_set_tun pinfo m;
       idst \<leftarrow> simple_fwd_pinfo_inner_ipv4_dst b pinfo;
       isrc \<leftarrow> simple_fwd_pinfo_inner_ipv4_src b pinfo;
       isport \<leftarrow> simple_fwd_pinfo_inner_src_port b pinfo;
       idport \<leftarrow> simple_fwd_pinfo_inner_dst_port b pinfo;
       Some (m\<lparr>m_inner := SET_L4_PORTS isport idport (layer0\<lparr>ml_ip4 := True, ml_dst_ip := idst, ml_src_ip := isrc,
           ml_l4_type_ext := simple_fwd_l3_type_transfer (f_l4_type (pi_inner pinfo))\<rparr>)\<rparr>) } }"

definition simple_fwd_build_entry_monitor :: "u64 \<Rightarrow> doca_flow_monitor" where
  "simple_fwd_build_entry_monitor r = \<lparr>mo_counter = True, mo_aging_sec = ucast r mod 55 + 5\<rparr>"

text \<open>The outer option is the array access, the inner one the pointer.\<close>

definition simple_fwd_select_pipe :: "simple_fwd_pkt_info \<Rightarrow> simple_fwd_app \<Rightarrow> nat option option" where
  "simple_fwd_select_pipe pinfo app = (case pi_tun_type pinfo of
     TUN_GRE \<Rightarrow> array_at (pipe_gre app) (unat (pi_orig_port_id pinfo))
   | TUN_VXLAN \<Rightarrow> array_at (pipe_vxlan app) (unat (pi_orig_port_id pinfo))
   | TUN_GTPU \<Rightarrow> array_at (pipe_gtp app) (unat (pi_orig_port_id pinfo))
   | TUN_NONE \<Rightarrow> Some None)"

text \<open>The error exit of \<open>simple_fwd_pipe_add_entry\<close> behind a rule that was taken.\<close>

definition remove_rule :: "u16 \<Rightarrow> nat \<Rightarrow> simple_fwd_app \<Rightarrow> simple_fwd_app" where
  "remove_rule q entry app =
     app\<lparr>app_ft := (app_ft app)\<lparr>hw_removed := hw_removed (app_ft app) @ [(q, Some entry)]\<rparr>\<rparr>"

definition add_entry_actions :: "simple_fwd_pkt_info \<Rightarrow> doca_flow_actions" where
  "add_entry_actions pinfo =
     (let actions = \<lparr>ac_pkt_meta = 1, ac_src_mac = mac0, ac_dst_mac = mac0\<rparr> in
      if pi_tun_type pinfo \<noteq> TUN_VXLAN then simple_fwd_build_entry_actions actions else actions)"

definition simple_fwd_pipe_add_entry ::
  "packet_env \<Rightarrow> bytes \<Rightarrow> simple_fwd_pkt_info \<Rightarrow> nat \<Rightarrow> simple_fwd_app \<Rightarrow>
   ((nat \<times> u32) option \<times> simple_fwd_app) option" where
  "simple_fwd_pipe_add_entry env b pinfo user_ctx app = (case en_calloc_status env of
     None \<Rightarrow> Some (None, app)
   | Some s \<Rightarrow> do {
       port \<leftarrow> array_at (app_ports app) (unat (pi_orig_port_id pinfo));
       pipe \<leftarrow> simple_fwd_select_pipe pinfo app;
       (case pipe of
          None \<Rightarrow> Some (None, app)
        | Some pipe \<Rightarrow> do {
            let app = app\<lparr>statuses := (statuses app)(s \<mapsto>
                  \<lparr>es_failure = False, es_nb_processed = 0, es_ft_entry = user_ctx, es_port = port\<rparr>)\<rparr>;
            m \<leftarrow> simple_fwd_build_entry_match b pinfo;
            let monitor = simple_fwd_build_entry_monitor (en_rand env);
            (case en_add_entry env (pi_pipe_queue pinfo) pipe m (add_entry_actions pinfo) monitor of
               None \<Rightarrow> Some (None, app\<lparr>statuses := (statuses app)(s := None)\<rparr>)
             | Some entry \<Rightarrow> do {
                 let app = app\<lparr>hw_added := hw_added app @ [(pi_pipe_queue pinfo, entry)]\<rparr>;
                 app \<leftarrow> entries_process (en_events env) app;
                 if en_process env \<noteq> DOCA_SUCCESS
                 then Some (None, remove_rule (pi_pipe_queue pinfo) entry app)
                 else do {
                   st \<leftarrow> statuses app s;
                   if es_nb_processed st \<noteq> 1 \<or> es_failure st
                   then Some (None, remove_rule (pi_pipe_queue pinfo) entry app)
                   else Some (Some (entry, mo_aging_sec monitor), app) } }) }) })"

text \<open>The two results: the number returned and the context pointer, the address of the flow entry.\<close>

definition simple_fwd_handle_new_flow ::
  "packet_env \<Rightarrow> bytes \<Rightarrow> simple_fwd_pkt_info \<Rightarrow> simple_fwd_app \<Rightarrow> (int \<times> nat option \<times> simple_fwd_app) option" where
  "simple_fwd_handle_new_flow env b pinfo app = do {
     (result, ctx, ft_ptr) \<leftarrow>
       simple_fwd_ft_add_new (en_calloc_entry env) b (en_clock_new env) pinfo (Some (app_ft app));
     ft \<leftarrow> ft_ptr;
     let app = app\<lparr>app_ft := ft\<rparr>;
     if result \<noteq> DOCA_SUCCESS then Some (- 1, ctx, app)
     else do {
       p \<leftarrow> ctx;
       app \<leftarrow> entry_write p (\<lambda>e. e\<lparr>e_pipe := (e_pipe e)\<lparr>pe_pipe_queue := pi_pipe_queue pinfo\<rparr>\<rparr>) app;
       (r, app) \<leftarrow> simple_fwd_pipe_add_entry env b pinfo p app;
       app \<leftarrow> entry_write p (\<lambda>e. e\<lparr>e_pipe := (e_pipe e)\<lparr>pe_hw_entry := map_option fst r\<rparr>\<rparr>) app;
       (case r of
          None \<Rightarrow> do {
            ft \<leftarrow> simple_fwd_ft_destroy_entry p (app_ft app);
            Some (- 1, ctx, app\<lparr>app_ft := ft\<rparr>) }
        | Some (_, age_sec) \<Rightarrow> do {
            app \<leftarrow> entry_write p (simple_fwd_ft_update_age_sec age_sec) app;
            app \<leftarrow> entry_write p (simple_fwd_ft_update_expiration (en_clock_age env)) app;
            app \<leftarrow> entry_write p (\<lambda>e. e\<lparr>e_pipe := (e_pipe e)\<lparr>pe_is_hw := True\<rparr>\<rparr>) app;
            Some (0, ctx, app) }) } }"

definition simple_fwd_need_new_ft :: "simple_fwd_pkt_info \<Rightarrow> bool" where
  "simple_fwd_need_new_ft pinfo \<longleftrightarrow> f_l3_type (pi_outer pinfo) = IPV4 \<and>
     (f_l4_type (pi_outer pinfo) = PROTO_TCP \<or> f_l4_type (pi_outer pinfo) = PROTO_UDP \<or>
      f_l4_type (pi_outer pinfo) = PROTO_GRE)"

definition count_packet :: "simple_fwd_ft_entry \<Rightarrow> simple_fwd_ft_entry" where
  "count_packet e = e\<lparr>e_pipe := (e_pipe e)\<lparr>pe_total_pkts := pe_total_pkts (e_pipe e) + 1\<rparr>\<rparr>"

definition simple_fwd_handle_packet ::
  "packet_env \<Rightarrow> bytes \<Rightarrow> simple_fwd_pkt_info \<Rightarrow> simple_fwd_app \<Rightarrow> (int \<times> simple_fwd_app) option" where
  "simple_fwd_handle_packet env b pinfo app =
     (if \<not> simple_fwd_need_new_ft pinfo then Some (- 1, app)
      else do {
        (result, ctx, ft) \<leftarrow> simple_fwd_ft_find b (en_clock_find env) pinfo (app_ft app);
        let app = app\<lparr>app_ft := ft\<rparr>;
        (r, ctx, app) \<leftarrow> (if result \<noteq> DOCA_SUCCESS then simple_fwd_handle_new_flow env b pinfo app
                          else Some (0, ctx, app));
        if r \<noteq> 0 then Some (- 1, app)
        else do {
          p \<leftarrow> ctx;
          app \<leftarrow> entry_write p count_packet app;
          Some (0, app) } })"

section \<open>Aging and the receive loop\<close>

text \<open>\<open>doca_flow_aging_handle\<close> of the library makes the callbacks \<open>evs\<close>.\<close>

definition simple_fwd_handle_aging ::
  "entry_event list \<Rightarrow> u32 \<Rightarrow> u16 \<Rightarrow> simple_fwd_app \<Rightarrow> simple_fwd_app option" where
  "simple_fwd_handle_aging evs port_id queue app =
     (if queue > app_nb_queues app then Some app
      else do {
        port \<leftarrow> array_at (app_ports app) (unat port_id);
        entries_process evs app })"

record rte_mbuf =
  mb_data :: bytes
  mb_port :: u16
  mb_rss :: u32

text \<open>\<open>rte_pktmbuf_adj\<close> is DPDK's; the offset of the outer header is the distance it removes.\<close>

definition vnf_adjust_mbuf ::
  "(nat \<Rightarrow> rte_mbuf \<Rightarrow> rte_mbuf) \<Rightarrow> rte_mbuf \<Rightarrow> simple_fwd_pkt_info \<Rightarrow> rte_mbuf option" where
  "vnf_adjust_mbuf adj m pinfo = do { diff \<leftarrow> f_l2 (pi_outer pinfo); Some (adj diff m) }"

definition simple_fwd_process_offload ::
  "dpdk \<Rightarrow> (nat \<Rightarrow> rte_mbuf \<Rightarrow> rte_mbuf) \<Rightarrow> packet_env \<Rightarrow> rte_mbuf \<Rightarrow> u16 \<Rightarrow> simple_fwd_app \<Rightarrow>
   (rte_mbuf \<times> simple_fwd_app) option" where
  "simple_fwd_process_offload d adj env mbuf queue_id app = do {
     (ret, pinfo) \<leftarrow> simple_fwd_parse_packet d (mb_data mbuf) (int (length (mb_data mbuf))) pinfo0;
     if ret \<noteq> 0 then Some (mbuf, app)
     else
       let pinfo = pinfo\<lparr>pi_orig_port_id := mb_port mbuf, pi_pipe_queue := queue_id, pi_rss_hash := mb_rss mbuf\<rparr> in
       if f_l3_type (pi_outer pinfo) \<noteq> IPV4 then Some (mbuf, app)
       else do {
         (_, app) \<leftarrow> simple_fwd_handle_packet env (mb_data mbuf) pinfo app;
         mbuf \<leftarrow> vnf_adjust_mbuf adj mbuf pinfo;
         Some (mbuf, app) } }"

record simple_fwd_config =
  cf_hw_offload :: bool
  cf_rx_only :: bool
  cf_age_thread :: bool

text \<open>The loop of \<open>simple_fwd_process_pkts\<close> over the packets of one burst, each with what it meets, and the pass
  over the ports.  The result lists the packets handed to \<open>rte_eth_tx_burst\<close> with port and queue.\<close>

fun process_burst ::
  "dpdk \<Rightarrow> (nat \<Rightarrow> rte_mbuf \<Rightarrow> rte_mbuf) \<Rightarrow> simple_fwd_config \<Rightarrow> u32 \<Rightarrow> u16 \<Rightarrow> (packet_env \<times> rte_mbuf) list \<Rightarrow>
   simple_fwd_app \<Rightarrow> ((u32 \<times> u16 \<times> rte_mbuf) list \<times> simple_fwd_app) option" where
  "process_burst d adj cfg port_id queue_id [] app = Some ([], app)"
| "process_burst d adj cfg port_id queue_id ((env, mbuf) # rest) app = do {
     (mbuf, app) \<leftarrow> (if cf_hw_offload cfg then simple_fwd_process_offload d adj env mbuf queue_id app
                     else Some (mbuf, app));
     (tx, app) \<leftarrow> process_burst d adj cfg port_id queue_id rest app;
     Some ((if cf_rx_only cfg then [] else [(port_id XOR 1, queue_id, mbuf)]) @ tx, app) }"

fun process_ports ::
  "dpdk \<Rightarrow> (nat \<Rightarrow> rte_mbuf \<Rightarrow> rte_mbuf) \<Rightarrow> simple_fwd_config \<Rightarrow>
   (u32 \<times> u16 \<times> (packet_env \<times> rte_mbuf) list \<times> entry_event list) list \<Rightarrow>
   simple_fwd_app \<Rightarrow> ((u32 \<times> u16 \<times> rte_mbuf) list \<times> simple_fwd_app) option" where
  "process_ports d adj cfg [] app = Some ([], app)"
| "process_ports d adj cfg ((port_id, queue_id, rx, evs) # rest) app = do {
     (tx, app) \<leftarrow> process_burst d adj cfg port_id queue_id rx app;
     app \<leftarrow> (if cf_age_thread cfg then simple_fwd_handle_aging evs port_id queue_id app else Some app);
     (tx', app) \<leftarrow> process_ports d adj cfg rest app;
     Some (tx @ tx', app) }"

text \<open>One iteration of the loop, without the printing of statistics: per port its queue, the packets received
  and the callbacks of the aging call.\<close>

definition simple_fwd_process_pkts ::
  "dpdk \<Rightarrow> (nat \<Rightarrow> rte_mbuf \<Rightarrow> rte_mbuf) \<Rightarrow> simple_fwd_config \<Rightarrow> (nat \<Rightarrow> u16) \<Rightarrow>
   (nat \<Rightarrow> (packet_env \<times> rte_mbuf) list) \<Rightarrow> (nat \<Rightarrow> entry_event list) \<Rightarrow>
   simple_fwd_app \<Rightarrow> ((u32 \<times> u16 \<times> rte_mbuf) list \<times> simple_fwd_app) option" where
  "simple_fwd_process_pkts d adj cfg queues rx evs =
     process_ports d adj cfg [(0, queues 0, rx 0, evs 0), (1, queues 1, rx 1, evs 1)]"

section \<open>Start and end\<close>

text \<open>\<open>simple_fwd_create_ins\<close>; the ports and pipes are created by calls of the library afterwards.\<close>

definition simple_fwd_create_ins ::
  "(u32 \<Rightarrow> bool) \<Rightarrow> (u32 \<Rightarrow> u32) \<Rightarrow> bool \<Rightarrow> bool \<Rightarrow> bool \<Rightarrow> bool \<Rightarrow> u16 \<Rightarrow> simple_fwd_app option" where
  "simple_fwd_create_ins is_power_of_2 align32pow2 mem ft_mem age_thread thread nb_queues =
     (if \<not> mem then None
      else case simple_fwd_ft_create is_power_of_2 align32pow2 8096 ft_mem age_thread thread of
        None \<Rightarrow> None
      | Some ft \<Rightarrow> Some \<lparr>app_ft = ft, app_ports = [None, None], pipe_vxlan = [None, None], pipe_gre = [None, None],
          pipe_gtp = [None, None], app_nb_queues = nb_queues, statuses = (\<lambda>_. None), hw_added = []\<rparr>)"

text \<open>The state of the flow table when the application frees it.\<close>

definition simple_fwd_destroy_ins :: "simple_fwd_app \<Rightarrow> simple_fwd_app" where
  "simple_fwd_destroy_ins app = (case snd (simple_fwd_ft_destroy (Some (app_ft app))) of
     None \<Rightarrow> app | Some ft \<Rightarrow> app\<lparr>app_ft := ft\<rparr>)"

end
