(* ===== verification/Simple_Fwd_Vnf.thy ===== *)
theory Simple_Fwd_Vnf
  imports Simple_Fwd
begin

text \<open>
  Correctness of the packet path of the simple forward application.  The hardware rules are accounted
  for: \<open>rules\<close> counts those a flow entry owns together with those that were removed, and every
  operation on the table keeps the count, so the rules the application has added are at all
  times the rules of its table and the removed ones.
\<close>

section \<open>The rules of a table\<close>

definition rule_of :: "simple_fwd_ft_entry \<Rightarrow> u16 \<times> nat option" where
  "rule_of e = (pe_pipe_queue (e_pipe e), pe_hw_entry (e_pipe e))"

definition rules :: "simple_fwd_ft \<Rightarrow> (u16 \<times> nat option) multiset" where
  "rules ft = image_mset rule_of (filter_mset (\<lambda>e. pe_is_hw (e_pipe e)) (mset (ft_entries ft))) + mset (hw_removed ft)"

lemma mset_split_unique:
  assumes "distinct (map f xs)" "e \<in> set xs"
  shows "mset xs = add_mset e (mset (filter (\<lambda>x. f x \<noteq> f e) xs))"
  using assms
proof (induction xs)
  case (Cons x xs)
  show ?case
  proof (cases "x = e")
    case True
    then have "f y \<noteq> f e" if "y \<in> set xs" for y using that Cons.prems(1) by (metis distinct.simps(2) imageI list.set_map list.simps(9))
    then show ?thesis using True by (simp cong: filter_cong)
  next
    case False
    then show ?thesis using Cons by auto
  qed
qed simp

lemma rules_destroy:
  assumes "ft_wf ft" "e \<in> set (ft_entries ft)"
  shows "rules (ft_destroy_entry e ft) = rules ft"
proof -
  have d: "distinct (map e_addr (ft_entries ft))" using assms(1) by (simp add: ft_wf_def)
  have "hw_removed (ft_destroy_entry e ft) = hw_removed ft @ (if pe_is_hw (e_pipe e) then [rule_of e] else [])"
    by (simp add: ft_destroy_entry_def simple_fwd_aged_flow_cb_def list_remove_def Let_def rule_of_def)
  then show ?thesis
    by (simp add: rules_def entries_destroy mset_split_unique [OF d assms(2)] del: mset_filter)
qed

lemma rules_upd:
  assumes "\<And>e. e \<in> set (ft_entries ft) \<Longrightarrow> e_addr e = p \<Longrightarrow>
     pe_is_hw (e_pipe (f e)) = pe_is_hw (e_pipe e) \<and> (pe_is_hw (e_pipe e) \<longrightarrow> rule_of (f e) = rule_of e)"
  shows "rules (entry_upd p f ft) = rules ft"
proof -
  have "image_mset rule_of (filter_mset (\<lambda>e. pe_is_hw (e_pipe e)) (mset (map (\<lambda>e. if e_addr e = p then f e else e) es))) =
      image_mset rule_of (filter_mset (\<lambda>e. pe_is_hw (e_pipe e)) (mset es))"
    if "set es \<subseteq> set (ft_entries ft)" for es
    using that by (induction es) (use assms in auto)
  then show ?thesis by (simp add: rules_def entries_upd del: mset_map)
qed

lemma rules_add: "ft_wf ft \<Longrightarrow> \<not> pe_is_hw (e_pipe e) \<Longrightarrow> rules (ft_add e ft) = rules ft"
  using ft_index_less [of ft "k_rss_hash (e_key e)"]
  by (simp add: rules_def ft_add_def entries_insert) (simp add: ft_insert_def)

lemma rules_next_fid [simp]: "rules (next_fid ft) = rules ft"
  by (simp add: rules_def)

lemma rules_establish:
  assumes "ft_wf ft" "e \<in> set (ft_entries ft)" "\<not> pe_is_hw (e_pipe e)" "pe_is_hw (e_pipe (f e))"
  shows "rules (entry_upd (e_addr e) f ft) = add_mset (rule_of (f e)) (rules ft)"
proof -
  have d: "distinct (map e_addr (ft_entries ft))" using assms(1) by (simp add: ft_wf_def)
  let ?g = "\<lambda>x. if e_addr x = e_addr e then f x else x"
  have "image_mset ?g (mset (filter (\<lambda>x. e_addr x \<noteq> e_addr e) es)) = mset (filter (\<lambda>x. e_addr x \<noteq> e_addr e) es)" for es
    by (induction es) auto
  then have "mset (ft_entries (entry_upd (e_addr e) f ft)) =
      add_mset (f e) (mset (filter (\<lambda>x. e_addr x \<noteq> e_addr e) (ft_entries ft)))"
    by (simp add: entries_upd mset_split_unique [OF d assms(2)] del: mset_filter)
  then show ?thesis
    using assms(3,4) by (simp add: rules_def mset_split_unique [OF d assms(2)] del: mset_filter)
qed

section \<open>Aging keeps the rules\<close>

text \<open>What of an entry the aging thread never changes.\<close>

definition profile :: "simple_fwd_ft_entry \<Rightarrow> simple_fwd_pipe_entry \<times> u32 \<times> simple_fwd_ft_key" where
  "profile e = (e_pipe e, e_age_sec e, e_key e)"

lemma scan_profiles: "map profile (fst (aging_scan obs es)) = map profile es"
  by (induction es; force simp: profile_def simple_fwd_ft_update_counter_def Let_def split: option.splits prod.splits bool.splits)

lemma rules_profiles:
  assumes "map profile (ft_entries ft') = map profile (ft_entries ft)" "hw_removed ft' = hw_removed ft"
  shows "rules ft' = rules ft"
proof -
  have r: "image_mset rule_of (filter_mset (\<lambda>e. pe_is_hw (e_pipe e)) M) =
      image_mset (\<lambda>x. (pe_pipe_queue (fst x), pe_hw_entry (fst x))) (filter_mset (\<lambda>x. pe_is_hw (fst x)) (image_mset profile M))" for M
    by (induction M) (auto simp: rule_of_def profile_def)
  have "image_mset profile (mset (ft_entries ft')) = image_mset profile (mset (ft_entries ft))"
    using assms(1) by (metis mset_map)
  then show ?thesis using assms(2) by (simp add: rules_def r)
qed

lemma scanned_profiles:
  assumes "i < length (buckets ft)"
  shows "map profile (ft_entries (scanned obs i ft)) = map profile (ft_entries ft)"
  using assms map_concat_upd [of i "buckets ft" profile "fst (aging_scan obs (buckets ft ! i))"]
  by (simp add: ft_entries_def scanned_def scan_profiles)

lemma rules_scanned: "i < length (buckets ft) \<Longrightarrow> rules (scanned obs i ft) = rules ft"
  by (rule rules_profiles) (simp_all add: scanned_profiles, simp add: scanned_def)

text \<open>A table that holds only flows of another one, and accounts for the same rules.\<close>

definition sub_table :: "simple_fwd_ft \<Rightarrow> simple_fwd_ft \<Rightarrow> bool" where
  "sub_table ft' ft \<longleftrightarrow> ft_wf ft' \<and> rules ft' = rules ft \<and> profile ` set (ft_entries ft') \<subseteq> profile ` set (ft_entries ft)"

lemma sub_table_trans: "sub_table ft'' ft' \<Longrightarrow> sub_table ft' ft \<Longrightarrow> sub_table ft'' ft"
  by (auto simp: sub_table_def)

lemma sub_table_scanned:
  assumes "ft_wf ft" "i < length (buckets ft)"
  shows "sub_table (scanned obs i ft) ft"
  using scanned_wf [OF assms] rules_scanned [OF assms(2)] arg_cong [OF scanned_profiles [OF assms(2)], of set]
  by (simp add: sub_table_def)

lemma sub_table_destroy:
  assumes "ft_wf ft" "e \<in> set (ft_entries ft)"
  shows "sub_table (ft_destroy_entry e ft) ft"
  using ft_destroy_wf [OF assms] rules_destroy [OF assms] by (auto simp: sub_table_def entries_destroy)

lemma sub_table_aging_step:
  assumes "ft_wf ft" "i < length (buckets ft)" "simple_fwd_ft_aging_ft_entry obs i ft = Some (r, ft')"
  shows "sub_table ft' ft"
proof -
  have "sub_table ft ft" using assms(1) by (simp add: sub_table_def)
  moreover have "sub_table (ft_destroy_entry e (scanned obs i ft)) ft" if "snd (aging_scan obs (buckets ft ! i)) = Some e" for e
    using sub_table_destroy [OF scanned_wf [OF assms(1,2)] scan_found_in(1) [OF assms(2) that]]
      sub_table_scanned [OF assms(1,2)] by (rule sub_table_trans)
  ultimately show ?thesis
    using assms(3) sub_table_scanned [OF assms(1,2)]
    by (auto simp: aging_step_cases [OF assms(1,2)] split: if_splits option.splits)
qed

lemma sub_table_aging_bucket:
  assumes "ft_wf ft" "i < length (buckets ft)" "aging_bucket obs k i ft = Some (k', ft')"
  shows "sub_table ft' ft"
  using assms
proof (induction obs k i ft rule: aging_bucket.induct)
  case (1 obs k i ft)
  obtain r ft1 where s: "simple_fwd_ft_aging_ft_entry (obs k) i ft = Some (r, ft1)" "ft_wf ft1" "length (buckets ft1) = length (buckets ft)"
    using aging_step_wf [OF 1(2,3), of "obs k"] by blast
  have st: "sub_table ft1 ft" using sub_table_aging_step [OF 1(2,3) s(1)] .
  show ?case
  proof (cases r)
    case True
    then have "aging_bucket obs (k + 1) i ft1 = Some (k', ft')"
      using 1(4) s(1) by (simp add: aging_bucket.simps [of obs k])
    then have "sub_table ft' ft1" using 1(1) [OF s(1) refl True] s 1(3) by simp
    then show ?thesis using st by (rule sub_table_trans)
  next
    case False
    then show ?thesis using 1(4) s(1) st by (simp add: aging_bucket.simps [of obs k])
  qed
qed

lemma sub_table_aging_buckets:
  "ft_wf ft \<Longrightarrow> \<forall>i \<in> set is. i < length (buckets ft) \<Longrightarrow> aging_buckets obs k is ft = Some (k', ft') \<Longrightarrow> sub_table ft' ft"
proof (induction "is" arbitrary: k ft)
  case Nil
  then show ?case by (simp add: sub_table_def)
next
  case (Cons i rest)
  obtain k1 ft1 where b: "aging_bucket obs k i ft = Some (k1, ft1)" "ft_wf ft1" "length (buckets ft1) = length (buckets ft)"
    using aging_bucket_returns [OF Cons.prems(1), of i obs k] Cons.prems(2) by auto
  have "sub_table ft' ft1" using Cons.IH [of ft1 k1] Cons.prems b by simp
  moreover have "sub_table ft1 ft" using sub_table_aging_bucket [OF Cons.prems(1) _ b(1)] Cons.prems(2) by simp
  ultimately show ?case by (rule sub_table_trans)
qed

lemma sub_table_aging_main:
  assumes "ft_wf ft"
  shows "\<exists>k' ft'. simple_fwd_ft_aging_main obs k ft = Some (k', ft') \<and> sub_table ft' ft"
proof (cases "(ucast (stats_add ft - stats_rm ft) :: u32) = 0")
  case True
  then show ?thesis using assms by (simp add: simple_fwd_ft_aging_main_def sub_table_def)
next
  case False
  have l: "\<forall>i \<in> set [0..<unat (cfg_size ft)]. i < length (buckets ft)" using assms by (simp add: ft_wf_def)
  from aging_buckets_returns [OF assms this, of obs k] show ?thesis
    using False sub_table_aging_buckets [OF assms l, of obs k] by (auto simp: simple_fwd_ft_aging_main_def)
qed

section \<open>The completion callback\<close>

text \<open>What the library guarantees about a callback: its context is a status object that has not been
  deleted, an aged rule belongs to a flow of the table.  \<open>S\<close> and \<open>P\<close> are the status objects and flow
  entries the running handler holds: their rules are neither deleted nor aged before it has added them.\<close>

definition event_ok :: "nat set \<Rightarrow> nat set \<Rightarrow> entry_event \<Rightarrow> simple_fwd_app \<Rightarrow> bool" where
  "event_ok S P ev app = (case ev_user_ctx ev of
     None \<Rightarrow> True
   | Some s \<Rightarrow> (case statuses app s of
        None \<Rightarrow> False
      | Some st \<Rightarrow> (ev_op ev = OP_DEL \<longrightarrow> s \<notin> S) \<and>
          (ev_op ev = OP_AGED \<longrightarrow> es_ft_entry st \<notin> P \<and> entry_at (es_ft_entry st) (app_ft app) \<noteq> None)))"

fun events_ok :: "nat set \<Rightarrow> nat set \<Rightarrow> entry_event list \<Rightarrow> simple_fwd_app \<Rightarrow> bool" where
  "events_ok S P [] app = True"
| "events_ok S P (ev # evs) app = (event_ok S P ev app \<and>
     (case simple_fwd_check_for_valid_entry ev app of None \<Rightarrow> True | Some app' \<Rightarrow> events_ok S P evs app'))"

definition same_setup :: "simple_fwd_app \<Rightarrow> simple_fwd_app \<Rightarrow> bool" where
  "same_setup app' app \<longleftrightarrow> app_ports app' = app_ports app \<and> pipe_vxlan app' = pipe_vxlan app \<and>
     pipe_gre app' = pipe_gre app \<and> pipe_gtp app' = pipe_gtp app \<and> app_nb_queues app' = app_nb_queues app"

definition evolved :: "nat set \<Rightarrow> nat set \<Rightarrow> simple_fwd_app \<Rightarrow> simple_fwd_app \<Rightarrow> bool" where
  "evolved S P app app' \<longleftrightarrow> sub_table (app_ft app') (app_ft app) \<and>
     set (ft_entries (app_ft app')) \<subseteq> set (ft_entries (app_ft app)) \<and>
     (\<forall>e \<in> set (ft_entries (app_ft app)). e_addr e \<in> P \<longrightarrow> e \<in> set (ft_entries (app_ft app'))) \<and>
     (\<forall>s \<in> S. statuses app s \<noteq> None \<longrightarrow> statuses app' s \<noteq> None) \<and>
     hw_added app' = hw_added app \<and> same_setup app' app"

lemma evolved_trans:
  assumes "evolved S P app app'" "evolved S P app' app''"
  shows "evolved S P app app''"
proof -
  have "sub_table (app_ft app'') (app_ft app)" using assms sub_table_trans by (auto simp: evolved_def)
  then show ?thesis using assms unfolding evolved_def same_setup_def by (metis subset_trans)
qed

lemma evolved_refl: "ft_wf (app_ft app) \<Longrightarrow> evolved S P app app"
  by (simp add: evolved_def sub_table_def same_setup_def)

lemma check_for_valid_entry_evolved:
  assumes "ft_wf (app_ft app)" "event_ok S P ev app"
  shows "\<exists>app'. simple_fwd_check_for_valid_entry ev app = Some app' \<and> evolved S P app app' \<and>
     (ev_op ev \<noteq> OP_AGED \<longrightarrow> app_ft app' = app_ft app)"
proof (cases "ev_user_ctx ev")
  case None
  then show ?thesis using evolved_refl [OF assms(1)] by (simp add: simple_fwd_check_for_valid_entry_def)
next
  case (Some s)
  then obtain st where st: "statuses app s = Some st" using assms(2) by (auto simp: event_ok_def split: option.splits)
  have same: "evolved S P app (app\<lparr>statuses := g\<rparr>)" if "\<forall>s \<in> S. statuses app s \<noteq> None \<longrightarrow> g s \<noteq> None" for g
    using assms(1) that by (simp add: evolved_def sub_table_def same_setup_def)
  show ?thesis
  proof (cases "ev_op ev")
    case OP_AGED
    then have "es_ft_entry st \<notin> P" and "entry_at (es_ft_entry st) (app_ft app) \<noteq> None"
      using assms(2) Some st by (simp_all add: event_ok_def)
    then obtain e where e: "e \<in> set (ft_entries (app_ft app))" "e_addr e = es_ft_entry st" "e_addr e \<notin> P"
      using entry_at_Some [OF assms(1)] by (metis not_None_eq)
    have d: "simple_fwd_ft_destroy_entry (es_ft_entry st) (app_ft app) = Some (ft_destroy_entry e (app_ft app))"
      using destroy_entry_value [OF assms(1) e(1)] e(2) by simp
    have "evolved S P app (app\<lparr>app_ft := ft_destroy_entry e (app_ft app), statuses := (statuses app)(s \<mapsto> x)\<rparr>)" for x
      using sub_table_destroy [OF assms(1) e(1)] e(3)
      by (auto simp: evolved_def same_setup_def entries_destroy)
    then show ?thesis using OP_AGED Some st d by (simp add: simple_fwd_check_for_valid_entry_def Let_def)
  qed (use Some st assms(2) in \<open>auto simp: simple_fwd_check_for_valid_entry_def Let_def event_ok_def intro!: same\<close>)
qed

lemma entries_process_evolved:
  "ft_wf (app_ft app) \<Longrightarrow> events_ok S P evs app \<Longrightarrow>
   \<exists>app'. entries_process evs app = Some app' \<and> evolved S P app app' \<and>
     ((\<forall>ev \<in> set evs. ev_op ev \<noteq> OP_AGED) \<longrightarrow> app_ft app' = app_ft app)"
proof (induction evs arbitrary: app)
  case Nil
  then show ?case by (simp add: evolved_refl)
next
  case (Cons ev evs)
  obtain app1 where a: "simple_fwd_check_for_valid_entry ev app = Some app1" "evolved S P app app1"
      "ev_op ev \<noteq> OP_AGED \<longrightarrow> app_ft app1 = app_ft app"
    using check_for_valid_entry_evolved [OF Cons.prems(1), of S P ev] Cons.prems(2) by auto
  have "ft_wf (app_ft app1)" using a(2) by (simp add: evolved_def sub_table_def)
  then obtain app' where "entries_process evs app1 = Some app'" "evolved S P app1 app'"
      "(\<forall>ev \<in> set evs. ev_op ev \<noteq> OP_AGED) \<longrightarrow> app_ft app' = app_ft app1"
    using Cons.IH [of app1] Cons.prems(2) a(1) by auto
  then show ?case using a evolved_trans [OF a(2)] by auto
qed

section \<open>The invariant\<close>

text \<open>A flow of the table is offloaded: it belongs to a tunnel, has a rule in hardware, and ages within 5 to 59
  seconds.\<close>

definition flow_ok :: "simple_fwd_ft_entry \<Rightarrow> bool" where
  "flow_ok e \<longleftrightarrow> pe_is_hw (e_pipe e) \<and> pe_hw_entry (e_pipe e) \<noteq> None \<and> e_age_sec e \<in> {5..59} \<and>
     k_tun_type (e_key e) \<noteq> TUN_NONE"

definition added :: "simple_fwd_app \<Rightarrow> (u16 \<times> nat option) multiset" where
  "added app = image_mset (\<lambda>(q, h). (q, Some h)) (mset (hw_added app))"

definition app_inv :: "simple_fwd_app \<Rightarrow> bool" where
  "app_inv app \<longleftrightarrow> ft_wf (app_ft app) \<and> (\<forall>e \<in> set (ft_entries (app_ft app)). flow_ok e) \<and>
     added app = rules (app_ft app) \<and> length (app_ports app) = 2 \<and> length (pipe_vxlan app) = 2 \<and>
     length (pipe_gre app) = 2 \<and> length (pipe_gtp app) = 2"

lemma flow_ok_profile: "profile e' = profile e \<Longrightarrow> flow_ok e' = flow_ok e"
  by (simp add: profile_def flow_ok_def)

lemma app_inv_evolved:
  assumes "app_inv app" "evolved S P app app'"
  shows "app_inv app'"
  using assms unfolding app_inv_def evolved_def sub_table_def added_def same_setup_def by (metis subsetD)

lemma app_inv_sub_table:
  assumes "app_inv app" "sub_table ft' (app_ft app)"
  shows "app_inv (app\<lparr>app_ft := ft'\<rparr>)"
proof -
  have "flow_ok e'" if "e' \<in> set (ft_entries ft')" for e'
  proof -
    have "profile e' \<in> profile ` set (ft_entries (app_ft app))" using assms(2) that unfolding sub_table_def by blast
    then obtain e where "e \<in> set (ft_entries (app_ft app))" "profile e' = profile e" by blast
    then show ?thesis using assms(1) flow_ok_profile [of e' e] by (simp add: app_inv_def)
  qed
  then show ?thesis using assms by (simp add: app_inv_def sub_table_def added_def)
qed

section \<open>Adding a rule\<close>

definition packet_ok :: "bytes \<Rightarrow> simple_fwd_pkt_info \<Rightarrow> bool" where
  "packet_ok b pinfo \<longleftrightarrow> pinfo_ok b pinfo \<and> f_l2 (pi_outer pinfo) = Some 0 \<and> unat (pi_orig_port_id pinfo) < 2"

lemma build_entry_match_returns:
  assumes "packet_ok b pinfo"
  shows "\<exists>m. simple_fwd_build_entry_match b pinfo = Some m"
proof -
  have o: "format_ok b (pi_outer pinfo)" and l2: "f_l2 (pi_outer pinfo) = Some 0"
    and i: "pi_tun_type pinfo \<noteq> TUN_NONE \<Longrightarrow> format_ok b (pi_inner pinfo)"
    using assms by (simp_all add: packet_ok_def pinfo_ok_def)
  have "12 \<le> length b" using o by (auto simp: format_ok_def)
  then have "\<exists>x. rd_bytes b 0 6 = Some x" "\<exists>x. rd_bytes b 6 6 = Some x" by (simp_all add: rd_simps)
  then show ?thesis
    using format_reads [OF o] format_reads [OF i]
    by (cases "pi_tun_type pinfo = TUN_NONE")
       (auto simp: simple_fwd_build_entry_match_def l2 Let_def simple_fwd_pinfo_outer_mac_dst_def simple_fwd_pinfo_outer_mac_src_def
          simple_fwd_pinfo_outer_ipv4_dst_def simple_fwd_pinfo_outer_ipv4_src_def simple_fwd_pinfo_inner_ipv4_dst_def
          simple_fwd_pinfo_inner_ipv4_src_def simple_fwd_pinfo_outer_src_port_def simple_fwd_pinfo_outer_dst_port_def
          simple_fwd_pinfo_inner_src_port_def simple_fwd_pinfo_inner_dst_port_def)
qed

lemma select_pipe_returns:
  assumes "length (pipe_vxlan app) = 2" "length (pipe_gre app) = 2" "length (pipe_gtp app) = 2"
    and "unat (pi_orig_port_id pinfo) < 2"
  shows "\<exists>pipe. simple_fwd_select_pipe pinfo app = Some pipe \<and> (pi_tun_type pinfo = TUN_NONE \<longrightarrow> pipe = None)"
  using assms by (auto simp: simple_fwd_select_pipe_def array_at_def split: doca_flow_tun_type.splits)

lemma aging_sec_bounds: "mo_aging_sec (simple_fwd_build_entry_monitor r) \<in> {5..59}"
proof -
  have "unat ((ucast r :: u32) mod 55) < 55" by (simp add: unat_mod)
  then show ?thesis
    by (auto simp: simple_fwd_build_entry_monitor_def word_le_nat_alt unat_word_ariths unsigned_of_nat take_bit_eq_mod)
qed

text \<open>The state in which the library processes the new rule.\<close>

definition submitted :: "simple_fwd_pkt_info \<Rightarrow> nat \<Rightarrow> nat \<Rightarrow> nat \<Rightarrow> simple_fwd_app \<Rightarrow> simple_fwd_app" where
  "submitted pinfo p s h app = app\<lparr>statuses := (statuses app)(s \<mapsto>
       \<lparr>es_failure = False, es_nb_processed = 0, es_ft_entry = p, es_port = app_ports app ! unat (pi_orig_port_id pinfo)\<rparr>),
     hw_added := hw_added app @ [(pi_pipe_queue pinfo, h)]\<rparr>"

definition completions_ok :: "packet_env \<Rightarrow> simple_fwd_pkt_info \<Rightarrow> nat \<Rightarrow> simple_fwd_app \<Rightarrow> bool" where
  "completions_ok env pinfo p app \<longleftrightarrow> (\<forall>s h. en_calloc_status env = Some s \<longrightarrow>
     events_ok {s} {p} (en_events env) (submitted pinfo p s h app))"

text \<open>What adding a rule for the flow at \<open>p\<close> leaves of the table.\<close>

definition kept :: "packet_env \<Rightarrow> nat \<Rightarrow> simple_fwd_app \<Rightarrow> simple_fwd_app \<Rightarrow> bool" where
  "kept env p app app' \<longleftrightarrow> ft_wf (app_ft app') \<and> same_setup app' app \<and>
     set (ft_entries (app_ft app')) \<subseteq> set (ft_entries (app_ft app)) \<and>
     (\<forall>e \<in> set (ft_entries (app_ft app)). e_addr e = p \<longrightarrow> e \<in> set (ft_entries (app_ft app'))) \<and>
     ((\<forall>ev \<in> set (en_events env). ev_op ev \<noteq> OP_AGED) \<longrightarrow> ft_entries (app_ft app') = ft_entries (app_ft app))"

definition rule_result ::
  "packet_env \<Rightarrow> simple_fwd_pkt_info \<Rightarrow> simple_fwd_app \<Rightarrow> (nat \<times> u32) option \<Rightarrow> simple_fwd_app \<Rightarrow> bool" where
  "rule_result env pinfo app r app' = (case r of
     None \<Rightarrow> \<exists>D. added app' = D + added app \<and> rules (app_ft app') = D + rules (app_ft app)
   | Some (h, age) \<Rightarrow> added app' = add_mset (pi_pipe_queue pinfo, Some h) (added app) \<and>
       rules (app_ft app') = rules (app_ft app) \<and> pi_tun_type pinfo \<noteq> TUN_NONE \<and>
       age = ucast (en_rand env) mod 55 + 5)"

lemma rule_result_None: "added app' = D + added app \<Longrightarrow> rules (app_ft app') = D + rules (app_ft app) \<Longrightarrow>
    rule_result env pinfo app None app'"
  by (auto simp: rule_result_def)

lemma remove_rule_fields [simp]:
  "ft_entries (app_ft (remove_rule q h app)) = ft_entries (app_ft app)" "ft_wf (app_ft (remove_rule q h app)) = ft_wf (app_ft app)"
  "rules (app_ft (remove_rule q h app)) = add_mset (q, Some h) (rules (app_ft app))"
  "added (remove_rule q h app) = added app" "same_setup (remove_rule q h app) = same_setup app"
  by (simp_all add: remove_rule_def ft_entries_def ft_wf_def entry_placed_def ft_index_def rules_def added_def same_setup_def fun_eq_iff)

lemma pipe_add_entry_result:
  assumes wf: "ft_wf (app_ft app)" and su: "length (app_ports app) = 2" "length (pipe_vxlan app) = 2"
      "length (pipe_gre app) = 2" "length (pipe_gtp app) = 2"
    and pk: "packet_ok b pinfo" and ev: "completions_ok env pinfo p app"
  shows "\<exists>r app'. simple_fwd_pipe_add_entry env b pinfo p app = Some (r, app') \<and> kept env p app app' \<and>
           rule_result env pinfo app r app'"
proof -
  let ?q = "pi_pipe_queue pinfo" and ?n = "unat (pi_orig_port_id pinfo)"
  have same: "kept env p app (app\<lparr>statuses := g\<rparr>) \<and> rule_result env pinfo app None (app\<lparr>statuses := g\<rparr>)" for g
    using wf by (auto simp: kept_def same_setup_def rule_result_def added_def)
  have same': "kept env p app app \<and> rule_result env pinfo app None app" using same [of "statuses app"] by simp
  have port: "array_at (app_ports app) ?n = Some (app_ports app ! ?n)"
    using pk su by (simp add: array_at_def packet_ok_def)
  obtain m where m: "simple_fwd_build_entry_match b pinfo = Some m" using build_entry_match_returns [OF pk] ..
  obtain pipe where pipe: "simple_fwd_select_pipe pinfo app = Some pipe" "pi_tun_type pinfo = TUN_NONE \<longrightarrow> pipe = None"
    using select_pipe_returns [OF su(2-4)] pk by (auto simp: packet_ok_def)
  let ?add = "\<lambda>s pipe. en_add_entry env ?q pipe m (add_entry_actions pinfo) (simple_fwd_build_entry_monitor (en_rand env))"
  show ?thesis
  proof (cases "en_calloc_status env")
    case None
    then show ?thesis using same' by (auto simp: simple_fwd_pipe_add_entry_def)
  next
    case (Some s)
    note s = this
    show ?thesis
    proof (cases pipe)
      case None
      then show ?thesis using same' s port pipe by (auto simp: simple_fwd_pipe_add_entry_def)
    next
      case (Some pipe')
      show ?thesis
      proof (cases "?add s pipe'")
        case None
        then show ?thesis
          using same s port pipe Some m by (auto simp: simple_fwd_pipe_add_entry_def Let_def)
      next
        case (Some h)
        let ?app1 = "submitted pinfo p s h app"
        have "ft_wf (app_ft ?app1)" "events_ok {s} {p} (en_events env) ?app1"
          using wf ev s by (simp_all add: submitted_def completions_ok_def)
        then obtain app2 where a2: "entries_process (en_events env) ?app1 = Some app2" "evolved {s} {p} ?app1 app2"
            "(\<forall>ev \<in> set (en_events env). ev_op ev \<noteq> OP_AGED) \<longrightarrow> app_ft app2 = app_ft ?app1"
          using entries_process_evolved by blast
        have k: "kept env p app app2" and k': "kept env p app (remove_rule ?q h app2)"
          using a2(2,3) by (auto simp: kept_def evolved_def submitted_def sub_table_def same_setup_def)
        have r: "rules (app_ft app2) = rules (app_ft app)" "added app2 = add_mset (?q, Some h) (added app)"
          using a2(2) by (simp_all add: evolved_def sub_table_def submitted_def added_def)
        have rr: "rule_result env pinfo app None (remove_rule ?q h app2)"
          by (rule rule_result_None [of _ "{#(?q, Some h)#}"]) (simp_all add: r)
        obtain st where st: "statuses app2 s = Some st" using a2(2) by (auto simp: evolved_def submitted_def)
        have t: "pi_tun_type pinfo \<noteq> TUN_NONE" using pipe(2) \<open>pipe = Some pipe'\<close> by auto
        have "simple_fwd_pipe_add_entry env b pinfo p app =
            (if en_process env \<noteq> DOCA_SUCCESS \<or> es_nb_processed st \<noteq> 1 \<or> es_failure st
             then Some (None, remove_rule ?q h app2)
             else Some (Some (h, mo_aging_sec (simple_fwd_build_entry_monitor (en_rand env))), app2))"
          using s port pipe(1) \<open>pipe = Some pipe'\<close> m Some a2(1) st
          by (simp add: simple_fwd_pipe_add_entry_def Let_def submitted_def)
        then show ?thesis
          using k k' rr r t by (auto simp: rule_result_def simple_fwd_build_entry_monitor_def)
      qed
    qed
  qed
qed

section \<open>New flows\<close>

lemma entry_upd_comp: "keeps_place g \<Longrightarrow> entry_upd p f (entry_upd p g ft) = entry_upd p (f \<circ> g) ft"
  by (auto simp: entry_upd_def keeps_place_def)

lemma keeps_place_comp: "keeps_place f \<Longrightarrow> keeps_place g \<Longrightarrow> keeps_place (f \<circ> g)"
  by (simp add: keeps_place_def)

lemma entry_write_value:
  assumes "ft_wf (app_ft app)" "e \<in> set (ft_entries (app_ft app))"
  shows "entry_write (e_addr e) f app = Some (app\<lparr>app_ft := entry_upd (e_addr e) f (app_ft app)\<rparr>)"
  using entry_at_Some [OF assms(1), of "e_addr e" e] assms(2) by (simp add: entry_write_def)

definition set_queue :: "u16 \<Rightarrow> simple_fwd_ft_entry \<Rightarrow> simple_fwd_ft_entry" where
  "set_queue q e = e\<lparr>e_pipe := (e_pipe e)\<lparr>pe_pipe_queue := q\<rparr>\<rparr>"

definition set_hw_entry :: "nat option \<Rightarrow> simple_fwd_ft_entry \<Rightarrow> simple_fwd_ft_entry" where
  "set_hw_entry h e = e\<lparr>e_pipe := (e_pipe e)\<lparr>pe_hw_entry := h\<rparr>\<rparr>"

definition set_is_hw :: "simple_fwd_ft_entry \<Rightarrow> simple_fwd_ft_entry" where
  "set_is_hw e = e\<lparr>e_pipe := (e_pipe e)\<lparr>pe_is_hw := True\<rparr>\<rparr>"

text \<open>The entry of a new flow with rule \<open>h\<close>.\<close>

definition offloaded :: "clock \<Rightarrow> nat \<Rightarrow> u32 \<Rightarrow> simple_fwd_ft_entry \<Rightarrow> simple_fwd_ft_entry" where
  "offloaded c h age = set_is_hw \<circ> (simple_fwd_ft_update_expiration c \<circ> (simple_fwd_ft_update_age_sec age \<circ> set_hw_entry (Some h)))"

lemma keeps_place_setters [simp]:
  "keeps_place (set_queue q)" "keeps_place (set_hw_entry h)" "keeps_place set_is_hw"
  "keeps_place (simple_fwd_ft_update_age_sec age)" "keeps_place count_packet"
  by (simp_all add: keeps_place_def set_queue_def set_hw_entry_def set_is_hw_def simple_fwd_ft_update_age_sec_def count_packet_def)

lemma keeps_place_offloaded [simp]: "keeps_place (offloaded c h age)"
  by (simp add: offloaded_def keeps_place_comp)

text \<open>The state in which the rule of a new flow is added.\<close>

definition prepared_ft :: "simple_fwd_pkt_info \<Rightarrow> simple_fwd_ft_key \<Rightarrow> nat \<Rightarrow> simple_fwd_ft \<Rightarrow> simple_fwd_ft" where
  "prepared_ft pinfo key p ft =
     entry_upd p (set_queue (pi_pipe_queue pinfo)) (ft_add (new_entry ft p key) (next_fid ft))"

definition packet_env_ok :: "packet_env \<Rightarrow> bytes \<Rightarrow> simple_fwd_pkt_info \<Rightarrow> simple_fwd_app \<Rightarrow> bool" where
  "packet_env_ok env b pinfo app \<longleftrightarrow> (\<forall>p. en_calloc_entry env = Some p \<longrightarrow>
     p \<notin> e_addr ` set (ft_entries (app_ft app)) \<and>
     (\<forall>key. simple_fwd_ft_key_fill b pinfo = Some (0, key) \<longrightarrow>
        completions_ok env pinfo p (app\<lparr>app_ft := prepared_ft pinfo key p (app_ft app)\<rparr>)))"

lemma pipe_entry0_not_hw [simp]: "\<not> pe_is_hw pipe_entry0"
  by (simp add: pipe_entry0_def)

lemma set_ft_add: "ft_wf ft \<Longrightarrow> set (ft_entries (ft_add e ft)) = insert e (set (ft_entries ft))"
  using entries_insert [OF ft_index_less [of ft "k_rss_hash (e_key e)"], of e]
  by (metis ft_add_def set_mset_add_mset_insert set_mset_mset)

definition new_flow :: "simple_fwd_ft \<Rightarrow> simple_fwd_ft_key \<Rightarrow> nat \<Rightarrow> bool" where
  "new_flow ft key p \<longleftrightarrow> ft_wf ft \<and> ft_lookup ft key = None \<and> p \<notin> e_addr ` set (ft_entries ft)"

lemma added_wf: "new_flow ft key p \<Longrightarrow> ft_wf (ft_add (new_entry ft p key) (next_fid ft))"
  using fts.inv_ins [OF _ new_entry_fresh] by (simp add: new_flow_def)

lemma prepared_wf: "new_flow ft key p \<Longrightarrow> ft_wf (prepared_ft pinfo key p ft)"
  by (simp add: prepared_ft_def entry_upd_wf added_wf)

lemma prepared_entries:
  assumes "new_flow ft key p"
  shows "set (ft_entries (prepared_ft pinfo key p ft)) =
     insert (set_queue (pi_pipe_queue pinfo) (new_entry ft p key)) (set (ft_entries ft))"
proof -
  note a = assms [unfolded new_flow_def]
  have "(\<lambda>e. if e_addr e = p then f e else e) ` set (ft_entries ft) = set (ft_entries ft)" for f
    using a by (force simp: image_iff)
  then show ?thesis
    using set_ft_add [of "next_fid ft" "new_entry ft p key"] a by (simp add: prepared_ft_def entries_upd)
qed

lemma prepared_rules:
  assumes "new_flow ft key p"
  shows "rules (prepared_ft pinfo key p ft) = rules ft"
proof -
  note a = assms [unfolded new_flow_def]
  have "\<not> pe_is_hw (e_pipe e)" if "e \<in> set (ft_entries (ft_add (new_entry ft p key) (next_fid ft)))" "e_addr e = p" for e
    using that set_ft_add [of "next_fid ft" "new_entry ft p key"] a
    by (metis image_eqI insertE new_entry_fields(4) next_fid_same(1,3) pipe_entry0_not_hw)
  then have "rules (prepared_ft pinfo key p ft) = rules (ft_add (new_entry ft p key) (next_fid ft))"
    unfolding prepared_ft_def by (intro rules_upd) (auto simp: set_queue_def)
  then show ?thesis using rules_add [of "next_fid ft" "new_entry ft p key"] a by (simp add: pipe_entry0_def)
qed

lemma prepared_lookup:
  assumes "new_flow ft key p" "keeps_place f"
  shows "ft_lookup (entry_upd p f (prepared_ft pinfo key p ft)) =
     (ft_lookup ft)(key \<mapsto> f (set_queue (pi_pipe_queue pinfo) (new_entry ft p key)))"
proof (rule ext)
  fix k
  note a = assms(1) [unfolded new_flow_def]
  have "ft_lookup (ft_add (new_entry ft p key) (next_fid ft)) = (ft_lookup ft)(key \<mapsto> new_entry ft p key)"
    using fts.lookup_ins [OF _ new_entry_fresh, of ft p key] a by simp
  moreover have "e_addr e \<noteq> p" if "ft_lookup ft k = Some e" for e
    using that a ft_lookup_Some by blast
  ultimately show "ft_lookup (entry_upd p f (prepared_ft pinfo key p ft)) k =
      ((ft_lookup ft)(key \<mapsto> f (set_queue (pi_pipe_queue pinfo) (new_entry ft p key)))) k"
    using assms(2)
    by (cases "ft_lookup ft k") (auto simp: prepared_ft_def entry_upd_comp entry_upd_lookup keeps_place_comp)
qed


text \<open>The entry of the new flow while its rule is added.\<close>

abbreviation pending :: "simple_fwd_ft \<Rightarrow> simple_fwd_pkt_info \<Rightarrow> simple_fwd_ft_key \<Rightarrow> nat \<Rightarrow> simple_fwd_ft_entry" where
  "pending ft pinfo key p \<equiv> set_queue (pi_pipe_queue pinfo) (new_entry ft p key)"

lemma pending_fields [simp]:
  "e_addr (pending ft pinfo key p) = p" "e_key (pending ft pinfo key p) = key"
  "\<not> pe_is_hw (e_pipe (pending ft pinfo key p))" "pe_pipe_queue (e_pipe (pending ft pinfo key p)) = pi_pipe_queue pinfo"
  by (simp_all add: set_queue_def)

lemma offloaded_fields:
  "pe_is_hw (e_pipe (offloaded c h age e))" "rule_of (offloaded c h age e) = (pe_pipe_queue (e_pipe e), Some h)"
  "e_age_sec (offloaded c h age e) = age" "e_key (offloaded c h age e) = e_key e" "e_addr (offloaded c h age e) = e_addr e"
  "pe_hw_entry (e_pipe (offloaded c h age e)) = Some h"
  by (simp_all add: offloaded_def set_is_hw_def simple_fwd_ft_update_expiration_def simple_fwd_ft_update_age_sec_def
      set_hw_entry_def rule_of_def)

text \<open>What follows the attempt to add the rule.\<close>

definition finish_new_flow ::
  "packet_env \<Rightarrow> nat \<Rightarrow> (nat \<times> u32) option \<Rightarrow> simple_fwd_ft \<Rightarrow> simple_fwd_ft" where
  "finish_new_flow env p r ft = (case r of
     None \<Rightarrow> ft_destroy_entry (the (entry_at p (entry_upd p (set_hw_entry None) ft))) (entry_upd p (set_hw_entry None) ft)
   | Some (h, age) \<Rightarrow> entry_upd p (offloaded (en_clock_age env) h age) ft)"

lemma upd_entries: "e \<in> set (ft_entries ft) \<Longrightarrow> f e \<in> set (ft_entries (entry_upd (e_addr e) f ft))"
  by (force simp: entries_upd)

lemma entry_write_upd:
  assumes "ft_wf (app_ft app)" "e \<in> set (ft_entries (app_ft app))" "keeps_place g"
  shows "entry_write (e_addr e) f (app\<lparr>app_ft := entry_upd (e_addr e) g (app_ft app)\<rparr>) =
           Some (app\<lparr>app_ft := entry_upd (e_addr e) (f \<circ> g) (app_ft app)\<rparr>)"
proof -
  have "e_addr (g e) = e_addr e" using assms(3) by (simp add: keeps_place_def)
  then show ?thesis
    using entry_write_value [of "app\<lparr>app_ft := entry_upd (e_addr e) g (app_ft app)\<rparr>" "g e" f]
      upd_entries [OF assms(2), of g] entry_upd_wf [OF assms(1,3)] entry_upd_comp [OF assms(3)] by simp
qed

lemma handle_new_flow_value:
  assumes "new_flow (app_ft app) key p" "simple_fwd_ft_key_fill b pinfo = Some (0, key)" "en_calloc_entry env = Some p"
    and "simple_fwd_pipe_add_entry env b pinfo p (app\<lparr>app_ft := prepared_ft pinfo key p (app_ft app)\<rparr>) = Some (r, app')"
    and "kept env p (app\<lparr>app_ft := prepared_ft pinfo key p (app_ft app)\<rparr>) app'"
  shows "simple_fwd_handle_new_flow env b pinfo app =
     Some (if r = None then - 1 else 0, Some p, app'\<lparr>app_ft := finish_new_flow env p r (app_ft app')\<rparr>)"
proof -
  let ?ft = "app_ft app" and ?e = "pending (app_ft app) pinfo key p"
  have wf: "ft_wf ?ft" using assms(1) by (simp add: new_flow_def)
  have "new_entry ?ft p key \<in> set (ft_entries (ft_add (new_entry ?ft p key) (next_fid ?ft)))"
    using set_ft_add [of "next_fid ?ft"] wf by simp
  then have q: "entry_write p (set_queue (pi_pipe_queue pinfo)) (app\<lparr>app_ft := ft_add (new_entry ?ft p key) (next_fid ?ft)\<rparr>) =
      Some (app\<lparr>app_ft := prepared_ft pinfo key p ?ft\<rparr>)"
    using entry_write_value [of "app\<lparr>app_ft := ft_add (new_entry ?ft p key) (next_fid ?ft)\<rparr>" "new_entry ?ft p key"]
      added_wf [OF assms(1)] by (simp add: prepared_ft_def)
  have wf': "ft_wf (app_ft app')" and e: "?e \<in> set (ft_entries (app_ft app'))"
    using assms(5) prepared_entries [OF assms(1), of pinfo] by (auto simp: kept_def)
  note w = entry_write_value [OF wf' e, simplified] and wu = entry_write_upd [OF wf' e, simplified]
  have d: "entry_at p (entry_upd p f (app_ft app')) = Some (f ?e)" if "keeps_place f" for f
    using entry_at_Some [OF entry_upd_wf [OF wf' that, of p], of p "f ?e"] upd_entries [OF e, of f] that
    by (simp add: keeps_place_def)
  have dv: "simple_fwd_ft_destroy_entry p (entry_upd p f (app_ft app')) =
      Some (ft_destroy_entry (f ?e) (entry_upd p f (app_ft app')))" if "keeps_place f" for f
    using destroy_entry_value [OF entry_upd_wf [OF wf' that, of p], of "f ?e"] upd_entries [OF e, of f] that
    by (simp add: keeps_place_def)
  show ?thesis
    using add_new_value [OF wf assms(2), of p "en_clock_new env"] assms(3,4) q
    by (cases r) (auto simp: simple_fwd_handle_new_flow_def w wu keeps_place_comp d dv finish_new_flow_def offloaded_def
        set_queue_def [symmetric] set_hw_entry_def [symmetric] set_is_hw_def [symmetric])
qed


lemma app_inv_setup: "app_inv app \<Longrightarrow> length (app_ports app) = 2 \<and> length (pipe_vxlan app) = 2 \<and>
    length (pipe_gre app) = 2 \<and> length (pipe_gtp app) = 2"
  by (simp add: app_inv_def)

lemma entries_upd_other:
  "x \<in> set (ft_entries (entry_upd p f ft)) \<Longrightarrow> keeps_place f \<Longrightarrow> e_addr x \<noteq> p \<Longrightarrow> x \<in> set (ft_entries ft)"
  by (auto simp: entries_upd keeps_place_def split: if_splits)

lemma wf_same_addr:
  "ft_wf ft \<Longrightarrow> x \<in> set (ft_entries ft) \<Longrightarrow> y \<in> set (ft_entries ft) \<Longrightarrow> e_addr x = e_addr y \<Longrightarrow> x = y"
  by (simp add: ft_wf_def distinct_map inj_on_def)

lemma entries_upd_same:
  assumes "ft_wf ft" "e \<in> set (ft_entries ft)" "x \<in> set (ft_entries (entry_upd (e_addr e) f ft))" "keeps_place f"
    and "e_addr x = e_addr e"
  shows "x = f e"
proof -
  obtain y where "y \<in> set (ft_entries ft)" "x = (if e_addr y = e_addr e then f y else y)"
    using assms(3) by (auto simp: entries_upd)
  then show ?thesis
    using assms(2,4,5) wf_same_addr [OF assms(1) _ assms(2), of y] by (auto simp: keeps_place_def split: if_splits)
qed

lemma finish_new_flow_inv:
  assumes inv: "app_inv app" and new: "new_flow (app_ft app) key p"
    and k: "kept env p (app\<lparr>app_ft := prepared_ft pinfo key p (app_ft app)\<rparr>) app'"
    and r: "rule_result env pinfo (app\<lparr>app_ft := prepared_ft pinfo key p (app_ft app)\<rparr>) r app'"
    and t: "k_tun_type key = pi_tun_type pinfo"
  shows "app_inv (app'\<lparr>app_ft := finish_new_flow env p r (app_ft app')\<rparr>)"
proof -
  let ?e = "pending (app_ft app) pinfo key p"
  have wf': "ft_wf (app_ft app')" and e: "?e \<in> set (ft_entries (app_ft app'))" and ss: "same_setup app' app"
    using k prepared_entries [OF new, of pinfo] by (auto simp: kept_def same_setup_def)
  have old: "flow_ok x" if "x \<in> set (ft_entries (app_ft app'))" "e_addr x \<noteq> p" for x
  proof -
    have "x \<in> set (ft_entries (app_ft app))"
      using that k prepared_entries [OF new, of pinfo] by (auto simp: kept_def)
    then show ?thesis using inv by (simp add: app_inv_def)
  qed
  have ru: "rules (app_ft app) = added app" using inv by (simp add: app_inv_def)
  have ad: "added (a\<lparr>app_ft := x\<rparr>) = added a" for a x by (simp add: added_def)
  show ?thesis
  proof (cases r)
    case None
    let ?ft = "entry_upd p (set_hw_entry None) (app_ft app')" and ?x = "set_hw_entry None ?e"
    have w: "ft_wf ?ft" by (simp add: entry_upd_wf wf')
    have x: "?x \<in> set (ft_entries ?ft)" "e_addr ?x = p" using upd_entries [OF e, of "set_hw_entry None"] by (simp_all add: set_hw_entry_def)
    then have at: "entry_at p ?ft = Some ?x" by (simp add: entry_at_Some [OF w])
    have "rules ?ft = rules (app_ft app')"
    proof (rule rules_upd)
      fix y assume "y \<in> set (ft_entries (app_ft app'))" "e_addr y = p"
      then have "y = ?e" using wf_same_addr [OF wf' _ e, of y] by simp
      then show "pe_is_hw (e_pipe (set_hw_entry None y)) = pe_is_hw (e_pipe y) \<and>
          (pe_is_hw (e_pipe y) \<longrightarrow> rule_of (set_hw_entry None y) = rule_of y)" by (simp add: set_hw_entry_def set_queue_def)
    qed
    then have "rules (ft_destroy_entry ?x ?ft) = added app'"
      using r None ru prepared_rules [OF new] by (auto simp: rules_destroy [OF w x(1)] rule_result_def ad)
    moreover have "flow_ok y" if "y \<in> set (ft_entries (ft_destroy_entry ?x ?ft))" for y
      using that x(2) old entries_upd_other [of y p "set_hw_entry None" "app_ft app'"] by (simp add: entries_destroy)
    ultimately show ?thesis
      using None at ft_destroy_wf [OF w x(1)] ss app_inv_setup [OF inv]
      by (simp add: finish_new_flow_def app_inv_def ad same_setup_def)
  next
    case (Some ha)
    then obtain h age where ha: "r = Some (h, age)" by (cases ha) simp
    let ?f = "offloaded (en_clock_age env) h age"
    let ?ft = "entry_upd p ?f (app_ft app')"
    have "rules ?ft = add_mset (rule_of (?f ?e)) (rules (app_ft app'))"
      using rules_establish [OF wf' e, of ?f] by (simp add: offloaded_fields)
    then have "rules ?ft = added app'"
      using r ha ru prepared_rules [OF new] by (simp add: rule_result_def ad offloaded_fields)
    moreover have "flow_ok y" if "y \<in> set (ft_entries ?ft)" for y
    proof (cases "e_addr y = p")
      case True
      then have "y = ?f ?e" using entries_upd_same [OF wf' e, of y ?f] that by simp
      then show ?thesis
        using r ha t aging_sec_bounds [of "en_rand env"]
        by (simp add: flow_ok_def offloaded_fields rule_result_def simple_fwd_build_entry_monitor_def)
    next
      case False
      then show ?thesis using old entries_upd_other [OF that] by simp
    qed
    ultimately show ?thesis
      using ha ss app_inv_setup [OF inv] by (simp add: finish_new_flow_def app_inv_def ad same_setup_def entry_upd_wf wf')
  qed
qed

lemma ft_lookup_entries: "ft_entries ft' = ft_entries ft \<Longrightarrow> ft_lookup ft' = ft_lookup ft"
  by (simp add: ft_lookup_def fun_eq_iff)

lemma finish_new_flow_lookup:
  assumes new: "new_flow (app_ft app) key p"
    and k: "kept env p (app\<lparr>app_ft := prepared_ft pinfo key p (app_ft app)\<rparr>) app'"
    and ev: "\<forall>ev \<in> set (en_events env). ev_op ev \<noteq> OP_AGED"
  shows "ft_lookup (finish_new_flow env p r (app_ft app')) = (case r of
      None \<Rightarrow> ft_lookup (app_ft app)
    | Some (h, age) \<Rightarrow> (ft_lookup (app_ft app))(key \<mapsto> offloaded (en_clock_age env) h age (pending (app_ft app) pinfo key p)))"
proof -
  let ?pr = "prepared_ft pinfo key p (app_ft app)" and ?e = "pending (app_ft app) pinfo key p"
  have es: "ft_entries (app_ft app') = ft_entries ?pr" and wf': "ft_wf (app_ft app')"
    using k ev by (simp_all add: kept_def)
  have u: "ft_lookup (entry_upd p f (app_ft app')) = (ft_lookup (app_ft app))(key \<mapsto> f ?e)" if "keeps_place f" for f
  proof -
    have "ft_entries (entry_upd p f (app_ft app')) = ft_entries (entry_upd p f ?pr)" by (simp add: entries_upd es)
    from ft_lookup_entries [OF this] show ?thesis by (simp add: prepared_lookup [OF new that])
  qed
  show ?thesis
  proof (cases r)
    case None
    let ?ft = "entry_upd p (set_hw_entry None) (app_ft app')" and ?x = "set_hw_entry None ?e"
    have w: "ft_wf ?ft" by (simp add: entry_upd_wf wf')
    have "?e \<in> set (ft_entries (app_ft app'))" using es prepared_entries [OF new] by simp
    then have x: "?x \<in> set (ft_entries ?ft)" "e_addr ?x = p"
      using upd_entries [of ?e _ "set_hw_entry None"] by (simp_all add: set_hw_entry_def)
    then have "entry_at p ?ft = Some ?x" by (simp add: entry_at_Some [OF w])
    moreover have "e_key ?x = key" by (simp add: set_hw_entry_def)
    ultimately show ?thesis
      using None ft_destroy_lookup [OF w x(1)] u [of "set_hw_entry None"] new
      by (simp add: finish_new_flow_def new_flow_def fun_eq_iff)
  next
    case (Some ha)
    then show ?thesis using u by (cases ha) (simp add: finish_new_flow_def)
  qed
qed


text \<open>The library takes the rule of a new flow and reports its completion.\<close>

definition accepts :: "packet_env \<Rightarrow> simple_fwd_pkt_info \<Rightarrow> simple_fwd_app \<Rightarrow> bool" where
  "accepts env pinfo app \<longleftrightarrow> (\<exists>p s pipe. en_calloc_entry env = Some p \<and> en_calloc_status env = Some s \<and>
     simple_fwd_select_pipe pinfo app = Some (Some pipe) \<and>
     (\<forall>m actions monitor. en_add_entry env (pi_pipe_queue pinfo) pipe m actions monitor \<noteq> None) \<and>
     en_process env = DOCA_SUCCESS \<and> en_events env = [\<lparr>ev_success = True, ev_op = OP_ADD, ev_user_ctx = Some s\<rparr>])"

lemma pipe_add_entry_accepts:
  assumes "accepts env pinfo app" "packet_ok b pinfo" "length (app_ports app) = 2"
    and "simple_fwd_pipe_add_entry env b pinfo p (app\<lparr>app_ft := ft\<rparr>) = Some (r, app')"
  shows "r \<noteq> None"
proof -
  obtain s pipe where s: "en_calloc_status env = Some s" "simple_fwd_select_pipe pinfo app = Some (Some pipe)"
      "\<And>m actions monitor. en_add_entry env (pi_pipe_queue pinfo) pipe m actions monitor \<noteq> None"
      "en_process env = DOCA_SUCCESS" "en_events env = [\<lparr>ev_success = True, ev_op = OP_ADD, ev_user_ctx = Some s\<rparr>]"
    using assms(1) by (auto simp: accepts_def)
  obtain m where m: "simple_fwd_build_entry_match b pinfo = Some m" using build_entry_match_returns [OF assms(2)] ..
  obtain h where h: "en_add_entry env (pi_pipe_queue pinfo) pipe m (add_entry_actions pinfo)
      (simple_fwd_build_entry_monitor (en_rand env)) = Some h" using s(3) by blast
  have sp: "simple_fwd_select_pipe pinfo (app\<lparr>app_ft := ft\<rparr>) = Some (Some pipe)"
    using s(2) by (cases "pi_tun_type pinfo") (simp_all add: simple_fwd_select_pipe_def)
  have "array_at (app_ports app) (unat (pi_orig_port_id pinfo)) = Some (app_ports app ! unat (pi_orig_port_id pinfo))"
    using assms(2,3) by (simp add: array_at_def packet_ok_def)
  then show ?thesis
    using assms(4) s(1,4,5) m h sp
    by (auto simp: simple_fwd_pipe_add_entry_def simple_fwd_check_for_valid_entry_def Let_def)
qed

lemma app_inv_upd:
  assumes "app_inv app" "keeps_place f"
    and "\<And>e. pe_is_hw (e_pipe (f e)) = pe_is_hw (e_pipe e) \<and> rule_of (f e) = rule_of e \<and> flow_ok (f e) = flow_ok e"
  shows "app_inv (app\<lparr>app_ft := entry_upd p f (app_ft app)\<rparr>)"
  using assms rules_upd [of "app_ft app" p f] by (auto simp: app_inv_def entry_upd_wf added_def entries_upd)

lemma expiration_profile [simp]: "profile (simple_fwd_ft_update_expiration c e) = profile e"
  by (simp add: profile_def simple_fwd_ft_update_expiration_def)

lemma app_inv_expiration: "app_inv app \<Longrightarrow> app_inv (app\<lparr>app_ft := entry_upd p (simple_fwd_ft_update_expiration c) (app_ft app)\<rparr>)"
  using flow_ok_profile [OF expiration_profile]
  by (rule_tac app_inv_upd) (simp_all add: rule_of_def simple_fwd_ft_update_expiration_def)

lemma app_inv_count: "app_inv app \<Longrightarrow> app_inv (app\<lparr>app_ft := entry_upd p count_packet (app_ft app)\<rparr>)"
  by (rule app_inv_upd) (simp_all add: rule_of_def count_packet_def flow_ok_def)

lemma upd_lookup_at:
  assumes "ft_wf ft" "ft_lookup ft key = Some e" "keeps_place f"
  shows "ft_lookup (entry_upd (e_addr e) f ft) = (ft_lookup ft)(key \<mapsto> f e)"
proof (rule ext)
  fix k
  have e: "e \<in> set (ft_entries ft)" "e_key e = key" using assms(2) ft_lookup_Some [OF assms(1)] by auto
  show "ft_lookup (entry_upd (e_addr e) f ft) k = ((ft_lookup ft)(key \<mapsto> f e)) k"
  proof (cases "ft_lookup ft k")
    case None
    then show ?thesis using assms(2) by (auto simp: entry_upd_lookup [OF assms(3)])
  next
    case (Some a)
    then have a: "a \<in> set (ft_entries ft)" "e_key a = k" using ft_lookup_Some [OF assms(1)] by auto
    have "e_addr a = e_addr e \<longleftrightarrow> k = key"
      using wf_same_addr [OF assms(1) a(1) e(1)] a(2) e(2) Some assms(2) by (metis option.inject)
    moreover have "k = key \<Longrightarrow> a = e" using Some assms(2) by simp
    ultimately show ?thesis using Some by (cases "k = key") (simp_all add: entry_upd_lookup [OF assms(3)])
  qed
qed

lemma handle_new_flow_effect:
  assumes inv: "app_inv app" and pk: "packet_ok b pinfo" and env: "packet_env_ok env b pinfo app"
    and key: "simple_fwd_ft_key_fill b pinfo = Some (0, key)" "k_tun_type key = pi_tun_type pinfo"
    and new: "ft_lookup (app_ft app) key = None"
  shows "\<exists>r p app'. simple_fwd_handle_new_flow env b pinfo app = Some (r, p, app') \<and> app_inv app' \<and>
     (r = 0 \<longrightarrow> (\<exists>q e. p = Some q \<and> e \<in> set (ft_entries (app_ft app')) \<and> e_addr e = q \<and> e_key e = key)) \<and>
     (accepts env pinfo app \<longrightarrow> r = 0) \<and>
     ((\<forall>ev \<in> set (en_events env). ev_op ev \<noteq> OP_AGED) \<longrightarrow>
       (r = - 1 \<and> ft_lookup (app_ft app') = ft_lookup (app_ft app)) \<or>
       (r = 0 \<and> (\<exists>h q. p = Some q \<and> added app' = add_mset (pi_pipe_queue pinfo, Some h) (added app) \<and>
          ft_lookup (app_ft app') = (ft_lookup (app_ft app))(key \<mapsto>
            offloaded (en_clock_age env) h (ucast (en_rand env) mod 55 + 5) (pending (app_ft app) pinfo key q)))))"
proof (cases "en_calloc_entry env")
  case None
  then show ?thesis
    using inv key by (simp add: simple_fwd_handle_new_flow_def simple_fwd_ft_add_new_def accepts_def)
next
  case (Some p)
  let ?app = "app\<lparr>app_ft := prepared_ft pinfo key p (app_ft app)\<rparr>" and ?e = "pending (app_ft app) pinfo key p"
  have nf: "new_flow (app_ft app) key p"
    using inv new env Some by (simp add: new_flow_def app_inv_def packet_env_ok_def)
  have "completions_ok env pinfo p ?app" using env Some key(1) by (simp add: packet_env_ok_def)
  then obtain r app' where r: "simple_fwd_pipe_add_entry env b pinfo p ?app = Some (r, app')" "kept env p ?app app'"
      "rule_result env pinfo ?app r app'"
    using pipe_add_entry_result [of ?app b pinfo env p] prepared_wf [OF nf] app_inv_setup [OF inv] pk by auto
  let ?fin = "app'\<lparr>app_ft := finish_new_flow env p r (app_ft app')\<rparr>"
  have fi: "app_inv ?fin" using finish_new_flow_inv [OF inv nf r(2,3) key(2)] .
  have v: "simple_fwd_handle_new_flow env b pinfo app = Some (if r = None then - 1 else 0, Some p, ?fin)"
    using handle_new_flow_value [OF nf key(1) Some r(1,2)] .
  have e: "?e \<in> set (ft_entries (app_ft app'))" using r(2) prepared_entries [OF nf, of pinfo] by (auto simp: kept_def)
  have l: "ft_lookup (app_ft ?fin) = (case r of None \<Rightarrow> ft_lookup (app_ft app)
      | Some (h, age) \<Rightarrow> (ft_lookup (app_ft app))(key \<mapsto> offloaded (en_clock_age env) h age ?e))"
    if "\<forall>ev \<in> set (en_events env). ev_op ev \<noteq> OP_AGED"
    using finish_new_flow_lookup [OF nf r(2) that, of r] by simp
  show ?thesis
  proof (cases r)
    case None
    then have "\<not> accepts env pinfo app" using pipe_add_entry_accepts [OF _ pk _ r(1)] app_inv_setup [OF inv] by blast
    then show ?thesis using v fi l None by auto
  next
    case (Some ha)
    then obtain h age where ha: "r = Some (h, age)" by (cases ha) simp
    have "offloaded (en_clock_age env) h age ?e \<in> set (ft_entries (app_ft ?fin))"
      using upd_entries [OF e, of "offloaded (en_clock_age env) h age"] ha by (simp add: finish_new_flow_def)
    then have ex: "\<exists>e. e \<in> set (ft_entries (app_ft ?fin)) \<and> e_addr e = p \<and> e_key e = key"
      by (intro exI [of _ "offloaded (en_clock_age env) h age ?e"]) (simp add: offloaded_fields)
    have ad: "added ?fin = add_mset (pi_pipe_queue pinfo, Some h) (added app)" "age = ucast (en_rand env) mod 55 + 5"
      using r(3) ha by (simp_all add: rule_result_def added_def)
    show ?thesis using v fi l ex ad ha by (intro exI [of _ 0] exI [of _ "Some p"] exI [of _ ?fin]) auto
  qed
qed

section \<open>Packets\<close>

text \<open>The effect of a packet on the flow table when no other flow ages meanwhile.\<close>

definition packet_effect ::
  "packet_env \<Rightarrow> simple_fwd_pkt_info \<Rightarrow> simple_fwd_ft_key \<Rightarrow> int \<Rightarrow> simple_fwd_app \<Rightarrow> simple_fwd_app \<Rightarrow> bool" where
  "packet_effect env pinfo key r app app' = (case ft_lookup (app_ft app) key of
     Some e \<Rightarrow> r = 0 \<and> added app' = added app \<and>
       ft_lookup (app_ft app') = (ft_lookup (app_ft app))(key \<mapsto>
         count_packet (simple_fwd_ft_update_expiration (en_clock_find env) e))
   | None \<Rightarrow>
       r = - 1 \<and> ft_lookup (app_ft app') = ft_lookup (app_ft app) \<or>
       r = 0 \<and> (\<exists>h p. added app' = add_mset (pi_pipe_queue pinfo, Some h) (added app) \<and>
         ft_lookup (app_ft app') = (ft_lookup (app_ft app))(key \<mapsto>
           count_packet (offloaded (en_clock_age env) h (ucast (en_rand env) mod 55 + 5)
             (pending (app_ft app) pinfo key p)))))"

lemma added_ft [simp]: "added (app\<lparr>app_ft := ft\<rparr>) = added app"
  by (simp add: added_def)

lemma find_value:
  assumes "ft_wf ft" "simple_fwd_ft_key_fill b pinfo = Some (0, key)"
  shows "simple_fwd_ft_find b c pinfo ft = Some (case ft_lookup ft key of
      None \<Rightarrow> (DOCA_ERROR_NOT_FOUND, None, ft)
    | Some e \<Rightarrow> (DOCA_SUCCESS, Some (e_addr e), entry_upd (e_addr e) (simple_fwd_ft_update_expiration c) ft))"
  using assms by (auto simp: simple_fwd_ft_find_def ft_find_lookup split: option.splits)

lemma handle_packet_known:
  assumes inv: "app_inv app" and key: "simple_fwd_ft_key_fill b pinfo = Some (0, key)"
    and e: "ft_lookup (app_ft app) key = Some e" and need: "simple_fwd_need_new_ft pinfo"
  shows "\<exists>app'. simple_fwd_handle_packet env b pinfo app = Some (0, app') \<and> app_inv app' \<and> packet_effect env pinfo key 0 app app'"
proof -
  let ?u = "simple_fwd_ft_update_expiration (en_clock_find env)"
  let ?app1 = "app\<lparr>app_ft := entry_upd (e_addr e) ?u (app_ft app)\<rparr>"
  have wf: "ft_wf (app_ft app)" using inv by (simp add: app_inv_def)
  have m: "e \<in> set (ft_entries (app_ft app))" using e by (simp add: ft_lookup_Some [OF wf])
  have w: "entry_write (e_addr e) count_packet ?app1 =
      Some (app\<lparr>app_ft := entry_upd (e_addr e) (count_packet \<circ> ?u) (app_ft app)\<rparr>)"
    using entry_write_upd [OF wf m] by simp
  have "app_inv (app\<lparr>app_ft := entry_upd (e_addr e) (count_packet \<circ> ?u) (app_ft app)\<rparr>)"
    using app_inv_count [OF app_inv_expiration [OF inv, of "e_addr e" "en_clock_find env"], of "e_addr e"] by (simp add: entry_upd_comp)
  moreover have "packet_effect env pinfo key 0 app (app\<lparr>app_ft := entry_upd (e_addr e) (count_packet \<circ> ?u) (app_ft app)\<rparr>)"
    using upd_lookup_at [OF wf e, of "count_packet \<circ> ?u"] by (simp add: packet_effect_def e keeps_place_comp)
  moreover have "simple_fwd_handle_packet env b pinfo app =
      Some (0, app\<lparr>app_ft := entry_upd (e_addr e) (count_packet \<circ> ?u) (app_ft app)\<rparr>)"
    using need w by (simp add: simple_fwd_handle_packet_def find_value [OF wf key] e Let_def)
  ultimately show ?thesis by blast
qed

lemma handle_packet_new:
  assumes inv: "app_inv app" and pk: "packet_ok b pinfo" and env: "packet_env_ok env b pinfo app"
    and key: "simple_fwd_ft_key_fill b pinfo = Some (0, key)" "k_tun_type key = pi_tun_type pinfo"
    and new: "ft_lookup (app_ft app) key = None" and need: "simple_fwd_need_new_ft pinfo"
  shows "\<exists>r app'. simple_fwd_handle_packet env b pinfo app = Some (r, app') \<and> app_inv app' \<and>
    (accepts env pinfo app \<longrightarrow> r = 0) \<and>
    ((\<forall>ev \<in> set (en_events env). ev_op ev \<noteq> OP_AGED) \<longrightarrow> packet_effect env pinfo key r app app')"
proof -
  let ?calm = "\<forall>ev \<in> set (en_events env). ev_op ev \<noteq> OP_AGED"
  have wf: "ft_wf (app_ft app)" using inv by (simp add: app_inv_def)
  obtain r p app1 where n: "simple_fwd_handle_new_flow env b pinfo app = Some (r, p, app1)" "app_inv app1"
      "r = 0 \<longrightarrow> (\<exists>q e. p = Some q \<and> e \<in> set (ft_entries (app_ft app1)) \<and> e_addr e = q \<and> e_key e = key)"
      "accepts env pinfo app \<longrightarrow> r = 0"
      "?calm \<longrightarrow> (r = - 1 \<and> ft_lookup (app_ft app1) = ft_lookup (app_ft app)) \<or>
       (r = 0 \<and> (\<exists>h q. p = Some q \<and> added app1 = add_mset (pi_pipe_queue pinfo, Some h) (added app) \<and>
          ft_lookup (app_ft app1) = (ft_lookup (app_ft app))(key \<mapsto>
            offloaded (en_clock_age env) h (ucast (en_rand env) mod 55 + 5) (pending (app_ft app) pinfo key q))))"
    using handle_new_flow_effect [OF inv pk env key new] by blast
  have hp: "simple_fwd_handle_packet env b pinfo app =
      (if r \<noteq> 0 then Some (- 1, app1) else do { p \<leftarrow> p; app \<leftarrow> entry_write p count_packet app1; Some (0, app) })"
    using need n(1) by (simp add: simple_fwd_handle_packet_def find_value [OF wf key(1)] new Let_def)
  show ?thesis
  proof (cases "r = 0")
    case False
    then show ?thesis using hp n by (auto simp: packet_effect_def new)
  next
    case True
    then obtain e where e: "p = Some (e_addr e)" "e \<in> set (ft_entries (app_ft app1))" "e_key e = key" using n(3) by auto
    have wf1: "ft_wf (app_ft app1)" using n(2) by (simp add: app_inv_def)
    let ?fin = "app1\<lparr>app_ft := entry_upd (e_addr e) count_packet (app_ft app1)\<rparr>"
    have v: "simple_fwd_handle_packet env b pinfo app = Some (0, ?fin)"
      using hp True e entry_write_value [OF wf1 e(2)] by simp
    have le: "ft_lookup (app_ft app1) key = Some e" using e by (simp add: ft_lookup_Some [OF wf1])
    have "packet_effect env pinfo key 0 app ?fin" if calm: ?calm
    proof -
      obtain h q where h: "added app1 = add_mset (pi_pipe_queue pinfo, Some h) (added app)"
          "ft_lookup (app_ft app1) = (ft_lookup (app_ft app))(key \<mapsto>
            offloaded (en_clock_age env) h (ucast (en_rand env) mod 55 + 5) (pending (app_ft app) pinfo key q))"
        using n(5) calm True by auto
      then have "e = offloaded (en_clock_age env) h (ucast (en_rand env) mod 55 + 5) (pending (app_ft app) pinfo key q)"
        using le by simp
      then have "ft_lookup (app_ft ?fin) = (ft_lookup (app_ft app))(key \<mapsto> count_packet
          (offloaded (en_clock_age env) h (ucast (en_rand env) mod 55 + 5) (pending (app_ft app) pinfo key q)))"
        using upd_lookup_at [OF wf1 le, of count_packet] h(2) by simp
      then show ?thesis using h(1) by (auto simp: packet_effect_def new)
    qed
    then show ?thesis using v app_inv_count [OF n(2)] by auto
  qed
qed

lemma handle_packet_cases:
  assumes "app_inv app" "packet_ok b pinfo" "packet_env_ok env b pinfo app"
  shows "\<exists>key r app'. simple_fwd_ft_key_fill b pinfo = Some (0, key) \<and>
    simple_fwd_handle_packet env b pinfo app = Some (r, app') \<and> app_inv app' \<and>
    (\<not> simple_fwd_need_new_ft pinfo \<longrightarrow> r = - 1 \<and> app' = app) \<and>
    (simple_fwd_need_new_ft pinfo \<and> (ft_lookup (app_ft app) key \<noteq> None \<or> accepts env pinfo app) \<longrightarrow> r = 0) \<and>
    (simple_fwd_need_new_ft pinfo \<and> (\<forall>ev \<in> set (en_events env). ev_op ev \<noteq> OP_AGED) \<longrightarrow>
      packet_effect env pinfo key r app app')"
proof -
  obtain key where key: "simple_fwd_ft_key_fill b pinfo = Some (0, key)" "k_tun_type key = pi_tun_type pinfo"
    using key_fill_returns [of b pinfo] assms(2) by (auto simp: packet_ok_def)
  show ?thesis
  proof (cases "simple_fwd_need_new_ft pinfo")
    case False
    then show ?thesis using key assms(1) by (simp add: simple_fwd_handle_packet_def)
  next
    case True
    show ?thesis
    proof (cases "ft_lookup (app_ft app) key")
      case None
      then show ?thesis using handle_packet_new [OF assms key None True] key True by auto
    next
      case (Some e)
      then show ?thesis using handle_packet_known [OF assms(1) key(1) Some True, of env] key True by auto
    qed
  qed
qed

section \<open>The effect of a packet\<close>

text \<open>
  C10.  The packet handler, on every branch.  Given a parsed packet, and callbacks of the library that concern
  live rules only, the handler returns and keeps the invariant: the table is well formed, its flows are
  offloaded tunnel flows, and the rules added to the hardware are those of its entries and the
  removed ones.  A packet that is not TCP, UDP or GRE over IPv4 is refused and changes nothing.  A
  packet of a known flow refreshes and counts the flow and adds no rule.  A packet of a new flow
  either adds exactly this flow, with one rule and an aging time of 5 to 59 seconds, or fails and
  leaves the map of flows as it was, the rule taken back if there was one; it succeeds when the library
  takes the rule and reports its completion.
\<close>

theorem handle_packet_effect:
  assumes "app_inv app" "packet_ok b pinfo" "packet_env_ok env b pinfo app"
  shows "\<exists>key r app'. simple_fwd_ft_key_fill b pinfo = Some (0, key) \<and>
    simple_fwd_handle_packet env b pinfo app = Some (r, app') \<and> app_inv app' \<and>
    (\<not> simple_fwd_need_new_ft pinfo \<longrightarrow> r = - 1 \<and> app' = app) \<and>
    (simple_fwd_need_new_ft pinfo \<and> (ft_lookup (app_ft app) key \<noteq> None \<or> accepts env pinfo app) \<longrightarrow> r = 0) \<and>
    (simple_fwd_need_new_ft pinfo \<and> (\<forall>ev \<in> set (en_events env). ev_op ev \<noteq> OP_AGED) \<longrightarrow>
      packet_effect env pinfo key r app app')"
  using assms by (rule handle_packet_cases)

text \<open>A GRE packet with an inner ICMP packet, on port 1 and queue 3, arrives at an empty table.\<close>

definition gre_info :: simple_fwd_pkt_info where
  "gre_info = pinfo0\<lparr>pi_orig_port_id := 1, pi_pipe_queue := 3, pi_tun_type := TUN_GRE,
     pi_outer := \<lparr>f_l2 = Some 0, f_l3 = Some 14, f_l4 = Some 34, f_l3_type = IPV4, f_l4_type = PROTO_GRE, f_l7 = None\<rparr>,
     pi_inner := \<lparr>f_l2 = Some 38, f_l3 = Some 38, f_l4 = Some 58, f_l3_type = IPV4, f_l4_type = IPPROTO_ICMP, f_l7 = None\<rparr>\<rparr>"

definition empty_app :: simple_fwd_app where
  "empty_app = \<lparr>app_ft = sample_ft\<lparr>stats_add := 0, buckets := [[], []]\<rparr>, app_ports = [Some 0, Some 1],
     pipe_vxlan = [Some 10, Some 11], pipe_gre = [Some 12, Some 13], pipe_gtp = [Some 14, Some 15], app_nb_queues = 4,
     statuses = Map.empty, hw_added = []\<rparr>"

definition willing_env :: packet_env where
  "willing_env = \<lparr>en_clock_find = \<lparr>tsc = 1, timer_hz = 1\<rparr>, en_clock_new = \<lparr>tsc = 2, timer_hz = 1\<rparr>,
     en_clock_age = \<lparr>tsc = 3, timer_hz = 1\<rparr>, en_calloc_entry = Some 100, en_calloc_status = Some 200, en_rand = 60,
     en_add_entry = (\<lambda>q pipe m actions monitor. Some 7), en_process = DOCA_SUCCESS,
     en_events = [\<lparr>ev_success = True, ev_op = OP_ADD, ev_user_ctx = Some 200\<rparr>]\<rparr>"

theorem handle_packet_effect_witness:
  "\<exists>app' key e. simple_fwd_handle_packet willing_env (replicate 60 0) gre_info empty_app = Some (0, app') \<and> app_inv app' \<and>
     ft_lookup (app_ft app') key = Some e \<and> e_age_sec e = 10"
proof -
  have inv: "app_inv empty_app"
    by (auto simp: app_inv_def empty_app_def sample_ft_def ft_wf_def ft_entries_def added_def rules_def less_Suc_eq)
  have pk: "packet_ok (replicate 60 0) gre_info"
    by (simp add: packet_ok_def pinfo_ok_def format_ok_def gre_info_def)
  have "packet_env_ok willing_env (replicate 60 0) gre_info empty_app"
    by (simp add: packet_env_ok_def completions_ok_def willing_env_def event_ok_def submitted_def)
       (simp add: empty_app_def sample_ft_def ft_entries_def split: option.splits)
  moreover have "accepts willing_env gre_info empty_app"
    by (simp add: accepts_def willing_env_def simple_fwd_select_pipe_def gre_info_def array_at_def empty_app_def)
  moreover have "simple_fwd_need_new_ft gre_info" by (simp add: simple_fwd_need_new_ft_def gre_info_def)
  moreover have "\<forall>ev \<in> set (en_events willing_env). ev_op ev \<noteq> OP_AGED" by (simp add: willing_env_def)
  moreover have "ft_lookup (app_ft empty_app) k = None" for k
    by (simp add: ft_lookup_def empty_app_def ft_entries_def)
  ultimately obtain key app' where "simple_fwd_handle_packet willing_env (replicate 60 0) gre_info empty_app = Some (0, app')"
      "app_inv app'" "packet_effect willing_env gre_info key 0 empty_app app'" "ft_lookup (app_ft empty_app) key = None"
    using handle_packet_effect [OF inv pk, of willing_env] by fastforce
  moreover have "e_age_sec (count_packet e) = e_age_sec e" for e by (simp add: count_packet_def)
  ultimately show ?thesis
    by (fastforce simp: packet_effect_def offloaded_fields willing_env_def)
qed

end
