(* ===== verification/Simple_Fwd_Run.thy ===== *)
theory Simple_Fwd_Run
  imports Simple_Fwd_Vnf
begin

text \<open>
  The receive loop of the simple forward application and the states it reaches: an iteration returns and
  sends every packet on, and in every reachable state the hardware rules are accounted for.
\<close>

section \<open>The receive loop\<close>

text \<open>The parser leaves the outer header at the start of the packet.\<close>

lemma parse_ipv4_l2: "ensures (parse_ipv4 d b data len off fmt) (\<lambda>(r, fmt'). f_l2 fmt' = f_l2 fmt)"
  unfolding parse_ipv4_def by (intro vc rd_calls) auto

lemma parse_pkt_format_l2:
  "ensures (simple_fwd_parse_pkt_format d b data len l2 fmt) (\<lambda>(r, fmt'). f_l2 fmt' = Some data)"
  unfolding simple_fwd_parse_pkt_format_def
  by (intro vc rd_calls parse_ipv4_l2 [THEN ensures_call]) auto

lemma parse_packet_l2:
  assumes "simple_fwd_parse_packet d b len pinfo = Some (0, pinfo')"
  shows "f_l2 (pi_outer pinfo') = Some 0"
proof -
  obtain outer where o: "simple_fwd_parse_pkt_format d b 0 len True (pi_outer pinfo) = Some (0, outer)"
    using assms by (auto simp: simple_fwd_parse_packet_def Some_bind_iff Let_def split: if_splits)
  have l2: "f_l2 outer = Some 0"
    using ensuresD [OF parse_pkt_format_l2 o] by simp
  obtain off q where q: "simple_fwd_parse_is_tun b (pinfo\<lparr>pi_len := len, pi_outer := outer\<rparr>) = Some (off, q)"
    using assms o by (auto simp: simple_fwd_parse_packet_def Some_bind_iff Let_def)
  have "pi_outer pinfo' = pi_outer q"
    using assms o q
    by (auto simp: simple_fwd_parse_packet_def parse_inner_def Some_bind_iff Let_def split: if_splits doca_flow_tun_type.splits)
  then show ?thesis using is_tun_outer [OF q] l2 by simp
qed

text \<open>What is required of a received packet and of what it meets: it is long enough for the parser, it came
  from one of the two ports, and the environment of its handler is as above.\<close>

definition received_info :: "rte_mbuf \<Rightarrow> u16 \<Rightarrow> simple_fwd_pkt_info \<Rightarrow> simple_fwd_pkt_info" where
  "received_info m queue_id pinfo =
     pinfo\<lparr>pi_orig_port_id := mb_port m, pi_pipe_queue := queue_id, pi_rss_hash := mb_rss m\<rparr>"

definition mbuf_ok :: "dpdk \<Rightarrow> packet_env \<Rightarrow> rte_mbuf \<Rightarrow> u16 \<Rightarrow> simple_fwd_app \<Rightarrow> bool" where
  "mbuf_ok d env m queue_id app \<longleftrightarrow> 177 \<le> length (mb_data m) \<and> mb_port m < 2 \<and>
     (case simple_fwd_parse_packet d (mb_data m) (int (length (mb_data m))) pinfo0 of
        Some (r, pinfo) \<Rightarrow> r = 0 \<longrightarrow> packet_env_ok env (mb_data m) (received_info m queue_id pinfo) app
      | None \<Rightarrow> True)"

text \<open>Documented behaviour of \<open>rte_pktmbuf_adj\<close>: removing no bytes leaves the packet.\<close>

definition adj_documented :: "(nat \<Rightarrow> rte_mbuf \<Rightarrow> rte_mbuf) \<Rightarrow> bool" where
  "adj_documented adj \<longleftrightarrow> (\<forall>m. adj 0 m = m)"

lemma process_offload_returns:
  assumes "ipv4_hdr_len_ok d" "adj_documented adj" "app_inv app" "mbuf_ok d env m queue_id app"
  shows "\<exists>app'. simple_fwd_process_offload d adj env m queue_id app = Some (m, app') \<and> app_inv app'"
proof -
  let ?b = "mb_data m"
  have t: "pi_tun_type pinfo0 = TUN_NONE" by (simp add: pinfo0_def)
  obtain r pinfo where p: "simple_fwd_parse_packet d ?b (int (length ?b)) pinfo0 = Some (r, pinfo)"
    using parse_packet_returns [OF assms(1) _ t, of ?b "int (length ?b)"] assms(4) by (auto simp: mbuf_ok_def)
  show ?thesis
  proof (cases "r = 0")
    case False
    then show ?thesis using p assms(3) by (simp add: simple_fwd_process_offload_def)
  next
    case True
    let ?i = "received_info m queue_id pinfo"
    have "pinfo_ok ?b pinfo" using parse_packet_ok [OF p [unfolded True] _ t] by simp
    moreover have l2: "f_l2 (pi_outer pinfo) = Some 0" using parse_packet_l2 [OF p [unfolded True]] .
    ultimately have "packet_ok ?b ?i"
      using assms(4) by (simp add: packet_ok_def pinfo_ok_def received_info_def mbuf_ok_def word_less_nat_alt)
    moreover have "packet_env_ok env ?b ?i app" using assms(4) p True by (simp add: mbuf_ok_def)
    ultimately obtain x app' where "simple_fwd_handle_packet env ?b ?i app = Some (x, app')" "app_inv app'"
      using handle_packet_cases [OF assms(3)] by blast
    then show ?thesis
      using p True assms(2,3) l2
      by (simp add: simple_fwd_process_offload_def Let_def vnf_adjust_mbuf_def adj_documented_def received_info_def [symmetric])
         (simp add: received_info_def)
  qed
qed

fun burst_ok :: "dpdk \<Rightarrow> (nat \<Rightarrow> rte_mbuf \<Rightarrow> rte_mbuf) \<Rightarrow> simple_fwd_config \<Rightarrow> u16 \<Rightarrow> (packet_env \<times> rte_mbuf) list \<Rightarrow> simple_fwd_app \<Rightarrow> bool" where
  "burst_ok d adj cfg queue_id [] app = True"
| "burst_ok d adj cfg queue_id ((env, m) # rest) app = (\<not> cf_hw_offload cfg \<or> mbuf_ok d env m queue_id app \<and>
     (case simple_fwd_process_offload d adj env m queue_id app of
        None \<Rightarrow> True | Some (_, app') \<Rightarrow> burst_ok d adj cfg queue_id rest app'))"


lemma process_burst_returns:
  assumes "ipv4_hdr_len_ok d" "adj_documented adj" "app_inv app" "burst_ok d adj cfg queue_id rx app"
  shows "\<exists>app'. process_burst d adj cfg port_id queue_id rx app =
     Some (if cf_rx_only cfg then [] else map (\<lambda>(env, m). (port_id XOR 1, queue_id, m)) rx, app') \<and> app_inv app'"
  using assms(3,4)
proof (induction rx arbitrary: app)
  case (Cons em rest)
  obtain env m where em: "em = (env, m)" by (cases em)
  show ?case
  proof (cases "cf_hw_offload cfg")
    case True
    obtain app1 where a: "simple_fwd_process_offload d adj env m queue_id app = Some (m, app1)" "app_inv app1"
      using process_offload_returns [OF assms(1,2) Cons.prems(1), of env m queue_id] Cons.prems(2) True em by auto
    then show ?thesis using Cons.IH [OF a(2)] Cons.prems(2) True em by auto
  next
    case False
    then have "burst_ok d adj cfg queue_id rest app" by (cases rest) auto
    then show ?thesis using Cons.IH [OF Cons.prems(1)] False em by auto
  qed
qed simp

lemma handle_aging_returns:
  assumes "app_inv app" "events_ok {} {} evs app" "port_id < 2"
  shows "\<exists>app'. simple_fwd_handle_aging evs port_id queue app = Some app' \<and> app_inv app'"
proof -
  obtain app' where "entries_process evs app = Some app'" "evolved {} {} app app'"
    using entries_process_evolved [of app "{}" "{}" evs] assms(1,2) by (auto simp: app_inv_def)
  then show ?thesis
    using assms(1,3) app_inv_evolved [OF assms(1)]
    by (auto simp: simple_fwd_handle_aging_def array_at_def app_inv_def word_less_nat_alt)
qed

text \<open>One port of an iteration: the burst, then the callbacks of the aging call in the state it leaves.\<close>

fun ports_ok ::
  "dpdk \<Rightarrow> (nat \<Rightarrow> rte_mbuf \<Rightarrow> rte_mbuf) \<Rightarrow> simple_fwd_config \<Rightarrow>
   (u32 \<times> u16 \<times> (packet_env \<times> rte_mbuf) list \<times> entry_event list) list \<Rightarrow> simple_fwd_app \<Rightarrow> bool" where
  "ports_ok d adj cfg [] app = True"
| "ports_ok d adj cfg ((port_id, queue_id, rx, evs) # rest) app = (port_id < 2 \<and> burst_ok d adj cfg queue_id rx app \<and>
     (case process_burst d adj cfg port_id queue_id rx app of
        None \<Rightarrow> True
      | Some (_, app1) \<Rightarrow>
          if cf_age_thread cfg
          then events_ok {} {} evs app1 \<and>
            (case simple_fwd_handle_aging evs port_id queue_id app1 of
               None \<Rightarrow> True | Some app2 \<Rightarrow> ports_ok d adj cfg rest app2)
          else ports_ok d adj cfg rest app1))"

definition forwarded ::
  "simple_fwd_config \<Rightarrow> u32 \<times> u16 \<times> (packet_env \<times> rte_mbuf) list \<times> entry_event list \<Rightarrow> (u32 \<times> u16 \<times> rte_mbuf) list" where
  "forwarded cfg = (\<lambda>(port_id, queue_id, rx, evs).
     if cf_rx_only cfg then [] else map (\<lambda>(env, m). (port_id XOR 1, queue_id, m)) rx)"

lemma process_ports_returns:
  assumes "ipv4_hdr_len_ok d" "adj_documented adj" "app_inv app" "ports_ok d adj cfg ps app"
  shows "\<exists>app'. process_ports d adj cfg ps app = Some (concat (map (forwarded cfg) ps), app') \<and> app_inv app'"
  using assms(3,4)
proof (induction ps arbitrary: app)
  case (Cons x ps)
  obtain port_id queue_id rx evs where x: "x = (port_id, queue_id, rx, evs)" by (cases x)
  obtain app1 where b: "process_burst d adj cfg port_id queue_id rx app = Some (forwarded cfg x, app1)" "app_inv app1"
    using process_burst_returns [OF assms(1,2) Cons.prems(1), of cfg queue_id rx port_id] Cons.prems(2) x
    by (auto simp: forwarded_def)
  obtain app2 where a: "(if cf_age_thread cfg then simple_fwd_handle_aging evs port_id queue_id app1 else Some app1) = Some app2"
      "app_inv app2" "ports_ok d adj cfg ps app2"
    using handle_aging_returns [OF b(2), of evs port_id queue_id] b Cons.prems(2) x by (cases "cf_age_thread cfg") auto
  then show ?case using Cons.IH [OF a(2,3)] b x by auto
qed simp

section \<open>Reachable states\<close>

text \<open>DPDK documents \<open>rte_is_power_of_2\<close> and \<open>rte_align32pow2\<close>; the table size 8096 is not a power of two and is
  rounded up to 8192.\<close>

definition pow2_documented :: "(u32 \<Rightarrow> bool) \<Rightarrow> (u32 \<Rightarrow> u32) \<Rightarrow> bool" where
  "pow2_documented is_power_of_2 align32pow2 \<longleftrightarrow>
     (\<forall>n. is_power_of_2 n \<longleftrightarrow> (\<exists>k < 32. n = 2 ^ k)) \<and> (\<forall>n k. k < 32 \<and> 2 ^ (k - 1) < unat n \<and> unat n \<le> 2 ^ k \<longrightarrow> align32pow2 n = 2 ^ k)"

text \<open>The ports and pipes that the calls of the library have created.\<close>

definition with_pipes :: "nat option list \<Rightarrow> nat option list \<Rightarrow> nat option list \<Rightarrow> nat option list \<Rightarrow> simple_fwd_app \<Rightarrow> simple_fwd_app" where
  "with_pipes ports vxlan gre gtp app = app\<lparr>app_ports := ports, pipe_vxlan := vxlan, pipe_gre := gre, pipe_gtp := gtp\<rparr>"

text \<open>A run: creation, then iterations of the receive loops and passes of the aging thread in any order.\<close>

inductive vnf_reach :: "dpdk \<Rightarrow> (nat \<Rightarrow> rte_mbuf \<Rightarrow> rte_mbuf) \<Rightarrow> simple_fwd_config \<Rightarrow> simple_fwd_app \<Rightarrow> bool"
  for d adj cfg where
  vnf_start: "pow2_documented is_pow align \<Longrightarrow>
    simple_fwd_create_ins is_pow align mem ft_mem age_thread thread nb_queues = Some app \<Longrightarrow>
    length ports = 2 \<Longrightarrow> length vxlan = 2 \<Longrightarrow> length gre = 2 \<Longrightarrow> length gtp = 2 \<Longrightarrow>
    vnf_reach d adj cfg (with_pipes ports vxlan gre gtp app)"
| vnf_iteration: "vnf_reach d adj cfg app \<Longrightarrow>
    ports_ok d adj cfg [(0, queues 0, rx 0, evs 0), (1, queues 1, rx 1, evs 1)] app \<Longrightarrow>
    simple_fwd_process_pkts d adj cfg queues rx evs app = Some (tx, app') \<Longrightarrow> vnf_reach d adj cfg app'"
| vnf_aging_pass: "vnf_reach d adj cfg app \<Longrightarrow> simple_fwd_ft_aging_main obs k (app_ft app) = Some (k', ft') \<Longrightarrow>
    vnf_reach d adj cfg (app\<lparr>app_ft := ft'\<rparr>)"

lemma create_ins_inv:
  assumes "pow2_documented is_pow align" "simple_fwd_create_ins is_pow align mem ft_mem age_thread thread nb_queues = Some app"
    and "length ports = 2" "length vxlan = 2" "length gre = 2" "length gtp = 2"
  shows "app_inv (with_pipes ports vxlan gre gtp app)"
proof -
  have "(8096 :: u32) \<noteq> 2 ^ k" if "k < 32" for k
  proof
    assume "(8096 :: u32) = 2 ^ k"
    then have "bit (2 ^ k :: u32) 7" "bit (2 ^ k :: u32) 8" by (simp_all flip: \<open>8096 = 2 ^ k\<close>)
    then show False by (simp add: bit_exp_iff)
  qed
  then have n: "\<not> is_pow 8096" using assms(1) by (auto simp: pow2_documented_def)
  have a: "align 8096 = 8192"
    using assms(1) [unfolded pow2_documented_def, THEN conjunct2, rule_format, of 13 8096] by simp
  have "app_ft app = \<lparr>cfg_size = 16384, cfg_mask = 16383, stats_add = 0, stats_rm = 0, fid_ctr = 0,
      buckets = replicate 16384 [], hw_removed = []\<rparr>" "hw_added app = []"
    using assms(2) n a by (auto simp: simple_fwd_create_ins_def simple_fwd_ft_create_def push_bit_eq_mult Let_def
        split: if_splits option.splits)
  then show ?thesis
    using assms(3-6) by (simp add: app_inv_def with_pipes_def added_def ft_wf_def ft_entries_def rules_def)
qed


lemma vnf_reach_inv:
  assumes "vnf_reach d adj cfg app" "ipv4_hdr_len_ok d" "adj_documented adj"
  shows "app_inv app"
  using assms(1)
proof induction
  case (vnf_start is_pow align mem ft_mem age_thread thread nb_queues app ports vxlan gre gtp)
  then show ?case by (rule create_ins_inv)
next
  case (vnf_iteration app queues rx evs tx app')
  then show ?case
    using process_ports_returns [OF assms(2,3) vnf_iteration.IH vnf_iteration.hyps(2)]
    by (auto simp: simple_fwd_process_pkts_def)
next
  case (vnf_aging_pass app obs k k' ft')
  have "ft_wf (app_ft app)" using vnf_aging_pass.IH by (simp add: app_inv_def)
  then have "sub_table ft' (app_ft app)" using sub_table_aging_main [of "app_ft app" obs k] vnf_aging_pass.hyps(2) by auto
  then show ?case using app_inv_sub_table [OF vnf_aging_pass.IH] by blast
qed

lemma destroy_all_result:
  "ft_wf ft \<Longrightarrow> distinct (map e_addr es) \<Longrightarrow> set es \<subseteq> set (ft_entries ft) \<Longrightarrow>
   rules (destroy_all es ft) = rules ft \<and>
   ft_entries (destroy_all es ft) = filter (\<lambda>x. e_addr x \<notin> e_addr ` set es) (ft_entries ft)"
proof (induction es arbitrary: ft)
  case (Cons e es)
  have e: "e \<in> set (ft_entries ft)" using Cons.prems(3) by simp
  have "set es \<subseteq> set (ft_entries (ft_destroy_entry e ft))"
    using Cons.prems(2,3) by (auto simp: entries_destroy) (metis imageI)
  then show ?case
    using Cons.IH [OF ft_destroy_wf [OF Cons.prems(1) e]] Cons.prems(2) rules_destroy [OF Cons.prems(1) e]
    by (auto simp: entries_destroy intro: filter_cong)
qed simp

section \<open>Properties\<close>



section \<open>Witnesses\<close>

definition is_pow2 :: "u32 \<Rightarrow> bool" where
  "is_pow2 n = (\<exists>k \<in> {0..<32}. n = 2 ^ k)"

definition align_pow2 :: "u32 \<Rightarrow> u32" where
  "align_pow2 n = (case find (\<lambda>k. unat n \<le> 2 ^ k) [0..<32] of Some k \<Rightarrow> 2 ^ k | None \<Rightarrow> 0)"

lemma pow2_functions: "pow2_documented is_pow2 align_pow2"
proof -
  have "find (\<lambda>k. unat n \<le> 2 ^ k) [0..<32] = Some k" if "k < 32" "2 ^ (k - 1) < unat n" "unat n \<le> 2 ^ k" for n :: u32 and k
  proof -
    have "\<not> unat n \<le> 2 ^ j" if "j < k" for j
    proof -
      have "(2 :: nat) ^ j \<le> 2 ^ (k - 1)" using that by (intro power_increasing) auto
      then show ?thesis using \<open>2 ^ (k - 1) < unat n\<close> by linarith
    qed
    then show ?thesis using that by (auto simp: find_Some_iff intro!: exI [of _ k])
  qed
  then show ?thesis by (auto simp: pow2_documented_def is_pow2_def align_pow2_def)
qed

definition loop_config :: simple_fwd_config where
  "loop_config = \<lparr>cf_hw_offload = True, cf_rx_only = False, cf_age_thread = True\<rparr>"

definition started_app :: simple_fwd_app where
  "started_app = with_pipes [Some 0, Some 1] [Some 10, Some 11] [Some 12, Some 13] [Some 14, Some 15]
     (the (simple_fwd_create_ins is_pow2 align_pow2 True True True True 4))"

lemma started_reach: "vnf_reach ref_dpdk (\<lambda>_ m. m) loop_config started_app"
proof -
  obtain app where "simple_fwd_create_ins is_pow2 align_pow2 True True True True 4 = Some app"
    by (simp add: simple_fwd_create_ins_def simple_fwd_ft_create_def Let_def)
  then show ?thesis unfolding started_app_def by (auto intro!: vnf_start [OF pow2_functions])
qed

text \<open>A frame with an unknown protocol.\<close>

definition other_mbuf :: rte_mbuf where
  "other_mbuf = \<lparr>mb_data = replicate 180 0, mb_port = 0, mb_rss = 5\<rparr>"

lemma adj_keeps: "adj_documented (\<lambda>_ m. m)"
  by (simp add: adj_documented_def)



end
