(* ===== verification/Simple_Fwd_Queues.thy ===== *)
theory Simple_Fwd_Queues
  imports Simple_Fwd_Run
begin

text \<open>
  Model of the distribution of queues to cores in \<open>simple_fwd_vnf_core.c\<close> (\<open>simple_fwd_map_queue\<close>) and of the option
  that sets the number of queues.  Which cores are enabled, and how many there can be, is known to DPDK.
\<close>

record vnf_per_core_params =
  pc_ports :: "int list"
  pc_queues :: "int list"
  pc_used :: bool

definition core_params0 :: vnf_per_core_params where
  "core_params0 = \<lparr>pc_ports = [0, 0], pc_queues = [0, 0], pc_used = False\<rparr>"

definition core_params :: "int \<Rightarrow> vnf_per_core_params" where
  "core_params queue_idx = \<lparr>pc_ports = [0, 1], pc_queues = [queue_idx, queue_idx], pc_used = True\<rparr>"

text \<open>The loop over the cores.\<close>

fun map_queue_loop ::
  "(nat \<Rightarrow> bool) \<Rightarrow> u16 \<Rightarrow> nat list \<Rightarrow> int \<Rightarrow> vnf_per_core_params list \<Rightarrow> vnf_per_core_params list" where
  "map_queue_loop lcore_is_enabled nb_queues [] queue_idx arr = arr"
| "map_queue_loop lcore_is_enabled nb_queues (i # rest) queue_idx arr =
     (if \<not> lcore_is_enabled i then map_queue_loop lcore_is_enabled nb_queues rest queue_idx arr
      else
        let arr = arr[i := core_params queue_idx]; queue_idx = queue_idx + 1 in
        if queue_idx \<ge> uint nb_queues then arr
        else map_queue_loop lcore_is_enabled nb_queues rest queue_idx arr)"

definition simple_fwd_map_queue :: "(nat \<Rightarrow> bool) \<Rightarrow> nat \<Rightarrow> u16 \<Rightarrow> vnf_per_core_params list" where
  "simple_fwd_map_queue lcore_is_enabled max_lcore nb_queues =
     map_queue_loop lcore_is_enabled nb_queues [0..<max_lcore] 0 (replicate max_lcore core_params0)"

text \<open>The option: result, number of queues and RSS flag of the port configuration.\<close>

definition nr_queues_callback :: "32 word \<Rightarrow> u16 \<times> bool \<Rightarrow> doca_error_t \<times> u16 \<times> bool" where
  "nr_queues_callback nr_queues cfg =
     (if sint nr_queues < 2 then (DOCA_ERROR_INVALID_VALUE, cfg) else (DOCA_SUCCESS, ucast nr_queues, True))"

section \<open>Every queue has one core\<close>

text \<open>The number of enabled cores below core \<open>i\<close>.\<close>

definition core_rank :: "(nat \<Rightarrow> bool) \<Rightarrow> nat \<Rightarrow> nat" where
  "core_rank en i = card {j. j < i \<and> en j}"

lemma core_rank_Suc: "core_rank en (Suc i) = core_rank en i + (if en i then 1 else 0)"
proof -
  have "{j. j < Suc i \<and> en j} = (if en i then insert i {j. j < i \<and> en j} else {j. j < i \<and> en j})"
    by (auto simp: less_Suc_eq)
  then show ?thesis by (simp add: core_rank_def)
qed

lemma core_rank_mono: "i \<le> j \<Longrightarrow> core_rank en i \<le> core_rank en j"
  unfolding core_rank_def by (rule card_mono) auto

lemma map_queue_loop_value:
  assumes "k \<le> n" "n \<le> length arr" "core_rank en k < max 1 (unat nb)"
  shows "length (map_queue_loop en nb [k..<n] (int (core_rank en k)) arr) = length arr \<and>
    (\<forall>i < length arr. map_queue_loop en nb [k..<n] (int (core_rank en k)) arr ! i =
      (if k \<le> i \<and> i < n \<and> en i \<and> core_rank en i < max 1 (unat nb) then core_params (int (core_rank en i)) else arr ! i))"
  using assms
proof (induction "n - k" arbitrary: k arr)
  case (Suc d)
  then have k: "k < n" and d: "d = n - Suc k" by auto
  have u: "[k..<n] = k # [Suc k..<n]" using k by (rule upt_conv_Cons)
  have nb: "uint nb = int (unat nb)" by simp
  show ?case
  proof (cases "en k")
    case False
    then have r: "core_rank en (Suc k) = core_rank en k" by (simp add: core_rank_Suc)
    have eq: "map_queue_loop en nb [k..<n] q arr = map_queue_loop en nb [Suc k..<n] q arr" for q using u False by simp
    have cond: "(k \<le> i \<and> i < n \<and> en i \<and> P) = (Suc k \<le> i \<and> i < n \<and> en i \<and> P)" for i P
      using False by (cases "i = k") auto
    show ?thesis
      unfolding eq cond using Suc.hyps(1) [OF d Suc_leI [OF k] Suc.prems(2), unfolded r, OF Suc.prems(3)] .
  next
    case True
    let ?arr = "arr[k := core_params (int (core_rank en k))]"
    have r: "core_rank en (Suc k) = core_rank en k + 1" using True by (simp add: core_rank_Suc)
    have here: "?arr ! i = (if i = k then core_params (int (core_rank en i)) else arr ! i)" if "i < length arr" for i
      using that by (simp add: nth_list_update)
    show ?thesis
    proof (cases "core_rank en (Suc k) < max 1 (unat nb)")
      case True
      then have "\<not> uint nb \<le> int (core_rank en k) + 1" unfolding nb using r by linarith
      then have eq: "map_queue_loop en nb [k..<n] (int (core_rank en k)) arr =
          map_queue_loop en nb [Suc k..<n] (int (core_rank en (Suc k))) ?arr"
        using u \<open>en k\<close> r by (simp add: add.commute)
      have l: "n \<le> length ?arr" using Suc.prems(2) by simp
      have c: "(if Suc k \<le> i \<and> i < n \<and> en i \<and> core_rank en i < max 1 (unat nb) then core_params (int (core_rank en i)) else ?arr ! i) =
          (if k \<le> i \<and> i < n \<and> en i \<and> core_rank en i < max 1 (unat nb) then core_params (int (core_rank en i)) else arr ! i)"
        if "i < length arr" for i
        unfolding here [OF that] using k \<open>en k\<close> Suc.prems(3) by (cases "i = k") auto
      show ?thesis
        using Suc.hyps(1) [OF d Suc_leI [OF k] l True] unfolding eq length_list_update by (metis (no_types, lifting) c)
    next
      case False
      then have "uint nb \<le> int (core_rank en k) + 1" unfolding nb using r by linarith
      then have eq: "map_queue_loop en nb [k..<n] (int (core_rank en k)) arr = ?arr" using u \<open>en k\<close> by simp
      have "\<not> core_rank en i < max 1 (unat nb)" if "k < i" for i
        using core_rank_mono [of "Suc k" i en] that False by linarith
      then have c: "?arr ! i = (if k \<le> i \<and> i < n \<and> en i \<and> core_rank en i < max 1 (unat nb) then core_params (int (core_rank en i)) else arr ! i)"
        if "i < length arr" for i
        unfolding here [OF that] using k \<open>en k\<close> Suc.prems(3) by (cases "i = k") (auto simp: le_less)
      show ?thesis unfolding eq by (simp add: c)
    qed
  qed
qed auto

text \<open>Exactly the first \<open>nb_queues\<close> enabled cores are used, the \<open>r\<close>-th of them with queue \<open>r\<close> on both ports.\<close>

lemma map_queue_cores:
  assumes "i < max_lcore"
  shows "simple_fwd_map_queue en max_lcore nb ! i =
    (if en i \<and> core_rank en i < max 1 (unat nb) then core_params (int (core_rank en i)) else core_params0)"
  using map_queue_loop_value [of 0 max_lcore "replicate max_lcore core_params0" en nb] assms
  by (simp add: simple_fwd_map_queue_def core_rank_def)

lemma core_rank_inj: "en i \<Longrightarrow> en j \<Longrightarrow> core_rank en i = core_rank en j \<Longrightarrow> i = j"
proof (induction i j rule: linorder_wlog)
  case (le i j)
  then show ?case using core_rank_mono [of "Suc i" j en] by (cases "i = j") (auto simp: core_rank_Suc)
qed simp

text \<open>No two cores share a queue, so no two receive loops poll the same one.\<close>

lemma queues_not_shared:
  assumes "i < max_lcore" "j < max_lcore" "i \<noteq> j"
    and "pc_used (simple_fwd_map_queue en max_lcore nb ! i)" "pc_used (simple_fwd_map_queue en max_lcore nb ! j)"
  shows "pc_queues (simple_fwd_map_queue en max_lcore nb ! i) \<noteq> pc_queues (simple_fwd_map_queue en max_lcore nb ! j)"
  using assms core_rank_inj [of en i j] by (auto simp: map_queue_cores core_params_def core_params0_def split: if_splits)

text \<open>A used core has a queue that exists, so the off-by-one comparison of \<open>simple_fwd_handle_aging\<close> is not met.\<close>

lemma queue_exists:
  assumes "i < max_lcore" "0 < nb" "pc_used (simple_fwd_map_queue en max_lcore nb ! i)"
  obtains q where "pc_queues (simple_fwd_map_queue en max_lcore nb ! i) = [q, q]" "0 \<le> q" "q < uint nb"
proof -
  have u: "en i \<and> core_rank en i < max 1 (unat nb)"
    using assms(1,3) by (simp add: map_queue_cores core_params0_def split: if_splits)
  then have "core_rank en i < unat nb" using assms(2) by (auto simp: word_less_nat_alt)
  then have "int (core_rank en i) < int (unat nb)" by (simp only: of_nat_less_iff)
  then show thesis using that [of "int (core_rank en i)"] u assms(1) by (simp add: map_queue_cores core_params_def)
qed

text \<open>A number of queues above 65535 is accepted and truncated; 65536 leaves none.\<close>

lemma nr_queues_truncated: "nr_queues_callback 65536 cfg = (DOCA_SUCCESS, 0, True)"
  by (simp add: nr_queues_callback_def)

end
