(* ===== verification/Pcc_Common.thy ===== *)
theory Pcc_Common
  imports Doca_Prelude
begin

text \<open>
  Common parts of the congestion control programs under \<open>applications/pcc/device\<close>: events and results as
  the SDK passes them, the helpers of \<open>pcc_common_dev.h\<close>, and the contract both rate algorithms fulfil.
  All quantities are words as in the code, so timestamps and rates wrap.  A shift by 32 or more,
  which C leaves undefined, is \<open>None\<close>.
\<close>

unbundle bit_operations_syntax

record pcc_results =
  res_rate :: u32
  res_rtt_req :: bool

datatype pcc_ev_type = EVNT_ROCE_TX | EVNT_RTT | EVNT_ROCE_CNP | EVNT_ROCE_NACK | EVNT_OTHER

record pcc_event =
  pv_type :: pcc_ev_type
  pv_rtt_req_sent :: bool
  pv_timestamp :: u32
  pv_rtt_req_send_timestamp :: u32
  pv_rtt_req_recv_timestamp :: u32
  pv_rtt_raw_data :: bytes
  pv_port_num :: nat

definition ABORT_TIME :: u32 where "ABORT_TIME = 300000"

text \<open>The time after which a request is given up, \<open>ABORT_TIME << abort_cnt\<close>.\<close>

definition abort_time :: "u8 \<Rightarrow> u32 option" where
  "abort_time abort_cnt = (if unat abort_cnt < 32 then Some (push_bit (unat abort_cnt) ABORT_TIME) else None)"

text \<open>The difference the handlers compute, with \<open>UINT32_MAX\<close> added when the clock has wrapped.\<close>

definition elapsed :: "u32 \<Rightarrow> u32 \<Rightarrow> u32" where
  "elapsed now start = (if start > now then (now - start) + 0xffffffff else now - start)"

definition diff_with_wrap32 :: "u32 \<Rightarrow> u32 \<Rightarrow> u32" where
  "diff_with_wrap32 greater_num smaller_num =
     (if greater_num < smaller_num then 0xffffffff - smaller_num + greater_num + 1 else greater_num - smaller_num)"

lemma diff_with_wrap32_minus: "diff_with_wrap32 a b = a - b"
  by (simp add: diff_with_wrap32_def)

lemma elapsed_minus: "elapsed now start = now - start - (if now < start then 1 else 0)"
  by (simp add: elapsed_def)

text \<open>The counter array, if there is one, is the list of its values; the outer option is the array access.\<close>

definition count :: "nat \<Rightarrow> u32 list option \<Rightarrow> u32 list option option" where
  "count i counter = (case counter of
     None \<Rightarrow> Some None
   | Some c \<Rightarrow> if i < length c then Some (Some (c[i := c ! i + 1])) else None)"

lemma count_None [simp]: "count i None = Some None"
  by (simp add: count_def)

section \<open>The contract of a rate algorithm\<close>

text \<open>One event of a flow maps the context of the flow and the result buffer to new ones.  A rate of 0 marks a
  context that has not been used.  \<open>armed\<close> says that the algorithm will measure again.\<close>

fun run_events ::
  "('e \<Rightarrow> 'c \<Rightarrow> pcc_results \<Rightarrow> ('c \<times> pcc_results) option) \<Rightarrow> 'e list \<Rightarrow> 'c \<Rightarrow> pcc_results \<Rightarrow> ('c \<times> pcc_results) option" where
  "run_events step [] c r = Some (c, r)"
| "run_events step (e # es) c r = do { (c, r) \<leftarrow> step e c r; run_events step es c r }"

lemma run_events_append:
  "run_events step (es @ fs) c r = do { (c, r) \<leftarrow> run_events step es c r; run_events step fs c r }"
  by (induction es arbitrary: c r) (simp_all add: split_def)

locale rate_algorithm =
  fixes step :: "'e \<Rightarrow> 'c \<Rightarrow> pcc_results \<Rightarrow> ('c \<times> pcc_results) option"
    and rate :: "'c \<Rightarrow> u32" and lo hi :: u32 and armed :: "'c \<Rightarrow> bool"
  assumes step_rate: "step e c r = Some (c', r') \<Longrightarrow> rate c = 0 \<or> lo \<le> rate c \<and> rate c \<le> hi \<and> armed c \<Longrightarrow>
      lo \<le> rate c' \<and> rate c' \<le> hi \<and> res_rate r' = rate c'"
    and step_armed: "step e c r = Some (c', r') \<Longrightarrow> rate c = 0 \<or> armed c \<Longrightarrow> armed c'"
begin

lemma run_ok:
  "run_events step es c r = Some (c', r') \<Longrightarrow> es \<noteq> [] \<Longrightarrow> rate c = 0 \<or> lo \<le> rate c \<and> rate c \<le> hi \<and> armed c \<Longrightarrow>
   lo \<le> rate c' \<and> rate c' \<le> hi \<and> res_rate r' = rate c' \<and> armed c'"
proof (induction es arbitrary: c r)
  case (Cons e es)
  obtain c1 r1 where s: "step e c r = Some (c1, r1)" "run_events step es c1 r1 = Some (c', r')"
    using Cons.prems(1) by (auto simp: Some_bind_iff)
  have "lo \<le> rate c1 \<and> rate c1 \<le> hi \<and> res_rate r1 = rate c1" "armed c1"
    using step_rate [OF s(1)] step_armed [OF s(1)] Cons.prems(3) by auto
  then show ?case using Cons.IH [OF s(2)] s(2) by (cases "es = []") auto
qed simp

end

end
