(* ===== verification/Pcc_Rtt.thy ===== *)
theory Pcc_Rtt
  imports Pcc_Common
begin

text \<open>
  Model of the congestion control algorithm \<open>applications/pcc/device/rp/rtt_template\<close>: the handlers of
  \<open>rtt_template.c\<close>, which adjust the rate of a flow from round-trip measurements and congestion events,
  and the entry points of \<open>rp_rtt_template_dev_main.c\<close>.

  The fixed-point product \<open>doca_pcc_dev_fxp_mult\<close>, the maximal rate and the port utilisation are
  supplied by the SDK; they and the two compile-time options are fields of \<open>pcc_build\<close>.
\<close>

section \<open>The data\<close>

record rtt_ctxt =
  rc_cur_rate :: u32
  rc_start_delay :: u32
  rc_rtt :: u32
  rc_was_nack :: bool
  rc_was_cnp :: bool
  rc_abort_cnt :: u8
  rc_rtt_meas_psn :: u8
  rc_rtt_req_to_rtt_sent :: u8
  rc_min_rtt :: u32

text \<open>The parameters of the algorithm, in the order of \<open>rtt_template_params_t\<close>.\<close>

record rtt_params =
  rp_update_factor :: u32
  rp_ai :: u32
  rp_base_relative_rtt :: u32
  rp_new_flow_rate :: u32
  rp_min_rate :: u32
  rp_max_delay :: u32

record pcc_build =
  pb_fxp_mult :: "u32 \<Rightarrow> u32 \<Rightarrow> u32"
  pb_max_rate :: u32
  pb_time_sync :: bool
  pb_sample_tx_bytes :: bool
  pb_last_tx_port_util :: "nat \<Rightarrow> u32"

definition UPDATE_FACTOR :: u32 where "UPDATE_FACTOR = (2 ^ 16 * 10) div 100"
definition AI :: u32 where "AI = (2 ^ 20 * 5) div 100"
definition BASE_RELATIVE_RTT :: u32 where "BASE_RELATIVE_RTT = 13000"
definition NEW_FLOW_RATE :: u32 where "NEW_FLOW_RATE = 2 ^ 20"
definition MIN_RATE :: u32 where "MIN_RATE = 2 ^ (20 - 14)"
definition MAX_DELAY :: u32 where "MAX_DELAY = 150000"
definition INITIAL_MIN_RTT :: u32 where "INITIAL_MIN_RTT = 200000"
definition UPDATE_FACTOR_MAX :: u32 where "UPDATE_FACTOR_MAX = 10 * 2 ^ 16"
definition AI_MAX :: u32 where "AI_MAX = 2 ^ 20"
definition RATE_MAX :: u32 where "RATE_MAX = 2 ^ 20"
definition HIGH_UTIL_THRESHOLD :: u32 where "HIGH_UTIL_THRESHOLD = 55704"

text \<open>\<open>rtt_template_init\<close> registers a default and a maximum for each parameter.\<close>

definition rtt_template_init :: "(u32 \<times> u32) list" where
  "rtt_template_init =
     [(UPDATE_FACTOR, UPDATE_FACTOR_MAX), (AI, AI_MAX), (BASE_RELATIVE_RTT, 0xffffffff), (NEW_FLOW_RATE, RATE_MAX),
      (MIN_RATE, RATE_MAX), (MAX_DELAY, 0xffffffff)]"

definition default_params :: rtt_params where
  "default_params = \<lparr>rp_update_factor = UPDATE_FACTOR, rp_ai = AI, rp_base_relative_rtt = BASE_RELATIVE_RTT,
     rp_new_flow_rate = NEW_FLOW_RATE, rp_min_rate = MIN_RATE, rp_max_delay = MAX_DELAY\<rparr>"

section \<open>The handlers\<close>

text \<open>\<open>DEC_FACTOR\<close>, \<open>CNP_DEC_FACTOR\<close>, \<open>NACK_DEC_FACTOR\<close> and their high-utilisation variants, with \<open>n\<close> the
  multiple of the update factor.\<close>

definition dec_factor :: "u32 \<Rightarrow> rtt_params \<Rightarrow> u32" where
  "dec_factor n p = 2 ^ 16 - n * rp_update_factor p"

definition algorithm_core :: "pcc_build \<Rightarrow> rtt_params \<Rightarrow> bool \<Rightarrow> u32 \<Rightarrow> u32 \<Rightarrow> rtt_ctxt \<Rightarrow> u32 \<times> rtt_ctxt" where
  "algorithm_core B p is_high_util rtt cur_rate ccctx =
     (let (cur_rate, ccctx) =
        (if rc_was_nack ccctx \<and> rtt \<ge> rp_max_delay p
         then (pb_fxp_mult B (dec_factor (if is_high_util then 10 else 5) p) cur_rate, ccctx\<lparr>rc_was_nack := False\<rparr>)
         else if rc_was_cnp ccctx \<or> rtt \<ge> rp_max_delay p
         then (pb_fxp_mult B (dec_factor (if is_high_util then 4 else 2) p) cur_rate, ccctx\<lparr>rc_was_cnp := False\<rparr>)
         else
           let (relative_delay, ccctx) =
             (if rtt \<ge> rc_min_rtt ccctx then (rtt - rc_min_rtt ccctx, ccctx) else (rtt, ccctx\<lparr>rc_min_rtt := rtt\<rparr>))
           in if relative_delay > rp_base_relative_rtt p
              then (pb_fxp_mult B (dec_factor (if is_high_util then 2 else 1) p) cur_rate, ccctx)
              else (cur_rate + rp_ai p, ccctx));
        cur_rate = (if cur_rate > pb_max_rate B then pb_max_rate B else cur_rate);
        cur_rate = (if cur_rate < rp_min_rate p then rp_min_rate p else cur_rate)
      in (cur_rate, ccctx))"

definition rtt_template_handle_roce_tx ::
  "pcc_event \<Rightarrow> u32 \<Rightarrow> rtt_ctxt \<Rightarrow> pcc_results \<Rightarrow> (rtt_ctxt \<times> pcc_results) option" where
  "rtt_template_handle_roce_tx event cur_rate ccctx results = do {
     let rtt_meas_psn = rc_rtt_meas_psn ccctx;
     let timestamp = pv_timestamp event;
     (rtt_req, ccctx) \<leftarrow>
       (if pv_rtt_req_sent event \<and> rtt_meas_psn = 0
        then Some (False, ccctx\<lparr>rc_rtt_meas_psn := 1, rc_rtt_req_to_rtt_sent := 0, rc_start_delay := timestamp\<rparr>)
        else do {
          let rtt_till_now = elapsed timestamp (rc_start_delay ccctx);
          let (rtt_till_now, ccctx) =
            (if rtt_meas_psn = 0
             then (0, ccctx\<lparr>rc_rtt_req_to_rtt_sent := rc_rtt_req_to_rtt_sent ccctx + 1\<rparr>)
             else (rtt_till_now, ccctx));
          limit \<leftarrow> abort_time (rc_abort_cnt ccctx);
          if rtt_till_now > limit \<or> rc_rtt_req_to_rtt_sent ccctx > 2
          then
            let ccctx = (if rtt_till_now > limit then ccctx\<lparr>rc_abort_cnt := rc_abort_cnt ccctx + 1\<rparr> else ccctx)
            in Some (True, ccctx\<lparr>rc_rtt_req_to_rtt_sent := 1\<rparr>)
          else Some (False, ccctx) });
     Some (ccctx\<lparr>rc_cur_rate := cur_rate\<rparr>, results\<lparr>res_rate := cur_rate, res_rtt_req := rtt_req\<rparr>) }"

definition rtt_template_handle_roce_rtt ::
  "pcc_build \<Rightarrow> pcc_event \<Rightarrow> u32 \<Rightarrow> rtt_params \<Rightarrow> rtt_ctxt \<Rightarrow> pcc_results \<Rightarrow> rtt_ctxt \<times> pcc_results" where
  "rtt_template_handle_roce_rtt B event cur_rate p ccctx results =
     (if rc_rtt_meas_psn ccctx = 0 \<and> rc_rtt_req_to_rtt_sent ccctx = 0
      then (ccctx, results\<lparr>res_rate := cur_rate, res_rtt_req := False\<rparr>)
      else
        let ccctx = ccctx\<lparr>rc_rtt_meas_psn := 0, rc_abort_cnt := 0\<rparr>;
            start_rtt = pv_rtt_req_send_timestamp event;
            end_rtt = (if pb_time_sync B then pv_rtt_req_recv_timestamp event else pv_timestamp event);
            rtt = elapsed end_rtt start_rtt;
            ccctx = ccctx\<lparr>rc_rtt := rtt\<rparr>;
            ccctx = (if end_rtt AND 0xff = 0 then ccctx\<lparr>rc_min_rtt := INITIAL_MIN_RTT\<rparr> else ccctx);
            is_high_tx_util = (pb_sample_tx_bytes B \<and> pb_last_tx_port_util B (pv_port_num event) > HIGH_UTIL_THRESHOLD);
            (cur_rate, ccctx) = algorithm_core B p is_high_tx_util rtt cur_rate ccctx
        in (ccctx\<lparr>rc_rtt_req_to_rtt_sent := 1, rc_cur_rate := cur_rate\<rparr>,
            results\<lparr>res_rate := cur_rate, res_rtt_req := True\<rparr>))"

definition rtt_template_handle_roce_cnp :: "u32 \<Rightarrow> rtt_ctxt \<Rightarrow> pcc_results \<Rightarrow> rtt_ctxt \<times> pcc_results" where
  "rtt_template_handle_roce_cnp cur_rate ccctx results =
     (ccctx\<lparr>rc_was_cnp := True, rc_cur_rate := cur_rate\<rparr>, results\<lparr>res_rtt_req := False, res_rate := cur_rate\<rparr>)"

definition rtt_template_handle_roce_nack :: "u32 \<Rightarrow> rtt_ctxt \<Rightarrow> pcc_results \<Rightarrow> rtt_ctxt \<times> pcc_results" where
  "rtt_template_handle_roce_nack cur_rate ccctx results =
     (ccctx\<lparr>rc_was_nack := True, rc_cur_rate := cur_rate\<rparr>, results\<lparr>res_rate := cur_rate\<rparr>)"

definition rtt_template_handle_new_flow ::
  "pcc_event \<Rightarrow> rtt_params \<Rightarrow> rtt_ctxt \<Rightarrow> pcc_results \<Rightarrow> rtt_ctxt \<times> pcc_results" where
  "rtt_template_handle_new_flow event p ccctx results =
     (ccctx\<lparr>rc_cur_rate := rp_new_flow_rate p, rc_start_delay := pv_timestamp event, rc_rtt_meas_psn := 0,
        rc_rtt_req_to_rtt_sent := 1, rc_abort_cnt := 0, rc_was_nack := False, rc_min_rtt := INITIAL_MIN_RTT\<rparr>,
      results\<lparr>res_rate := rp_new_flow_rate p, res_rtt_req := True\<rparr>)"

definition rtt_template_algo ::
  "pcc_build \<Rightarrow> pcc_event \<Rightarrow> rtt_params \<Rightarrow> u32 list option \<Rightarrow> rtt_ctxt \<Rightarrow> pcc_results \<Rightarrow>
   (u32 list option \<times> rtt_ctxt \<times> pcc_results) option" where
  "rtt_template_algo B event p counter ctx results =
     (let cur_rate = rc_cur_rate ctx in
      if cur_rate = 0 then Some (counter, rtt_template_handle_new_flow event p ctx results)
      else (case pv_type event of
         EVNT_ROCE_TX \<Rightarrow> do {
           r \<leftarrow> rtt_template_handle_roce_tx event cur_rate ctx results;
           counter \<leftarrow> count 0 counter;
           Some (counter, r) }
       | EVNT_RTT \<Rightarrow> do {
           let r = rtt_template_handle_roce_rtt B event cur_rate p ctx results;
           counter \<leftarrow> count 1 counter;
           Some (counter, r) }
       | EVNT_ROCE_CNP \<Rightarrow> Some (counter, rtt_template_handle_roce_cnp cur_rate ctx results)
       | EVNT_ROCE_NACK \<Rightarrow> Some (counter, rtt_template_handle_roce_nack cur_rate ctx results)
       | EVNT_OTHER \<Rightarrow> Some (counter, ctx, results\<lparr>res_rate := cur_rate, res_rtt_req := False\<rparr>)))"

text \<open>\<open>rtt_template_set_algo_params\<close> checks its arguments; \<open>None\<close> is the null pointer.\<close>

definition rtt_template_set_algo_params :: "u32 \<Rightarrow> u32 \<Rightarrow> u32 list option \<Rightarrow> u32 list option \<Rightarrow> bool" where
  "rtt_template_set_algo_params param_id_base param_num new_param_values params =
     (if param_num > 6 \<or> param_id_base \<ge> 6 then False
      else if new_param_values = None \<or> params = None then False
      else True)"

section \<open>The entry points\<close>

text \<open>\<open>internal\<close> is the SDK's default algorithm.\<close>

definition doca_pcc_dev_user_algo ::
  "pcc_build \<Rightarrow> (rtt_ctxt \<Rightarrow> pcc_results \<Rightarrow> rtt_ctxt \<times> pcc_results) \<Rightarrow> nat \<Rightarrow> pcc_event \<Rightarrow> rtt_params \<Rightarrow> u32 list option \<Rightarrow>
   rtt_ctxt \<Rightarrow> pcc_results \<Rightarrow> (u32 list option \<times> rtt_ctxt \<times> pcc_results) option" where
  "doca_pcc_dev_user_algo B internal algo_slot event p counter ctx results =
     (if algo_slot = 0 then rtt_template_algo B event p counter ctx results
      else Some (counter, internal ctx results))"

text \<open>\<open>algo_idx\<close> is what \<open>doca_pcc_dev_get_algo_index\<close> returns.\<close>

definition doca_pcc_dev_user_set_algo_params ::
  "nat \<Rightarrow> nat \<Rightarrow> u32 \<Rightarrow> u32 \<Rightarrow> u32 list option \<Rightarrow> u32 list option \<Rightarrow> bool" where
  "doca_pcc_dev_user_set_algo_params algo_idx algo_slot param_id_base param_num new_param_values params =
     (if algo_slot = 0
      then if algo_idx = 0 then rtt_template_set_algo_params param_id_base param_num new_param_values params else False
      else True)"

text \<open>The port utilisation sampler: \<open>fxp_recip\<close> is the SDK's, \<open>sampled\<close> what \<open>doca_pcc_dev_nic_counters_sample\<close>
  stores in the table of TX bytes.\<close>

record sampler =
  sp_current_tx_bytes :: "u32 list"
  sp_previous_tx_bytes :: "u32 list"
  sp_last_sample_ts :: u32
  sp_ports_bw :: "u32 list"
  sp_ports_num :: nat
  sp_utilized_bw :: "u32 list"
  sp_counters_started :: bool

definition port_utilization :: "(u32 \<Rightarrow> u32 \<Rightarrow> u32) \<Rightarrow> (u32 \<Rightarrow> u32) \<Rightarrow> u32 \<Rightarrow> u32 \<Rightarrow> u32 \<Rightarrow> u32" where
  "port_utilization fxp_mult fxp_recip tx_bytes_delta ts_delta port_bw =
     (let current_bw = drop_bit 16 (fxp_mult tx_bytes_delta (fxp_recip ts_delta)) in
      if current_bw < port_bw then fxp_mult current_bw (fxp_recip port_bw) else 2 ^ 16)"

fun sample_ports ::
  "(u32 \<Rightarrow> u32 \<Rightarrow> u32) \<Rightarrow> (u32 \<Rightarrow> u32) \<Rightarrow> u32 \<Rightarrow> nat list \<Rightarrow> sampler \<Rightarrow> sampler option" where
  "sample_ports fxp_mult fxp_recip ts_delta [] s = Some s"
| "sample_ports fxp_mult fxp_recip ts_delta (i # rest) s =
     (if i < length (sp_current_tx_bytes s) \<and> i < length (sp_previous_tx_bytes s) \<and> i < length (sp_ports_bw s) \<and>
         i < length (sp_utilized_bw s)
      then
        let cur = sp_current_tx_bytes s ! i;
            delta = diff_with_wrap32 cur (sp_previous_tx_bytes s ! i)
        in sample_ports fxp_mult fxp_recip ts_delta rest
             (s\<lparr>sp_previous_tx_bytes := (sp_previous_tx_bytes s)[i := cur],
                sp_utilized_bw := (sp_utilized_bw s)
                  [i := port_utilization fxp_mult fxp_recip delta ts_delta (sp_ports_bw s ! i)]\<rparr>)
      else None)"

definition thread0_calc_ports_utilization ::
  "(u32 \<Rightarrow> u32 \<Rightarrow> u32) \<Rightarrow> (u32 \<Rightarrow> u32) \<Rightarrow> nat \<Rightarrow> u32 \<Rightarrow> u32 list \<Rightarrow> sampler \<Rightarrow> sampler option" where
  "thread0_calc_ports_utilization fxp_mult fxp_recip thread_rank current_ts sampled s =
     (if thread_rank = 0 \<and> sp_counters_started s then
        let ts_delta = diff_with_wrap32 current_ts (sp_last_sample_ts s) in
        if ts_delta \<ge> 10 then do {
          s \<leftarrow> sample_ports fxp_mult fxp_recip ts_delta [0..<sp_ports_num s] (s\<lparr>sp_current_tx_bytes := sampled\<rparr>);
          Some (s\<lparr>sp_last_sample_ts := current_ts\<rparr>) }
        else Some s
      else Some s)"

section \<open>The rate\<close>

lemma clamp_bounds:
  fixes r M m :: u32
  shows "m \<le> (if (if M < r then M else r) < m then m else if M < r then M else r)"
    and "(if (if M < r then M else r) < m then m else if M < r then M else r) \<le> max M m"
  by (cases "M < r"; simp add: max_def not_less; meson linear order_less_imp_le order.trans)+

lemma core_range:
  "rp_min_rate p \<le> fst (algorithm_core B p h rtt r c)"
  "fst (algorithm_core B p h rtt r c) \<le> max (pb_max_rate B) (rp_min_rate p)"
  unfolding algorithm_core_def Let_def split_def fst_conv by (rule clamp_bounds)+

lemma core_keeps [simp]:
  "rc_abort_cnt (snd (algorithm_core B p h rtt r c)) = rc_abort_cnt c"
  "rc_rtt_meas_psn (snd (algorithm_core B p h rtt r c)) = rc_rtt_meas_psn c"
  unfolding algorithm_core_def Let_def split_def snd_conv by simp_all

definition rtt_step :: "pcc_build \<Rightarrow> rtt_params \<Rightarrow> pcc_event \<Rightarrow> rtt_ctxt \<Rightarrow> pcc_results \<Rightarrow> (rtt_ctxt \<times> pcc_results) option" where
  "rtt_step B p e c r = map_option snd (rtt_template_algo B e p None c r)"

text \<open>A measurement is under way (\<open>psn\<close> 1), or a request for one is (\<open>psn\<close> 0, and one or two events since).\<close>

definition rtt_armed :: "rtt_ctxt \<Rightarrow> bool" where
  "rtt_armed c \<longleftrightarrow> (rc_rtt_meas_psn c = 0 \<and> (rc_rtt_req_to_rtt_sent c = 1 \<or> rc_rtt_req_to_rtt_sent c = 2) \<or>
     rc_rtt_meas_psn c = 1 \<and> (rc_rtt_req_to_rtt_sent c = 0 \<or> rc_rtt_req_to_rtt_sent c = 1))"

lemma handle_tx_cases:
  "rtt_template_handle_roce_tx e cr c r =
    (if pv_rtt_req_sent e \<and> rc_rtt_meas_psn c = 0
     then Some (c\<lparr>rc_rtt_meas_psn := 1, rc_rtt_req_to_rtt_sent := 0, rc_start_delay := pv_timestamp e, rc_cur_rate := cr\<rparr>,
        r\<lparr>res_rate := cr, res_rtt_req := False\<rparr>)
     else case abort_time (rc_abort_cnt c) of None \<Rightarrow> None | Some limit \<Rightarrow>
       (let late = (rc_rtt_meas_psn c \<noteq> 0 \<and> elapsed (pv_timestamp e) (rc_start_delay c) > limit);
            sent = (if rc_rtt_meas_psn c = 0 then rc_rtt_req_to_rtt_sent c + 1 else rc_rtt_req_to_rtt_sent c)
        in Some (c\<lparr>rc_abort_cnt := (if late then rc_abort_cnt c + 1 else rc_abort_cnt c),
                   rc_rtt_req_to_rtt_sent := (if late \<or> sent > 2 then 1 else sent), rc_cur_rate := cr\<rparr>,
                 r\<lparr>res_rate := cr, res_rtt_req := (late \<or> sent > 2)\<rparr>)))"
  by (auto simp: rtt_template_handle_roce_tx_def Let_def split: option.splits)

lemma handle_rtt_core:
  assumes "rtt_armed c"
  shows "\<exists>h rtt c0. rc_rtt_meas_psn c0 = 0 \<and> rc_abort_cnt c0 = 0 \<and> rtt_template_handle_roce_rtt B e cr p c r =
    ((snd (algorithm_core B p h rtt cr c0))\<lparr>rc_rtt_req_to_rtt_sent := 1, rc_cur_rate := fst (algorithm_core B p h rtt cr c0)\<rparr>,
     r\<lparr>res_rate := fst (algorithm_core B p h rtt cr c0), res_rtt_req := True\<rparr>)"
proof -
  have a: "\<not> (rc_rtt_meas_psn c = 0 \<and> rc_rtt_req_to_rtt_sent c = 0)" using assms by (auto simp: rtt_armed_def)
  let ?stop = "if pb_time_sync B then pv_rtt_req_recv_timestamp e else pv_timestamp e"
  let ?c1 = "c\<lparr>rc_rtt_meas_psn := 0, rc_abort_cnt := 0, rc_rtt := elapsed ?stop (pv_rtt_req_send_timestamp e)\<rparr>"
  let ?c0 = "if ?stop AND 0xff = 0 then ?c1\<lparr>rc_min_rtt := INITIAL_MIN_RTT\<rparr> else ?c1"
  have "rc_rtt_meas_psn ?c0 = 0" "rc_abort_cnt ?c0 = 0" by simp_all
  moreover have "rtt_template_handle_roce_rtt B e cr p c r =
      (let x = algorithm_core B p (pb_sample_tx_bytes B \<and> pb_last_tx_port_util B (pv_port_num e) > HIGH_UTIL_THRESHOLD)
         (elapsed ?stop (pv_rtt_req_send_timestamp e)) cr ?c0
       in ((snd x)\<lparr>rc_rtt_req_to_rtt_sent := 1, rc_cur_rate := fst x\<rparr>, r\<lparr>res_rate := fst x, res_rtt_req := True\<rparr>))"
    unfolding rtt_template_handle_roce_rtt_def if_not_P [OF a] Let_def split_def by simp
  ultimately show ?thesis unfolding Let_def by blast
qed

lemma handle_rtt_fields:
  assumes "rtt_template_handle_roce_rtt B e cr p c r = (c', r')" "rtt_armed c"
  shows "rc_cur_rate c' = res_rate r' \<and> rp_min_rate p \<le> rc_cur_rate c' \<and> rc_cur_rate c' \<le> max (pb_max_rate B) (rp_min_rate p) \<and>
    res_rtt_req r' \<and> rc_rtt_meas_psn c' = 0 \<and> rc_rtt_req_to_rtt_sent c' = 1 \<and> rc_abort_cnt c' = 0"
  using handle_rtt_core [OF assms(2), of B e cr p r] assms(1) core_range [where p = p and B = B] by auto

section \<open>The contract\<close>

definition rtt_lo :: "rtt_params \<Rightarrow> u32" where
  "rtt_lo p = min (rp_min_rate p) (rp_new_flow_rate p)"

definition rtt_hi :: "pcc_build \<Rightarrow> rtt_params \<Rightarrow> u32" where
  "rtt_hi B p = max (max (pb_max_rate B) (rp_min_rate p)) (rp_new_flow_rate p)"

lemma rtt_new_flow:
  "rc_cur_rate c = 0 \<Longrightarrow> rtt_step B p e c r = Some (rtt_template_handle_new_flow e p c r)"
  by (simp add: rtt_step_def rtt_template_algo_def)

lemma rtt_step_cases:
  assumes "rtt_step B p e c r = Some (c', r')" "rc_cur_rate c \<noteq> 0"
  obtains "pv_type e = EVNT_ROCE_TX" "rtt_template_handle_roce_tx e (rc_cur_rate c) c r = Some (c', r')"
  | "pv_type e = EVNT_RTT" "rtt_template_handle_roce_rtt B e (rc_cur_rate c) p c r = (c', r')"
  | "pv_type e \<notin> {EVNT_ROCE_TX, EVNT_RTT}" "rc_cur_rate c' = rc_cur_rate c" "res_rate r' = rc_cur_rate c"
      "rc_rtt_meas_psn c' = rc_rtt_meas_psn c" "rc_rtt_req_to_rtt_sent c' = rc_rtt_req_to_rtt_sent c" "rc_abort_cnt c' = rc_abort_cnt c"
  using assms
  by (cases "pv_type e")
     (auto simp: Some_bind_iff rtt_step_def rtt_template_algo_def rtt_template_handle_roce_cnp_def rtt_template_handle_roce_nack_def)

lemma rtt_tx_fields:
  assumes "rtt_template_handle_roce_tx e cr c r = Some (c', r')"
  shows "rc_cur_rate c' = cr \<and> res_rate r' = cr \<and> (rtt_armed c \<longrightarrow> rtt_armed c') \<and>
    unat (rc_abort_cnt c') \<le> unat (rc_abort_cnt c) + 1"
proof -
  have "unat (rc_abort_cnt c + 1) \<le> unat (rc_abort_cnt c) + 1" by (simp add: unat_word_ariths)
  then show ?thesis
    using assms by (auto simp: handle_tx_cases rtt_armed_def Let_def split: if_splits option.splits)
qed

lemma rtt_step_rate:
  assumes "rtt_step B p e c r = Some (c', r')" "rc_cur_rate c = 0 \<or> rtt_lo p \<le> rc_cur_rate c \<and> rc_cur_rate c \<le> rtt_hi B p \<and> rtt_armed c"
  shows "rtt_lo p \<le> rc_cur_rate c' \<and> rc_cur_rate c' \<le> rtt_hi B p \<and> res_rate r' = rc_cur_rate c'"
proof (cases "rc_cur_rate c = 0")
  case True
  then show ?thesis
    using assms(1) by (auto simp: rtt_new_flow rtt_template_handle_new_flow_def rtt_lo_def rtt_hi_def)
next
  case False
  from assms(1) False show ?thesis
  proof (cases rule: rtt_step_cases)
    case 2
    from handle_rtt_fields [OF 2(2)] assms(2) False show ?thesis
      by (auto simp: rtt_lo_def rtt_hi_def min_le_iff_disj le_max_iff_disj)
  qed (use assms(2) False rtt_tx_fields in auto)
qed

lemma rtt_step_armed:
  assumes "rtt_step B p e c r = Some (c', r')" "rc_cur_rate c = 0 \<or> rtt_armed c"
  shows "rtt_armed c'"
proof (cases "rc_cur_rate c = 0")
  case True
  then show ?thesis using assms(1) by (auto simp: rtt_new_flow rtt_template_handle_new_flow_def rtt_armed_def)
next
  case False
  then have a: "rtt_armed c" using assms(2) by simp
  from assms(1) False show ?thesis
  proof (cases rule: rtt_step_cases)
    case 1
    then show ?thesis using rtt_tx_fields a by blast
  next
    case 2
    from handle_rtt_fields [OF 2(2) a] show ?thesis by (simp add: rtt_armed_def)
  next
    case 3
    then show ?thesis using a by (simp add: rtt_armed_def)
  qed
qed


interpretation rtt: rate_algorithm "rtt_step B p" rc_cur_rate "rtt_lo p" "rtt_hi B p" rtt_armed for B p
  by unfold_locales (use rtt_step_rate rtt_step_armed in blast)+

section \<open>When the handler is defined\<close>

lemma abort_time_None: "abort_time n = None \<longleftrightarrow> 32 \<le> unat n"
  by (auto simp: abort_time_def)

lemma rtt_step_None:
  "rtt_step B p e c r = None \<longleftrightarrow> rc_cur_rate c \<noteq> 0 \<and> pv_type e = EVNT_ROCE_TX \<and>
     \<not> (pv_rtt_req_sent e \<and> rc_rtt_meas_psn c = 0) \<and> 32 \<le> unat (rc_abort_cnt c)"
  by (cases "pv_type e")
     (auto simp: rtt_step_def rtt_template_algo_def handle_tx_cases Let_def abort_time_def)

abbreviation tx_count :: "pcc_event list \<Rightarrow> nat" where
  "tx_count es \<equiv> length (filter (\<lambda>e. pv_type e = EVNT_ROCE_TX) es)"

lemma rtt_step_abort:
  assumes "rtt_step B p e c r = Some (c', r')" "rc_cur_rate c = 0 \<or> rtt_armed c"
  shows "unat (rc_abort_cnt c') \<le> (if rc_cur_rate c = 0 then 0 else unat (rc_abort_cnt c)) + tx_count [e]"
proof (cases "rc_cur_rate c = 0")
  case True
  then show ?thesis using assms(1) by (auto simp: rtt_new_flow rtt_template_handle_new_flow_def)
next
  case False
  then have a: "rtt_armed c" using assms(2) by simp
  from assms(1) False show ?thesis
  proof (cases rule: rtt_step_cases)
    case 1
    then show ?thesis using rtt_tx_fields False by auto
  next
    case 2
    from handle_rtt_fields [OF 2(2) a] show ?thesis by simp
  next
    case 3
    then show ?thesis using False by simp
  qed
qed

lemma rtt_run_returns:
  assumes "rc_cur_rate c = 0 \<or> rtt_armed c" "(if rc_cur_rate c = 0 then 0 else unat (rc_abort_cnt c)) + tx_count es \<le> 32"
  shows "\<exists>c' r'. run_events (rtt_step B p) es c r = Some (c', r')"
  using assms
proof (induction es arbitrary: c r)
  case (Cons e es)
  have "rtt_step B p e c r \<noteq> None"
    using Cons.prems(2) by (auto simp: rtt_step_None split: if_splits)
  then obtain c1 r1 where s: "rtt_step B p e c r = Some (c1, r1)" by auto
  have "unat (rc_abort_cnt c1) + tx_count es \<le> 32"
    using rtt_step_abort [OF s Cons.prems(1)] Cons.prems(2) by (auto split: if_splits)
  then show ?case using Cons.IH [of c1 r1] s rtt_step_armed [OF s Cons.prems(1)] by auto
qed simp


section \<open>Giving up requests\<close>

text \<open>A TX event so late that every back-off time has passed.\<close>

definition late_event :: "u32 \<Rightarrow> pcc_event" where
  "late_event start = \<lparr>pv_type = EVNT_ROCE_TX, pv_rtt_req_sent = False, pv_timestamp = start - 1,
     pv_rtt_req_send_timestamp = 0, pv_rtt_req_recv_timestamp = 0, pv_rtt_raw_data = [], pv_port_num = 0\<rparr>"

lemma late_elapsed: "elapsed (start - 1) start \<ge> 0xfffffffe"
proof (cases "start = 0")
  case False
  then have "start > start - 1" by (simp add: word_less_nat_alt unat_minus_one unat_gt_0)
  then show ?thesis by (simp add: elapsed_def)
qed (simp add: elapsed_def)

lemma abort_time_bound: "abort_time n = Some limit \<Longrightarrow> limit < 0xfffffffe"
proof -
  have "\<forall>k \<in> set [0..<32]. push_bit k (300000 :: u32) < 0xfffffffe" by code_simp
  then show "abort_time n = Some limit \<Longrightarrow> limit < 0xfffffffe"
    by (auto simp: abort_time_def ABORT_TIME_def split: if_splits)
qed

lemma late_step:
  assumes "rc_rtt_meas_psn c \<noteq> 0" "unat (rc_abort_cnt c) < 32" "rc_cur_rate c \<noteq> 0"
  shows "rtt_step B p (late_event (rc_start_delay c)) c r =
    Some (c\<lparr>rc_abort_cnt := rc_abort_cnt c + 1, rc_rtt_req_to_rtt_sent := 1\<rparr>, r\<lparr>res_rate := rc_cur_rate c, res_rtt_req := True\<rparr>)"
proof -
  obtain limit where l: "abort_time (rc_abort_cnt c) = Some limit" using assms(2) by (simp add: abort_time_def)
  have "limit < elapsed (rc_start_delay c - 1) (rc_start_delay c)"
    using abort_time_bound [OF l] late_elapsed by (rule order.strict_trans2)
  then show ?thesis using assms l by (simp add: rtt_step_def rtt_template_algo_def handle_tx_cases late_event_def Let_def)
qed

lemma late_run:
  "rc_rtt_meas_psn c \<noteq> 0 \<Longrightarrow> rc_cur_rate c \<noteq> 0 \<Longrightarrow> unat (rc_abort_cnt c) + n = 32 \<Longrightarrow>
   run_events (rtt_step B p) (replicate n (late_event (rc_start_delay c))) c r \<noteq> None \<and>
   run_events (rtt_step B p) (replicate (Suc n) (late_event (rc_start_delay c))) c r = None"
proof (induction n arbitrary: c r)
  case 0
  then have "rtt_step B p (late_event (rc_start_delay c)) c r = None" by (simp add: rtt_step_None late_event_def)
  then show ?case by simp
next
  case (Suc n)
  have "unat (rc_abort_cnt c + 1) = unat (rc_abort_cnt c) + 1" using Suc.prems(3) by (simp add: unat_word_ariths)
  then show ?case
    using Suc.IH [of "c\<lparr>rc_abort_cnt := rc_abort_cnt c + 1, rc_rtt_req_to_rtt_sent := 1\<rparr>"
        "r\<lparr>res_rate := rc_cur_rate c, res_rtt_req := True\<rparr>"] Suc.prems late_step [of c B p r]
    by simp
qed

lemma rtt_two_tx:
  assumes "rtt_armed c" "rc_rtt_meas_psn c = 0" "rc_cur_rate c \<noteq> 0" "unat (rc_abort_cnt c) < 32"
    and "pv_type e1 = EVNT_ROCE_TX" "\<not> pv_rtt_req_sent e1" "pv_type e2 = EVNT_ROCE_TX" "\<not> pv_rtt_req_sent e2"
  shows "\<exists>c1 r1 c2 r2. rtt_step B p e1 c r = Some (c1, r1) \<and> rtt_step B p e2 c1 r1 = Some (c2, r2) \<and>
    (res_rtt_req r1 \<or> res_rtt_req r2)"
  using assms by (auto simp: rtt_step_def rtt_template_algo_def handle_tx_cases Let_def abort_time_def rtt_armed_def)

section \<open>The rate law\<close>

text \<open>Documented behaviour of \<open>doca_pcc_dev_fxp_mult\<close>: the product of two numbers with 16 fractional bits.\<close>

definition fxp_documented :: "pcc_build \<Rightarrow> bool" where
  "fxp_documented B \<longleftrightarrow> (\<forall>a b. unat (pb_fxp_mult B a b) = (unat a * unat b div 2 ^ 16) mod 2 ^ 32)"

text \<open>The multiple of the update factor by which the rate is to be lowered, and \<open>None\<close> without congestion.\<close>

definition severity :: "rtt_params \<Rightarrow> bool \<Rightarrow> u32 \<Rightarrow> rtt_ctxt \<Rightarrow> nat option" where
  "severity p is_high_util rtt c =
     (if rc_was_nack c \<and> rtt \<ge> rp_max_delay p then Some (if is_high_util then 10 else 5)
      else if rc_was_cnp c \<or> rtt \<ge> rp_max_delay p then Some (if is_high_util then 4 else 2)
      else if (if rtt \<ge> rc_min_rtt c then rtt - rc_min_rtt c else rtt) > rp_base_relative_rtt p
      then Some (if is_high_util then 2 else 1)
      else None)"

lemma clamp_value:
  fixes r M m :: u32
  assumes "m \<le> M"
  shows "unat (if (if M < r then M else r) < m then m else if M < r then M else r) = max (unat m) (min (unat M) (unat r))"
  using assms by (auto simp: word_less_nat_alt word_le_nat_alt)

lemma decrease_value:
  assumes "fxp_documented B" "n * unat (rp_update_factor p) \<le> 2 ^ 16" "n < 2 ^ 32"
  shows "unat (pb_fxp_mult B (dec_factor (of_nat n) p) cur) = unat cur * (2 ^ 16 - n * unat (rp_update_factor p)) div 2 ^ 16"
proof -
  have "unat (of_nat n * rp_update_factor p) = n * unat (rp_update_factor p)"
    using assms(2,3) by (simp add: unat_word_ariths unsigned_of_nat take_bit_eq_mod)
  then have f: "unat (dec_factor (of_nat n) p) = 2 ^ 16 - n * unat (rp_update_factor p)"
    using assms(2) by (simp add: dec_factor_def unat_sub word_le_nat_alt)
  have "unat cur * (2 ^ 16 - n * unat (rp_update_factor p)) div 2 ^ 16 \<le> unat cur * 2 ^ 16 div 2 ^ 16"
    by (intro div_le_mono mult_le_mono2) simp
  also have "\<dots> < 2 ^ 32" using unsigned_less [of cur] by simp
  finally show ?thesis using assms(1) f by (simp add: fxp_documented_def mult.commute)
qed

lemma core_adjust:
  "fst (algorithm_core B p h rtt cur c) =
    (let r = (case severity p h rtt c of Some n \<Rightarrow> pb_fxp_mult B (dec_factor (of_nat n) p) cur | None \<Rightarrow> cur + rp_ai p)
     in if (if pb_max_rate B < r then pb_max_rate B else r) < rp_min_rate p then rp_min_rate p
        else if pb_max_rate B < r then pb_max_rate B else r)"
proof -
  have s: "(case severity p h rtt c of Some n \<Rightarrow> pb_fxp_mult B (dec_factor (of_nat n) p) cur | None \<Rightarrow> cur + rp_ai p) =
      (if rc_was_nack c \<and> rtt \<ge> rp_max_delay p then pb_fxp_mult B (dec_factor (if h then 10 else 5) p) cur
       else if rc_was_cnp c \<or> rtt \<ge> rp_max_delay p then pb_fxp_mult B (dec_factor (if h then 4 else 2) p) cur
       else if (if rtt \<ge> rc_min_rtt c then rtt - rc_min_rtt c else rtt) > rp_base_relative_rtt p
       then pb_fxp_mult B (dec_factor (if h then 2 else 1) p) cur else cur + rp_ai p)"
    by (simp add: severity_def)
  show ?thesis
    unfolding s algorithm_core_def Let_def split_def fst_conv by (simp only: if_distrib [of fst] fst_conv)
qed

lemma severity_le: "severity p h rtt c = Some n \<Longrightarrow> n \<le> 10"
  by (auto simp: severity_def split: if_splits)

section \<open>Properties\<close>

text \<open>
  C18.  The measurement of the round-trip time never stalls.  In the context of any flow, after any events,
  a measurement or a request for one is under way: a measured time always leads to the next
  request; a request that is not sent is repeated with the second TX event at the latest; a
  measurement without answer is given up and requested again by a TX event after the back-off time.
  Because of the first point the check that is to filter out unexpected measurements filters
  none.  The back-off time is \<open>ABORT_TIME << abort_cnt\<close>, and nothing bounds the counter: from a
  measurement under way, 32 TX events that find it overdue are handled, and the next one shifts by 32.
\<close>

theorem rtt_measurement_goes_on:
  assumes "run_events (rtt_step B p) es c0 r0 = Some (c, r)" "es \<noteq> []" "rc_cur_rate c0 = 0" "rc_cur_rate c \<noteq> 0"
  shows "(pv_type e = EVNT_RTT \<longrightarrow>
      (\<exists>c' r'. rtt_step B p e c r = Some (c', r') \<and> res_rtt_req r' \<and> rc_rtt_meas_psn c' = 0 \<and> rc_abort_cnt c' = 0)) \<and>
    (rc_rtt_meas_psn c = 0 \<and> unat (rc_abort_cnt c) < 32 \<and> pv_type e1 = EVNT_ROCE_TX \<and> \<not> pv_rtt_req_sent e1 \<and>
     pv_type e2 = EVNT_ROCE_TX \<and> \<not> pv_rtt_req_sent e2 \<longrightarrow>
      (\<exists>c1 r1 c2 r2. rtt_step B p e1 c r = Some (c1, r1) \<and> rtt_step B p e2 c1 r1 = Some (c2, r2) \<and>
         (res_rtt_req r1 \<or> res_rtt_req r2))) \<and>
    (rc_rtt_meas_psn c \<noteq> 0 \<and> pv_type e = EVNT_ROCE_TX \<and> abort_time (rc_abort_cnt c) = Some limit \<and>
     elapsed (pv_timestamp e) (rc_start_delay c) > limit \<longrightarrow>
      (\<exists>c' r'. rtt_step B p e c r = Some (c', r') \<and> res_rtt_req r' \<and> rc_abort_cnt c' = rc_abort_cnt c + 1)) \<and>
    (rc_rtt_meas_psn c \<noteq> 0 \<and> rc_abort_cnt c = 0 \<longrightarrow>
      run_events (rtt_step B p) (replicate 32 (late_event (rc_start_delay c))) c r \<noteq> None \<and>
      run_events (rtt_step B p) (replicate 33 (late_event (rc_start_delay c))) c r = None)"
proof -
  have a: "rtt_armed c" using rtt.run_ok [OF assms(1,2)] assms(3) by simp
  have "\<exists>c' r'. rtt_step B p e c r = Some (c', r') \<and> res_rtt_req r' \<and> rc_rtt_meas_psn c' = 0 \<and> rc_abort_cnt c' = 0"
    if "pv_type e = EVNT_RTT"
  proof -
    obtain c' r' where "rtt_template_handle_roce_rtt B e (rc_cur_rate c) p c r = (c', r')" by fastforce
    then show ?thesis
      using that assms(4) handle_rtt_fields [OF _ a] by (auto simp: rtt_step_def rtt_template_algo_def)
  qed
  moreover have "\<exists>c' r'. rtt_step B p e c r = Some (c', r') \<and> res_rtt_req r' \<and> rc_abort_cnt c' = rc_abort_cnt c + 1"
    if "rc_rtt_meas_psn c \<noteq> 0" "pv_type e = EVNT_ROCE_TX" "abort_time (rc_abort_cnt c) = Some limit"
      "elapsed (pv_timestamp e) (rc_start_delay c) > limit"
    using that assms(4) by (simp add: rtt_step_def rtt_template_algo_def handle_tx_cases Let_def)
  ultimately show ?thesis
    using rtt_two_tx [OF a _ assms(4)] late_run [of c 32 B p r] assms(4) by (simp add: numeral_eq_Suc)
qed


text \<open>
  C17.  The rate law.  With parameters for which ten times the update factor is at most 1, one measurement changes
  the rate \<open>r\<close> to \<open>r * (1 - n * f)\<close> under congestion, where \<open>f\<close> is the update factor and \<open>n\<close> grades the
  congestion (a NACK with a long delay, a CNP or a long delay, a queueing delay above the base; each
  graver on a highly used port), and to \<open>r + AI\<close> otherwise, limited to the range from the minimal to
  the maximal rate; so congestion never raises a rate above the minimum.
\<close>

theorem rtt_rate_law:
  assumes "fxp_documented B" "10 * unat (rp_update_factor p) \<le> 2 ^ 16" "rp_min_rate p \<le> pb_max_rate B"
    and "cur \<le> pb_max_rate B" "unat cur + unat (rp_ai p) < 2 ^ 32"
  shows "unat (fst (algorithm_core B p is_high_util rtt cur c)) =
    max (unat (rp_min_rate p)) (case severity p is_high_util rtt c of
        Some n \<Rightarrow> unat cur * (2 ^ 16 - n * unat (rp_update_factor p)) div 2 ^ 16
      | None \<Rightarrow> min (unat (pb_max_rate B)) (unat cur + unat (rp_ai p)))"
proof (cases "severity p is_high_util rtt c")
  case None
  have "unat (cur + rp_ai p) = unat cur + unat (rp_ai p)" using assms(5) by (simp add: unat_word_ariths)
  then show ?thesis unfolding core_adjust Let_def None option.case clamp_value [OF assms(3)] by simp
next
  case (Some n)
  have n: "n \<le> 10" using severity_le [OF Some] .
  then have "n * unat (rp_update_factor p) \<le> 10 * unat (rp_update_factor p)" by (rule mult_le_mono1)
  then have f: "n * unat (rp_update_factor p) \<le> 2 ^ 16" using assms(2) by linarith
  note d = decrease_value [OF assms(1) f, of cur]
  have "unat cur * (2 ^ 16 - n * unat (rp_update_factor p)) div 2 ^ 16 \<le> unat cur * 2 ^ 16 div 2 ^ 16"
    by (intro div_le_mono mult_le_mono2) simp
  also have "\<dots> \<le> unat (pb_max_rate B)" using assms(4) by (simp add: word_le_nat_alt)
  finally show ?thesis using d n unfolding core_adjust Let_def Some option.case clamp_value [OF assms(3)] by simp
qed

section \<open>Witnesses\<close>

definition fxp_build :: pcc_build where
  "fxp_build = \<lparr>pb_fxp_mult = (\<lambda>a b. of_nat (unat a * unat b div 2 ^ 16)), pb_max_rate = 2 ^ 20, pb_time_sync = False,
     pb_sample_tx_bytes = False, pb_last_tx_port_util = (\<lambda>_. 0)\<rparr>"

lemma fxp_build_documented: "fxp_documented fxp_build"
  by (simp add: fxp_documented_def fxp_build_def unsigned_of_nat take_bit_eq_mod)

definition unused_ctxt :: rtt_ctxt where
  "unused_ctxt = \<lparr>rc_cur_rate = 0, rc_start_delay = 0, rc_rtt = 0, rc_was_nack = False, rc_was_cnp = False, rc_abort_cnt = 0,
     rc_rtt_meas_psn = 0, rc_rtt_req_to_rtt_sent = 0, rc_min_rtt = 0\<rparr>"

definition sent_event :: "u32 \<Rightarrow> pcc_event" where
  "sent_event t = (late_event 0)\<lparr>pv_rtt_req_sent := True, pv_timestamp := t\<rparr>"

text \<open>A new flow, whose first request is then sent: a measurement is under way.\<close>

theorem rtt_measurement_goes_on_witness:
  "\<exists>c r. run_events (rtt_step fxp_build default_params) [sent_event 100, sent_event 200] unused_ctxt \<lparr>res_rate = 0, res_rtt_req = False\<rparr> =
      Some (c, r) \<and> rc_rtt_meas_psn c = 1 \<and>
    run_events (rtt_step fxp_build default_params) (replicate 33 (late_event (rc_start_delay c))) c r = None"
proof -
  let ?r0 = "\<lparr>res_rate = 0, res_rtt_req = False\<rparr>"
  obtain c r where cr: "run_events (rtt_step fxp_build default_params) [sent_event 100, sent_event 200] unused_ctxt ?r0 = Some (c, r)"
      "rc_rtt_meas_psn c = 1" "rc_abort_cnt c = 0" "rc_cur_rate c \<noteq> 0"
    by (simp add: rtt_step_def rtt_template_algo_def unused_ctxt_def rtt_template_handle_new_flow_def sent_event_def
        late_event_def handle_tx_cases default_params_def NEW_FLOW_RATE_def)
  have "rc_cur_rate unused_ctxt = 0" by (simp add: unused_ctxt_def)
  from rtt_measurement_goes_on [OF cr(1) _ this cr(4)] cr show ?thesis by auto
qed

theorem rtt_rate_law_witness:
  "unat (fst (algorithm_core fxp_build default_params False 160000 1000000 unused_ctxt)) = 800018"
proof -
  have "severity default_params False 160000 unused_ctxt = Some 2"
    by (simp add: severity_def default_params_def MAX_DELAY_def unused_ctxt_def)
  moreover have "10 * unat (rp_update_factor default_params) \<le> 2 ^ 16" "rp_min_rate default_params \<le> pb_max_rate fxp_build"
      "1000000 \<le> pb_max_rate fxp_build" "unat (1000000 :: u32) + unat (rp_ai default_params) < 2 ^ 32"
    by (simp_all add: default_params_def UPDATE_FACTOR_def MIN_RATE_def AI_def fxp_build_def)
  ultimately show ?thesis
    using rtt_rate_law [OF fxp_build_documented, of default_params 1000000 False 160000 unused_ctxt]
    by (simp add: default_params_def UPDATE_FACTOR_def MIN_RATE_def)
qed

end
