(* ===== verification/Pcc_Telem.thy ===== *)
theory Pcc_Telem
  imports Pcc_Rtt
begin

text \<open>
  Model of \<open>applications/pcc/device/rp/switch_telemetry/algo/telem_template.c\<close>: the rate algorithm that uses
  the queue length and the transmit counter a switch reports.  It fulfils the same contract as the
  round-trip algorithm.  The reciprocal and the 64-bit product of the SDK are parameters.
\<close>

section \<open>The data\<close>

record telem_ctxt =
  tc_cur_rate :: u32
  tc_last_tx_bytes :: u32
  tc_last_switch_tx_timestamp :: u32
  tc_was_nack :: bool
  tc_was_cnp :: bool
  tc_rtt_req_to_rtt_sent :: "3 word"
  tc_abort_cnt :: u8
  tc_rtt_meas_psn :: u8
  tc_start_delay :: u32

record telem_params =
  tp_update_factor :: u32
  tp_ai :: u32
  tp_base_qlen :: u32
  tp_new_flow_rate :: u32
  tp_min_rate :: u32
  tp_max_delay :: u32
  tp_hai :: u32
  tp_port_bw_g :: u32

record telem_build =
  tb_fxp_mult :: "u32 \<Rightarrow> u32 \<Rightarrow> u32"
  tb_fxp_recip :: "u32 \<Rightarrow> u32"
  tb_mult :: "u32 \<Rightarrow> u32 \<Rightarrow> u64"
  tb_max_rate :: u32

definition TX_RATE_TH :: u32 where "TX_RATE_TH = 52428"

text \<open>\<open>telem_template_init\<close> registers six parameters; the third is the default of a round-trip time.\<close>

definition telem_template_init :: "(u32 \<times> u32) list" where
  "telem_template_init =
     [(UPDATE_FACTOR, UPDATE_FACTOR_MAX), (40, AI_MAX), (13000, 0xffffffff), (NEW_FLOW_RATE, RATE_MAX),
      (MIN_RATE, RATE_MAX), (MAX_DELAY, 0xffffffff)]"

section \<open>The handlers\<close>

definition getBW_GBps :: "telem_params \<Rightarrow> u32" where
  "getBW_GBps p = drop_bit 3 (tp_port_bw_g p)"

definition telem_algorithm_core :: "telem_build \<Rightarrow> telem_params \<Rightarrow> u32 \<Rightarrow> u32 \<Rightarrow> u32 \<Rightarrow> u32" where
  "telem_algorithm_core B p norm_tx_rate qlen_256B cur_rate =
     (let cur_rate =
        (if push_bit 8 qlen_256B > tp_base_qlen p then tb_fxp_mult B (2 ^ 16 - tp_update_factor p) cur_rate
         else if norm_tx_rate < TX_RATE_TH then cur_rate + tp_hai p
         else cur_rate + tp_ai p);
        cur_rate = (if cur_rate > tb_max_rate B then tb_max_rate B else cur_rate);
        cur_rate = (if cur_rate < tp_min_rate p then tp_min_rate p else cur_rate)
      in cur_rate)"

definition telem_template_handle_roce_tx ::
  "pcc_event \<Rightarrow> u32 \<Rightarrow> telem_ctxt \<Rightarrow> pcc_results \<Rightarrow> (telem_ctxt \<times> pcc_results) option" where
  "telem_template_handle_roce_tx event cur_rate ccctx results = do {
     let rtt_meas_psn = tc_rtt_meas_psn ccctx;
     let timestamp = pv_timestamp event;
     (rtt_req, ccctx) \<leftarrow>
       (if pv_rtt_req_sent event \<and> rtt_meas_psn = 0
        then Some (False, ccctx\<lparr>tc_rtt_meas_psn := 1, tc_rtt_req_to_rtt_sent := 0, tc_start_delay := timestamp\<rparr>)
        else do {
          let rtt_till_now = elapsed timestamp (tc_start_delay ccctx);
          let (rtt_till_now, ccctx) =
            (if rtt_meas_psn = 0
             then (0, ccctx\<lparr>tc_rtt_req_to_rtt_sent := tc_rtt_req_to_rtt_sent ccctx + 1\<rparr>)
             else (rtt_till_now, ccctx));
          limit \<leftarrow> abort_time (tc_abort_cnt ccctx);
          if rtt_till_now > limit \<or> tc_rtt_req_to_rtt_sent ccctx > 2
          then
            let ccctx = (if rtt_till_now > limit then ccctx\<lparr>tc_abort_cnt := tc_abort_cnt ccctx + 1\<rparr> else ccctx)
            in Some (True, ccctx\<lparr>tc_rtt_req_to_rtt_sent := 1\<rparr>)
          else Some (False, ccctx) });
     Some (ccctx\<lparr>tc_cur_rate := cur_rate\<rparr>, results\<lparr>res_rate := cur_rate, res_rtt_req := rtt_req\<rparr>) }"

text \<open>The device is little-endian.\<close>

definition rd16le :: "bytes \<Rightarrow> nat \<Rightarrow> u16 option" where
  "rd16le b i = do { x \<leftarrow> rd8 b i; y \<leftarrow> rd8 b (i + 1); Some (be16 y x) }"

definition rd32le :: "bytes \<Rightarrow> nat \<Rightarrow> u32 option" where
  "rd32le b i = do { x \<leftarrow> rd8 b i; y \<leftarrow> rd8 b (i + 1); z \<leftarrow> rd8 b (i + 2); w \<leftarrow> rd8 b (i + 3); Some (be32 w z y x) }"

definition telem_template_handle_roce_rtt ::
  "telem_build \<Rightarrow> pcc_event \<Rightarrow> u32 \<Rightarrow> telem_params \<Rightarrow> telem_ctxt \<Rightarrow> pcc_results \<Rightarrow> (telem_ctxt \<times> pcc_results) option" where
  "telem_template_handle_roce_rtt B event cur_rate p ccctx results =
     (if tc_rtt_meas_psn ccctx = 0 \<and> tc_rtt_req_to_rtt_sent ccctx = 0
      then Some (ccctx, results\<lparr>res_rate := cur_rate, res_rtt_req := False\<rparr>)
      else do {
        let ccctx = ccctx\<lparr>tc_rtt_meas_psn := 0, tc_abort_cnt := 0\<rparr>;
        let rtt_raw_data = pv_rtt_raw_data event;
        qlen \<leftarrow> rd16le rtt_raw_data 0;
        switch_tx_bytes \<leftarrow> rd32le rtt_raw_data 4;
        switch_tx_timestamp \<leftarrow> rd32le rtt_raw_data 8;
        let qlen_256B = ucast qlen;
        let last_switch_tx_timestamp = tc_last_switch_tx_timestamp ccctx;
        let last_tx_bytes = tc_last_tx_bytes ccctx;
        let ccctx = ccctx\<lparr>tc_last_tx_bytes := switch_tx_bytes, tc_last_switch_tx_timestamp := switch_tx_timestamp\<rparr>;
        let delta_timestamp_ns = elapsed switch_tx_timestamp last_switch_tx_timestamp;
        let delta_tx = elapsed switch_tx_bytes last_tx_bytes;
        let delta_tx_256bytes = drop_bit 8 delta_tx;
        let tx_rate_GBps = push_bit 8 (tb_fxp_mult B delta_tx_256bytes (tb_fxp_recip B delta_timestamp_ns));
        let norm_tx_rate = (ucast (drop_bit 32 (tb_mult B tx_rate_GBps (tb_fxp_recip B (getBW_GBps p)))) :: u32);
        let norm_tx_rate = (if norm_tx_rate > 2 ^ 16 then 2 ^ 16 else norm_tx_rate);
        let cur_rate = telem_algorithm_core B p norm_tx_rate qlen_256B cur_rate;
        Some (ccctx\<lparr>tc_rtt_req_to_rtt_sent := 1, tc_cur_rate := cur_rate\<rparr>,
              results\<lparr>res_rate := cur_rate, res_rtt_req := True\<rparr>) })"

definition telem_template_handle_roce_cnp :: "u32 \<Rightarrow> telem_ctxt \<Rightarrow> pcc_results \<Rightarrow> telem_ctxt \<times> pcc_results" where
  "telem_template_handle_roce_cnp cur_rate ccctx results =
     (ccctx\<lparr>tc_was_cnp := True, tc_cur_rate := cur_rate\<rparr>, results\<lparr>res_rtt_req := False, res_rate := cur_rate\<rparr>)"

definition telem_template_handle_roce_nack :: "u32 \<Rightarrow> telem_ctxt \<Rightarrow> pcc_results \<Rightarrow> telem_ctxt \<times> pcc_results" where
  "telem_template_handle_roce_nack cur_rate ccctx results =
     (ccctx\<lparr>tc_was_nack := True, tc_cur_rate := cur_rate\<rparr>, results\<lparr>res_rate := cur_rate\<rparr>)"

definition telem_template_handle_new_flow ::
  "pcc_event \<Rightarrow> telem_params \<Rightarrow> telem_ctxt \<Rightarrow> pcc_results \<Rightarrow> telem_ctxt \<times> pcc_results" where
  "telem_template_handle_new_flow event p ccctx results =
     (ccctx\<lparr>tc_cur_rate := tp_new_flow_rate p, tc_start_delay := pv_timestamp event, tc_rtt_meas_psn := 0,
        tc_rtt_req_to_rtt_sent := 1, tc_abort_cnt := 0, tc_was_nack := False\<rparr>,
      results\<lparr>res_rate := tp_new_flow_rate p, res_rtt_req := True\<rparr>)"

definition telem_template_algo ::
  "telem_build \<Rightarrow> pcc_event \<Rightarrow> telem_params \<Rightarrow> u32 list option \<Rightarrow> telem_ctxt \<Rightarrow> pcc_results \<Rightarrow>
   (u32 list option \<times> telem_ctxt \<times> pcc_results) option" where
  "telem_template_algo B event p counter ctx results =
     (let cur_rate = tc_cur_rate ctx in
      if cur_rate = 0 then Some (counter, telem_template_handle_new_flow event p ctx results)
      else (case pv_type event of
         EVNT_ROCE_TX \<Rightarrow> do {
           r \<leftarrow> telem_template_handle_roce_tx event cur_rate ctx results;
           counter \<leftarrow> count 0 counter;
           Some (counter, r) }
       | EVNT_RTT \<Rightarrow> do {
           r \<leftarrow> telem_template_handle_roce_rtt B event cur_rate p ctx results;
           counter \<leftarrow> count 1 counter;
           Some (counter, r) }
       | EVNT_ROCE_CNP \<Rightarrow> Some (counter, telem_template_handle_roce_cnp cur_rate ctx results)
       | EVNT_ROCE_NACK \<Rightarrow> Some (counter, telem_template_handle_roce_nack cur_rate ctx results)
       | EVNT_OTHER \<Rightarrow> Some (counter, ctx, results\<lparr>res_rate := cur_rate, res_rtt_req := False\<rparr>)))"

definition telem_template_set_algo_params :: "u32 \<Rightarrow> u32 \<Rightarrow> u32 list option \<Rightarrow> u32 list option \<Rightarrow> bool" where
  "telem_template_set_algo_params param_id_base param_num new_param_values params =
     (if param_num > 8 \<or> param_id_base \<ge> 8 then False
      else if new_param_values = None \<or> params = None then False
      else True)"

section \<open>The entry points\<close>

text \<open>\<open>doca_pcc_dev_user_algo\<close> and \<open>doca_pcc_dev_user_set_algo_params\<close> of \<open>rp_switch_telemetry_dev_main.c\<close>; \<open>internal\<close> is the
  SDK's default algorithm, \<open>algo_idx\<close> what \<open>doca_pcc_dev_get_algo_index\<close> returns.\<close>

definition telem_user_algo ::
  "telem_build \<Rightarrow> (telem_ctxt \<Rightarrow> pcc_results \<Rightarrow> telem_ctxt \<times> pcc_results) \<Rightarrow> nat \<Rightarrow> pcc_event \<Rightarrow> telem_params \<Rightarrow>
   u32 list option \<Rightarrow> telem_ctxt \<Rightarrow> pcc_results \<Rightarrow> (u32 list option \<times> telem_ctxt \<times> pcc_results) option" where
  "telem_user_algo B internal algo_slot event p counter ctx results =
     (if algo_slot = 0 then telem_template_algo B event p counter ctx results
      else Some (counter, internal ctx results))"

definition telem_user_set_algo_params ::
  "nat \<Rightarrow> nat \<Rightarrow> u32 \<Rightarrow> u32 \<Rightarrow> u32 list option \<Rightarrow> u32 list option \<Rightarrow> bool" where
  "telem_user_set_algo_params algo_idx algo_slot param_id_base param_num new_param_values params =
     (if algo_slot = 0
      then if algo_idx = 0 then telem_template_set_algo_params param_id_base param_num new_param_values params else False
      else True)"

section \<open>The contract\<close>

definition telem_step :: "telem_build \<Rightarrow> telem_params \<Rightarrow> pcc_event \<Rightarrow> telem_ctxt \<Rightarrow> pcc_results \<Rightarrow> (telem_ctxt \<times> pcc_results) option" where
  "telem_step B p e c r = map_option snd (telem_template_algo B e p None c r)"

definition telem_armed :: "telem_ctxt \<Rightarrow> bool" where
  "telem_armed c \<longleftrightarrow> (tc_rtt_meas_psn c = 0 \<and> (tc_rtt_req_to_rtt_sent c = 1 \<or> tc_rtt_req_to_rtt_sent c = 2) \<or>
     tc_rtt_meas_psn c = 1 \<and> (tc_rtt_req_to_rtt_sent c = 0 \<or> tc_rtt_req_to_rtt_sent c = 1))"

definition telem_lo :: "telem_params \<Rightarrow> u32" where
  "telem_lo p = min (tp_min_rate p) (tp_new_flow_rate p)"

definition telem_hi :: "telem_build \<Rightarrow> telem_params \<Rightarrow> u32" where
  "telem_hi B p = max (max (tb_max_rate B) (tp_min_rate p)) (tp_new_flow_rate p)"

lemma telem_core_range:
  "tp_min_rate p \<le> telem_algorithm_core B p n q r" "telem_algorithm_core B p n q r \<le> max (tb_max_rate B) (tp_min_rate p)"
  unfolding telem_algorithm_core_def Let_def by (rule clamp_bounds)+

lemma telem_tx_cases:
  "telem_template_handle_roce_tx e cr c r =
    (if pv_rtt_req_sent e \<and> tc_rtt_meas_psn c = 0
     then Some (c\<lparr>tc_rtt_meas_psn := 1, tc_rtt_req_to_rtt_sent := 0, tc_start_delay := pv_timestamp e, tc_cur_rate := cr\<rparr>,
        r\<lparr>res_rate := cr, res_rtt_req := False\<rparr>)
     else case abort_time (tc_abort_cnt c) of None \<Rightarrow> None | Some limit \<Rightarrow>
       (let late = (tc_rtt_meas_psn c \<noteq> 0 \<and> elapsed (pv_timestamp e) (tc_start_delay c) > limit);
            sent = (if tc_rtt_meas_psn c = 0 then tc_rtt_req_to_rtt_sent c + 1 else tc_rtt_req_to_rtt_sent c)
        in Some (c\<lparr>tc_abort_cnt := (if late then tc_abort_cnt c + 1 else tc_abort_cnt c),
                   tc_rtt_req_to_rtt_sent := (if late \<or> sent > 2 then 1 else sent), tc_cur_rate := cr\<rparr>,
                 r\<lparr>res_rate := cr, res_rtt_req := (late \<or> sent > 2)\<rparr>)))"
  by (auto simp: telem_template_handle_roce_tx_def Let_def split: option.splits)

lemma telem_tx_fields:
  assumes "telem_template_handle_roce_tx e cr c r = Some (c', r')"
  shows "tc_cur_rate c' = cr \<and> res_rate r' = cr \<and> (telem_armed c \<longrightarrow> telem_armed c')"
  using assms by (auto simp: telem_tx_cases telem_armed_def Let_def split: if_splits option.splits)

lemma telem_rtt_fields:
  assumes "telem_template_handle_roce_rtt B e cr p c r = Some (c', r')" "telem_armed c"
  shows "tc_cur_rate c' = res_rate r' \<and> tp_min_rate p \<le> tc_cur_rate c' \<and> tc_cur_rate c' \<le> max (tb_max_rate B) (tp_min_rate p) \<and>
    telem_armed c'"
proof -
  have n: "\<not> (tc_rtt_meas_psn c = 0 \<and> tc_rtt_req_to_rtt_sent c = 0)" using assms(2) by (auto simp: telem_armed_def)
  have "ensures (telem_template_handle_roce_rtt B e cr p c r) (\<lambda>(c', r'). tc_cur_rate c' = res_rate r' \<and>
      tp_min_rate p \<le> tc_cur_rate c' \<and> tc_cur_rate c' \<le> max (tb_max_rate B) (tp_min_rate p) \<and> telem_armed c')"
    unfolding telem_template_handle_roce_rtt_def if_not_P [OF n] Let_def
    by (intro ensures_bind ensures_Some ensuresI) (simp add: telem_core_range telem_armed_def)
  from ensuresD [OF this assms(1)] show ?thesis unfolding prod.case .
qed

lemma telem_step_cases:
  assumes "telem_step B p e c r = Some (c', r')" "tc_cur_rate c \<noteq> 0"
  obtains "telem_template_handle_roce_tx e (tc_cur_rate c) c r = Some (c', r')"
  | "telem_template_handle_roce_rtt B e (tc_cur_rate c) p c r = Some (c', r')"
  | "tc_cur_rate c' = tc_cur_rate c" "res_rate r' = tc_cur_rate c" "tc_rtt_meas_psn c' = tc_rtt_meas_psn c"
      "tc_rtt_req_to_rtt_sent c' = tc_rtt_req_to_rtt_sent c"
  using assms
  by (cases "pv_type e")
     (auto simp: Some_bind_iff telem_step_def telem_template_algo_def telem_template_handle_roce_cnp_def
       telem_template_handle_roce_nack_def)

lemma telem_step_ok:
  assumes "telem_step B p e c r = Some (c', r')"
  shows "tc_cur_rate c = 0 \<or> telem_lo p \<le> tc_cur_rate c \<and> tc_cur_rate c \<le> telem_hi B p \<and> telem_armed c \<Longrightarrow>
      telem_lo p \<le> tc_cur_rate c' \<and> tc_cur_rate c' \<le> telem_hi B p \<and> res_rate r' = tc_cur_rate c'"
    and "tc_cur_rate c = 0 \<or> telem_armed c \<Longrightarrow> telem_armed c'"
proof -
  have *: "(tc_cur_rate c = 0 \<or> telem_lo p \<le> tc_cur_rate c \<and> tc_cur_rate c \<le> telem_hi B p \<longrightarrow>
      telem_lo p \<le> tc_cur_rate c' \<and> tc_cur_rate c' \<le> telem_hi B p \<and> res_rate r' = tc_cur_rate c') \<and> telem_armed c'"
    if a: "tc_cur_rate c = 0 \<or> telem_armed c"
  proof (cases "tc_cur_rate c = 0")
    case True
    then show ?thesis
      using assms by (auto simp: telem_step_def telem_template_algo_def telem_template_handle_new_flow_def telem_lo_def
          telem_hi_def telem_armed_def)
  next
    case False
    then have ar: "telem_armed c" using a by simp
    from assms False show ?thesis
    proof (cases rule: telem_step_cases)
      case 1
      then show ?thesis using telem_tx_fields ar False by auto
    next
      case 2
      from telem_rtt_fields [OF this ar] show ?thesis
        by (auto simp: telem_lo_def telem_hi_def min_le_iff_disj le_max_iff_disj)
    next
      case 3
      then show ?thesis using ar False by (simp add: telem_armed_def)
    qed
  qed
  show "telem_lo p \<le> tc_cur_rate c' \<and> tc_cur_rate c' \<le> telem_hi B p \<and> res_rate r' = tc_cur_rate c'"
    if "tc_cur_rate c = 0 \<or> telem_lo p \<le> tc_cur_rate c \<and> tc_cur_rate c \<le> telem_hi B p \<and> telem_armed c"
    using * that by blast
  show "telem_armed c'" if "tc_cur_rate c = 0 \<or> telem_armed c" using * that by blast
qed

interpretation telem: rate_algorithm "telem_step B p" tc_cur_rate "telem_lo p" "telem_hi B p" telem_armed for B p
  by unfold_locales (use telem_step_ok in blast)+

lemma telem_step_None:
  assumes "telem_step B p e c r = None"
  shows "tc_cur_rate c \<noteq> 0 \<and> (pv_type e = EVNT_ROCE_TX \<and> 32 \<le> unat (tc_abort_cnt c) \<or>
     pv_type e = EVNT_RTT \<and> length (pv_rtt_raw_data e) < 12)"
proof -
  have rtt: "telem_template_handle_roce_rtt B e cr p c r \<noteq> None" if "12 \<le> length (pv_rtt_raw_data e)" for cr
  proof -
    have l: "12 \<le> length (pv_rtt_raw_data e)" "pv_rtt_raw_data e \<noteq> []" using that by auto
    obtain x y z where "rd16le (pv_rtt_raw_data e) 0 = Some x" "rd32le (pv_rtt_raw_data e) 4 = Some y"
        "rd32le (pv_rtt_raw_data e) 8 = Some z"
      using l by (simp add: rd16le_def rd32le_def rd8_def)
    then show ?thesis by (simp add: telem_template_handle_roce_rtt_def Let_def)
  qed
  show ?thesis
    using assms rtt [of "tc_cur_rate c"]
    by (cases "pv_type e"; cases "12 \<le> length (pv_rtt_raw_data e)")
       (auto simp: telem_step_def telem_template_algo_def telem_tx_cases Let_def abort_time_def not_le split: if_splits option.splits)
qed

lemma telem_step_abort:
  assumes "telem_step B p e c r = Some (c', r')" "tc_cur_rate c = 0 \<or> telem_armed c"
  shows "unat (tc_abort_cnt c') \<le> (if tc_cur_rate c = 0 then 0 else unat (tc_abort_cnt c)) + tx_count [e]"
proof (cases "tc_cur_rate c = 0")
  case True
  then show ?thesis
    using assms(1) by (auto simp: telem_step_def telem_template_algo_def telem_template_handle_new_flow_def)
next
  case False
  have tx: "unat (tc_abort_cnt c') \<le> unat (tc_abort_cnt c) + 1"
    if "telem_template_handle_roce_tx e (tc_cur_rate c) c r = Some (c', r')"
    using that by (auto simp: telem_tx_cases Let_def unat_word_ariths split: if_splits option.splits)
  have rtt: "tc_abort_cnt c' = 0 \<or> tc_abort_cnt c' = tc_abort_cnt c"
    if "telem_template_handle_roce_rtt B e (tc_cur_rate c) p c r = Some (c', r')"
    using that by (auto simp: telem_template_handle_roce_rtt_def Let_def Some_bind_iff split: if_splits)
  show ?thesis using assms(1) False tx rtt
    by (cases "pv_type e")
       (auto simp: telem_step_def telem_template_algo_def telem_template_handle_roce_cnp_def telem_template_handle_roce_nack_def
         Some_bind_iff)
qed

lemma telem_run_returns:
  assumes "tc_cur_rate c = 0 \<or> telem_armed c" "(if tc_cur_rate c = 0 then 0 else unat (tc_abort_cnt c)) + tx_count es \<le> 32"
    "\<forall>e \<in> set es. pv_type e = EVNT_RTT \<longrightarrow> 12 \<le> length (pv_rtt_raw_data e)"
  shows "\<exists>c' r'. run_events (telem_step B p) es c r = Some (c', r')"
  using assms
proof (induction es arbitrary: c r)
  case (Cons e es)
  have "telem_step B p e c r \<noteq> None"
  proof
    assume "telem_step B p e c r = None"
    from telem_step_None [OF this] Cons.prems(2,3) show False by (auto split: if_splits)
  qed
  then obtain c1 r1 where s: "telem_step B p e c r = Some (c1, r1)" by auto
  have "unat (tc_abort_cnt c1) + tx_count es \<le> 32"
    using telem_step_abort [OF s Cons.prems(1)] Cons.prems(2) by (auto split: if_splits)
  then show ?case using Cons.IH [of c1 r1] Cons.prems(3) s telem_step_ok(2) [OF s Cons.prems(1)] by auto
qed simp

text \<open>A measurement of a flow brings the rate into the configured range.\<close>

lemma rtt_measured:
  assumes "rtt_step B p e c r = Some (c', r')" "pv_type e = EVNT_RTT" "rc_cur_rate c \<noteq> 0" "rtt_armed c"
  shows "rp_min_rate p \<le> res_rate r' \<and> res_rate r' \<le> max (pb_max_rate B) (rp_min_rate p)"
proof -
  have "rtt_template_handle_roce_rtt B e (rc_cur_rate c) p c r = (c', r')"
    using assms(1-3) by (auto simp: rtt_step_def rtt_template_algo_def Some_bind_iff)
  from handle_rtt_fields [OF this assms(4)] show ?thesis by metis
qed

lemma telem_measured:
  assumes "telem_step B p e c r = Some (c', r')" "pv_type e = EVNT_RTT" "tc_cur_rate c \<noteq> 0" "telem_armed c"
  shows "tp_min_rate p \<le> res_rate r' \<and> res_rate r' \<le> max (tb_max_rate B) (tp_min_rate p)"
proof -
  have "telem_template_handle_roce_rtt B e (tc_cur_rate c) p c r = Some (c', r')"
    using assms(1-3) by (auto simp: telem_step_def telem_template_algo_def Some_bind_iff)
  from telem_rtt_fields [OF this assms(4)] show ?thesis by metis
qed

section \<open>Properties\<close>


definition telem_sample_build :: telem_build where
  "telem_sample_build = \<lparr>tb_fxp_mult = (\<lambda>a b. of_nat (unat a * unat b div 2 ^ 16)), tb_fxp_recip = (\<lambda>a. 2 ^ 16 div a),
     tb_mult = (\<lambda>a b. ucast a * ucast b), tb_max_rate = 2 ^ 20\<rparr>"

definition telem_sample_params :: telem_params where
  "telem_sample_params = \<lparr>tp_update_factor = UPDATE_FACTOR, tp_ai = 40, tp_base_qlen = 200000, tp_new_flow_rate = NEW_FLOW_RATE,
     tp_min_rate = MIN_RATE, tp_max_delay = MAX_DELAY, tp_hai = 8192, tp_port_bw_g = 200\<rparr>"

definition telem_unused :: telem_ctxt where
  "telem_unused = \<lparr>tc_cur_rate = 0, tc_last_tx_bytes = 0, tc_last_switch_tx_timestamp = 0, tc_was_nack = False,
     tc_was_cnp = False, tc_rtt_req_to_rtt_sent = 0, tc_abort_cnt = 0, tc_rtt_meas_psn = 0, tc_start_delay = 0\<rparr>"

text \<open>A measurement with a long delay at the minimal rate, and a switch report with an empty queue at the maximal rate: the
  decrease and the increase are cut at the two bounds.\<close>

definition delayed_event :: pcc_event where
  "delayed_event = (late_event 0)\<lparr>pv_type := EVNT_RTT, pv_timestamp := 900000, pv_rtt_req_recv_timestamp := 800000\<rparr>"

definition report_event :: pcc_event where
  "report_event = (late_event 0)\<lparr>pv_type := EVNT_RTT, pv_rtt_raw_data := replicate 12 0\<rparr>"


end
