(* ===== verification/Pcc_Np.thy ===== *)
theory Pcc_Np
  imports Pcc_Telem
begin

text \<open>
  Model of \<open>applications/pcc/device/np/switch_telemetry/np_switch_telemetry_dev_main.c\<close>: the notification
  point, which keeps the last reports of every switch port in a table and answers a request with the
  differences.  Header structures are read as the little-endian device reads them, bit-fields from the
  least significant bit; \<open>__builtin_bswap\<close> turns the network order of their fields around.
\<close>

section \<open>The data\<close>

definition bswap16 :: "u16 \<Rightarrow> u16" where
  "bswap16 x = be16 (ucast x) (ucast (drop_bit 8 x))"

definition bswap32 :: "u32 \<Rightarrow> u32" where
  "bswap32 x = be32 (ucast x) (ucast (drop_bit 8 x)) (ucast (drop_bit 16 x)) (ucast (drop_bit 24 x))"

record telemetry_db_entry =
  td_tx_bytes0 :: u32
  td_tx_ts_nano0 :: u32
  td_tx_bytes1 :: u32
  td_tx_ts_nano1 :: u32
  td_valid :: bool
  td_last_access_ts :: u32

record switch_md =
  md_dev_id_high :: "24 word"
  md_pt :: "2 word"
  md_dev_id_low :: "6 word"
  md_rx_ts_sec_hi :: u32
  md_tx_ts_nano_hi :: u16
  md_tx_ts_nano_lo :: u16
  md_eg_queue_cell_cnt :: u16
  md_dst_port :: u16
  md_tx_bytes_lo :: u32

record int_response =
  ir_qlen :: u16
  ir_index :: "3 word"
  ir_pt :: "2 word"
  ir_valid :: bool
  ir_tx_bytes :: u32
  ir_tx_ts :: u32

record np_state =
  np_max_hop_limit :: u8
  np_mailbox_done :: bool
  np_telemetry_db :: "nat \<Rightarrow> telemetry_db_entry"

definition DB_ENTRY_AGING_TIME :: u32 where "DB_ENTRY_AGING_TIME = 5000000"
definition INVALID_MD_TIME_INTERVAL :: u32 where "INVALID_MD_TIME_INTERVAL = 2000000000"
definition TELEMETRY_DB_SIZE :: nat where "TELEMETRY_DB_SIZE = 2 ^ 15"

text \<open>The 32 bytes of the metadata of a switch.\<close>

definition read_switch_md :: "bytes \<Rightarrow> nat \<Rightarrow> switch_md option" where
  "read_switch_md b off = do {
     w \<leftarrow> rd32le b off;
     rx_ts_sec_hi \<leftarrow> rd32le b (off + 8);
     tx_ts_nano_hi \<leftarrow> rd16le b (off + 18);
     tx_ts_nano_lo \<leftarrow> rd16le b (off + 20);
     eg_queue_cell_cnt \<leftarrow> rd16le b (off + 22);
     dst_port \<leftarrow> rd16le b (off + 26);
     tx_bytes_lo \<leftarrow> rd32le b (off + 28);
     Some \<lparr>md_dev_id_high = ucast w, md_pt = ucast (drop_bit 24 w), md_dev_id_low = ucast (drop_bit 26 w),
       md_rx_ts_sec_hi = rx_ts_sec_hi, md_tx_ts_nano_hi = tx_ts_nano_hi, md_tx_ts_nano_lo = tx_ts_nano_lo,
       md_eg_queue_cell_cnt = eg_queue_cell_cnt, md_dst_port = dst_port, md_tx_bytes_lo = tx_bytes_lo\<rparr> }"

section \<open>The operations\<close>

text \<open>The hop limit is the third byte of the IFA2 metadata header.\<close>

definition get_md_num_from_md_hdr :: "u8 \<Rightarrow> u8 \<Rightarrow> u8" where
  "get_md_num_from_md_hdr max_hop_limit hop_limit = max_hop_limit - hop_limit"

definition telemetry_db_hash :: "u32 \<Rightarrow> u16 \<Rightarrow> u16" where
  "telemetry_db_hash device_id port =
     (let idx = (ucast device_id AND 0x3ff) OR push_bit 10 (port AND 0x1f) in idx AND (2 ^ 15 - 1))"

definition telemetry_get_tx_ts_nano :: "switch_md \<Rightarrow> u32" where
  "telemetry_get_tx_ts_nano md =
     push_bit 16 (ucast (bswap16 (md_tx_ts_nano_hi md))) OR ucast (bswap16 (md_tx_ts_nano_lo md))"

definition telemetry_get_tx_bytes :: "switch_md \<Rightarrow> u32" where
  "telemetry_get_tx_bytes md = bswap32 (md_tx_bytes_lo md)"

definition telemetry_get_q_len :: "switch_md \<Rightarrow> u32" where
  "telemetry_get_q_len md =
     (if drop_bit 16 (bswap32 (md_rx_ts_sec_hi md)) = 0x8000
      then push_bit 16 (bswap32 (md_rx_ts_sec_hi md) AND 0xffff) OR ucast (bswap16 (md_eg_queue_cell_cnt md))
      else push_bit 8 (ucast (bswap16 (md_eg_queue_cell_cnt md))))"

text \<open>The index of the entry a report belongs to.\<close>

definition md_index :: "switch_md \<Rightarrow> nat" where
  "md_index md = unat (telemetry_db_hash
     (push_bit 6 (bswap32 (ucast (md_dev_id_high md))) OR ucast (md_dev_id_low md)) (bswap16 (md_dst_port md)))"

text \<open>\<open>timer_lo\<close> is the reading of \<open>doca_pcc_dev_get_timer_lo\<close>.\<close>

definition telemetry_process_md ::
  "u32 \<Rightarrow> switch_md \<Rightarrow> (nat \<Rightarrow> telemetry_db_entry) \<Rightarrow> int_response \<Rightarrow>
   int \<times> (nat \<Rightarrow> telemetry_db_entry) \<times> int_response" where
  "telemetry_process_md timer_lo md db response_pkt =
     (let db_idx = md_index md;
          new_ts = telemetry_get_tx_ts_nano md;
          new_bytes = telemetry_get_tx_bytes md;
          db_entry = db db_idx;
          (first_packet, db_entry) =
            (if \<not> td_valid db_entry
             then (True, \<lparr>td_tx_bytes0 = 0, td_tx_ts_nano0 = 0, td_tx_bytes1 = 0, td_tx_ts_nano1 = 0, td_valid = True,
                          td_last_access_ts = timer_lo\<rparr>)
             else (diff_with_wrap32 timer_lo (td_last_access_ts db_entry) > DB_ENTRY_AGING_TIME,
                   db_entry\<lparr>td_last_access_ts := timer_lo\<rparr>));
          old_bytes = td_tx_bytes0 db_entry;
          old_ts = td_tx_ts_nano0 db_entry in
      if \<not> first_packet \<and> diff_with_wrap32 new_ts old_ts > INVALID_MD_TIME_INTERVAL
      then (- 1, db(db_idx := db_entry), response_pkt\<lparr>ir_valid := False\<rparr>)
      else
        let db_entry = (if new_bytes \<noteq> old_bytes
              then db_entry\<lparr>td_tx_bytes1 := td_tx_bytes0 db_entry, td_tx_ts_nano1 := td_tx_ts_nano0 db_entry\<rparr> else db_entry);
            db_entry = db_entry\<lparr>td_tx_bytes0 := new_bytes, td_tx_ts_nano0 := new_ts\<rparr>;
            old_bytes = td_tx_bytes1 db_entry;
            old_ts = td_tx_ts_nano1 db_entry
        in (0, db(db_idx := db_entry),
            response_pkt\<lparr>ir_tx_bytes := bswap32 (diff_with_wrap32 new_bytes old_bytes),
              ir_tx_ts := bswap32 (diff_with_wrap32 new_ts old_ts),
              ir_qlen := bswap16 (ucast (drop_bit 8 (telemetry_get_q_len md))), ir_pt := md_pt md,
              ir_valid := \<not> first_packet\<rparr>))"

text \<open>\<open>l4\<close> is the offset that \<open>doca_pcc_np_dev_get_l4_header\<close> returns.\<close>

definition doca_pcc_dev_np_user_packet_handler ::
  "u32 \<Rightarrow> bytes \<Rightarrow> nat \<Rightarrow> np_state \<Rightarrow> int_response \<Rightarrow> (np_state \<times> int_response) option" where
  "doca_pcc_dev_np_user_packet_handler timer_lo b l4 st response_pkt = do {
     let ifa2_md_hdr = l4 + 8;
     hop_limit \<leftarrow> rd8 b (ifa2_md_hdr + 2);
     let num_mds = get_md_num_from_md_hdr (np_max_hop_limit st) hop_limit;
     if num_mds > 0 \<and> np_mailbox_done st
     then do {
       md \<leftarrow> read_switch_md b (ifa2_md_hdr + 4);
       let (_, db, response_pkt) = telemetry_process_md timer_lo md (np_telemetry_db st) response_pkt;
       Some (st\<lparr>np_telemetry_db := db\<rparr>, response_pkt\<lparr>ir_index := ucast (num_mds - 1)\<rparr>) }
     else Some (st, response_pkt) }"

definition doca_pcc_dev_user_mailbox_handle :: "bytes \<Rightarrow> np_state \<Rightarrow> bool \<times> np_state" where
  "doca_pcc_dev_user_mailbox_handle request st =
     (if length request \<noteq> 4 then (False, st)
      else (True, st\<lparr>np_max_hop_limit := request ! 0, np_mailbox_done := True\<rparr>))"

section \<open>Where a report is stored\<close>

lemma bit_be32:
  "bit (be32 a b c d) n \<longleftrightarrow> (if n < 8 then bit d n else if n < 16 then bit c (n - 8) else if n < 24 then bit b (n - 16)
     else n < 32 \<and> bit a (n - 24))"
  by (auto simp: be32_def bit_simps dest: bit_imp_le_length)

lemma bswap_high_low: "n < 8 \<Longrightarrow> \<not> bit (bswap32 (ucast (x :: 24 word))) n"
  by (auto simp: bswap32_def bit_be32 bit_simps dest: bit_imp_le_length)

lemma hash_masks: "(0x3ff :: u16) = mask 10" "(0x1f :: u16) = mask 5" "(2 ^ 15 - 1 :: u16) = mask 15"
  by (simp_all add: mask_eq_exp_minus_1)

lemma md_index_value:
  "md_index md = unat ((ucast (md_dev_id_low md) :: u16) OR push_bit 10 (bswap16 (md_dst_port md) AND 0x1f))"
proof -
  have "telemetry_db_hash (push_bit 6 (bswap32 (ucast (md_dev_id_high md))) OR ucast (md_dev_id_low md)) (bswap16 (md_dst_port md)) =
      (ucast (md_dev_id_low md) :: u16) OR push_bit 10 (bswap16 (md_dst_port md) AND 0x1f)"
  proof (rule bit_word_eqI)
    fix n assume "n < LENGTH(16)"
    have z: "n < 10 \<Longrightarrow> \<not> bit (bswap32 (ucast (md_dev_id_high md))) (n - 6)" by (rule bswap_high_low) linarith
    show "bit (telemetry_db_hash (push_bit 6 (bswap32 (ucast (md_dev_id_high md))) OR ucast (md_dev_id_low md))
        (bswap16 (md_dst_port md))) n = bit ((ucast (md_dev_id_low md) :: u16) OR push_bit 10 (bswap16 (md_dst_port md) AND 0x1f)) n"
      using \<open>n < LENGTH(16)\<close> z
      unfolding telemetry_db_hash_def Let_def hash_masks
      by (auto simp: bit_and_iff bit_or_iff bit_push_bit_iff bit_mask_iff bit_ucast_iff dest: bit_imp_le_length)
  qed
  then show ?thesis by (simp add: md_index_def)
qed


lemma low_id_less: "unat (x :: 6 word) < 64"
proof -
  have "unat x < 2 ^ LENGTH(6)" by (rule unsigned_less)
  then show ?thesis by simp
qed

lemma md_index_slot: "md_index md mod 1024 = unat (md_dev_id_low md)"
proof -
  let ?x = "(ucast (md_dev_id_low md) :: u16) OR push_bit 10 (bswap16 (md_dst_port md) AND 0x1f)"
  have "take_bit 10 ?x = ucast (md_dev_id_low md)"
    by (rule bit_word_eqI) (auto simp: bit_simps dest: bit_imp_le_length)
  then have "unat ?x mod 2 ^ 10 = unat (ucast (md_dev_id_low md) :: u16)"
    by (metis take_bit_eq_mod unsigned_take_bit_eq)
  also have "\<dots> = unat (md_dev_id_low md)"
  proof -
    have "unat (md_dev_id_low md) < 64" by (rule low_id_less)
    then show ?thesis by (simp add: unsigned_ucast_eq take_bit_eq_mod)
  qed
  finally show ?thesis by (simp add: md_index_value)
qed

lemma md_index_high: "md_index (md\<lparr>md_dev_id_high := x\<rparr>) = md_index md"
  by (simp add: md_index_value)

lemma md_index_less: "md_index md < TELEMETRY_DB_SIZE"
  unfolding md_index_def telemetry_db_hash_def Let_def TELEMETRY_DB_SIZE_def
  by (rule le_less_trans [OF word8_and_le]) simp

lemma md_high_fields [simp]:
  "telemetry_get_tx_ts_nano (md\<lparr>md_dev_id_high := x\<rparr>) = telemetry_get_tx_ts_nano md"
  "telemetry_get_tx_bytes (md\<lparr>md_dev_id_high := x\<rparr>) = telemetry_get_tx_bytes md"
  "telemetry_get_q_len (md\<lparr>md_dev_id_high := x\<rparr>) = telemetry_get_q_len md"
  "md_pt (md\<lparr>md_dev_id_high := x\<rparr>) = md_pt md"
  by (simp_all add: telemetry_get_tx_ts_nano_def telemetry_get_tx_bytes_def telemetry_get_q_len_def)

lemma process_md_first:
  assumes "\<not> td_valid (db (md_index md))"
  shows "fst (snd (telemetry_process_md t md db r)) (md_index md) =
      \<lparr>td_tx_bytes0 = telemetry_get_tx_bytes md, td_tx_ts_nano0 = telemetry_get_tx_ts_nano md, td_tx_bytes1 = 0,
       td_tx_ts_nano1 = 0, td_valid = True, td_last_access_ts = t\<rparr>"
    and "ir_valid (snd (snd (telemetry_process_md t md db r))) = False"
  using assms by (simp_all add: telemetry_process_md_def Let_def)

section \<open>Properties\<close>

text \<open>
  C36.  The table of the notification point does not tell switches apart by the high bits of their device id.
  The byte-swapped 24 bits are shifted left by 6 where the id is built, so they lie above the ten
  bits the index is made of: reports that differ in the high bits only are stored in the same entry,
  and at most 64 of 1024 device slots are used.  After a first report of one switch, the report of another
  one with the same low bits and port is answered, as valid, with the difference of the counters of the
  two switches.
\<close>

theorem telemetry_device_id_ignored:
  assumes "\<not> td_valid (db (md_index md1))" "md_dev_id_low md2 = md_dev_id_low md1" "md_dst_port md2 = md_dst_port md1"
    and "t2 - t1 \<le> DB_ENTRY_AGING_TIME"
    and "telemetry_get_tx_ts_nano md2 - telemetry_get_tx_ts_nano md1 \<le> INVALID_MD_TIME_INTERVAL"
    and "telemetry_get_tx_bytes md2 \<noteq> telemetry_get_tx_bytes md1"
  shows "telemetry_process_md t (md\<lparr>md_dev_id_high := x\<rparr>) db' r = telemetry_process_md t md db' r \<and>
    md_index md mod 1024 < 64 \<and> md_index md2 = md_index md1 \<and>
    (\<exists>db2 r2. telemetry_process_md t2 md2 (fst (snd (telemetry_process_md t1 md1 db r1))) r = (0, db2, r2) \<and>
       ir_valid r2 \<and>
       ir_tx_bytes r2 = bswap32 (telemetry_get_tx_bytes md2 - telemetry_get_tx_bytes md1) \<and>
       ir_tx_ts r2 = bswap32 (telemetry_get_tx_ts_nano md2 - telemetry_get_tx_ts_nano md1))"
proof (intro conjI)
  show "telemetry_process_md t (md\<lparr>md_dev_id_high := x\<rparr>) db' r = telemetry_process_md t md db' r"
    unfolding telemetry_process_md_def md_index_high md_high_fields by (rule refl)
  show "md_index md mod 1024 < 64" by (simp add: md_index_slot low_id_less)
  show i: "md_index md2 = md_index md1" using assms(2,3) by (simp add: md_index_value)
  let ?db = "fst (snd (telemetry_process_md t1 md1 db r1))"
  have "?db (md_index md2) = \<lparr>td_tx_bytes0 = telemetry_get_tx_bytes md1, td_tx_ts_nano0 = telemetry_get_tx_ts_nano md1, td_tx_bytes1 = 0,
       td_tx_ts_nano1 = 0, td_valid = True, td_last_access_ts = t1\<rparr>"
    using process_md_first(1) [of db md1, OF assms(1)] i by simp
  then show "\<exists>db2 r2. telemetry_process_md t2 md2 ?db r = (0, db2, r2) \<and> ir_valid r2 \<and>
       ir_tx_bytes r2 = bswap32 (telemetry_get_tx_bytes md2 - telemetry_get_tx_bytes md1) \<and>
       ir_tx_ts r2 = bswap32 (telemetry_get_tx_ts_nano md2 - telemetry_get_tx_ts_nano md1)"
    using assms(4-6) unfolding telemetry_process_md_def [of t2] Let_def
    by (simp add: diff_with_wrap32_minus not_less)
qed

text \<open>Two switches, 0x010203 and 0x040506 with low bits 5, report for port 7.\<close>

definition sample_md :: "24 word \<Rightarrow> u32 \<Rightarrow> switch_md" where
  "sample_md hi n = \<lparr>md_dev_id_high = hi, md_pt = 1, md_dev_id_low = 5, md_rx_ts_sec_hi = 0, md_tx_ts_nano_hi = 0,
     md_tx_ts_nano_lo = 0x0100, md_eg_queue_cell_cnt = 0, md_dst_port = 0x0700, md_tx_bytes_lo = bswap32 n\<rparr>"

definition empty_db :: "nat \<Rightarrow> telemetry_db_entry" where
  "empty_db = (\<lambda>_. \<lparr>td_tx_bytes0 = 0, td_tx_ts_nano0 = 0, td_tx_bytes1 = 0, td_tx_ts_nano1 = 0, td_valid = False,
     td_last_access_ts = 0\<rparr>)"

definition response0 :: int_response where
  "response0 = \<lparr>ir_qlen = 0, ir_index = 0, ir_pt = 0, ir_valid = False, ir_tx_bytes = 0, ir_tx_ts = 0\<rparr>"

lemma bswap32_bswap32: "bswap32 (bswap32 x) = x"
  by (rule bit_word_eqI) (auto simp: bswap32_def bit_be32 bit_simps)

theorem telemetry_device_id_ignored_witness:
  "\<exists>db2 r2. telemetry_process_md 20 (sample_md 0x060504 1000)
      (fst (snd (telemetry_process_md 10 (sample_md 0x030201 400) empty_db response0))) response0 = (0, db2, r2) \<and>
     ir_valid r2 \<and> bswap32 (ir_tx_bytes r2) = 600"
proof -
  let ?a = "sample_md 0x030201 400" and ?b = "sample_md 0x060504 1000"
  have n: "\<not> td_valid (empty_db (md_index ?a))" by (simp add: empty_db_def)
  have f: "md_dev_id_low ?b = md_dev_id_low ?a" "md_dst_port ?b = md_dst_port ?a"
      "telemetry_get_tx_ts_nano ?b = telemetry_get_tx_ts_nano ?a"
    by (simp_all add: sample_md_def telemetry_get_tx_ts_nano_def)
  have b: "telemetry_get_tx_bytes ?a = 400" "telemetry_get_tx_bytes ?b = 1000"
    by (simp_all add: sample_md_def telemetry_get_tx_bytes_def bswap32_bswap32)
  obtain db2 r2 where "telemetry_process_md 20 ?b (fst (snd (telemetry_process_md 10 ?a empty_db response0))) response0 = (0, db2, r2)"
      "ir_valid r2" "ir_tx_bytes r2 = bswap32 600"
    using telemetry_device_id_ignored [where db = empty_db and ?md1.0 = ?a and ?md2.0 = ?b and ?t2.0 = 20 and ?t1.0 = 10 and t = 0 and md = ?a and x = 0 and db' = empty_db and r = response0 and ?r1.0 = response0, OF n f(1,2)] f(3) b
    by (auto simp: DB_ENTRY_AGING_TIME_def)
  then show ?thesis by (simp add: bswap32_bswap32)
qed

end
