(* ===== verification/Spec2Isabelle.thy ===== *)
theory Spec2Isabelle
  imports Pack Packet_Parser Upf_Datapath Tlp_Device Storage_Channel Storage_Io Simple_Fwd_Queues Pcc_Np
begin

text \<open>
  Verification of packet-processing, device-emulation, storage and congestion-control programs of the DOCA samples repository
  (C and C++ sources under \<open>src/\<close>).

  \<^bold>\<open>The parts and their theories.\<close>

  \<^item> \<open>Doca_Prelude\<close>: machine integers, the SDK error codes that the modelled code returns, bounded buffer
    reads, and two small calculi for computations in the option monad (\<open>ensures\<close>: if it returns then \<dots>,
    \<open>returns\<close>: it returns and \<dots>).

  \<^item> \<open>Pack\<close> models \<open>applications/common/pack.c\<close> and the byte macros of \<open>pack.h\<close>: the serialisation of control messages.
    The locale \<open>byte_codec\<close> states what a packer and its unpacker promise; it is interpreted on each pair, and the
    round trip of a whole message rests on it.

  \<^item> \<open>Packet_Parser\<close> models \<open>applications/common/packet_parser.c\<close>: the link, network, transport and GTP-U
    parsers and their composition for plain, tunneled and unknown packets.  A packet is a byte list, a header pointer an
    offset, a read outside the packet is \<^term>\<open>None\<close>.  The locales \<open>bounded_header\<close> and \<open>total_header\<close> are the
    contract of a header parser.  The IPv6 extension walk of DPDK is a parameter.

  \<^item> \<open>Upf_Types\<close>, \<open>Upf_Match\<close>, \<open>Upf_Aging\<close>, \<open>Upf_Accel\<close>, \<open>Upf_Datapath\<close> model the data path of
    \<open>applications/upf_accel\<close> (\<open>upf_accel.h\<close>, \<open>upf_accel_flow_processing.h\<close>,
    \<open>upf_accel_flow_processing.c\<close>).  \<open>Upf_Match\<close> has the extraction of match keys from a parsed packet, the
    lookup of packet detection rules and decapsulation; \<open>Upf_Aging\<close> the state machine of a flow entry and the software aging
    list, which is threaded through the connection table; \<open>Upf_Accel\<close> the hardware rules built for a flow;
    \<open>Upf_Datapath\<close> connection lookup, acceleration, the processing of a burst, the callbacks of the flow library and
    the polling iteration of a port.  The state of a worker is the record \<open>upf_accel_fp_data\<close>; the DPDK hash tables,
    the flow library and the clock are parameters (\<open>upf_env\<close>).  The locale \<open>lru_list\<close> is the interface of an
    aging list; it is interpreted on the linked list of the code.

  \<^item> \<open>Tlp_Config\<close>, \<open>Tlp_Handler\<close>, \<open>Tlp_Correct\<close>, \<open>Tlp_Device\<close> model the emulated PCI device of
    \<open>samples/doca_devemu/devemu_pci_device_tlp_handler/dpu\<close>.  \<open>Tlp_Config\<close> has the configuration space, its
    initial values and the handlers of configuration reads and writes; \<open>Tlp_Handler\<close> the decoding of request headers, memory
    requests, the routing to the physical or a virtual function, the request callback and the setup;
    \<open>Tlp_Correct\<close> the lemmas and \<open>Tlp_Device\<close> the properties.  The pointer \<open>cur_func\<close> to the function being
    serviced is a reference (\<open>func_ref\<close>) into the state of all functions.  The bit-field macros of the SDK are
    parameters, with their documented behaviour (\<open>bitfield_documented\<close>) as a hypothesis.

  \<^item> \<open>Storage_Buffer\<close>, \<open>Storage_Message\<close>, \<open>Storage_Channel\<close>, \<open>Storage_Io\<close> model the protocol layer of
    \<open>applications/storage/storage_common\<close>.  \<open>Storage_Buffer\<close> has the serialisation primitives (\<open>buffer_utils.hpp\<close>), with
    the locale \<open>stream_codec\<close> as their contract; \<open>Storage_Message\<close> the control messages with their encoder, decoder and
    printer (\<open>control_message.cpp\<close>); \<open>Storage_Channel\<close> the framing of a byte stream and the TCP and comch transports
    (\<open>control_channel.cpp\<close>), which share the contract \<open>message_transport\<close>; \<open>Storage_Io\<close> the in-place accessors of I/O
    messages (\<open>io_message.hpp\<close>, locale \<open>message_field\<close>), binary content files and address parsing.  A C++ exception is the
    left injection of a sum.

  \<^item> \<open>Simple_Fwd_Pkt\<close>, \<open>Simple_Fwd_Ft\<close>, \<open>Simple_Fwd_Aging\<close>, \<open>Simple_Fwd\<close>, \<open>Simple_Fwd_Vnf\<close>,
    \<open>Simple_Fwd_Run\<close>, \<open>Simple_Fwd_Queues\<close> model \<open>applications/simple_fwd_vnf\<close>: the packet parser (\<open>simple_fwd_pkt.c\<close>), the flow table with its
    aging thread (\<open>simple_fwd_ft.c\<close>), and in \<open>Simple_Fwd\<close> the handlers that offload a flow to the hardware
    (\<open>simple_fwd.c\<close>) with the receive loop (\<open>simple_fwd_vnf_core.c\<close>).  The locale \<open>keyed_store\<close> is the interface of the
    table.  Clock, locks, allocation, hardware counters and the answers and callbacks of the flow library are inputs of
    each call; the rules added and removed are logged.  \<open>Simple_Fwd_Vnf\<close> has the invariant of the application
    and the effect of a packet, \<open>Simple_Fwd_Run\<close> the transition system of the receive loop and the aging
    thread, \<open>Simple_Fwd_Queues\<close> the assignment of queues to cores: each used core has an existing queue of its own.

  \<^item> \<open>Pcc_Common\<close>, \<open>Pcc_Rtt\<close>, \<open>Pcc_Telem\<close>, \<open>Pcc_Np\<close> model the device side of \<open>applications/pcc\<close>, programmable
    congestion control: the reaction point that adjusts the rate of a flow by round-trip times
    (\<open>rp/rtt_template\<close>) or by reports of switches (\<open>rp/switch_telemetry/algo\<close>), and the notification point that keeps a table of
    switch counters (\<open>np/switch_telemetry\<close>).  The locale \<open>rate_algorithm\<close> is the contract of a reaction point; both
    algorithms are interpretations of it.  The fixed-point functions of the SDK are arguments.

  \<^bold>\<open>What the properties show.\<close>  Memory safety and termination of the parsers, of match extraction, of the
  aging scan and of the request handlers, as theorems that a computation in the option type returns; functional
  correctness of rule lookup, acceleration, configuration writes (against a table of access rules) and routing;
  refinement of the aging list to an abstract list, and of the request callback to an abstract register file;
  invariants kept by any sequence of requests; round trips of serialisation, decapsulation, base addresses and memory
  contents; accounting of every packet of a burst.  For the storage protocol: exact sizes and round trips of messages,
  typed payloads, and a channel that is a lossless queue however the stream is cut; for the flow table: a map from keys
  to entries, and exactly which entries an aging pass removes; for the forwarding application: an account of every
  hardware rule in all reachable states, and a receive loop that forwards every packet; for congestion
  control: rates within bounds, the law of the rate, and measurements that go on.  The properties of kind error describe what the code does on inputs
  where it departs from its intent.

  \<^bold>\<open>Bounds and fuel.\<close>  The loops over extension headers and over the aging list are defined with
  \<open>partial_function\<close>, and their termination is part of the theorems; the aging loop over a bucket of flows is a
  \<open>function\<close> that is shown to terminate; all other loops are structural.  The
  capability walks of \<open>Tlp_Config\<close> take fuel 5 and 2, one more than the number of standard capabilities and the number of
  extended ones; the theorem says the walk reaches the end of the list with it.

  \<^bold>\<open>Not modelled.\<close>  Logging and command-line plumbing.  The start-up, pipeline creation and JSON configuration of
  \<open>upf_accel\<close>, the creation of ports and pipes of \<open>simple_fwd_vnf\<close>, the host side of \<open>pcc\<close>, the threads of the
  storage services, and the creation of SDK objects, live update and hot plug of the PCI device, which are sequences of SDK
  calls: where the modelled code depends on their results these are arguments.  The other applications and
  samples, most of which are calls of the SDK, GPU or DPA kernels, file or network input and output.
\<close>

end
